(* ===== verification/Errors.thy ===== *)
theory Errors
  imports Main
begin

text \<open>
  The error codes of the four programs, one datatype per enumeration of the source, each with
  the numeric value that travels in an \<open>ErrorInfo\<close>: \<open>foundation/basics.h\<close>,
  \<open>resource_server/core.h\<close>, \<open>resource_server/transaction.cpp\<close> and
  \<open>storage_node/core.h\<close> (whose names carry a prefix, since it repeats names of the
  resource server).
\<close>

datatype foundation_error =
    ERR_SUCCESS
  | ERR_NETWORK_PACKAGE_ALREADY_EXIST
  | ERR_NETWORK_PACKAGE_CANNOT_PARSE_TO_PROTOCOL
  | ERR_NETWORK_PACKAGE_NOT_EXIST
  | ERR_NETWORK_CONNECTION_NOT_EXIST
  | ERR_NETWORK_SERVICE_ALREADY_EXIST
  | ERR_NETWORK_SERVICE_NOT_EXIST
  | ERR_PROTOCOL_COMMAND_NOT_EXIST
  | ERR_PROTOCOL_NAME_NOT_EXIST
  | ERR_TRANSACTION_ALREADY_EXIST
  | ERR_MULTIPLY_PHASE_TRANSACTION_ALREADY_EXIST
  | ERR_BOUND_TRANSACTION_ALREADY_EXIST
  | ERR_TRANSACTION_TIMEOUT
  | ERR_MONITOR_MANAGER_ALREADY_EXIST
  | ERR_EVENT_ALREADY_EXIST
  | ERR_CRYPTO_CIPHER_SPACE_NOT_ENOUGH
  | ERR_CRYPTO_PLAIN_SPACE_NOT_ENOUGH
  | ERR_CRYPTO_INCOMPLETE_DATA
  | ERR_CRYPTO_CANNOT_OPEN_FILE

fun found_code :: "foundation_error \<Rightarrow> int" where
  "found_code ERR_SUCCESS = 0"
| "found_code ERR_NETWORK_PACKAGE_ALREADY_EXIST = 100"
| "found_code ERR_NETWORK_PACKAGE_CANNOT_PARSE_TO_PROTOCOL = 101"
| "found_code ERR_NETWORK_PACKAGE_NOT_EXIST = 102"
| "found_code ERR_NETWORK_CONNECTION_NOT_EXIST = 105"
| "found_code ERR_NETWORK_SERVICE_ALREADY_EXIST = 110"
| "found_code ERR_NETWORK_SERVICE_NOT_EXIST = 111"
| "found_code ERR_PROTOCOL_COMMAND_NOT_EXIST = 115"
| "found_code ERR_PROTOCOL_NAME_NOT_EXIST = 116"
| "found_code ERR_TRANSACTION_ALREADY_EXIST = 120"
| "found_code ERR_MULTIPLY_PHASE_TRANSACTION_ALREADY_EXIST = 121"
| "found_code ERR_BOUND_TRANSACTION_ALREADY_EXIST = 122"
| "found_code ERR_TRANSACTION_TIMEOUT = 123"
| "found_code ERR_MONITOR_MANAGER_ALREADY_EXIST = 125"
| "found_code ERR_EVENT_ALREADY_EXIST = 140"
| "found_code ERR_CRYPTO_CIPHER_SPACE_NOT_ENOUGH = 200"
| "found_code ERR_CRYPTO_PLAIN_SPACE_NOT_ENOUGH = 201"
| "found_code ERR_CRYPTO_INCOMPLETE_DATA = 202"
| "found_code ERR_CRYPTO_CANNOT_OPEN_FILE = 203"

datatype resource_error =
    ERR_USER_ALREADY_EXIST
  | ERR_USER_NOT_EXIST
  | ERR_USER_NOT_LOGIN
  | ERR_GROUP_ALREADY_EXIST
  | ERR_GROUP_NOT_EXIST
  | ERR_GROUP_NOT_PERMIT_NEED_OWNER
  | ERR_GROUP_NOT_PERMIT_NEED_MANAGER
  | ERR_GROUP_NOT_PERMIT_NEED_MEMBER
  | ERR_GROUP_CANNOT_KICK_OUT_OWNER
  | ERR_GROUP_USER_NOT_JOIN
  | ERR_GROUP_ALREADY_IS_MANAGER
  | ERR_GROUP_ALREADY_IS_MEMBER
  | ERR_GROUP_CANNOT_REMOVE_ROOT_DIR
  | ERR_GROUP_NOT_DIRECTORY
  | ERR_FILE_ALREADY_EXIST
  | ERR_FILE_CANNOT_CREATE
  | ERR_FILE_NOT_EXIST
  | ERR_NODE_ALREADY_EXIST
  | ERR_NODE_CANNOT_CREATE
  | ERR_NODE_NOT_EXIST
  | ERR_FILE_SESSION_ALREADY_EXIST
  | ERR_FILE_SESSION_CANNOT_CREATE
  | ERR_FILE_SESSION_NOT_EXIST
  | ERR_FILE_SESSION_NOT_REGISTER_USER
  | ERR_FILE_SESSION_INVALID_FRAGMENT
  | ERR_FILE_SESSION_CANNOT_CHANGE_MAX_FRAGMENT

fun resource_code :: "resource_error \<Rightarrow> int" where
  "resource_code ERR_USER_ALREADY_EXIST = 1000"
| "resource_code ERR_USER_NOT_EXIST = 1001"
| "resource_code ERR_USER_NOT_LOGIN = 1010"
| "resource_code ERR_GROUP_ALREADY_EXIST = 1100"
| "resource_code ERR_GROUP_NOT_EXIST = 1101"
| "resource_code ERR_GROUP_NOT_PERMIT_NEED_OWNER = 1102"
| "resource_code ERR_GROUP_NOT_PERMIT_NEED_MANAGER = 1103"
| "resource_code ERR_GROUP_NOT_PERMIT_NEED_MEMBER = 1104"
| "resource_code ERR_GROUP_CANNOT_KICK_OUT_OWNER = 1106"
| "resource_code ERR_GROUP_USER_NOT_JOIN = 1107"
| "resource_code ERR_GROUP_ALREADY_IS_MANAGER = 1108"
| "resource_code ERR_GROUP_ALREADY_IS_MEMBER = 1109"
| "resource_code ERR_GROUP_CANNOT_REMOVE_ROOT_DIR = 1110"
| "resource_code ERR_GROUP_NOT_DIRECTORY = 1112"
| "resource_code ERR_FILE_ALREADY_EXIST = 1200"
| "resource_code ERR_FILE_CANNOT_CREATE = 1201"
| "resource_code ERR_FILE_NOT_EXIST = 1202"
| "resource_code ERR_NODE_ALREADY_EXIST = 1300"
| "resource_code ERR_NODE_CANNOT_CREATE = 1301"
| "resource_code ERR_NODE_NOT_EXIST = 1302"
| "resource_code ERR_FILE_SESSION_ALREADY_EXIST = 1400"
| "resource_code ERR_FILE_SESSION_CANNOT_CREATE = 1401"
| "resource_code ERR_FILE_SESSION_NOT_EXIST = 1402"
| "resource_code ERR_FILE_SESSION_NOT_REGISTER_USER = 1403"
| "resource_code ERR_FILE_SESSION_INVALID_FRAGMENT = 1404"
| "resource_code ERR_FILE_SESSION_CANNOT_CHANGE_MAX_FRAGMENT = 1405"

datatype handler_error =
    ERR_USER_LOGIN_FAILURE
  | ERR_USER_NOT_PERMISSION
  | ERR_PATH_NOT_EXIST
  | ERR_PATH_ALREADY_EXIST
  | ERR_PATH_NOT_GENERAL_FILE

fun handler_code :: "handler_error \<Rightarrow> int" where
  "handler_code ERR_USER_LOGIN_FAILURE = 2001"
| "handler_code ERR_USER_NOT_PERMISSION = 2002"
| "handler_code ERR_PATH_NOT_EXIST = 2100"
| "handler_code ERR_PATH_ALREADY_EXIST = 2101"
| "handler_code ERR_PATH_NOT_GENERAL_FILE = 2102"

datatype storage_error =
    NODE_ERR_FILE_ALREADY_EXIST
  | NODE_ERR_FILE_CANNOT_CREATE
  | NODE_ERR_FILE_NOT_EXIST
  | NODE_ERR_FILE_SESSION_ALREADY_EXIST
  | NODE_ERR_FILE_SESSION_CANNOT_CREATE
  | NODE_ERR_FILE_SESSION_NOT_EXIST
  | NODE_ERR_FILE_SESSION_INVALID_FRAGMENT
  | NODE_ERR_FILE_SESSION_CANNOT_CHANGE_MAX_FRAGMENT

fun storage_code :: "storage_error \<Rightarrow> int" where
  "storage_code NODE_ERR_FILE_ALREADY_EXIST = 1200"
| "storage_code NODE_ERR_FILE_CANNOT_CREATE = 1201"
| "storage_code NODE_ERR_FILE_NOT_EXIST = 1202"
| "storage_code NODE_ERR_FILE_SESSION_ALREADY_EXIST = 5000"
| "storage_code NODE_ERR_FILE_SESSION_CANNOT_CREATE = 5001"
| "storage_code NODE_ERR_FILE_SESSION_NOT_EXIST = 5002"
| "storage_code NODE_ERR_FILE_SESSION_INVALID_FRAGMENT = 5003"
| "storage_code NODE_ERR_FILE_SESSION_CANNOT_CHANGE_MAX_FRAGMENT = 5004"

text \<open>What \<open>SPACELESS_THROW\<close> takes: an enumerator of any of the four.\<close>

datatype error_code =
    Foundation foundation_error
  | Resource resource_error
  | Handler handler_error
  | Storage storage_error

fun code_value :: "error_code \<Rightarrow> int" where
  "code_value (Foundation e) = found_code e"
| "code_value (Resource e) = resource_code e"
| "code_value (Handler e) = handler_code e"
| "code_value (Storage e) = storage_code e"

datatype error_category = INVALID_CATEGORY | LIGHTS_CATEGORY | SPACELESS_CATEGORY

fun category_value :: "error_category \<Rightarrow> int" where
  "category_value INVALID_CATEGORY = 0"
| "category_value LIGHTS_CATEGORY = 1"
| "category_value SPACELESS_CATEGORY = 2"

end
