(* ===== verification/Prelude.thy ===== *)
theory Prelude
  imports Errors
begin

text \<open>
  What every theory of the development shares.

  \<^item> \<open>fault\<close>: how a C++ call can end without a value. A thrown \<open>spaceless::Exception\<close>
    carries its error code; the other constructors are the endings that the code does not
    handle by code: a \<open>std::bad_cast\<close>, another standard exception, a failed
    \<open>LIGHTS_ASSERT\<close> (\<open>assert\<close>, see \<open>lights/config.h\<close>), undefined behaviour
    (null dereference, invalidated iterator, access outside an array) and a call that
    does not return.
  \<^item> \<open>exec\<close>: a call as a function of the state. The state is returned on both outcomes,
    since an exception of C++ does not undo what was written before the throw.
  \<^item> \<open>keeps\<close> and \<open>unchanged\<close>: the two judgements most proofs are made of, with one rule
    per combinator, collected under \<open>keeps_intros\<close> and \<open>unchanged_intros\<close>.
\<close>

section \<open>Faults and calls\<close>

datatype fault =
    Thrown error_code   \<comment> \<open>\<open>SPACELESS_THROW(code)\<close>\<close>
  | Open_file_error     \<comment> \<open>\<open>lights::OpenFileError\<close>\<close>
  | Bad_cast            \<comment> \<open>\<open>dynamic_cast\<close> of a reference to a wrong class\<close>
  | Std_exception       \<comment> \<open>any other exception of the standard library\<close>
  | Aborted             \<comment> \<open>a failed \<open>LIGHTS_ASSERT\<close>\<close>
  | Undefined           \<comment> \<open>undefined behaviour\<close>
  | Endless             \<comment> \<open>a loop that does not end\<close>

text \<open>
  The faults that leave the process running. \<open>safe_call\<close> catches a \<open>lights::OpenFileError\<close> too,
  but then \<open>get_error_info\<close> compares its \<open>typeid\<close> with \<open>lights::Exception\<close> and
  \<open>spaceless::Exception\<close> only, and asserts that no other class is thrown.
\<close>

fun catchable :: "fault \<Rightarrow> bool" where
  "catchable (Thrown c) = True"
| "catchable Open_file_error = False"
| "catchable Bad_cast = True"
| "catchable Std_exception = True"
| "catchable Aborted = False"
| "catchable Undefined = False"
| "catchable Endless = False"

type_synonym 'a res = "fault + 'a"
type_synonym ('s, 'a) exec = "'s \<Rightarrow> 'a res \<times> 's"

definition ret :: "'a \<Rightarrow> ('s, 'a) exec" where
  "ret a = (\<lambda>s. (Inr a, s))"

definition fail :: "fault \<Rightarrow> ('s, 'a) exec" where
  "fail e = (\<lambda>s. (Inl e, s))"

abbreviation throw :: "error_code \<Rightarrow> ('s, 'a) exec" where
  "throw c \<equiv> fail (Thrown c)"

definition bindE :: "('s, 'a) exec \<Rightarrow> ('a \<Rightarrow> ('s, 'b) exec) \<Rightarrow> ('s, 'b) exec" where
  "bindE m f = (\<lambda>s. case m s of (Inl e, t) \<Rightarrow> (Inl e, t) | (Inr a, t) \<Rightarrow> f a t)"

definition gets :: "('s \<Rightarrow> 'a) \<Rightarrow> ('s, 'a) exec" where
  "gets f = (\<lambda>s. (Inr (f s), s))"

definition getsE :: "('s \<Rightarrow> 'a res) \<Rightarrow> ('s, 'a) exec" where
  "getsE f = (\<lambda>s. (f s, s))"

definition modify :: "('s \<Rightarrow> 's) \<Rightarrow> ('s, unit) exec" where
  "modify f = (\<lambda>s. (Inr (), f s))"

definition throw_if :: "bool \<Rightarrow> error_code \<Rightarrow> ('s, unit) exec" where
  "throw_if b c = (if b then throw c else ret ())"

text \<open>A call of a component's operation, on the field of the state that holds the component.\<close>

definition zoom :: "('s \<Rightarrow> 't) \<Rightarrow> ('t \<Rightarrow> 's \<Rightarrow> 's) \<Rightarrow> ('t, 'a) exec \<Rightarrow> ('s, 'a) exec" where
  "zoom get put m = (\<lambda>s. case m (get s) of (r, t) \<Rightarrow> (r, put t s))"

lemmas exec_defs = ret_def fail_def bindE_def gets_def getsE_def modify_def throw_if_def zoom_def

section \<open>Evaluation of calls\<close>

lemma ret_apply [simp]: "ret a s = (Inr a, s)"
  by (simp add: ret_def)

lemma fail_apply [simp]: "fail e s = (Inl e, s)"
  by (simp add: fail_def)

lemma gets_apply [simp]: "gets f s = (Inr (f s), s)"
  by (simp add: gets_def)

lemma getsE_apply [simp]: "getsE f s = (f s, s)"
  by (simp add: getsE_def)

lemma modify_apply [simp]: "modify f s = (Inr (), f s)"
  by (simp add: modify_def)

lemma throw_if_apply [simp]:
  "throw_if b c s = (if b then Inl (Thrown c) else Inr (), s)"
  by (simp add: throw_if_def)

lemma bindE_Inl: "m s = (Inl e, t) \<Longrightarrow> bindE m f s = (Inl e, t)"
  by (simp add: bindE_def)

lemma bindE_Inr: "m s = (Inr a, t) \<Longrightarrow> bindE m f s = f a t"
  by (simp add: bindE_def)

lemma bindE_ret [simp]: "bindE (ret a) f = f a"
  by (simp add: bindE_def ret_def)

lemma bindE_fail [simp]: "bindE (fail e) f = fail e"
  by (simp add: bindE_def fail_def)

lemma bindE_gets [simp]: "bindE (gets g) f s = f (g s) s"
  by (simp add: bindE_def)

lemma bindE_modify [simp]: "bindE (modify g) f s = f () (g s)"
  by (simp add: bindE_def)

lemma bindE_getsE: "bindE (getsE g) f s = (case g s of Inl e \<Rightarrow> (Inl e, s) | Inr a \<Rightarrow> f a s)"
  by (simp add: bindE_def split: sum.split)

lemma bindE_throw_if:
  "bindE (throw_if b c) f s = (if b then (Inl (Thrown c), s) else f () s)"
  by (simp add: bindE_def)

lemma bindE_InrE:
  assumes "bindE m f s = (Inr b, t)"
  obtains a u where "m s = (Inr a, u)" and "f a u = (Inr b, t)"
  using assms by (auto simp: bindE_def split: prod.splits sum.splits)

lemma bindE_cases:
  assumes "bindE m f s = (r, t)"
  obtains (fault) e where "m s = (Inl e, t)" and "r = Inl e"
    | (val) a u where "m s = (Inr a, u)" and "f a u = (r, t)"
  using assms by (auto simp: bindE_def split: prod.splits sum.splits)

lemma zoom_apply: "m (get s) = (r, t) \<Longrightarrow> zoom get put m s = (r, put t s)"
  by (simp add: zoom_def)

lemmas bindE_simps = bindE_getsE bindE_throw_if

section \<open>Invariants and frames of calls\<close>

named_theorems keeps_intros \<open>rules that derive \<open>keeps\<close> for a compound call\<close>
named_theorems unchanged_intros \<open>rules that derive \<open>unchanged\<close> for a compound call\<close>

text \<open>\<open>keeps P m\<close>: a run of \<open>m\<close> from a state with \<open>P\<close>, however it ends, ends in one with \<open>P\<close>.\<close>

definition keeps :: "('s \<Rightarrow> bool) \<Rightarrow> ('s, 'a) exec \<Rightarrow> bool" where
  "keeps P m \<longleftrightarrow> (\<forall>s. P s \<longrightarrow> P (snd (m s)))"

text \<open>\<open>unchanged f m\<close>: no run of \<open>m\<close> changes the observation \<open>f\<close>.\<close>

definition unchanged :: "('s \<Rightarrow> 'x) \<Rightarrow> ('s, 'a) exec \<Rightarrow> bool" where
  "unchanged f m \<longleftrightarrow> (\<forall>s. f (snd (m s)) = f s)"

lemma keepsD: "keeps P m \<Longrightarrow> P s \<Longrightarrow> P (snd (m s))"
  by (simp add: keeps_def)

lemma keepsD_eq: "keeps P m \<Longrightarrow> P s \<Longrightarrow> m s = (r, t) \<Longrightarrow> P t"
  by (force simp: keeps_def)

lemma unchangedD: "unchanged f m \<Longrightarrow> f (snd (m s)) = f s"
  by (simp add: unchanged_def)

lemma unchangedD_eq: "unchanged f m \<Longrightarrow> m s = (r, t) \<Longrightarrow> f t = f s"
  unfolding unchanged_def by (metis snd_conv)

lemma keeps_ret [keeps_intros]: "keeps P (ret a)"
  by (simp add: keeps_def)

lemma keeps_fail [keeps_intros]: "keeps P (fail e)"
  by (simp add: keeps_def)

lemma keeps_gets [keeps_intros]: "keeps P (gets f)"
  by (simp add: keeps_def)

lemma keeps_getsE [keeps_intros]: "keeps P (getsE f)"
  by (simp add: keeps_def)

lemma keeps_throw_if [keeps_intros]: "keeps P (throw_if b c)"
  by (simp add: keeps_def)

lemma keeps_bindE [keeps_intros]:
  "keeps P m \<Longrightarrow> (\<And>a. keeps P (f a)) \<Longrightarrow> keeps P (bindE m f)"
  unfolding keeps_def bindE_def by (force split: prod.split sum.split)

lemma keeps_if [keeps_intros]:
  "keeps P m \<Longrightarrow> keeps P n \<Longrightarrow> keeps P (if b then m else n)"
  by simp

lemma keeps_option [keeps_intros]:
  "keeps P m \<Longrightarrow> (\<And>a. keeps P (f a)) \<Longrightarrow> keeps P (case x of None \<Rightarrow> m | Some a \<Rightarrow> f a)"
  by (cases x) simp_all

lemma keeps_sum [keeps_intros]:
  "(\<And>e. keeps P (g e)) \<Longrightarrow> (\<And>a. keeps P (f a)) \<Longrightarrow> keeps P (case x of Inl e \<Rightarrow> g e | Inr a \<Rightarrow> f a)"
  by (cases x) simp_all

lemma keeps_modify: "(\<And>s. P s \<Longrightarrow> P (f s)) \<Longrightarrow> keeps P (modify f)"
  by (simp add: keeps_def)

lemma unchanged_ret [unchanged_intros]: "unchanged f (ret a)"
  by (simp add: unchanged_def)

lemma unchanged_fail [unchanged_intros]: "unchanged f (fail e)"
  by (simp add: unchanged_def)

lemma unchanged_gets [unchanged_intros]: "unchanged f (gets g)"
  by (simp add: unchanged_def)

lemma unchanged_getsE [unchanged_intros]: "unchanged f (getsE g)"
  by (simp add: unchanged_def)

lemma unchanged_throw_if [unchanged_intros]: "unchanged f (throw_if b c)"
  by (simp add: unchanged_def)

lemma unchanged_bindE [unchanged_intros]:
  "unchanged f m \<Longrightarrow> (\<And>a. unchanged f (g a)) \<Longrightarrow> unchanged f (bindE m g)"
  unfolding unchanged_def bindE_def by (auto split: prod.split sum.split) (metis snd_conv)+

lemma unchanged_if [unchanged_intros]:
  "unchanged f m \<Longrightarrow> unchanged f n \<Longrightarrow> unchanged f (if b then m else n)"
  by simp

lemma unchanged_option [unchanged_intros]:
  "unchanged f m \<Longrightarrow> (\<And>a. unchanged f (g a)) \<Longrightarrow>
   unchanged f (case x of None \<Rightarrow> m | Some a \<Rightarrow> g a)"
  by (cases x) simp_all

lemma unchanged_sum [unchanged_intros]:
  "(\<And>e. unchanged f (h e)) \<Longrightarrow> (\<And>a. unchanged f (g a)) \<Longrightarrow>
   unchanged f (case x of Inl e \<Rightarrow> h e | Inr a \<Rightarrow> g a)"
  by (cases x) simp_all

lemma unchanged_modify: "(\<And>s. f (g s) = f s) \<Longrightarrow> unchanged f (modify g)"
  by (simp add: unchanged_def)

lemma unchanged_zoom: "(\<And>t s. f (put t s) = f s) \<Longrightarrow> unchanged f (zoom get put m)"
  by (simp add: unchanged_def zoom_def split: prod.split)

lemma keeps_zoom:
  assumes "\<And>s. P s \<Longrightarrow> Q (get s)" and "keeps Q m" and "\<And>s t. P s \<Longrightarrow> Q t \<Longrightarrow> P (put t s)"
  shows "keeps P (zoom get put m)"
  using assms by (auto simp: keeps_def zoom_def split: prod.split) (metis snd_conv)

section \<open>Lists\<close>

lemma find_Some_in: "List.find P xs = Some x \<Longrightarrow> x \<in> set xs \<and> P x"
  by (induction xs) (auto split: if_splits)

lemma find_None: "List.find P xs = None \<longleftrightarrow> (\<forall>x \<in> set xs. \<not> P x)"
  by (induction xs) auto

lemma remove1_filter_distinct: "distinct xs \<Longrightarrow> remove1 x xs = filter (\<lambda>y. y \<noteq> x) xs"
  by (simp add: distinct_remove1_removeAll removeAll_filter_not_eq) (metis (mono_tags))

end
