(* ===== verification/Omap.thy ===== *)
theory Omap
  imports Prelude "HOL-Library.List_Lexorder" "HOL-Library.Char_ord"
begin

text \<open>
  \<open>std::map\<close>, as the list of its entries in the order an iterator visits them: ascending
  keys. The code iterates over its maps (\<open>std::find_if\<close>, range-based \<open>for\<close>), so that order
  is part of what it computes. \<open>om_insert\<close> is \<open>insert\<close>, which keeps an entry that is
  already there; \<open>om_put\<close> is \<open>m[k] = v\<close>, which overwrites it; \<open>om_erase\<close> is \<open>erase\<close>;
  \<open>om_update\<close> is a write through a reference to an entry; \<open>om_find_if\<close> is \<open>std::find_if\<close>.
  Lookup is the library's \<open>map_of\<close>. Keys are \<open>int\<close> or \<open>string\<close> (ordered as
  \<open>std::string\<close> orders them, byte by byte).
\<close>

type_synonym ('k, 'v) omap = "('k \<times> 'v) list"

definition om_ok :: "('k::linorder, 'v) omap \<Rightarrow> bool" where
  "om_ok m \<longleftrightarrow> sorted_wrt (<) (map fst m)"

fun om_insert :: "'k::linorder \<Rightarrow> 'v \<Rightarrow> ('k, 'v) omap \<Rightarrow> ('k, 'v) omap" where
  "om_insert k v [] = [(k, v)]"
| "om_insert k v ((a, b) # m) =
     (if k < a then (k, v) # (a, b) # m
      else if k = a then (a, b) # m
      else (a, b) # om_insert k v m)"

fun om_put :: "'k::linorder \<Rightarrow> 'v \<Rightarrow> ('k, 'v) omap \<Rightarrow> ('k, 'v) omap" where
  "om_put k v [] = [(k, v)]"
| "om_put k v ((a, b) # m) =
     (if k < a then (k, v) # (a, b) # m
      else if k = a then (a, v) # m
      else (a, b) # om_put k v m)"

definition om_erase :: "'k \<Rightarrow> ('k, 'v) omap \<Rightarrow> ('k, 'v) omap" where
  "om_erase k m = filter (\<lambda>e. fst e \<noteq> k) m"

definition om_update :: "'k \<Rightarrow> ('v \<Rightarrow> 'v) \<Rightarrow> ('k, 'v) omap \<Rightarrow> ('k, 'v) omap" where
  "om_update k f m = map (\<lambda>e. if fst e = k then (fst e, f (snd e)) else e) m"

definition om_find_if :: "('v \<Rightarrow> bool) \<Rightarrow> ('k, 'v) omap \<Rightarrow> 'v option" where
  "om_find_if P m = map_option snd (List.find (\<lambda>e. P (snd e)) m)"

section \<open>The order of the entries\<close>

lemma om_ok_Nil [simp]: "om_ok []"
  by (simp add: om_ok_def)

lemma om_ok_Cons [simp]: "om_ok ((a, b) # m) \<longleftrightarrow> (\<forall>k \<in> fst ` set m. a < k) \<and> om_ok m"
  by (auto simp: om_ok_def)

lemma fst_om_insert [simp]: "fst ` set (om_insert k v m) = insert k (fst ` set m)"
  by (induction k v m rule: om_insert.induct) auto

lemma fst_om_put [simp]: "fst ` set (om_put k v m) = insert k (fst ` set m)"
  by (induction k v m rule: om_put.induct) auto

lemma fst_om_erase [simp]: "fst ` set (om_erase k m) = fst ` set m - {k}"
  by (force simp: om_erase_def)

lemma map_fst_om_update [simp]: "map fst (om_update k f m) = map fst m"
  by (simp add: om_update_def)

lemma om_ok_insert [simp]: "om_ok m \<Longrightarrow> om_ok (om_insert k v m)"
  by (induction k v m rule: om_insert.induct) (auto dest: less_trans)

lemma om_ok_put [simp]: "om_ok m \<Longrightarrow> om_ok (om_put k v m)"
  by (induction k v m rule: om_put.induct) (auto dest: less_trans)

lemma om_ok_erase [simp]: "om_ok m \<Longrightarrow> om_ok (om_erase k m)"
  by (induction m) (auto simp: om_erase_def)

lemma om_ok_update [simp]: "om_ok (om_update k f m) = om_ok m"
  by (simp add: om_ok_def)

lemma om_ok_distinct: "om_ok m \<Longrightarrow> distinct (map fst m)"
  by (simp add: om_ok_def strict_sorted_iff)

lemma dom_om: "dom (map_of m) = fst ` set m"
  by (rule dom_map_of_conv_image_fst)

lemma map_of_fst_None [simp]: "k \<notin> fst ` set m \<Longrightarrow> map_of m k = None"
  by (simp add: map_of_eq_None_iff)

lemma map_of_SomeD' : "map_of m k = Some v \<Longrightarrow> k \<in> fst ` set m"
  by (metis domI dom_om)

lemma om_ok_map_of: "om_ok m \<Longrightarrow> (k, v) \<in> set m \<longleftrightarrow> map_of m k = Some v"
  by (simp add: om_ok_distinct)

section \<open>Lookup after every operation\<close>

lemma map_of_om_insert:
  "om_ok m \<Longrightarrow>
   map_of (om_insert k v m) = (if k \<in> dom (map_of m) then map_of m else (map_of m)(k \<mapsto> v))"
proof (induction k v m rule: om_insert.induct)
  case (2 k v a b m)
  then show ?case
    by (auto simp: fun_eq_iff domIff split: if_splits dest!: map_of_SomeD' dest: less_asym)
qed (simp add: fun_eq_iff)

lemma map_of_om_put: "om_ok m \<Longrightarrow> map_of (om_put k v m) = (map_of m)(k \<mapsto> v)"
  by (induction k v m rule: om_put.induct) (auto simp: fun_eq_iff)

lemma map_of_om_erase [simp]: "map_of (om_erase k m) = (map_of m)(k := None)"
  by (induction m) (auto simp: om_erase_def fun_eq_iff)

lemma map_of_om_update:
  "map_of (om_update k f m) = (map_of m)(k := map_option f (map_of m k))"
  by (induction m) (auto simp: om_update_def fun_eq_iff)

lemma map_of_om_insert_fresh:
  "om_ok m \<Longrightarrow> map_of m k = None \<Longrightarrow> map_of (om_insert k v m) = (map_of m)(k \<mapsto> v)"
  by (simp add: map_of_om_insert domIff)

lemma om_insert_present:
  "om_ok m \<Longrightarrow> map_of m k \<noteq> None \<Longrightarrow> om_insert k v m = m"
proof (induction k v m rule: om_insert.induct)
  case (2 k v a b m)
  from "2.prems" have "\<not> k < a"
    by (auto dest!: map_of_SomeD' split: if_splits)
  with 2 show ?case by (auto split: if_splits)
qed simp

lemma om_insert_put: "map_of m k = None \<Longrightarrow> om_insert k v m = om_put k v m"
  by (induction k v m rule: om_insert.induct) (auto split: if_splits)

lemma set_om_insert:
  "om_ok m \<Longrightarrow> map_of m k = None \<Longrightarrow> set (om_insert k v m) = insert (k, v) (set m)"
proof (induction k v m rule: om_insert.induct)
  case (2 k v a b m)
  then show ?case by (auto split: if_splits)
qed simp

lemma set_om_erase: "set (om_erase k m) = {e \<in> set m. fst e \<noteq> k}"
  by (auto simp: om_erase_def)

lemma set_om_update:
  "set (om_update k f m) = {e \<in> set m. fst e \<noteq> k} \<union> (\<lambda>e. (k, f (snd e))) ` {e \<in> set m. fst e = k}"
  by (force simp: om_update_def)

lemma om_insert_greatest:
  "\<forall>a \<in> fst ` set m. a < k \<Longrightarrow> om_insert k v m = m @ [(k, v)]"
  by (induction k v m rule: om_insert.induct) auto

lemma om_erase_length:
  "map_of m k \<noteq> None \<Longrightarrow> length (om_erase k m) < length m"
proof -
  assume "map_of m k \<noteq> None"
  then obtain v where "(k, v) \<in> set m" by (auto dest: map_of_SomeD)
  then show ?thesis
    unfolding om_erase_def by (intro length_filter_less [of "(k, v)"]) auto
qed

lemma length_om_update [simp]: "length (om_update k f m) = length m"
  by (simp add: om_update_def)

section \<open>Search in iteration order\<close>

lemma om_find_if_Some:
  assumes "om_find_if P m = Some v"
  shows "\<exists>k. (k, v) \<in> set m \<and> P v"
  using assms by (auto simp: om_find_if_def dest: find_Some_in)

lemma om_find_if_SomeE:
  assumes "om_find_if P m = Some v"
  obtains k where "(k, v) \<in> set m" and "P v"
  using om_find_if_Some [OF assms] by blast

lemma om_find_if_None: "om_find_if P m = None \<longleftrightarrow> (\<forall>(k, v) \<in> set m. \<not> P v)"
  by (auto simp: om_find_if_def find_None)

lemma om_find_if_eqI:
  assumes "(k, v) \<in> set m" and "P v" and "\<And>j w. (j, w) \<in> set m \<Longrightarrow> P w \<Longrightarrow> w = v"
  shows "om_find_if P m = Some v"
proof (cases "om_find_if P m")
  case None
  with assms(1,2) show ?thesis by (auto simp: om_find_if_None)
next
  case (Some w)
  then obtain j where "(j, w) \<in> set m" "P w" by (rule om_find_if_SomeE)
  with Some assms(3) show ?thesis by blast
qed

lemmas om_lookup_simps =
  map_of_om_insert_fresh map_of_om_put map_of_om_erase map_of_om_update

section \<open>The interface\<close>

text \<open>
  What the components rely on when they use a \<open>std::map\<close>: a finite map with an insertion
  that does not overwrite, and an erase. The components' own registries state more about
  themselves (theory \<open>Registry\<close>); this is the part that \<open>std::map\<close> promises.
\<close>

locale std_map =
  fixes lookup :: "'m \<Rightarrow> 'k \<Rightarrow> 'v option"
    and ins :: "'k \<Rightarrow> 'v \<Rightarrow> 'm \<Rightarrow> 'm"
    and era :: "'k \<Rightarrow> 'm \<Rightarrow> 'm"
    and ok :: "'m \<Rightarrow> bool"
  assumes lookup_ins: "ok m \<Longrightarrow> lookup (ins k v m) =
      (if lookup m k = None then (lookup m)(k \<mapsto> v) else lookup m)"
    and lookup_era: "ok m \<Longrightarrow> lookup (era k m) = (lookup m)(k := None)"
    and ok_ins: "ok m \<Longrightarrow> ok (ins k v m)"
    and ok_era: "ok m \<Longrightarrow> ok (era k m)"
begin

lemma ins_twice: "ok m \<Longrightarrow> lookup (ins k w (ins k v m)) = lookup (ins k v m)"
  by (simp add: lookup_ins ok_ins)

lemma era_ins_fresh: "ok m \<Longrightarrow> lookup m k = None \<Longrightarrow> lookup (era k (ins k v m)) = lookup m"
  by (auto simp: lookup_ins lookup_era ok_ins fun_eq_iff)

lemma ins_other: "ok m \<Longrightarrow> j \<noteq> k \<Longrightarrow> lookup (ins k v m) j = lookup m j"
  by (simp add: lookup_ins)

end

interpretation om: std_map map_of om_insert om_erase om_ok
  by unfold_locales (auto simp: map_of_om_insert domIff)

end
