(* ===== verification/Registry.thy ===== *)
theory Registry
  imports Omap
begin

text \<open>
  The contract that every manager of the code shares. A manager holds entries under integer
  ids and a counter \<open>m_next_id\<close>; registering hands out the counter's value and increments
  it, removing erases an entry and leaves the counter alone. What clients rely on is that an
  id never names two things: a session id kept by a client, the id of a user who was removed,
  a package id on its way back. The locale proves that once, over an arbitrary sequence of
  registrations and removals; each manager's theory interprets it on its own operations.
\<close>

datatype 'a reg_op = Register 'a | Remove int

text \<open>A run of operations: the ids handed out, in order, and the last state.\<close>

fun run_ops :: "('a \<Rightarrow> ('s, int) exec) \<Rightarrow> (int \<Rightarrow> 's \<Rightarrow> 's) \<Rightarrow> 'a reg_op list \<Rightarrow> 's \<Rightarrow> int list \<times> 's" where
  "run_ops reg rem [] s = ([], s)"
| "run_ops reg rem (Register a # ops) s =
     (case reg a s of
        (Inl e, t) \<Rightarrow> run_ops reg rem ops t
      | (Inr k, t) \<Rightarrow> (let (ks, u) = run_ops reg rem ops t in (k # ks, u)))"
| "run_ops reg rem (Remove k # ops) s = run_ops reg rem ops (rem k s)"

locale registry =
  fixes has :: "'s \<Rightarrow> int \<Rightarrow> bool"
    and next_id :: "'s \<Rightarrow> int"
    and inv :: "'s \<Rightarrow> bool"
    and reg :: "'a \<Rightarrow> ('s, int) exec"
    and rem :: "int \<Rightarrow> 's \<Rightarrow> 's"
  assumes has_below: "inv s \<Longrightarrow> has s k \<Longrightarrow> k < next_id s"
    and reg_inv: "inv s \<Longrightarrow> reg a s = (r, t) \<Longrightarrow> inv t"
    and reg_mono: "inv s \<Longrightarrow> reg a s = (r, t) \<Longrightarrow> next_id s \<le> next_id t"
    and reg_id: "inv s \<Longrightarrow> reg a s = (Inr k, t) \<Longrightarrow> k = next_id s \<and> next_id t = k + 1 \<and> has t k"
    and reg_new: "inv s \<Longrightarrow> reg a s = (r, t) \<Longrightarrow> has t j \<Longrightarrow> has s j \<or> next_id s \<le> j"
    and reg_old: "inv s \<Longrightarrow> reg a s = (r, t) \<Longrightarrow> has s j \<Longrightarrow> has t j"
    and rem_inv: "inv s \<Longrightarrow> inv (rem k s)"
    and rem_next: "inv s \<Longrightarrow> next_id (rem k s) = next_id s"
    and rem_has: "inv s \<Longrightarrow> has (rem k s) j \<Longrightarrow> has s j \<and> j \<noteq> k"
begin

lemma run_inv: "inv s \<Longrightarrow> inv (snd (run_ops reg rem ops s))"
proof (induction ops arbitrary: s)
  case (Cons x ops)
  then show ?case
    by (cases x) (auto split: prod.splits sum.splits simp: rem_inv dest: reg_inv, metis reg_inv snd_conv)
qed simp

lemma run_ids:
  "inv s \<Longrightarrow> sorted_wrt (<) (fst (run_ops reg rem ops s)) \<and>
     (\<forall>k \<in> set (fst (run_ops reg rem ops s)). next_id s \<le> k)"
proof (induction ops arbitrary: s)
  case (Cons x ops)
  show ?case
  proof (cases x)
    case (Register a)
    obtain r t where r: "reg a s = (r, t)" by fastforce
    note t = reg_inv [OF Cons.prems r] and le = reg_mono [OF Cons.prems r]
    show ?thesis
    proof (cases r)
      case (Inl e)
      with r Register Cons.IH [OF t] le show ?thesis by auto
    next
      case (Inr k)
      with reg_id [OF Cons.prems, of a k t] r have "k = next_id s" "next_id t = k + 1" by auto
      with Inr r Register Cons.IH [OF t] show ?thesis
        by (auto simp: split_beta)
    qed
  next
    case (Remove k)
    with Cons.IH [OF rem_inv [OF Cons.prems, of k]] show ?thesis by (simp add: rem_next Cons.prems)
  qed
qed simp

lemma ids_distinct: "inv s \<Longrightarrow> distinct (fst (run_ops reg rem ops s))"
  using run_ids strict_sorted_iff by blast

lemma ids_fresh: "inv s \<Longrightarrow> has s k \<Longrightarrow> k \<notin> set (fst (run_ops reg rem ops s))"
  using run_ids has_below by fastforce

lemma gone_stays_gone:
  "inv s \<Longrightarrow> k < next_id s \<Longrightarrow> \<not> has s k \<Longrightarrow> \<not> has (snd (run_ops reg rem ops s)) k"
proof (induction ops arbitrary: s)
  case (Cons x ops)
  show ?case
  proof (cases x)
    case (Register a)
    obtain r t where r: "reg a s = (r, t)" by fastforce
    have "inv t" by (rule reg_inv [OF Cons.prems(1) r])
    moreover have "k < next_id t" using reg_mono [OF Cons.prems(1) r] Cons.prems(2) by simp
    moreover have "\<not> has t k" using reg_new [OF Cons.prems(1) r] Cons.prems(2,3) by fastforce
    ultimately have "\<not> has (snd (run_ops reg rem ops t)) k" by (rule Cons.IH)
    with Register r show ?thesis by (auto split: sum.split prod.split)
  next
    case (Remove j)
    have "\<not> has (snd (run_ops reg rem ops (rem j s))) k"
      by (rule Cons.IH) (use Cons.prems in \<open>auto simp: rem_inv rem_next dest: rem_has\<close>)
    with Remove show ?thesis by simp
  qed
qed simp

text \<open>An id that was handed out and removed names nothing, however long the program runs on.\<close>

lemma removed_never_reused:
  assumes "inv s" and "has s k"
  shows "\<not> has (snd (run_ops reg rem ops (rem k s))) k"
    and "k \<notin> set (fst (run_ops reg rem ops (rem k s)))"
proof -
  have inv: "inv (rem k s)" and lt: "k < next_id (rem k s)"
    using assms by (auto simp: rem_inv rem_next has_below)
  moreover have "\<not> has (rem k s) k" using assms(1) rem_has by blast
  ultimately show "\<not> has (snd (run_ops reg rem ops (rem k s))) k" by (rule gone_stays_gone)
  show "k \<notin> set (fst (run_ops reg rem ops (rem k s)))"
    using run_ids [OF inv] lt by fastforce
qed

end

text \<open>
  The common case: entries in a \<open>std::map\<close> under ids below the counter. The lemmas below
  are what the managers' own invariants are proved from.
\<close>

definition ids_below :: "(int, 'v) omap \<Rightarrow> int \<Rightarrow> bool" where
  "ids_below m n \<longleftrightarrow> om_ok m \<and> (\<forall>k \<in> fst ` set m. k < n)"

lemma ids_below_Nil [simp]: "ids_below [] n"
  by (simp add: ids_below_def)

lemma ids_below_ok [simp]: "ids_below m n \<Longrightarrow> om_ok m"
  by (simp add: ids_below_def)

lemma ids_below_fresh: "ids_below m n \<Longrightarrow> map_of m n = None"
  by (force simp: ids_below_def map_of_eq_None_iff)

lemma ids_below_lookup: "ids_below m n \<Longrightarrow> map_of m k = Some v \<Longrightarrow> k < n"
  by (auto simp: ids_below_def dest: map_of_SomeD')

lemma ids_below_insert: "ids_below m n \<Longrightarrow> ids_below (om_insert n v m) (n + 1)"
  by (auto simp: ids_below_def)

lemma ids_below_erase: "ids_below m n \<Longrightarrow> ids_below (om_erase k m) n"
  by (auto simp: ids_below_def)

lemma ids_below_update: "ids_below (om_update k f m) n = ids_below m n"
  by (auto simp: ids_below_def simp flip: set_map)

lemma ids_below_mono: "ids_below m n \<Longrightarrow> n \<le> n' \<Longrightarrow> ids_below m n'"
  by (force simp: ids_below_def)

lemma ids_below_insert_eq: "ids_below m n \<Longrightarrow> om_insert n v m = m @ [(n, v)]"
  by (auto simp: ids_below_def intro: om_insert_greatest)

lemmas ids_below_intros = ids_below_insert ids_below_erase ids_below_update [THEN iffD2]

end
