(* ===== verification/Users.thy ===== *)
theory Users
  imports Registry
begin

text \<open>
  \<open>UserManager\<close> of \<open>resource_server/core.{h,cpp}\<close>: the accounts, the root users and the
  table of logged-in connections. References to a \<open>User\<close> inside the map are modelled by the
  value found and, where the code writes through them, by \<open>om_update\<close> at its id. The clock
  \<open>std::time(nullptr)\<close> is an argument, in seconds.
\<close>

section \<open>State\<close>

record user =
  u_user_id :: int
  u_user_name :: string
  u_password :: string
  u_group_list :: "int list"
  u_conn_id :: int
  u_last_hearbeat :: int

definition new_user :: "int \<Rightarrow> string \<Rightarrow> string \<Rightarrow> user" where
  "new_user user_id user_name password =
     \<lparr>u_user_id = user_id, u_user_name = user_name, u_password = password,
      u_group_list = [], u_conn_id = 0, u_last_hearbeat = 0\<rparr>"

record user_manager =
  m_user_list :: "(int, user) omap"
  m_root_user_list :: "int set"
  m_login_user_list :: "(int, int) omap"
  um_next_id :: int

definition empty_user_manager :: user_manager where
  "empty_user_manager =
     \<lparr>m_user_list = [], m_root_user_list = {}, m_login_user_list = [], um_next_id = 1\<rparr>"

section \<open>Operations\<close>

definition find_user :: "user_manager \<Rightarrow> int \<Rightarrow> user option" where
  "find_user um user_id = map_of (m_user_list um) user_id"

definition find_user_by_name :: "user_manager \<Rightarrow> string \<Rightarrow> user option" where
  "find_user_by_name um user_name = om_find_if (\<lambda>u. u_user_name u = user_name) (m_user_list um)"

definition register_user :: "string \<Rightarrow> string \<Rightarrow> bool \<Rightarrow> (user_manager, user) exec" where
  "register_user username password is_root_user = (\<lambda>um.
     case find_user_by_name um username of
       Some _ \<Rightarrow> (Inl (Thrown (Resource ERR_USER_ALREADY_EXIST)), um)
     | None \<Rightarrow>
         let u = new_user (um_next_id um) username password;
             um1 = um\<lparr>um_next_id := um_next_id um + 1\<rparr>
         in if map_of (m_user_list um1) (u_user_id u) \<noteq> None
            then (Inl (Thrown (Resource ERR_USER_ALREADY_EXIST)), um1)
            else
              let um2 = um1\<lparr>m_user_list := om_insert (u_user_id u) u (m_user_list um1)\<rparr>;
                  um3 = (if is_root_user
                         then um2\<lparr>m_root_user_list := insert (u_user_id u) (m_root_user_list um2)\<rparr>
                         else um2)
              in (Inr u, um3))"

definition remove_user :: "int \<Rightarrow> user_manager \<Rightarrow> user_manager" where
  "remove_user user_id um =
     um\<lparr>m_user_list := om_erase user_id (m_user_list um),
        m_root_user_list := m_root_user_list um - {user_id}\<rparr>"

definition get_user :: "user_manager \<Rightarrow> int \<Rightarrow> user res" where
  "get_user um user_id = (case find_user um user_id of
     None \<Rightarrow> Inl (Thrown (Resource ERR_USER_NOT_EXIST)) | Some u \<Rightarrow> Inr u)"

definition get_user_by_name :: "user_manager \<Rightarrow> string \<Rightarrow> user res" where
  "get_user_by_name um username = (case find_user_by_name um username of
     None \<Rightarrow> Inl (Thrown (Resource ERR_USER_NOT_EXIST)) | Some u \<Rightarrow> Inr u)"

definition login_user :: "int \<Rightarrow> string \<Rightarrow> int \<Rightarrow> user_manager \<Rightarrow> bool \<times> user_manager" where
  "login_user user_id password conn_id um = (case find_user um user_id of
     None \<Rightarrow> (False, um)
   | Some u \<Rightarrow>
       if u_password u \<noteq> password then (False, um)
       else (True, um\<lparr>m_user_list := om_update user_id (\<lambda>u. u\<lparr>u_conn_id := conn_id\<rparr>) (m_user_list um),
                      m_login_user_list := om_insert conn_id user_id (m_login_user_list um)\<rparr>))"

definition find_login_user :: "user_manager \<Rightarrow> int \<Rightarrow> user option" where
  "find_login_user um conn_id = (case map_of (m_login_user_list um) conn_id of
     None \<Rightarrow> None | Some user_id \<Rightarrow> find_user um user_id)"

definition get_login_user :: "user_manager \<Rightarrow> int \<Rightarrow> user res" where
  "get_login_user um conn_id = (case find_login_user um conn_id of
     None \<Rightarrow> Inl (Thrown (Resource ERR_USER_NOT_LOGIN)) | Some u \<Rightarrow> Inr u)"

text \<open>The user found for the connection is the map entry at the id that the login table holds.\<close>

definition um_kick_out_user :: "int \<Rightarrow> (user_manager, unit) exec" where
  "um_kick_out_user conn_id = (\<lambda>um. case get_login_user um conn_id of
     Inl e \<Rightarrow> (Inl e, um)
   | Inr u \<Rightarrow>
       (Inr (), um\<lparr>m_user_list :=
            (case map_of (m_login_user_list um) conn_id of
               None \<Rightarrow> m_user_list um
             | Some user_id \<Rightarrow> om_update user_id (\<lambda>u. u\<lparr>u_conn_id := 0\<rparr>) (m_user_list um)),
          m_login_user_list := om_erase conn_id (m_login_user_list um)\<rparr>))"

definition heartbeat :: "int \<Rightarrow> int \<Rightarrow> (user_manager, unit) exec" where
  "heartbeat now user_id = (\<lambda>um. case get_user um user_id of
     Inl e \<Rightarrow> (Inl e, um)
   | Inr u \<Rightarrow> (Inr (), um\<lparr>m_user_list :=
       om_update user_id (\<lambda>u. u\<lparr>u_last_hearbeat := now\<rparr>) (m_user_list um)\<rparr>))"

definition is_root_user :: "user_manager \<Rightarrow> int \<Rightarrow> bool" where
  "is_root_user um user_id \<longleftrightarrow> user_id \<in> m_root_user_list um"

definition MAX_NO_HEARTBEAT_SEC :: int where
  "MAX_NO_HEARTBEAT_SEC = 50"

definition overdue :: "int \<Rightarrow> user \<Rightarrow> bool" where
  "overdue now u \<longleftrightarrow>
     u_last_hearbeat u \<noteq> 0 \<and> u_last_hearbeat u + MAX_NO_HEARTBEAT_SEC < now"

text \<open>
  The sweep iterates over \<open>m_login_user_list\<close> and calls \<open>kick_out_user\<close> on the entry the
  iterator stands on, which erases it; the loop's next increment is then on an invalidated
  iterator. The first list argument is what the iterator still has to visit. No branch that
  goes on with the loop has written to the state.
\<close>

fun sweep_login_users :: "int \<Rightarrow> (int \<times> int) list \<Rightarrow> (user_manager, unit) exec" where
  "sweep_login_users now [] um = (Inr (), um)"
| "sweep_login_users now ((conn_id, user_id) # rest) um = (case get_user um user_id of
     Inl e \<Rightarrow> (Inl e, um)
   | Inr u \<Rightarrow>
       if overdue now u then
         (case um_kick_out_user conn_id um of
            (Inl e, um') \<Rightarrow> (Inl e, um')
          | (Inr _, um') \<Rightarrow> (Inl Undefined, um'))
       else sweep_login_users now rest um)"

definition kick_out_offline_users :: "int \<Rightarrow> (user_manager, unit) exec" where
  "kick_out_offline_users now = (\<lambda>um. sweep_login_users now (m_login_user_list um) um)"

section \<open>The invariant\<close>

text \<open>
  Entries sit under their own id, ids are below the counter, no two accounts share a name,
  root users are below the counter, the login table is ordered.
\<close>

definition um_inv :: "user_manager \<Rightarrow> bool" where
  "um_inv um \<longleftrightarrow>
     ids_below (m_user_list um) (um_next_id um) \<and>
     (\<forall>e \<in> set (m_user_list um). u_user_id (snd e) = fst e) \<and>
     distinct (map (\<lambda>e. u_user_name (snd e)) (m_user_list um)) \<and>
     (\<forall>k \<in> m_root_user_list um. k < um_next_id um) \<and>
     om_ok (m_login_user_list um)"

lemma um_inv_empty: "um_inv empty_user_manager"
  by (simp add: um_inv_def empty_user_manager_def ids_below_def)

text \<open>Writing a field other than id and name through a reference keeps it.\<close>

lemma um_inv_update:
  assumes "um_inv um"
    and "\<And>u. u_user_id (f u) = u_user_id u" and "\<And>u. u_user_name (f u) = u_user_name u"
  shows "um_inv (um\<lparr>m_user_list := om_update k f (m_user_list um)\<rparr>)"
proof -
  have "map (\<lambda>e. u_user_name (snd e)) (om_update k f l) = map (\<lambda>e. u_user_name (snd e)) l"
    and "(\<forall>e \<in> set (om_update k f l). u_user_id (snd e) = fst e) \<longleftrightarrow>
         (\<forall>e \<in> set l. u_user_id (snd e) = fst e)" for l
    unfolding om_update_def set_map ball_simps using assms(2,3)
    by (simp_all add: comp_def if_distrib [of "\<lambda>e. u_user_name (snd e)"] cong: if_cong)
       (metis (no_types, lifting))
  with assms(1) show ?thesis
    unfolding um_inv_def by (simp add: ids_below_update)
qed

lemma um_invD:
  assumes "um_inv um"
  shows "ids_below (m_user_list um) (um_next_id um)" and "om_ok (m_login_user_list um)"
    and "om_ok (m_user_list um)"
  using assms by (auto simp: um_inv_def)

lemma find_user_id: "um_inv um \<Longrightarrow> find_user um k = Some u \<Longrightarrow> u_user_id u = k"
  by (auto simp: um_inv_def find_user_def dest!: map_of_SomeD)

lemma find_user_below: "um_inv um \<Longrightarrow> find_user um k = Some u \<Longrightarrow> k < um_next_id um"
  unfolding find_user_def by (rule ids_below_lookup [OF um_invD(1)])

lemma um_inv_names:
  assumes "um_inv um" and "(j, u) \<in> set (m_user_list um)" and "(k, v) \<in> set (m_user_list um)"
    and "u_user_name u = u_user_name v"
  shows "(j, u) = (k, v)"
proof -
  have "inj_on (\<lambda>e. u_user_name (snd e)) (set (m_user_list um))"
    using assms(1) by (simp add: um_inv_def distinct_map)
  from inj_onD [OF this, of "(j, u)" "(k, v)"] assms(2-4) show ?thesis by simp
qed

lemma find_user_by_name_iff:
  assumes "um_inv um"
  shows "find_user_by_name um name = Some u \<longleftrightarrow>
     find_user um (u_user_id u) = Some u \<and> u_user_name u = name"
proof
  assume "find_user_by_name um name = Some u"
  then obtain k where k: "(k, u) \<in> set (m_user_list um)" "u_user_name u = name"
    unfolding find_user_by_name_def by (rule om_find_if_SomeE)
  with assms have "u_user_id u = k" by (auto simp: um_inv_def)
  with k um_invD(3) [OF assms] show "find_user um (u_user_id u) = Some u \<and> u_user_name u = name"
    by (simp add: find_user_def om_ok_map_of)
next
  assume *: "find_user um (u_user_id u) = Some u \<and> u_user_name u = name"
  then have u: "(u_user_id u, u) \<in> set (m_user_list um)"
    by (auto simp: find_user_def dest: map_of_SomeD)
  show "find_user_by_name um name = Some u"
    unfolding find_user_by_name_def
  proof (rule om_find_if_eqI [OF u])
    fix j w assume "(j, w) \<in> set (m_user_list um)" "u_user_name w = name"
    with um_inv_names [OF assms _ u] * show "w = u" by blast
  qed (use * in simp)
qed

lemma find_user_by_name_None:
  "find_user_by_name um name = None \<longleftrightarrow> (\<forall>(k, u) \<in> set (m_user_list um). u_user_name u \<noteq> name)"
  by (simp add: find_user_by_name_def om_find_if_None)

section \<open>Every operation keeps the invariant\<close>

lemma register_user_cases:
  assumes "um_inv um"
  obtains (taken) v where "find_user_by_name um username = Some v"
      and "register_user username password root um = (Inl (Thrown (Resource ERR_USER_ALREADY_EXIST)), um)"
    | (fresh) "find_user_by_name um username = None"
      and "register_user username password root um =
        (Inr (new_user (um_next_id um) username password),
         um\<lparr>m_user_list := m_user_list um @ [(um_next_id um, new_user (um_next_id um) username password)],
            m_root_user_list := (if root then insert (um_next_id um) (m_root_user_list um)
                                 else m_root_user_list um),
            um_next_id := um_next_id um + 1\<rparr>)"
proof (cases "find_user_by_name um username")
  case None
  have ids: "ids_below (m_user_list um) (um_next_id um)" by (rule um_invD [OF assms])
  show ?thesis
    by (rule fresh [OF None])
       (simp add: register_user_def None new_user_def Let_def ids_below_fresh [OF ids]
          ids_below_insert_eq [OF ids])
next
  case (Some v)
  then show ?thesis by (intro taken [OF Some]) (simp add: register_user_def)
qed

lemma um_inv_register: "um_inv um \<Longrightarrow> register_user n p root um = (r, um') \<Longrightarrow> um_inv um'"
proof -
  assume inv: "um_inv um" and r: "register_user n p root um = (r, um')"
  have ids: "ids_below (m_user_list um) (um_next_id um)" by (rule um_invD [OF inv])
  from inv show "um_inv um'"
  proof (cases rule: register_user_cases [where username = n and password = p and root = root])
    case fresh
    with r have um': "um' = um\<lparr>m_user_list := m_user_list um @ [(um_next_id um, new_user (um_next_id um) n p)],
        m_root_user_list := (if root then insert (um_next_id um) (m_root_user_list um)
                             else m_root_user_list um),
        um_next_id := um_next_id um + 1\<rparr>" by simp
    have "ids_below (m_user_list um') (um_next_id um')"
      using ids_below_insert [OF ids, of "new_user (um_next_id um) n p"]
      by (simp add: um' ids_below_insert_eq [OF ids])
    moreover have "n \<notin> (\<lambda>e. u_user_name (snd e)) ` set (m_user_list um)"
      using fresh(1) by (auto simp: find_user_by_name_None)
    ultimately show ?thesis
      using inv unfolding um_inv_def um' by (auto simp: new_user_def)
  qed (use inv r in auto)
qed

lemma um_inv_remove: "um_inv um \<Longrightarrow> um_inv (remove_user k um)"
  unfolding um_inv_def remove_user_def by (auto simp: set_om_erase ids_below_erase) (simp add: om_erase_def distinct_map_filter)

lemma um_inv_login: "um_inv um \<Longrightarrow> um_inv (snd (login_user uid pw c um))"
proof -
  assume inv: "um_inv um"
  have "um_inv (um\<lparr>m_user_list := om_update uid (\<lambda>u. u\<lparr>u_conn_id := c\<rparr>) (m_user_list um)\<rparr>)"
    by (rule um_inv_update [OF inv]) simp_all
  then have "um_inv (um\<lparr>m_user_list := om_update uid (\<lambda>u. u\<lparr>u_conn_id := c\<rparr>) (m_user_list um),
      m_login_user_list := om_insert c uid (m_login_user_list um)\<rparr>)"
    by (simp add: um_inv_def)
  with inv show ?thesis by (auto simp: login_user_def split: option.split)
qed

lemma um_inv_kick: "um_inv um \<Longrightarrow> um_kick_out_user c um = (r, um') \<Longrightarrow> um_inv um'"
proof -
  assume inv: "um_inv um" and r: "um_kick_out_user c um = (r, um')"
  have "um_inv (um\<lparr>m_user_list := om_update k (\<lambda>u. u\<lparr>u_conn_id := 0\<rparr>) (m_user_list um)\<rparr>)" for k
    by (rule um_inv_update [OF inv]) simp_all
  then have "um_inv (um\<lparr>m_user_list := om_update k (\<lambda>u. u\<lparr>u_conn_id := 0\<rparr>) (m_user_list um),
      m_login_user_list := om_erase c (m_login_user_list um)\<rparr>)" for k
    by (simp add: um_inv_def)
  with inv r show ?thesis
    by (auto simp: um_kick_out_user_def get_login_user_def find_login_user_def
        split: sum.splits option.splits)
qed

lemma um_inv_heartbeat: "um_inv um \<Longrightarrow> heartbeat now uid um = (r, um') \<Longrightarrow> um_inv um'"
  by (auto simp: heartbeat_def split: sum.splits intro!: um_inv_update)

lemma um_inv_sweep: "um_inv um \<Longrightarrow> sweep_login_users now cs um = (r, um') \<Longrightarrow> um_inv um'"
  by (induction now cs um rule: sweep_login_users.induct)
     (auto split: sum.splits if_splits prod.splits dest: um_inv_kick)

lemmas um_inv_intros = um_inv_register um_inv_remove um_inv_login um_inv_kick um_inv_heartbeat

text \<open>The shared contract of the managers.\<close>

definition register_user_id :: "string \<times> string \<times> bool \<Rightarrow> (user_manager, int) exec" where
  "register_user_id a = (\<lambda>um. case register_user (fst a) (fst (snd a)) (snd (snd a)) um of
     (Inl e, t) \<Rightarrow> (Inl e, t) | (Inr u, t) \<Rightarrow> (Inr (u_user_id u), t))"

definition has_user :: "user_manager \<Rightarrow> int \<Rightarrow> bool" where
  "has_user um k \<longleftrightarrow> find_user um k \<noteq> None"

lemma register_user_id_cases:
  assumes "um_inv um" and "register_user_id a um = (r, um')"
  obtains "um' = um" and "\<exists>e. r = Inl e"
    | u where "r = Inr (um_next_id um)" and "um_next_id um' = um_next_id um + 1"
      and "map_of (m_user_list um') = (map_of (m_user_list um))(um_next_id um \<mapsto> u)"
proof -
  note ids = um_invD(1) [OF assms(1)]
  from assms(1) show ?thesis
  proof (cases rule: register_user_cases [where username = "fst a" and
        password = "fst (snd a)" and root = "snd (snd a)"])
    case (taken v)
    with assms(2) show ?thesis by (intro that(1)) (auto simp: register_user_id_def)
  next
    case fresh
    let ?u = "new_user (um_next_id um) (fst a) (fst (snd a))"
    have "map_of (m_user_list um @ [(um_next_id um, ?u)]) = (map_of (m_user_list um))(um_next_id um \<mapsto> ?u)"
      using map_of_om_insert_fresh [OF ids_below_ok [OF ids] ids_below_fresh [OF ids], of ?u]
      by (simp add: ids_below_insert_eq [OF ids])
    with fresh assms(2) show ?thesis
      by (intro that(2) [of ?u]) (auto simp: register_user_id_def new_user_def)
  qed
qed

interpretation user_registry:
  registry has_user um_next_id um_inv register_user_id remove_user
proof
  fix um um' :: user_manager and a r and j k :: int
  assume inv: "um_inv um"
  show "has_user um k \<Longrightarrow> k < um_next_id um"
    using find_user_below [OF inv] by (auto simp: has_user_def)
  show "um_inv (remove_user k um)" and "um_next_id (remove_user k um) = um_next_id um"
    and "has_user (remove_user k um) j \<Longrightarrow> has_user um j \<and> j \<noteq> k"
    using um_inv_remove [OF inv, of k]
    by (auto simp: has_user_def remove_user_def find_user_def split: if_splits)
  assume r: "register_user_id a um = (r, um')"
  then show "um_inv um'"
    using um_inv_register [OF inv] by (auto simp: register_user_id_def split: prod.splits sum.splits)
  show "um_next_id um \<le> um_next_id um'"
    by (rule register_user_id_cases [OF inv r]) auto
  show "has_user um' j \<Longrightarrow> has_user um j \<or> um_next_id um \<le> j" and "has_user um j \<Longrightarrow> has_user um' j"
    by (rule register_user_id_cases [OF inv r]; force simp: has_user_def find_user_def split: if_splits)+
next
  fix um um' :: user_manager and a and k :: int
  assume inv: "um_inv um" and r: "register_user_id a um = (Inr k, um')"
  show "k = um_next_id um \<and> um_next_id um' = k + 1 \<and> has_user um' k"
    by (rule register_user_id_cases [OF inv r]) (auto simp: has_user_def find_user_def)
qed

section \<open>What the operations do\<close>

lemma find_user_register:
  assumes "um_inv um" and "register_user n p root um = (Inr u, um')"
  shows "find_user um' k = (if k = um_next_id um then Some u else find_user um k) \<and>
    u = new_user (um_next_id um) n p"
  using assms(1)
proof (cases rule: register_user_cases [where username = n and password = p and root = root])
  case fresh
  note ids = um_invD(1) [OF assms(1)]
  have "map_of (m_user_list um @ [(um_next_id um, w)]) = (map_of (m_user_list um))(um_next_id um \<mapsto> w)" for w
    using map_of_om_insert_fresh [OF ids_below_ok [OF ids] ids_below_fresh [OF ids], of w]
    by (simp add: ids_below_insert_eq [OF ids])
  with fresh assms(2) show ?thesis
    by (auto simp: find_user_def)
qed (use assms(2) in auto)

lemma sweep_cases:
  assumes "sweep_login_users now cs um = (r, um')"
    and "set cs \<subseteq> set (m_login_user_list um)" and "om_ok (m_login_user_list um)"
  shows "(r = Inr () \<and> um' = um \<and> (\<forall>(c, k) \<in> set cs. \<exists>u. find_user um k = Some u \<and> \<not> overdue now u))
       \<or> (r = Inl (Thrown (Resource ERR_USER_NOT_EXIST)) \<and> um' = um \<and> (\<exists>(c, k) \<in> set cs. find_user um k = None))
       \<or> (r = Inl Undefined \<and> (\<exists>(c, k) \<in> set cs. \<exists>u. find_user um k = Some u \<and> overdue now u))"
  using assms
proof (induction now cs um rule: sweep_login_users.induct)
  case (2 now c k rest um)
  show ?case
  proof (cases "find_user um k")
    case (Some u)
    show ?thesis
    proof (cases "overdue now u")
      case True
      have "map_of (m_login_user_list um) c = Some k"
        using "2.prems"(2,3) om_ok_map_of by fastforce
      with Some True "2.prems"(1) show ?thesis
        by (auto simp: get_user_def um_kick_out_user_def get_login_user_def find_login_user_def)
    next
      case False
      with Some 2 have "sweep_login_users now rest um = (r, um')"
        by (simp add: get_user_def)
      with "2.IH" [of u] Some False "2.prems" show ?thesis
        by (auto simp: get_user_def)
    qed
  qed (use "2.prems" in \<open>auto simp: get_user_def\<close>)
qed auto

section \<open>Properties\<close>

text \<open>
  Registration. From a well-formed manager, \<open>register_user\<close> fails exactly when the name
  is taken, with \<open>ERR_USER_ALREADY_EXIST\<close> and no change; otherwise the account gets the
  counter's id, is found afterwards under its id and its name, is not logged in, is a root
  user exactly when asked for, and no other account changes.
\<close>

theorem register_user_spec:
  assumes "um_inv um" and "register_user username password is_root um = (r, um')"
  shows "if (\<exists>k u. find_user um k = Some u \<and> u_user_name u = username)
    then r = Inl (Thrown (Resource ERR_USER_ALREADY_EXIST)) \<and> um' = um
    else r = Inr (new_user (um_next_id um) username password) \<and>
      find_user um' (um_next_id um) = Some (new_user (um_next_id um) username password) \<and>
      find_user_by_name um' username = Some (new_user (um_next_id um) username password) \<and>
      (\<forall>k. k \<noteq> um_next_id um \<longrightarrow> find_user um' k = find_user um k) \<and>
      (is_root_user um' (um_next_id um) \<longleftrightarrow> is_root) \<and>
      m_login_user_list um' = m_login_user_list um"
proof -
  have name: "(\<exists>k u. find_user um k = Some u \<and> u_user_name u = username) \<longleftrightarrow>
      (\<exists>u. find_user_by_name um username = Some u)"
    using find_user_by_name_iff [OF assms(1)] find_user_id [OF assms(1)] by metis
  from assms(1) show ?thesis
  proof (cases rule: register_user_cases [where username = username and password = password and root = is_root])
    case fresh
    let ?u = "new_user (um_next_id um) username password"
    have r: "r = Inr ?u" using assms(2) fresh by simp
    note reg = find_user_register [OF assms(1), of username password is_root ?u um']
    have inv: "um_inv um'" by (rule um_inv_register [OF assms])
    have "find_user um' (um_next_id um) = Some ?u" using reg assms(2) r by simp
    then have "find_user_by_name um' username = Some ?u"
      using find_user_by_name_iff [OF inv] by (simp add: new_user_def)
    moreover have "um_next_id um \<notin> m_root_user_list um"
      using assms(1) by (auto simp: um_inv_def)
    ultimately show ?thesis
      using fresh name reg assms(2) r by (auto simp: is_root_user_def)
  qed (use assms(2) name in auto)
qed

theorem register_user_spec_witness:
  "fst (register_user ''root'' ''pwd'' True empty_user_manager) = Inr (new_user 1 ''root'' ''pwd'')"
proof -
  obtain r um' where r: "register_user ''root'' ''pwd'' True empty_user_manager = (r, um')" by fastforce
  from register_user_spec [OF um_inv_empty r] r show ?thesis
    by (simp add: find_user_def empty_user_manager_def)
qed

text \<open>
  A removed account never returns: whatever is registered and removed afterwards, its id
  names no account and is not handed out again, so no connection that was logged in as that
  user authenticates as somebody else.
\<close>

theorem removed_user_gone:
  assumes "um_inv um" and "find_user um k = Some u"
    and "map_of (m_login_user_list um) c = Some k"
  shows "find_user (snd (run_ops register_user_id remove_user ops (remove_user k um))) k = None \<and>
    k \<notin> set (fst (run_ops register_user_id remove_user ops (remove_user k um))) \<and>
    get_login_user (remove_user k um) c = Inl (Thrown (Resource ERR_USER_NOT_LOGIN))"
  using user_registry.removed_never_reused [OF assms(1), of k ops] assms(2,3)
  by (auto simp: has_user_def get_login_user_def find_login_user_def remove_user_def find_user_def)

definition example_users :: user_manager where
  "example_users =
     \<lparr>m_user_list = [(1, \<lparr>u_user_id = 1, u_user_name = ''root'', u_password = ''pwd'',
                          u_group_list = [], u_conn_id = 7, u_last_hearbeat = 100\<rparr>),
                     (2, new_user 2 ''ann'' ''x'')],
      m_root_user_list = {1}, m_login_user_list = [(7, 1)], um_next_id = 3\<rparr>"

lemma um_inv_example: "um_inv example_users"
  by (simp add: um_inv_def example_users_def ids_below_def new_user_def)

theorem removed_user_gone_witness:
  "find_user (snd (run_ops register_user_id remove_user [Register (''root'', ''pwd'', True)]
     (remove_user 1 example_users))) 1 = None"
  using removed_user_gone [OF um_inv_example, of 1 _ 7 "[Register (''root'', ''pwd'', True)]"]
  by (simp add: find_user_def example_users_def)

text \<open>
  C25. Login. It succeeds exactly for an existing account with its password. On success the
  connection is bound to the account only if it was bound to none: \<open>std::map::insert\<close> does
  not overwrite, so a connection that logs in a second time is told that it succeeded and
  goes on acting as the first user.
\<close>

theorem login_user_binding:
  assumes "um_inv um" and "login_user user_id password conn_id um = (ok, um')"
  shows "(ok \<longleftrightarrow> (\<exists>u. find_user um user_id = Some u \<and> u_password u = password)) \<and>
    (\<not> ok \<longrightarrow> um' = um) \<and>
    (ok \<longrightarrow> map_of (m_login_user_list um') conn_id =
       (case map_of (m_login_user_list um) conn_id of None \<Rightarrow> Some user_id | Some v \<Rightarrow> Some v)) \<and>
    (\<forall>c. c \<noteq> conn_id \<longrightarrow> map_of (m_login_user_list um') c = map_of (m_login_user_list um) c)"
  using assms um_invD(2) [OF assms(1)]
  by (auto simp: login_user_def map_of_om_insert domIff split: option.splits if_splits)

theorem login_user_binding_witness:
  "fst (login_user 2 ''x'' 7 example_users) \<and>
   map_of (m_login_user_list (snd (login_user 2 ''x'' 7 example_users))) 7 = Some 1"
  using login_user_binding [OF um_inv_example, of 2 "''x''" 7 _ "snd (login_user 2 ''x'' 7 example_users)"]
  by (auto simp: example_users_def login_user_def find_user_def new_user_def)

text \<open>
  The sweep for offline users never completes a kick. It ends normally exactly when every
  logged-in account exists and none is overdue, and then it changed nothing; it throws
  \<open>ERR_USER_NOT_EXIST\<close> at a logged-in connection whose account was removed; and it runs into
  undefined behaviour at the first overdue user, since \<open>kick_out_user\<close> erases the entry that
  the range-based \<open>for\<close> stands on.
\<close>

theorem kick_out_offline_users_outcomes:
  assumes "um_inv um" and "kick_out_offline_users now um = (r, um')"
  shows "(r = Inr () \<longleftrightarrow> (\<forall>(c, k) \<in> set (m_login_user_list um).
            \<exists>u. find_user um k = Some u \<and> \<not> overdue now u)) \<and>
    (r = Inr () \<longrightarrow> um' = um) \<and>
    (r \<noteq> Inr () \<longrightarrow> r = Inl (Thrown (Resource ERR_USER_NOT_EXIST)) \<and> um' = um \<or> r = Inl Undefined)"
  using sweep_cases [of now "m_login_user_list um" um r um'] assms um_invD(2) [OF assms(1)]
  by (auto simp: kick_out_offline_users_def)

theorem kick_out_offline_users_outcomes_witness:
  "fst (kick_out_offline_users 151 example_users) = Inl Undefined \<and>
   fst (kick_out_offline_users 150 example_users) = Inr ()"
proof -
  have "\<exists>u. find_user example_users 1 = Some u \<and> u_last_hearbeat u = 100"
    by (simp add: find_user_def example_users_def)
  then show ?thesis
    using kick_out_offline_users_outcomes [OF um_inv_example surjective_pairing, of 150]
      kick_out_offline_users_outcomes [OF um_inv_example surjective_pairing, of 151]
    by (auto simp: example_users_def find_user_def kick_out_offline_users_def overdue_def
        MAX_NO_HEARTBEAT_SEC_def get_user_def um_kick_out_user_def get_login_user_def find_login_user_def)
qed

end
