(* ===== verification/Paths.thy ===== *)
theory Paths
  imports Prelude "HOL-Library.Sublist"
begin

text \<open>
  \<open>FilePath\<close> of \<open>resource_server/core.{h,cpp}\<close>. A path object is the string that its
  constructor leaves in \<open>m_path\<close>; the constructor trims, replaces separators and strips one
  separator at each end.

  The string functions of the POCO library that it calls are parameters, fields of a record
  that every definition using them takes. \<open>empty_char\<close> is what \<open>front()\<close> and \<open>back()\<close> do
  on an empty string, which the C++ standard leaves undefined: \<open>None\<close> when the
  implementation traps, \<open>Some c\<close> when it reads a character. \<open>poco_ok\<close> states what the
  POCO documentation says of the functions.
\<close>

record poco =
  trim_p :: "string \<Rightarrow> string"                              \<comment> \<open>\<open>Poco::trimInPlace\<close>\<close>
  replace_p :: "string \<Rightarrow> string \<Rightarrow> string \<Rightarrow> string"      \<comment> \<open>\<open>Poco::replaceInPlace\<close>\<close>
  tokens_p :: "string \<Rightarrow> string \<Rightarrow> string list"            \<comment> \<open>\<open>Poco::StringTokenizer\<close>\<close>
  empty_char :: "char option"

definition SEPARATOR :: string where
  "SEPARATOR = ''/''"

definition ROOT :: string where
  "ROOT = []"

definition front_char :: "poco \<Rightarrow> string \<Rightarrow> char option" where
  "front_char P s = (case s of [] \<Rightarrow> empty_char P | c # _ \<Rightarrow> Some c)"

definition back_char :: "poco \<Rightarrow> string \<Rightarrow> char option" where
  "back_char P s = (if s = [] then empty_char P else Some (last s))"

text \<open>
  \<open>erase(0, 1)\<close> on an empty string removes nothing; \<open>resize(size() - 1)\<close> on an empty
  string asks for the largest size and throws \<open>std::length_error\<close>.
\<close>

definition make_path :: "poco \<Rightarrow> string \<Rightarrow> string res" where
  "make_path P path =
     (let p1 = trim_p P path;
          p2 = replace_p P p1 [CHR 0x5C] SEPARATOR;
          p3 = replace_p P p2 ''//'' SEPARATOR
      in case front_char P p3 of
           None \<Rightarrow> Inl Undefined
         | Some c \<Rightarrow>
             (let p4 = (if c = hd SEPARATOR then drop 1 p3 else p3)
              in case back_char P p4 of
                   None \<Rightarrow> Inl Undefined
                 | Some d \<Rightarrow>
                     (if d = hd SEPARATOR
                      then if p4 = [] then Inl Std_exception else Inr (butlast p4)
                      else Inr p4)))"

definition split_path :: "poco \<Rightarrow> string \<Rightarrow> string list" where
  "split_path P m_path = tokens_p P m_path SEPARATOR"

text \<open>\<open>std::string::rfind\<close> of the separator: \<open>None\<close> for \<open>npos\<close>.\<close>

definition rfind_sep :: "string \<Rightarrow> nat option" where
  "rfind_sep s = (if hd SEPARATOR \<in> set s
     then Some (length s - 1 - length (takeWhile (\<lambda>c. c \<noteq> hd SEPARATOR) (rev s))) else None)"

definition directory_path :: "string \<Rightarrow> string" where
  "directory_path m_path = (case rfind_sep m_path of
     Some pos \<Rightarrow> take pos m_path | None \<Rightarrow> ROOT)"

definition filename :: "string \<Rightarrow> string" where
  "filename m_path = (case rfind_sep m_path of
     Some pos \<Rightarrow> take (length m_path - pos - 1) (drop (pos + 1) m_path) | None \<Rightarrow> m_path)"

section \<open>What the POCO functions do\<close>

text \<open>A path as the concatenation of its components.\<close>

fun join_path :: "string list \<Rightarrow> string" where
  "join_path [] = []"
| "join_path [t] = t"
| "join_path (t # ts) = t @ SEPARATOR @ join_path ts"

definition component :: "string \<Rightarrow> bool" where
  "component t \<longleftrightarrow> t \<noteq> [] \<and> CHR 0x2F \<notin> set t \<and> CHR 0x5C \<notin> set t"

definition is_white :: "char \<Rightarrow> bool" where
  "is_white c \<longleftrightarrow> c \<in> {CHR '' '', CHR 0x09, CHR 0x0A, CHR 0x0B, CHR 0x0C, CHR 0x0D}"

text \<open>
  \<open>trimInPlace\<close> removes white space at the ends only; \<open>replaceInPlace\<close> leaves a string
  without an occurrence of its search string alone; a \<open>StringTokenizer\<close> without options
  yields the parts between separators, and none for the empty string.
\<close>

definition poco_ok :: "poco \<Rightarrow> bool" where
  "poco_ok P \<longleftrightarrow>
     (\<forall>s. s = [] \<or> \<not> is_white (hd s) \<and> \<not> is_white (last s) \<longrightarrow> trim_p P s = s) \<and>
     (\<forall>s from to. \<not> sublist from s \<longrightarrow> replace_p P s from to = s) \<and>
     (\<forall>ts. (\<forall>t \<in> set ts. component t) \<longrightarrow> tokens_p P (join_path ts) SEPARATOR = ts)"

section \<open>Lemmas on separators\<close>

lemma rfind_sep_split:
  assumes "CHR 0x2F \<notin> set b"
  shows "rfind_sep (a @ CHR 0x2F # b) = Some (length a)"
proof -
  have "takeWhile (\<lambda>c. c \<noteq> CHR 0x2F) (rev b @ CHR 0x2F # rev a) = rev b"
    using assms by (subst takeWhile_append2) auto
  then show ?thesis by (simp add: rfind_sep_def SEPARATOR_def)
qed

lemma rfind_sep_none: "CHR 0x2F \<notin> set s \<Longrightarrow> rfind_sep s = None"
  by (simp add: rfind_sep_def SEPARATOR_def)

lemma last_sep_cases:
  obtains "CHR 0x2F \<notin> set s" | a b where "s = a @ CHR 0x2F # b" and "CHR 0x2F \<notin> set b"
  by (metis split_list_last)

lemma directory_filename:
  "CHR 0x2F \<notin> set b \<Longrightarrow> directory_path (a @ CHR 0x2F # b) = a"
  "CHR 0x2F \<notin> set b \<Longrightarrow> filename (a @ CHR 0x2F # b) = b"
  "CHR 0x2F \<notin> set s \<Longrightarrow> directory_path s = []"
  "CHR 0x2F \<notin> set s \<Longrightarrow> filename s = s"
  by (simp_all add: directory_path_def filename_def rfind_sep_split rfind_sep_none ROOT_def)

lemma join_path_Cons: "ts \<noteq> [] \<Longrightarrow> join_path (t # ts) = t @ CHR 0x2F # join_path ts"
  by (cases ts) (simp_all add: SEPARATOR_def)

lemma join_path_snoc:
  "ts \<noteq> [] \<Longrightarrow> join_path (ts @ [t]) = join_path ts @ CHR 0x2F # t"
  by (induction ts rule: join_path.induct) (simp_all add: SEPARATOR_def join_path_Cons)

lemma join_path_no_backslash:
  "\<forall>t \<in> set ts. component t \<Longrightarrow> CHR 0x5C \<notin> set (join_path ts)"
  by (induction ts rule: join_path.induct) (auto simp: component_def SEPARATOR_def)

lemma join_path_nonempty: "\<forall>t \<in> set ts. component t \<Longrightarrow> ts \<noteq> [] \<Longrightarrow> join_path ts \<noteq> []"
  by (cases ts rule: join_path.cases) (auto simp: component_def)

lemma join_path_hd:
  "\<forall>t \<in> set ts. component t \<Longrightarrow> ts \<noteq> [] \<Longrightarrow> hd (join_path ts) = hd (hd ts)"
  by (cases ts rule: join_path.cases) (auto simp: component_def)

lemma join_path_last:
  "\<forall>t \<in> set ts. component t \<Longrightarrow> ts \<noteq> [] \<Longrightarrow> last (join_path ts) = last (last ts)"
proof (induction ts rule: join_path.induct)
  case (3 t u ts)
  then show ?case using join_path_nonempty [of "u # ts"] by (simp add: SEPARATOR_def)
qed simp_all

lemma component_ends:
  "component t \<Longrightarrow> hd t \<noteq> CHR 0x2F" "component t \<Longrightarrow> last t \<noteq> CHR 0x2F"
  unfolding component_def by (metis hd_in_set, metis last_in_set)

lemma not_sublist_char: "c \<notin> set s \<Longrightarrow> \<not> sublist (c # cs) s"
  using set_mono_sublist by fastforce

lemma no_double_sep:
  assumes "CHR 0x2F \<notin> set t" and "\<not> sublist ''//'' r" and "r = [] \<or> hd r \<noteq> CHR 0x2F"
  shows "\<not> sublist ''//'' (t @ CHR 0x2F # r)"
  using assms(1)
proof (induction t)
  case Nil
  from assms(2,3) show ?case by (cases r) (auto simp: sublist_Cons_right)
next
  case (Cons c t)
  then show ?case by (auto simp: sublist_Cons_right)
qed

lemma join_path_no_double:
  "\<forall>t \<in> set ts. component t \<Longrightarrow> \<not> sublist ''//'' (join_path ts)"
proof (induction ts rule: join_path.induct)
  case (2 t)
  then have "CHR 0x2F \<notin> set t" by (simp add: component_def)
  then show ?case by (simp add: not_sublist_char)
next
  case (3 t u ts)
  then show ?case
    using component_ends(1) [of u] no_double_sep [of t "join_path (u # ts)"] join_path_hd [of "u # ts"]
    by (simp add: SEPARATOR_def component_def)
qed simp

section \<open>Paths made of components\<close>

text \<open>The paths that the constructor leaves alone: components joined by single separators,
  without white space at the ends.\<close>

definition plain_components :: "string list \<Rightarrow> bool" where
  "plain_components ts \<longleftrightarrow> (\<forall>t \<in> set ts. component t) \<and>
     (ts \<noteq> [] \<longrightarrow> \<not> is_white (hd (hd ts)) \<and> \<not> is_white (last (last ts)))"

lemma make_path_plain:
  assumes "poco_ok P" and "plain_components ts" and "ts \<noteq> []"
  shows "make_path P (join_path ts) = Inr (join_path ts)"
proof -
  let ?s = "join_path ts"
  have comp: "\<forall>t \<in> set ts. component t" using assms(2) by (simp add: plain_components_def)
  note ne = join_path_nonempty [OF comp assms(3)]
  note ends = join_path_hd [OF comp assms(3)] join_path_last [OF comp assms(3)]
  have "component (hd ts)" and "component (last ts)" using comp assms(3) by auto
  then have hl: "hd ?s \<noteq> CHR 0x2F" "last ?s \<noteq> CHR 0x2F" by (simp_all add: ends component_ends)
  have "trim_p P ?s = ?s"
    using assms by (simp add: poco_ok_def plain_components_def ends)
  moreover have "replace_p P ?s [CHR 0x5C] SEPARATOR = ?s"
    using assms(1) not_sublist_char [OF join_path_no_backslash [OF comp]] by (simp add: poco_ok_def)
  moreover have "replace_p P ?s ''//'' SEPARATOR = ?s"
    using assms(1) join_path_no_double [OF comp] by (simp add: poco_ok_def)
  ultimately show ?thesis
    using ne hl by (cases ?s) (simp_all add: make_path_def front_char_def back_char_def SEPARATOR_def)
qed

lemma split_path_join:
  "poco_ok P \<Longrightarrow> \<forall>t \<in> set ts. component t \<Longrightarrow> split_path P (join_path ts) = ts"
  by (simp add: split_path_def poco_ok_def)

lemma directory_filename_join:
  assumes "\<forall>t \<in> set (ts @ [t]). component t"
  shows "directory_path (join_path (ts @ [t])) = join_path ts"
    and "filename (join_path (ts @ [t])) = t"
proof -
  have "CHR 0x2F \<notin> set t" using assms by (simp add: component_def)
  then show "directory_path (join_path (ts @ [t])) = join_path ts"
    and "filename (join_path (ts @ [t])) = t"
    by (cases "ts = []"; simp add: directory_filename join_path_snoc)+
qed

section \<open>An instance of the parameters\<close>

text \<open>
  Functions that behave as documented, so that the hypothesis \<open>poco_ok\<close> can hold and the
  definitions can be evaluated.
\<close>

function replace_all :: "string \<Rightarrow> string \<Rightarrow> string \<Rightarrow> string" where
  "replace_all [] from to = []"
| "replace_all (c # s) from to =
     (if from \<noteq> [] \<and> prefix from (c # s)
      then to @ replace_all (drop (length from - 1) s) from to
      else c # replace_all s from to)"
  by pat_completeness auto

termination
  by (relation "measure (\<lambda>(s, from, to). length s)") auto

function split_on :: "string \<Rightarrow> string \<Rightarrow> string list" where
  "split_on s seps =
     (if s = [] then []
      else case dropWhile (\<lambda>c. c \<notin> set seps) s of
        [] \<Rightarrow> [s]
      | _ # r \<Rightarrow> takeWhile (\<lambda>c. c \<notin> set seps) s # (if r = [] then [[]] else split_on r seps))"
  by pat_completeness auto

termination
proof (relation "measure (\<lambda>(s, seps). length s)")
  fix s seps :: string and c r
  assume "dropWhile (\<lambda>c. c \<notin> set seps) s = c # r"
  then have "length (c # r) \<le> length s" by (metis length_dropWhile_le)
  then show "((r, seps), (s, seps)) \<in> measure (\<lambda>(s, seps). length s)" by simp
qed simp

declare split_on.simps [simp del]

definition std_poco :: "char option \<Rightarrow> poco" where
  "std_poco c =
     \<lparr>trim_p = (\<lambda>s. rev (dropWhile is_white (rev (dropWhile is_white s)))),
      replace_p = replace_all, tokens_p = split_on, empty_char = c\<rparr>"

lemma replace_all_none: "\<not> sublist f s \<Longrightarrow> replace_all s f t = s"
  by (induction s f t rule: replace_all.induct) (auto simp: sublist_Cons_right)

lemma split_on_join:
  "\<forall>t \<in> set ts. component t \<Longrightarrow> split_on (join_path ts) SEPARATOR = ts"
proof (induction ts rule: join_path.induct)
  case 1
  show ?case by (simp add: split_on.simps)
next
  case (2 t)
  then have "t \<noteq> []" and no: "dropWhile (\<lambda>c. c \<noteq> CHR 0x2F) t = []"
    by (auto simp: component_def)
  then show ?case by (subst split_on.simps) (simp add: SEPARATOR_def no del: dropWhile_eq_Nil_conv)
next
  case (3 t u ts)
  then have no: "\<forall>c \<in> set t. c \<noteq> CHR 0x2F" and rest: "join_path (u # ts) \<noteq> []"
    using join_path_nonempty [of "u # ts"] by (auto simp: component_def)
  have drop: "dropWhile (\<lambda>c. c \<noteq> CHR 0x2F) (t @ CHR 0x2F # join_path (u # ts)) = CHR 0x2F # join_path (u # ts)"
    and take: "takeWhile (\<lambda>c. c \<noteq> CHR 0x2F) (t @ CHR 0x2F # join_path (u # ts)) = t"
    using no by (simp_all add: dropWhile_append2 takeWhile_append2)
  have "split_on (join_path (t # u # ts)) SEPARATOR = t # split_on (join_path (u # ts)) SEPARATOR"
    using rest by (subst split_on.simps) (simp add: SEPARATOR_def drop take)
  with 3 show ?case by simp
qed

lemma trim_ends:
  assumes "s = [] \<or> \<not> is_white (hd s) \<and> \<not> is_white (last s)"
  shows "rev (dropWhile is_white (rev (dropWhile is_white s))) = s"
proof (cases "s = []")
  case False
  with assms have "dropWhile is_white s = s" by (cases s) auto
  moreover have "dropWhile is_white (rev s) = rev s"
    using assms False by (cases s rule: rev_cases) auto
  ultimately show ?thesis by simp
qed simp

lemma poco_ok_std: "poco_ok (std_poco c)"
  using trim_ends replace_all_none split_on_join by (simp add: poco_ok_def std_poco_def)

section \<open>Properties\<close>

text \<open>
  Paths and their components. A path of components survives the constructor, \<open>split\<close>
  gives back the components, \<open>directory_path\<close> is the path of all but the last and
  \<open>filename\<close> the last one.
\<close>

theorem path_components:
  assumes "poco_ok P" and "plain_components ts" and "ts \<noteq> []"
  shows "make_path P (join_path ts) = Inr (join_path ts) \<and>
    split_path P (join_path ts) = ts \<and>
    directory_path (join_path ts) = join_path (butlast ts) \<and>
    filename (join_path ts) = last ts"
proof -
  have comp: "\<forall>t \<in> set ts. component t" using assms(2) by (simp add: plain_components_def)
  then have "\<forall>t \<in> set (butlast ts @ [last ts]). component t" using assms(3) by simp
  from directory_filename_join [OF this] show ?thesis
    using make_path_plain [OF assms] split_path_join [OF assms(1) comp] assms(3) by simp
qed

theorem path_components_witness:
  "make_path (std_poco None) (join_path [''a'', ''b'', ''c'']) = Inr (join_path [''a'', ''b'', ''c'']) \<and>
   directory_path (join_path [''a'', ''b'', ''c'']) = join_path [''a'', ''b'']"
  using path_components [OF poco_ok_std, of "[''a'', ''b'', ''c'']" None]
  by (simp add: plain_components_def component_def is_white_def)

text \<open>
  The directory of a file at the top level. \<open>directory_path\<close> of a name without separator
  is the empty string, and building a path object of the empty string calls \<open>front()\<close> and
  \<open>back()\<close> on it: undefined where the library traps, and a \<open>std::length_error\<close> in
  \<open>resize\<close> where the character read back is a separator. Only otherwise is it the root.
\<close>

theorem root_path_construction:
  assumes "poco_ok P" and "component t"
  shows "make_path P (directory_path t) = (case empty_char P of
    None \<Rightarrow> Inl Undefined
  | Some c \<Rightarrow> if c = CHR 0x2F then Inl Std_exception else Inr ROOT)"
proof -
  have "directory_path t = []" using assms(2) by (simp add: component_def directory_filename)
  moreover have "trim_p P [] = []" using assms(1) unfolding poco_ok_def by blast
  moreover have "replace_p P [] (c # cs) to = []" for c cs to
    using assms(1) unfolding poco_ok_def by simp
  ultimately show ?thesis
    by (simp add: make_path_def front_char_def back_char_def SEPARATOR_def ROOT_def split: option.split)
qed

theorem root_path_construction_witness:
  "make_path (std_poco None) (directory_path ''a.txt'') = Inl Undefined \<and>
   make_path (std_poco (Some (CHR 0x00))) (directory_path ''a.txt'') = Inr ROOT"
  using root_path_construction [OF poco_ok_std, of "''a.txt''" None]
    root_path_construction [OF poco_ok_std, of "''a.txt''" "Some (CHR 0x00)"]
  by (simp add: component_def std_poco_def)

end
