(* ===== verification/Files.thy ===== *)
theory Files
  imports Registry
begin

text \<open>
  \<open>SharingFile\<close>, its three subclasses and \<open>SharingFileManager\<close> of
  \<open>resource_server/core.{h,cpp}\<close>. A file object is a record of the base class's members with
  a body per subclass; the tag \<open>file_type\<close> and the body are separate, as in the code, where a
  \<open>dynamic_cast\<close> on the wrong class is an outcome of its own. The map holds pointers, so a
  write through a reference is an \<open>om_update\<close> at the file's id.
\<close>

section \<open>State\<close>

definition INVALID_ID :: int where
  "INVALID_ID = 0"

datatype file_type = DIRECTORY | GENERAL_FILE | STORAGE_FILE

datatype file_body =
    Sharing_directory "int list"        \<comment> \<open>\<open>file_list\<close>\<close>
  | Sharing_general_file int            \<comment> \<open>\<open>storage_file_id\<close>\<close>
  | Sharing_storage_file int int        \<comment> \<open>\<open>node_id\<close>, \<open>use_counting\<close>\<close>

record sharing_file =
  sf_file_id :: int
  sf_file_type :: file_type
  sf_file_name :: string
  sf_body :: file_body

record file_manager =
  m_file_list :: "(int, sharing_file) omap"
  fm_next_id :: int

definition empty_file_manager :: file_manager where
  "empty_file_manager = \<lparr>m_file_list = [], fm_next_id = 1\<rparr>"

section \<open>Operations\<close>

definition find_file :: "file_manager \<Rightarrow> int \<Rightarrow> sharing_file option" where
  "find_file fm file_id = map_of (m_file_list fm) file_id"

text \<open>
  The search over storage files. The \<open>dynamic_cast\<close> of a pointer yields null on the wrong
  class, whose members are then read: the scan is over the map in order and ends at the first
  match or at the first such object.
\<close>

fun scan_storage :: "int \<Rightarrow> string \<Rightarrow> (int \<times> sharing_file) list \<Rightarrow> sharing_file option res" where
  "scan_storage node_id node_file_name [] = Inr None"
| "scan_storage node_id node_file_name ((k, f) # fs) =
     (if sf_file_type f = STORAGE_FILE then
        (case sf_body f of
           Sharing_storage_file n c \<Rightarrow>
             (if n = node_id \<and> sf_file_name f = node_file_name then Inr (Some f)
              else scan_storage node_id node_file_name fs)
         | _ \<Rightarrow> Inl Undefined)
      else scan_storage node_id node_file_name fs)"

definition find_storage_file :: "file_manager \<Rightarrow> int \<Rightarrow> string \<Rightarrow> sharing_file option res" where
  "find_storage_file fm node_id node_file_name = scan_storage node_id node_file_name (m_file_list fm)"

definition get_file :: "file_manager \<Rightarrow> int \<Rightarrow> sharing_file res" where
  "get_file fm file_id = (case find_file fm file_id of
     None \<Rightarrow> Inl (Thrown (Resource ERR_FILE_NOT_EXIST)) | Some f \<Rightarrow> Inr f)"

definition get_storage_file :: "file_manager \<Rightarrow> int \<Rightarrow> string \<Rightarrow> sharing_file res" where
  "get_storage_file fm node_id node_file_name = (case find_storage_file fm node_id node_file_name of
     Inl e \<Rightarrow> Inl e
   | Inr None \<Rightarrow> Inl (Thrown (Resource ERR_FILE_NOT_EXIST))
   | Inr (Some f) \<Rightarrow> Inr f)"

text \<open>\<open>++use_counting\<close> and \<open>--use_counting\<close> through a reference to a \<open>SharingStorageFile\<close>.\<close>

fun add_use :: "int \<Rightarrow> sharing_file \<Rightarrow> sharing_file" where
  "add_use d f = (case sf_body f of
     Sharing_storage_file n c \<Rightarrow> f\<lparr>sf_body := Sharing_storage_file n (c + d)\<rparr> | _ \<Rightarrow> f)"

definition is_storage_object :: "sharing_file \<Rightarrow> bool" where
  "is_storage_object f = (case sf_body f of Sharing_storage_file _ _ \<Rightarrow> True | _ \<Rightarrow> False)"

text \<open>
  \<open>register_file\<close>: the switch builds the object, and for a general file counts one more use
  of its storage file before the new file is entered.
\<close>

definition new_file_body :: "file_type \<Rightarrow> int \<Rightarrow> (file_manager, file_body) exec" where
  "new_file_body type arg = (\<lambda>fm. case type of
     DIRECTORY \<Rightarrow> (Inr (Sharing_directory []), fm)
   | GENERAL_FILE \<Rightarrow> (case get_file fm arg of
        Inl e \<Rightarrow> (Inl e, fm)
      | Inr f \<Rightarrow>
          if is_storage_object f
          then (Inr (Sharing_general_file arg), fm\<lparr>m_file_list := om_update arg (add_use 1) (m_file_list fm)\<rparr>)
          else (Inl Bad_cast, fm))
   | STORAGE_FILE \<Rightarrow> (Inr (Sharing_storage_file arg 0), fm))"

definition register_file :: "file_type \<Rightarrow> string \<Rightarrow> int \<Rightarrow> (file_manager, sharing_file) exec" where
  "register_file type file_name arg = (\<lambda>fm. case new_file_body type arg fm of
     (Inl e, fm1) \<Rightarrow> (Inl e, fm1)
   | (Inr body, fm1) \<Rightarrow>
       let f = \<lparr>sf_file_id = fm_next_id fm1, sf_file_type = type, sf_file_name = file_name, sf_body = body\<rparr>;
           fm2 = fm1\<lparr>fm_next_id := fm_next_id fm1 + 1\<rparr>
       in if map_of (m_file_list fm2) (sf_file_id f) \<noteq> None
          then (Inl (Thrown (Resource ERR_FILE_ALREADY_EXIST)), fm2)
          else (Inr f, fm2\<lparr>m_file_list := om_insert (sf_file_id f) f (m_file_list fm2)\<rparr>))"

text \<open>
  \<open>remove_file\<close>. Removing a general file also removes its storage file, whatever its use
  count; every call erases an entry before it goes on, so the recursion ends.
\<close>

function remove_file :: "int \<Rightarrow> (file_manager, unit) exec" where
  "remove_file file_id fm =
     (case find_file fm file_id of
        None \<Rightarrow> (Inr (), fm\<lparr>m_file_list := om_erase file_id (m_file_list fm)\<rparr>)
      | Some f \<Rightarrow>
          (let fm1 = fm\<lparr>m_file_list := om_erase file_id (m_file_list fm)\<rparr> in
           if sf_file_type f = GENERAL_FILE then
             (case sf_body f of
                Sharing_general_file sid \<Rightarrow>
                  (case get_file fm1 sid of
                     Inl e \<Rightarrow> (Inl e, fm1)
                   | Inr st \<Rightarrow>
                       if sf_file_type st \<noteq> STORAGE_FILE then (Inl Aborted, fm1)
                       else if \<not> is_storage_object st then (Inl Bad_cast, fm1)
                       else remove_file (sf_file_id st)
                              (fm1\<lparr>m_file_list := om_update sid (add_use (- 1)) (m_file_list fm1)\<rparr>))
              | _ \<Rightarrow> (Inl Undefined, fm1))
           else (Inr (), fm1)))"
  by pat_completeness auto

termination
  by (relation "measure (\<lambda>(k, fm). length (m_file_list fm))")
    (auto simp: find_file_def intro!: om_erase_length)

declare remove_file.simps [simp del]

text \<open>\<open>SharingDirectory\<close>: its operations on \<open>file_list\<close>.\<close>

definition dir_find_file :: "file_manager \<Rightarrow> int list \<Rightarrow> string \<Rightarrow> int" where
  "dir_find_file fm file_list filename =
     (case List.find (\<lambda>file_id. case find_file fm file_id of
                        None \<Rightarrow> False | Some f \<Rightarrow> sf_file_name f = filename) file_list of
        None \<Rightarrow> INVALID_ID | Some file_id \<Rightarrow> file_id)"

definition dir_remove_file :: "int \<Rightarrow> int list \<Rightarrow> int list" where
  "dir_remove_file file_id file_list = filter (\<lambda>k. k \<noteq> file_id) file_list"

text \<open>Writes through a reference to a \<open>SharingDirectory\<close>.\<close>

fun on_dir :: "(int list \<Rightarrow> int list) \<Rightarrow> sharing_file \<Rightarrow> sharing_file" where
  "on_dir g f = (case sf_body f of Sharing_directory ids \<Rightarrow> f\<lparr>sf_body := Sharing_directory (g ids)\<rparr> | _ \<Rightarrow> f)"

definition update_dir :: "int \<Rightarrow> (int list \<Rightarrow> int list) \<Rightarrow> file_manager \<Rightarrow> file_manager" where
  "update_dir k g fm = fm\<lparr>m_file_list := om_update k (on_dir g) (m_file_list fm)\<rparr>"

section \<open>The invariant\<close>

fun body_type :: "file_body \<Rightarrow> file_type" where
  "body_type (Sharing_directory _) = DIRECTORY"
| "body_type (Sharing_general_file _) = GENERAL_FILE"
| "body_type (Sharing_storage_file _ _) = STORAGE_FILE"

text \<open>
  Every object sits under its own id, its tag is its class, and what it refers to has been
  registered: a directory lists files younger than itself, a general file names an older
  storage file. So directories form no cycle, and \<open>INVALID_ID\<close> names nothing.
\<close>

definition links_ok :: "int \<Rightarrow> sharing_file \<Rightarrow> bool" where
  "links_ok n f = (case sf_body f of
     Sharing_directory ids \<Rightarrow> (\<forall>c \<in> set ids. sf_file_id f < c \<and> c < n)
   | Sharing_general_file sid \<Rightarrow> sid < sf_file_id f
   | Sharing_storage_file _ _ \<Rightarrow> True)"

definition file_ok :: "int \<Rightarrow> int \<times> sharing_file \<Rightarrow> bool" where
  "file_ok n e \<longleftrightarrow> 0 < fst e \<and> sf_file_id (snd e) = fst e \<and>
     body_type (sf_body (snd e)) = sf_file_type (snd e) \<and> links_ok n (snd e)"

definition fm_inv :: "file_manager \<Rightarrow> bool" where
  "fm_inv fm \<longleftrightarrow> ids_below (m_file_list fm) (fm_next_id fm) \<and> 0 < fm_next_id fm \<and>
     (\<forall>e \<in> set (m_file_list fm). file_ok (fm_next_id fm) e)"

lemma fm_inv_empty: "fm_inv empty_file_manager"
  by (simp add: fm_inv_def empty_file_manager_def ids_below_def)

lemma find_file_in: "find_file fm k = Some f \<Longrightarrow> (k, f) \<in> set (m_file_list fm)"
  by (simp add: find_file_def map_of_SomeD)

lemma fm_inv_ok [simp]: "fm_inv fm \<Longrightarrow> om_ok (m_file_list fm)"
  by (auto simp: fm_inv_def ids_below_def)

lemma fm_invD:
  assumes "fm_inv fm" and "find_file fm k = Some f"
  shows "0 < k" and "k < fm_next_id fm" and "sf_file_id f = k"
    and "body_type (sf_body f) = sf_file_type f" and "links_ok (fm_next_id fm) f"
proof -
  have "file_ok (fm_next_id fm) (k, f)"
    using assms(1) find_file_in [OF assms(2)] unfolding fm_inv_def by blast
  moreover have "k < fm_next_id fm"
    using assms ids_below_lookup [of "m_file_list fm" "fm_next_id fm" k f]
    by (simp add: fm_inv_def find_file_def)
  ultimately show "0 < k" and "k < fm_next_id fm" and "sf_file_id f = k"
    and "body_type (sf_body f) = sf_file_type f" and "links_ok (fm_next_id fm) f"
    by (simp_all add: file_ok_def)
qed

lemma fm_inv_invalid: "fm_inv fm \<Longrightarrow> find_file fm INVALID_ID = None"
  by (cases "find_file fm INVALID_ID") (auto dest: fm_invD(1) simp: INVALID_ID_def)

lemma fm_inv_fresh: "fm_inv fm \<Longrightarrow> fm_next_id fm \<le> k \<Longrightarrow> find_file fm k = None"
  by (cases "find_file fm k") (auto dest: fm_invD(2))

lemma body_type_simps:
  "body_type b = DIRECTORY \<longleftrightarrow> (\<exists>ids. b = Sharing_directory ids)"
  "body_type b = GENERAL_FILE \<longleftrightarrow> (\<exists>sid. b = Sharing_general_file sid)"
  "body_type b = STORAGE_FILE \<longleftrightarrow> (\<exists>n c. b = Sharing_storage_file n c)"
  by (cases b; simp)+

lemma is_storage_object_type: "is_storage_object f \<longleftrightarrow> body_type (sf_body f) = STORAGE_FILE"
  by (cases "sf_body f") (simp_all add: is_storage_object_def)

lemma fm_inv_erase: "fm_inv fm \<Longrightarrow> fm_inv (fm\<lparr>m_file_list := om_erase k (m_file_list fm)\<rparr>)"
  by (auto simp: fm_inv_def set_om_erase ids_below_erase)

lemma fm_inv_update:
  assumes "fm_inv fm"
    and "\<And>f. find_file fm k = Some f \<Longrightarrow> file_ok (fm_next_id fm) (k, f) \<Longrightarrow> file_ok (fm_next_id fm) (k, g f)"
  shows "fm_inv (fm\<lparr>m_file_list := om_update k g (m_file_list fm)\<rparr>)"
proof -
  have "find_file fm k = Some f" if "(k, f) \<in> set (m_file_list fm)" for f
    using assms(1) that by (simp add: find_file_def om_ok_map_of)
  with assms show ?thesis
    by (fastforce simp: fm_inv_def set_om_update ids_below_update)
qed

lemma add_use_simps [simp]:
  "sf_file_id (add_use d f) = sf_file_id f" "sf_file_type (add_use d f) = sf_file_type f"
  "sf_file_name (add_use d f) = sf_file_name f"
  "body_type (sf_body (add_use d f)) = body_type (sf_body f)" "links_ok n (add_use d f) = links_ok n f"
  by (auto simp: links_ok_def split: file_body.split)

lemma on_dir_simps [simp]:
  "sf_file_id (on_dir g f) = sf_file_id f" "sf_file_type (on_dir g f) = sf_file_type f"
  "sf_file_name (on_dir g f) = sf_file_name f"
  "body_type (sf_body (on_dir g f)) = body_type (sf_body f)"
  by (auto split: file_body.split)

declare add_use.simps [simp del] on_dir.simps [simp del]

lemma fm_inv_add_use:
  "fm_inv fm \<Longrightarrow> fm_inv (fm\<lparr>m_file_list := om_update k (add_use d) (m_file_list fm)\<rparr>)"
  by (erule fm_inv_update) (simp add: file_ok_def)

lemma fm_inv_update_dir:
  assumes "fm_inv fm"
    and "\<And>f ids c. find_file fm k = Some f \<Longrightarrow> sf_body f = Sharing_directory ids \<Longrightarrow> c \<in> set (g ids) \<Longrightarrow>
      \<forall>c \<in> set ids. k < c \<and> c < fm_next_id fm \<Longrightarrow> k < c \<and> c < fm_next_id fm"
  shows "fm_inv (update_dir k g fm)"
  unfolding update_dir_def
proof (rule fm_inv_update [OF assms(1)])
  fix f assume "find_file fm k = Some f" and "file_ok (fm_next_id fm) (k, f)"
  then show "file_ok (fm_next_id fm) (k, on_dir g f)"
    using assms(2) by (auto simp: file_ok_def links_ok_def on_dir.simps split: file_body.splits)
qed

section \<open>Registration\<close>

lemma find_file_update [simp]:
  "find_file (fm\<lparr>m_file_list := om_update k g (m_file_list fm)\<rparr>) j =
    (if j = k then map_option g (find_file fm k) else find_file fm j)"
  by (simp add: find_file_def map_of_om_update)

lemma find_file_erase [simp]:
  "find_file (fm\<lparr>m_file_list := om_erase k (m_file_list fm)\<rparr>) j = (if j = k then None else find_file fm j)"
  by (simp add: find_file_def)

lemma find_file_next [simp]: "find_file (fm\<lparr>fm_next_id := n\<rparr>) k = find_file fm k"
  by (simp add: find_file_def)

lemma find_file_update_dir:
  "find_file (update_dir k g fm) j =
    (if j = k then map_option (on_dir g) (find_file fm k) else find_file fm j)"
  by (simp add: update_dir_def)

lemma next_update_dir [simp]: "fm_next_id (update_dir k g fm) = fm_next_id fm"
  by (simp add: update_dir_def)

definition enter_file :: "sharing_file \<Rightarrow> file_manager \<Rightarrow> file_manager" where
  "enter_file f fm = fm\<lparr>m_file_list := om_insert (sf_file_id f) f (m_file_list fm),
                        fm_next_id := fm_next_id fm + 1\<rparr>"

lemma find_enter_file:
  "fm_inv fm \<Longrightarrow> sf_file_id f = fm_next_id fm \<Longrightarrow>
   find_file (enter_file f fm) k = (if k = fm_next_id fm then Some f else find_file fm k)"
  using ids_below_fresh [of "m_file_list fm" "fm_next_id fm"]
  by (simp add: enter_file_def find_file_def map_of_om_insert_fresh fm_inv_def)

lemma links_ok_mono: "links_ok n f \<Longrightarrow> n \<le> n' \<Longrightarrow> links_ok n' f"
  by (auto simp: links_ok_def split: file_body.splits)

lemma fm_inv_enter:
  assumes "fm_inv fm" and "sf_file_id f = fm_next_id fm"
    and "body_type (sf_body f) = sf_file_type f" and "links_ok (fm_next_id fm + 1) f"
  shows "fm_inv (enter_file f fm)"
proof -
  have fresh: "map_of (m_file_list fm) (fm_next_id fm) = None"
    using assms(1) by (simp add: fm_inv_def ids_below_fresh)
  have "file_ok (fm_next_id fm + 1) e" if "file_ok (fm_next_id fm) e" for e
    using that by (auto simp: file_ok_def intro: links_ok_mono)
  then show ?thesis
    using assms fresh
    by (auto simp: fm_inv_def enter_file_def set_om_insert ids_below_insert file_ok_def)
qed

lemma new_file_body_cases:
  assumes "new_file_body type arg fm = (r, fm1)"
  obtains (dir) "type = DIRECTORY" "r = Inr (Sharing_directory [])" "fm1 = fm"
    | (storage) "type = STORAGE_FILE" "r = Inr (Sharing_storage_file arg 0)" "fm1 = fm"
    | (missing) "type = GENERAL_FILE" "find_file fm arg = None"
        "r = Inl (Thrown (Resource ERR_FILE_NOT_EXIST))" "fm1 = fm"
    | (wrong) f where "type = GENERAL_FILE" "find_file fm arg = Some f" "\<not> is_storage_object f"
        "r = Inl Bad_cast" "fm1 = fm"
    | (general) f where "type = GENERAL_FILE" "find_file fm arg = Some f" "is_storage_object f"
        "r = Inr (Sharing_general_file arg)"
        "fm1 = fm\<lparr>m_file_list := om_update arg (add_use 1) (m_file_list fm)\<rparr>"
  using assms by (auto simp: new_file_body_def get_file_def split: file_type.splits option.splits if_splits)

lemma new_file_body_inv:
  assumes "fm_inv fm" and "new_file_body type arg fm = (r, fm1)"
  shows "fm_inv fm1" and "fm_next_id fm1 = fm_next_id fm"
    and "r = Inr b \<Longrightarrow> body_type b = type \<and> (\<forall>sid. b = Sharing_general_file sid \<longrightarrow> sid < fm_next_id fm)
      \<and> (\<forall>ids. b = Sharing_directory ids \<longrightarrow> ids = [])"
    and "find_file fm1 k = None \<longleftrightarrow> find_file fm k = None"
proof -
  show "fm_inv fm1" "fm_next_id fm1 = fm_next_id fm" "find_file fm1 k = None \<longleftrightarrow> find_file fm k = None"
    using assms(2) by (cases rule: new_file_body_cases; simp add: assms(1) fm_inv_add_use)+
  show "body_type b = type \<and> (\<forall>sid. b = Sharing_general_file sid \<longrightarrow> sid < fm_next_id fm)
      \<and> (\<forall>ids. b = Sharing_directory ids \<longrightarrow> ids = [])" if "r = Inr b"
    using assms(2) that by (cases rule: new_file_body_cases) (auto dest: fm_invD(2) [OF assms(1)])
qed

lemma register_file_eq:
  assumes "fm_inv fm" and "new_file_body type arg fm = (Inr b, fm1)"
    and f_def: "f = \<lparr>sf_file_id = fm_next_id fm, sf_file_type = type, sf_file_name = name, sf_body = b\<rparr>"
  shows "register_file type name arg fm = (Inr f, enter_file f fm1)"
proof -
  note inv = new_file_body_inv [OF assms(1,2)]
  have "map_of (m_file_list fm1) (fm_next_id fm1) = None"
    using inv(1) by (simp add: fm_inv_def ids_below_fresh)
  then show ?thesis
    by (simp add: register_file_def assms(2) f_def enter_file_def inv(2) Let_def)
qed

lemma register_file_cases:
  assumes "fm_inv fm" and "register_file type name arg fm = (r, fm')"
  obtains (err) e where "new_file_body type arg fm = (Inl e, fm')" and "r = Inl e" and "fm' = fm"
    | (ok) b fm1 f where "new_file_body type arg fm = (Inr b, fm1)" and "r = Inr f"
        and "f = \<lparr>sf_file_id = fm_next_id fm, sf_file_type = type, sf_file_name = name, sf_body = b\<rparr>"
        and "fm' = enter_file f fm1"
proof -
  obtain q fm1 where q: "new_file_body type arg fm = (q, fm1)" by fastforce
  show ?thesis
  proof (cases q)
    case (Inl e)
    with q assms(2) have "r = Inl e" "fm' = fm1" by (simp_all add: register_file_def)
    moreover have "fm1 = fm" using q Inl by (auto elim: new_file_body_cases)
    ultimately show ?thesis using q Inl err by simp
  next
    case (Inr b)
    with q assms show ?thesis using register_file_eq [OF assms(1), of type arg b fm1 _ name] ok by auto
  qed
qed

lemma register_file_inv:
  assumes "fm_inv fm" and "register_file type name arg fm = (r, fm')"
  shows "fm_inv fm'"
  using assms
proof (cases rule: register_file_cases)
  case (ok b fm1 f)
  note b = new_file_body_inv [OF assms(1) ok(1)]
  from b(3) [OF refl] have "links_ok (fm_next_id fm1 + 1) f"
    by (cases b) (auto simp: ok(3) links_ok_def)
  with b(3) [OF refl] show ?thesis
    unfolding ok(4) by (intro fm_inv_enter) (simp_all add: b ok(3))
qed (use assms in simp)

lemma keeps_register_file [keeps_intros]: "keeps fm_inv (register_file type name arg)"
  by (auto simp: keeps_def intro: register_file_inv surjective_pairing)

lemma register_directory:
  assumes "fm_inv fm"
    and f_def: "f = \<lparr>sf_file_id = fm_next_id fm, sf_file_type = DIRECTORY, sf_file_name = name,
                sf_body = Sharing_directory []\<rparr>"
  shows "register_file DIRECTORY name arg fm = (Inr f, enter_file f fm)"
  by (rule register_file_eq [OF assms(1) _ f_def]) (simp add: new_file_body_def)

section \<open>Removal\<close>

text \<open>The storage file under a general file.\<close>

definition storage_of :: "file_manager \<Rightarrow> int \<Rightarrow> int option" where
  "storage_of fm k = (case find_file fm k of
     None \<Rightarrow> None
   | Some f \<Rightarrow> (case sf_body f of Sharing_general_file sid \<Rightarrow> Some sid | _ \<Rightarrow> None))"

definition drop_file :: "int \<Rightarrow> file_manager \<Rightarrow> file_manager" where
  "drop_file k fm = fm\<lparr>m_file_list := om_erase k (m_file_list fm)\<rparr>"

lemma find_drop_file [simp]: "find_file (drop_file k fm) j = (if j = k then None else find_file fm j)"
  by (simp add: drop_file_def)

lemma fm_inv_drop_file: "fm_inv fm \<Longrightarrow> fm_inv (drop_file k fm)"
  by (simp add: drop_file_def fm_inv_erase)

lemma next_drop_file [simp]: "fm_next_id (drop_file k fm) = fm_next_id fm"
  by (simp add: drop_file_def)

lemma drop_file_absent: "find_file fm k = None \<Longrightarrow> drop_file k fm = fm"
  unfolding drop_file_def find_file_def om_erase_def
  by (subst filter_True) (auto simp: map_of_eq_None_iff)

lemma om_erase_update: "om_erase k (om_update k g m) = om_erase k m"
  by (induction m) (auto simp: om_erase_def om_update_def)

lemma remove_file_plain:
  assumes "fm_inv fm" and "storage_of fm k = None"
  shows "remove_file k fm = (Inr (), drop_file k fm)"
proof (cases "find_file fm k")
  case (Some f)
  have "sf_file_type f \<noteq> GENERAL_FILE"
    using fm_invD(4) [OF assms(1) Some] assms(2) Some
    by (cases "sf_body f") (auto simp: storage_of_def)
  with Some show ?thesis by (subst remove_file.simps) (simp add: drop_file_def)
qed (subst remove_file.simps, simp add: drop_file_def)

lemma remove_file_general:
  assumes inv: "fm_inv fm" and sid: "storage_of fm k = Some sid"
  shows "remove_file k fm = (case find_file fm sid of
      None \<Rightarrow> (Inl (Thrown (Resource ERR_FILE_NOT_EXIST)), drop_file k fm)
    | Some st \<Rightarrow> if sf_file_type st = STORAGE_FILE then (Inr (), drop_file sid (drop_file k fm))
                 else (Inl Aborted, drop_file k fm))"
proof -
  obtain f where f: "find_file fm k = Some f" and body: "sf_body f = Sharing_general_file sid"
    using sid by (auto simp: storage_of_def split: option.splits file_body.splits)
  note fD = fm_invD [OF inv f]
  have type: "sf_file_type f = GENERAL_FILE" and ne: "sid \<noteq> k"
    using fD(3-5) by (auto simp: body links_ok_def)
  have get: "get_file (drop_file k fm) sid =
      (case find_file fm sid of None \<Rightarrow> Inl (Thrown (Resource ERR_FILE_NOT_EXIST)) | Some st \<Rightarrow> Inr st)"
    using ne by (simp add: get_file_def)
  note unfold = remove_file.simps [of k fm, folded drop_file_def]
  show ?thesis
  proof (cases "find_file fm sid")
    case None
    then show ?thesis by (simp add: unfold f type body get Let_def)
  next
    case (Some st)
    note stD = fm_invD [OF inv Some]
    show ?thesis
    proof (cases "sf_file_type st = STORAGE_FILE")
      case True
      let ?g = "drop_file k fm"
      let ?h = "?g\<lparr>m_file_list := om_update sid (add_use (- 1)) (m_file_list ?g)\<rparr>"
      have "fm_inv ?h" by (intro fm_inv_add_use fm_inv_drop_file inv)
      moreover have "storage_of ?h sid = None"
        using Some True ne stD(4) body_type_simps(3) [of "sf_body st"]
        by (auto simp: storage_of_def add_use.simps)
      ultimately have "remove_file sid ?h = (Inr (), drop_file sid ?h)" by (rule remove_file_plain)
      moreover have "drop_file sid ?h = drop_file sid ?g"
        by (simp add: drop_file_def om_erase_update)
      moreover have "is_storage_object st" using stD(4) True by (simp add: is_storage_object_type)
      ultimately show ?thesis using Some True stD(3) by (simp add: unfold f type body get Let_def)
    next
      case False
      with Some show ?thesis by (simp add: unfold f type body get Let_def)
    qed
  qed
qed

lemma remove_file_cases:
  assumes "fm_inv fm" and "remove_file k fm = (r, fm')"
  obtains (plain) "storage_of fm k = None" "r = Inr ()" "fm' = drop_file k fm"
    | (lost) sid where "storage_of fm k = Some sid" "find_file fm sid = None"
        "r = Inl (Thrown (Resource ERR_FILE_NOT_EXIST))" "fm' = drop_file k fm"
    | (wrong) sid st where "storage_of fm k = Some sid" "find_file fm sid = Some st"
        "sf_file_type st \<noteq> STORAGE_FILE" "r = Inl Aborted" "fm' = drop_file k fm"
    | (general) sid st where "storage_of fm k = Some sid" "find_file fm sid = Some st"
        "sf_file_type st = STORAGE_FILE" "r = Inr ()" "fm' = drop_file sid (drop_file k fm)"
proof (cases "storage_of fm k")
  case None
  with assms remove_file_plain plain show ?thesis by auto
next
  case (Some sid)
  show ?thesis
  proof (cases "find_file fm sid")
    case None
    with assms(2) Some lost show ?thesis
      by (simp add: remove_file_general [OF assms(1) Some])
  next
    case (Some st)
    with assms(2) \<open>storage_of fm k = Some sid\<close> general wrong show ?thesis
      by (auto simp: remove_file_general [OF assms(1)] split: if_splits)
  qed
qed

lemma remove_file_inv:
  assumes "fm_inv fm" and "remove_file k fm = (r, fm')"
  shows "fm_inv fm'" and "fm_next_id fm' = fm_next_id fm"
    and "find_file fm' j = Some f \<Longrightarrow> find_file fm j = Some f \<and> j \<noteq> k"
proof -
  show "fm_inv fm'" "fm_next_id fm' = fm_next_id fm"
    using assms by (cases rule: remove_file_cases; simp add: fm_inv_drop_file)+
  from assms show "find_file fm' j = Some f \<Longrightarrow> find_file fm j = Some f \<and> j \<noteq> k"
    by (cases rule: remove_file_cases) (simp_all split: if_splits)
qed

lemma keeps_remove_file [keeps_intros]: "keeps fm_inv (remove_file k)"
  by (auto simp: keeps_def intro: remove_file_inv surjective_pairing)

section \<open>The registry of files\<close>

definition has_file :: "file_manager \<Rightarrow> int \<Rightarrow> bool" where
  "has_file fm k \<longleftrightarrow> find_file fm k \<noteq> None"

definition register_file_id :: "file_type \<times> string \<times> int \<Rightarrow> (file_manager, int) exec" where
  "register_file_id a = bindE (register_file (fst a) (fst (snd a)) (snd (snd a))) (\<lambda>f. ret (sf_file_id f))"

definition remove_file_st :: "int \<Rightarrow> file_manager \<Rightarrow> file_manager" where
  "remove_file_st k fm = snd (remove_file k fm)"

lemma register_file_id_cases:
  assumes "fm_inv fm" and "register_file_id a fm = (r, fm')"
  obtains (err) e where "r = Inl e" and "fm' = fm"
    | (ok) b fm1 f where "new_file_body (fst a) (snd (snd a)) fm = (Inr b, fm1)"
        and "r = Inr (fm_next_id fm)" and "sf_file_id f = fm_next_id fm" and "fm' = enter_file f fm1"
proof -
  obtain q fm2 where q: "register_file (fst a) (fst (snd a)) (snd (snd a)) fm = (q, fm2)" by fastforce
  from assms(1) q show ?thesis
  proof (cases rule: register_file_cases)
    case (err e)
    with q assms(2) that(1) [of e] show ?thesis by (simp add: register_file_id_def bindE_def)
  next
    case (ok b fm1 f)
    with q assms(2) that(2) [of b fm1 f] show ?thesis by (simp add: register_file_id_def bindE_def)
  qed
qed

lemma register_file_id_inv:
  assumes "fm_inv fm" and "register_file_id a fm = (r, fm')"
  shows "fm_inv fm'"
proof -
  have "keeps fm_inv (register_file_id a)"
    unfolding register_file_id_def by (intro keeps_intros)
  with assms show ?thesis by (auto dest: keepsD_eq)
qed

lemma has_enter_file:
  assumes "fm_inv fm" and "new_file_body type arg fm = (Inr b, fm1)" and "sf_file_id f = fm_next_id fm"
  shows "has_file (enter_file f fm1) k \<longleftrightarrow> has_file fm k \<or> k = fm_next_id fm"
    and "fm_next_id (enter_file f fm1) = fm_next_id fm + 1"
proof -
  note new = new_file_body_inv [OF assms(1,2)]
  show "has_file (enter_file f fm1) k \<longleftrightarrow> has_file fm k \<or> k = fm_next_id fm"
    using new(4) [of k] assms(3) by (auto simp: has_file_def find_enter_file [OF new(1)] new(2))
  show "fm_next_id (enter_file f fm1) = fm_next_id fm + 1"
    by (simp add: enter_file_def new(2))
qed

interpretation file_registry: registry has_file fm_next_id fm_inv register_file_id remove_file_st
proof unfold_locales
  fix fm k assume "fm_inv fm" and "has_file fm k"
  then show "k < fm_next_id fm" by (auto simp: has_file_def dest: fm_invD(2))
next
  fix fm a r fm' assume inv: "fm_inv fm" and reg: "register_file_id a fm = (r, fm')"
  show "fm_inv fm'" by (rule register_file_id_inv [OF inv reg])
  from inv reg show "fm_next_id fm \<le> fm_next_id fm'"
    by (cases rule: register_file_id_cases) (simp_all add: has_enter_file(2) [OF inv])
  fix j
  from inv reg show "has_file fm' j \<Longrightarrow> has_file fm j \<or> fm_next_id fm \<le> j"
    by (cases rule: register_file_id_cases) (auto simp: has_enter_file(1) [OF inv])
  from inv reg show "has_file fm j \<Longrightarrow> has_file fm' j"
    by (cases rule: register_file_id_cases) (simp_all add: has_enter_file(1) [OF inv])
next
  fix fm a k fm' assume inv: "fm_inv fm" and reg: "register_file_id a fm = (Inr k, fm')"
  from inv reg show "k = fm_next_id fm \<and> fm_next_id fm' = k + 1 \<and> has_file fm' k"
    by (cases rule: register_file_id_cases) (simp_all add: has_enter_file [OF inv])
next
  fix fm k j assume inv: "fm_inv fm"
  note rem = remove_file_inv [OF inv surjective_pairing]
  show "fm_inv (remove_file_st k fm)" and "fm_next_id (remove_file_st k fm) = fm_next_id fm"
    using rem(1,2) by (simp_all add: remove_file_st_def)
  show "has_file (remove_file_st k fm) j \<Longrightarrow> has_file fm j \<and> j \<noteq> k"
    using rem(3) [of k j] by (auto simp: has_file_def remove_file_st_def)
qed

section \<open>Properties\<close>

text \<open>A manager with a directory (1), a storage file (2) and two general files over it (3, 4).\<close>

definition example_files :: file_manager where
  "example_files =
     \<lparr>m_file_list =
        [(1, \<lparr>sf_file_id = 1, sf_file_type = DIRECTORY, sf_file_name = ''g'', sf_body = Sharing_directory [3, 4]\<rparr>),
         (2, \<lparr>sf_file_id = 2, sf_file_type = STORAGE_FILE, sf_file_name = ''x'', sf_body = Sharing_storage_file 1 2\<rparr>),
         (3, \<lparr>sf_file_id = 3, sf_file_type = GENERAL_FILE, sf_file_name = ''a'', sf_body = Sharing_general_file 2\<rparr>),
         (4, \<lparr>sf_file_id = 4, sf_file_type = GENERAL_FILE, sf_file_name = ''b'', sf_body = Sharing_general_file 2\<rparr>)],
      fm_next_id = 5\<rparr>"

lemma fm_inv_example: "fm_inv example_files"
  by (simp add: fm_inv_def example_files_def ids_below_def file_ok_def links_ok_def)

lemma example_storage:
  "storage_of example_files 3 = Some 2" "storage_of example_files 4 = Some 2"
  "\<exists>st. find_file example_files 2 = Some st \<and> sf_file_type st = STORAGE_FILE"
  by (simp_all add: storage_of_def find_file_def example_files_def)

text \<open>
  Registering a file. A directory or a storage file is always entered, under the
  counter's value and with no other entry changed. A general file is entered exactly when
  its argument names a storage file, whose use count goes up by one; otherwise the call ends
  in \<open>ERR_FILE_NOT_EXIST\<close> or a \<open>std::bad_cast\<close> and changes nothing.
\<close>

theorem register_file_spec:
  assumes inv: "fm_inv fm" and reg: "register_file type name arg fm = (r, fm')"
  shows "fm_inv fm' \<and>
    (case r of
       Inl e \<Rightarrow> fm' = fm \<and> type = GENERAL_FILE \<and>
         (e = Thrown (Resource ERR_FILE_NOT_EXIST) \<and> find_file fm arg = None \<or>
          e = Bad_cast \<and> (\<exists>f. find_file fm arg = Some f \<and> sf_file_type f \<noteq> STORAGE_FILE))
     | Inr f \<Rightarrow> sf_file_id f = fm_next_id fm \<and> sf_file_type f = type \<and> sf_file_name f = name \<and>
         fm_next_id fm' = fm_next_id fm + 1 \<and> find_file fm' (fm_next_id fm) = Some f \<and>
         (type = GENERAL_FILE \<longrightarrow> sf_body f = Sharing_general_file arg \<and>
            (\<exists>n c. map_option sf_body (find_file fm arg) = Some (Sharing_storage_file n c) \<and>
                   map_option sf_body (find_file fm' arg) = Some (Sharing_storage_file n (c + 1)))) \<and>
         (\<forall>k. k \<noteq> fm_next_id fm \<and> (type = GENERAL_FILE \<longrightarrow> k \<noteq> arg) \<longrightarrow> find_file fm' k = find_file fm k))"
    (is "_ \<and> ?P r")
proof
  show "fm_inv fm'" by (rule register_file_inv [OF inv reg])
  from inv reg show "?P r"
  proof (cases rule: register_file_cases)
    case (err e)
    from err(1) show ?thesis
      by (cases rule: new_file_body_cases)
        (use err(2,3) in \<open>auto simp: is_storage_object_type fm_invD(4) [OF inv]\<close>)
  next
    case (ok b fm1 f)
    note new = new_file_body_inv [OF inv ok(1)]
    have sid: "sf_file_id f = fm_next_id fm1" by (simp add: ok(3) new(2))
    note find = find_enter_file [OF new(1) sid, unfolded new(2), folded ok(4)]
    have next': "fm_next_id fm' = fm_next_id fm + 1" by (simp add: ok(4) enter_file_def new(2))
    from ok(1) show ?thesis
    proof (cases rule: new_file_body_cases)
      case (general g)
      then obtain n c where "sf_body g = Sharing_storage_file n c"
        by (auto simp: is_storage_object_def split: file_body.splits)
      with general fm_invD(2) [OF inv general(2)] show ?thesis
        by (auto simp: ok(2,3) find next' add_use.simps)
    qed (auto simp: ok(2,3) find next')
  qed
qed

theorem register_file_spec_witness:
  "map_option sf_body (find_file (snd (register_file GENERAL_FILE ''c'' 2 example_files)) 2) =
     Some (Sharing_storage_file 1 3) \<and>
   snd (register_file GENERAL_FILE ''c'' 1 example_files) = example_files"
proof -
  have "\<exists>f. fst (register_file GENERAL_FILE ''c'' 2 example_files) = Inr f"
    and "fst (register_file GENERAL_FILE ''c'' 1 example_files) = Inl Bad_cast"
    by (simp_all add: register_file_def new_file_body_def get_file_def find_file_def example_files_def
        is_storage_object_def om_update_def Let_def)
  then show ?thesis
    using register_file_spec [OF fm_inv_example surjective_pairing, of GENERAL_FILE "''c''" 2]
      register_file_spec [OF fm_inv_example surjective_pairing, of GENERAL_FILE "''c''" 1]
    by (auto simp: find_file_def example_files_def)
qed

text \<open>
  Removing a file. The entry is gone on every outcome. A directory, a storage file or an
  unknown id needs nothing else. A general file takes its storage file with it, whatever the
  storage file's use count; if the storage file is already gone the call throws
  \<open>ERR_FILE_NOT_EXIST\<close> after the entry was erased.
\<close>

theorem remove_file_spec:
  assumes "fm_inv fm" and "remove_file k fm = (r, fm')"
  shows "fm_inv fm' \<and> fm_next_id fm' = fm_next_id fm \<and>
    (case storage_of fm k of
       None \<Rightarrow> r = Inr () \<and> find_file fm' = (find_file fm)(k := None)
     | Some sid \<Rightarrow> (case find_file fm sid of
         None \<Rightarrow> r = Inl (Thrown (Resource ERR_FILE_NOT_EXIST)) \<and> find_file fm' = (find_file fm)(k := None)
       | Some st \<Rightarrow> if sf_file_type st = STORAGE_FILE
           then r = Inr () \<and> find_file fm' = (find_file fm)(k := None, sid := None)
           else r = Inl Aborted \<and> find_file fm' = (find_file fm)(k := None)))"
    (is "_ \<and> _ \<and> ?P")
proof -
  from assms have ?P by (cases rule: remove_file_cases) (auto simp: fun_eq_iff)
  with remove_file_inv(1,2) [OF assms] show ?thesis by simp
qed

theorem remove_file_spec_witness:
  "find_file (snd (remove_file 3 example_files)) 3 = None \<and>
   find_file (snd (remove_file 3 example_files)) 2 = None"
  using remove_file_spec [OF fm_inv_example surjective_pairing, of 3] example_storage by auto

text \<open>
  The use count protects nothing. When two general files share a storage file, removing
  one leaves the other without content: the shared file is gone, and removing the second
  file then throws. The two are shared again by no later registration, since ids are not
  reused.
\<close>

theorem shared_storage_lost:
  assumes inv: "fm_inv fm" and "a \<noteq> b"
    and "storage_of fm a = Some sid" and "storage_of fm b = Some sid"
    and "find_file fm sid = Some st" and "sf_file_type st = STORAGE_FILE"
    and "remove_file a fm = (r, fm')"
  shows "r = Inr () \<and> storage_of fm' b = Some sid \<and> find_file fm' sid = None \<and>
    fst (remove_file b fm') = Inl (Thrown (Resource ERR_FILE_NOT_EXIST)) \<and>
    \<not> has_file (snd (run_ops register_file_id remove_file_st ops fm')) sid"
proof -
  have r: "r = Inr ()" and fm': "fm' = drop_file sid (drop_file a fm)"
    using remove_file_general [OF inv assms(3)] assms(5-7) by simp_all
  have "storage_of fm sid = None"
    using fm_invD(4) [OF inv assms(5)] assms(5,6)
    by (cases "sf_body st") (auto simp: storage_of_def)
  then have b: "storage_of fm' b = Some sid"
    using assms(2,4) by (auto simp: fm' storage_of_def)
  have inv': "fm_inv fm'" by (simp add: fm' fm_inv_drop_file inv)
  have gone: "find_file fm' sid = None" by (simp add: fm')
  then have "fst (remove_file b fm') = Inl (Thrown (Resource ERR_FILE_NOT_EXIST))"
    by (simp add: remove_file_general [OF inv' b])
  moreover have "sid < fm_next_id fm'" using fm_invD(2) [OF inv assms(5)] by (simp add: fm')
  then have "\<not> has_file (snd (run_ops register_file_id remove_file_st ops fm')) sid"
    by (intro file_registry.gone_stays_gone inv') (simp_all add: has_file_def gone)
  ultimately show ?thesis using r b gone by simp
qed

theorem shared_storage_lost_witness:
  "fst (remove_file 3 example_files) = Inr () \<and>
   fst (remove_file 4 (snd (remove_file 3 example_files))) = Inl (Thrown (Resource ERR_FILE_NOT_EXIST))"
  using shared_storage_lost [OF fm_inv_example, of 3 4 2 _ "fst (remove_file 3 example_files)" "snd (remove_file 3 example_files)" "[]"]
    example_storage by auto

end
