(* ===== verification/Sessions.thy ===== *)
theory Sessions
  imports Registry
begin

text \<open>
  \<open>FileSessionManager\<close> of \<open>resource_server/core.{h,cpp}\<close>: upload and download sessions, and
  the table that leads from a group and a path to the session registered last. A session of
  the code is a tag and a \<open>void*\<close> that the two registration functions build together; here
  the constructor is the tag. A lookup by path deletes the path's entry when its session is
  gone, so it is an operation on the state.
\<close>

section \<open>State\<close>

record put_session =
  ps_session_id :: int
  ps_user_id :: int
  ps_group_id :: int
  ps_file_path :: string
  ps_max_fragment :: int
  ps_next_fragment :: int
  ps_node_session_id :: int

record get_session =
  gs_session_id :: int
  gs_user_id :: int
  gs_group_id :: int
  gs_file_path :: string
  gs_node_session_id :: int

datatype session =
    PUT_SESSION put_session
  | GET_SESSION get_session

definition new_put_session :: "int \<Rightarrow> int \<Rightarrow> int \<Rightarrow> string \<Rightarrow> int \<Rightarrow> put_session" where
  "new_put_session session_id user_id group_id file_path max_fragment =
     \<lparr>ps_session_id = session_id, ps_user_id = user_id, ps_group_id = group_id,
      ps_file_path = file_path, ps_max_fragment = max_fragment, ps_next_fragment = 0,
      ps_node_session_id = 0\<rparr>"

definition new_get_session :: "int \<Rightarrow> int \<Rightarrow> int \<Rightarrow> string \<Rightarrow> get_session" where
  "new_get_session session_id user_id group_id file_path =
     \<lparr>gs_session_id = session_id, gs_user_id = user_id, gs_group_id = group_id,
      gs_file_path = file_path, gs_node_session_id = 0\<rparr>"

record session_manager =
  m_session_list :: "(int, session) omap"
  m_group_session_list :: "(int, (string, int) omap) omap"
  fsm_next_id :: int

definition empty_session_manager :: session_manager where
  "empty_session_manager = \<lparr>m_session_list = [], m_group_session_list = [], fsm_next_id = 1\<rparr>"

section \<open>Operations\<close>

text \<open>\<open>m_group_session_list[group_id]\<close> creates an empty map where there is none.\<close>

definition on_register_session :: "int \<Rightarrow> string \<Rightarrow> int \<Rightarrow> session_manager \<Rightarrow> session_manager" where
  "on_register_session group_id file_path session_id sm =
     sm\<lparr>m_group_session_list :=
       om_put group_id
         (om_put file_path session_id
           (case map_of (m_group_session_list sm) group_id of None \<Rightarrow> [] | Some m \<Rightarrow> m))
         (m_group_session_list sm)\<rparr>"

definition register_put_session :: "int \<Rightarrow> int \<Rightarrow> string \<Rightarrow> int \<Rightarrow> (session_manager, put_session) exec" where
  "register_put_session user_id group_id file_path max_fragment = (\<lambda>sm.
     let entry = new_put_session (fsm_next_id sm) user_id group_id file_path max_fragment;
         sm1 = sm\<lparr>fsm_next_id := fsm_next_id sm + 1\<rparr>
     in if map_of (m_session_list sm1) (ps_session_id entry) \<noteq> None
        then (Inl (Thrown (Resource ERR_FILE_SESSION_ALREADY_EXIST)), sm1)
        else (Inr entry, on_register_session group_id file_path (ps_session_id entry)
               (sm1\<lparr>m_session_list := om_insert (ps_session_id entry) (PUT_SESSION entry) (m_session_list sm1)\<rparr>)))"

definition register_get_session :: "int \<Rightarrow> int \<Rightarrow> string \<Rightarrow> (session_manager, get_session) exec" where
  "register_get_session user_id group_id file_path = (\<lambda>sm.
     let entry = new_get_session (fsm_next_id sm) user_id group_id file_path;
         sm1 = sm\<lparr>fsm_next_id := fsm_next_id sm + 1\<rparr>
     in if map_of (m_session_list sm1) (gs_session_id entry) \<noteq> None
        then (Inl (Thrown (Resource ERR_FILE_SESSION_ALREADY_EXIST)), sm1)
        else (Inr entry, on_register_session group_id file_path (gs_session_id entry)
               (sm1\<lparr>m_session_list := om_insert (gs_session_id entry) (GET_SESSION entry) (m_session_list sm1)\<rparr>)))"

definition remove_session :: "int \<Rightarrow> session_manager \<Rightarrow> session_manager" where
  "remove_session session_id sm = (case map_of (m_session_list sm) session_id of
     None \<Rightarrow> sm | Some _ \<Rightarrow> sm\<lparr>m_session_list := om_erase session_id (m_session_list sm)\<rparr>)"

definition find_put_session :: "session_manager \<Rightarrow> int \<Rightarrow> put_session option" where
  "find_put_session sm session_id = (case map_of (m_session_list sm) session_id of
     Some (PUT_SESSION s) \<Rightarrow> Some s | _ \<Rightarrow> None)"

definition find_get_session :: "session_manager \<Rightarrow> int \<Rightarrow> get_session option" where
  "find_get_session sm session_id = (case map_of (m_session_list sm) session_id of
     Some (GET_SESSION s) \<Rightarrow> Some s | _ \<Rightarrow> None)"

definition find_session :: "int \<Rightarrow> string \<Rightarrow> session_manager \<Rightarrow> session option \<times> session_manager" where
  "find_session group_id file_path sm = (case map_of (m_group_session_list sm) group_id of
     None \<Rightarrow> (None, sm)
   | Some group_session \<Rightarrow> (case map_of group_session file_path of
       None \<Rightarrow> (None, sm)
     | Some session_id \<Rightarrow> (case map_of (m_session_list sm) session_id of
         None \<Rightarrow> (None, sm\<lparr>m_group_session_list :=
                    om_update group_id (om_erase file_path) (m_group_session_list sm)\<rparr>)
       | Some s \<Rightarrow> (Some s, sm))))"

definition find_put_session_at :: "int \<Rightarrow> int \<Rightarrow> string \<Rightarrow> session_manager \<Rightarrow> put_session option \<times> session_manager" where
  "find_put_session_at user_id group_id file_path sm = (case find_session group_id file_path sm of
     (Some (PUT_SESSION s), sm') \<Rightarrow> (if ps_user_id s \<noteq> user_id then None else Some s, sm')
   | (_, sm') \<Rightarrow> (None, sm'))"

definition find_get_session_at :: "int \<Rightarrow> int \<Rightarrow> string \<Rightarrow> session_manager \<Rightarrow> get_session option \<times> session_manager" where
  "find_get_session_at user_id group_id file_path sm = (case find_session group_id file_path sm of
     (Some (GET_SESSION s), sm') \<Rightarrow> (if gs_user_id s \<noteq> user_id then None else Some s, sm')
   | (_, sm') \<Rightarrow> (None, sm'))"

definition get_put_session :: "session_manager \<Rightarrow> int \<Rightarrow> put_session res" where
  "get_put_session sm session_id = (case find_put_session sm session_id of
     None \<Rightarrow> Inl (Thrown (Resource ERR_FILE_SESSION_NOT_EXIST)) | Some s \<Rightarrow> Inr s)"

definition get_get_session :: "session_manager \<Rightarrow> int \<Rightarrow> get_session res" where
  "get_get_session sm session_id = (case find_get_session sm session_id of
     None \<Rightarrow> Inl (Thrown (Resource ERR_FILE_SESSION_NOT_EXIST)) | Some s \<Rightarrow> Inr s)"

text \<open>Writes of the transactions through a reference to a session.\<close>

fun on_put_session :: "(put_session \<Rightarrow> put_session) \<Rightarrow> session \<Rightarrow> session" where
  "on_put_session f (PUT_SESSION s) = PUT_SESSION (f s)"
| "on_put_session f (GET_SESSION s) = GET_SESSION s"

fun on_get_session :: "(get_session \<Rightarrow> get_session) \<Rightarrow> session \<Rightarrow> session" where
  "on_get_session f (GET_SESSION s) = GET_SESSION (f s)"
| "on_get_session f (PUT_SESSION s) = PUT_SESSION s"

definition update_session :: "int \<Rightarrow> (session \<Rightarrow> session) \<Rightarrow> session_manager \<Rightarrow> session_manager" where
  "update_session session_id f sm = sm\<lparr>m_session_list := om_update session_id f (m_session_list sm)\<rparr>"

section \<open>The invariant\<close>

fun session_id :: "session \<Rightarrow> int" where
  "session_id (PUT_SESSION s) = ps_session_id s"
| "session_id (GET_SESSION s) = gs_session_id s"

definition fsm_inv :: "session_manager \<Rightarrow> bool" where
  "fsm_inv sm \<longleftrightarrow> ids_below (m_session_list sm) (fsm_next_id sm) \<and>
     (\<forall>e \<in> set (m_session_list sm). session_id (snd e) = fst e) \<and>
     om_ok (m_group_session_list sm) \<and>
     (\<forall>g m. map_of (m_group_session_list sm) g = Some m \<longrightarrow>
        om_ok m \<and> (\<forall>p k. map_of m p = Some k \<longrightarrow> k < fsm_next_id sm))"

lemma fsm_inv_empty: "fsm_inv empty_session_manager"
  by (simp add: fsm_inv_def empty_session_manager_def)

text \<open>The session that the table leads to, whatever its kind and user.\<close>

definition session_at :: "session_manager \<Rightarrow> int \<Rightarrow> string \<Rightarrow> session option" where
  "session_at sm group_id file_path = (case map_of (m_group_session_list sm) group_id of
     None \<Rightarrow> None
   | Some m \<Rightarrow> (case map_of m file_path of None \<Rightarrow> None | Some k \<Rightarrow> map_of (m_session_list sm) k))"

lemma find_session_eq: "fst (find_session g p sm) = session_at sm g p"
  by (simp add: find_session_def session_at_def split: option.split)

text \<open>The delayed removal is not observable through later lookups.\<close>

lemma find_session_frame:
  "fsm_inv sm \<Longrightarrow> session_at (snd (find_session g p sm)) = session_at sm"
  "m_session_list (snd (find_session g p sm)) = m_session_list sm"
  "fsm_next_id (snd (find_session g p sm)) = fsm_next_id sm"
  by (auto simp: find_session_def session_at_def fun_eq_iff map_of_om_update split: option.split)

lemma find_session_inv: "fsm_inv sm \<Longrightarrow> fsm_inv (snd (find_session g p sm))"
  by (auto simp: find_session_def fsm_inv_def map_of_om_update split: option.splits if_splits)

lemma find_at_snd [simp]:
  "snd (find_put_session_at u g p sm) = snd (find_session g p sm)"
  "snd (find_get_session_at u g p sm) = snd (find_session g p sm)"
  by (simp_all add: find_put_session_at_def find_get_session_at_def split: prod.split option.split session.split)

lemma find_put_at_fst:
  "fst (find_put_session_at u g p sm) = (case session_at sm g p of
     Some (PUT_SESSION s) \<Rightarrow> if ps_user_id s = u then Some s else None | _ \<Rightarrow> None)"
  using find_session_eq [of g p sm]
  by (auto simp: find_put_session_at_def split: prod.split option.split session.split)

lemma find_get_at_fst:
  "fst (find_get_session_at u g p sm) = (case session_at sm g p of
     Some (GET_SESSION s) \<Rightarrow> if gs_user_id s = u then Some s else None | _ \<Rightarrow> None)"
  using find_session_eq [of g p sm]
  by (auto simp: find_get_session_at_def split: prod.split option.split session.split)

definition enter_session :: "int \<Rightarrow> string \<Rightarrow> session \<Rightarrow> session_manager \<Rightarrow> session_manager" where
  "enter_session g p s sm = on_register_session g p (fsm_next_id sm)
     (sm\<lparr>fsm_next_id := fsm_next_id sm + 1, m_session_list := om_insert (fsm_next_id sm) s (m_session_list sm)\<rparr>)"

lemma register_session_eq:
  assumes "fsm_inv sm"
  shows "register_put_session u g p mf sm =
      (Inr (new_put_session (fsm_next_id sm) u g p mf),
       enter_session g p (PUT_SESSION (new_put_session (fsm_next_id sm) u g p mf)) sm)"
    and "register_get_session u g p sm =
      (Inr (new_get_session (fsm_next_id sm) u g p),
       enter_session g p (GET_SESSION (new_get_session (fsm_next_id sm) u g p)) sm)"
  using ids_below_fresh [of "m_session_list sm" "fsm_next_id sm"] assms
  by (simp_all add: register_put_session_def register_get_session_def new_put_session_def
      new_get_session_def enter_session_def fsm_inv_def Let_def)

lemma enter_session_inv:
  assumes inv: "fsm_inv sm" and "session_id s = fsm_next_id sm"
  shows "fsm_inv (enter_session g p s sm)"
proof -
  have ok: "om_ok (m_session_list sm)" and fresh: "map_of (m_session_list sm) (fsm_next_id sm) = None"
    using inv by (auto simp: fsm_inv_def ids_below_fresh)
  define old where "old = (case map_of (m_group_session_list sm) g of None \<Rightarrow> [] | Some m \<Rightarrow> m)"
  have "om_ok old" and "\<And>q k. map_of old q = Some k \<Longrightarrow> k \<le> fsm_next_id sm"
    using inv by (auto simp: old_def fsm_inv_def split: option.splits intro: less_imp_le)
  moreover have "om_ok m \<and> k < fsm_next_id sm + 1"
    if "map_of (m_group_session_list sm) h = Some m" "map_of m q = Some k" for h m q k
    using inv that unfolding fsm_inv_def by (meson less_trans zless_add1_eq)
  moreover have "om_ok m" if "map_of (m_group_session_list sm) h = Some m" for h m
    using inv that by (auto simp: fsm_inv_def)
  ultimately show ?thesis
    using inv assms(2)
    by (auto simp: fsm_inv_def enter_session_def on_register_session_def set_om_insert [OF ok fresh]
        map_of_om_put ids_below_insert old_def [symmetric] split: if_splits intro: less_trans)
qed

lemma session_at_enter:
  assumes inv: "fsm_inv sm"
  shows "session_at (enter_session g p s sm) h q =
    (if h = g \<and> q = p then Some s else session_at sm h q)"
proof -
  define old where "old = (case map_of (m_group_session_list sm) g of None \<Rightarrow> [] | Some m \<Rightarrow> m)"
  have old: "om_ok old" and "\<And>q k. map_of old q = Some k \<Longrightarrow> k < fsm_next_id sm"
    using inv by (auto simp: old_def fsm_inv_def split: option.splits)
  have ins: "map_of (om_insert (fsm_next_id sm) s (m_session_list sm)) =
      (map_of (m_session_list sm))(fsm_next_id sm \<mapsto> s)"
    using inv by (auto simp: fsm_inv_def map_of_om_insert_fresh ids_below_fresh)
  have ne: "k \<noteq> fsm_next_id sm" if "map_of (m_group_session_list sm) h = Some m" "map_of m q = Some k" for h m q k
    using inv that by (fastforce simp: fsm_inv_def)
  have ok: "om_ok (m_group_session_list sm)" using inv by (simp add: fsm_inv_def)
  show ?thesis
    using old ne
    by (auto simp: session_at_def enter_session_def on_register_session_def map_of_om_put [OF ok]
        map_of_om_put [OF old] ins old_def [symmetric] split: option.split)
      (auto simp: old_def split: option.splits)
qed

lemma remove_session_lookup:
  "map_of (m_session_list (remove_session k sm)) = (map_of (m_session_list sm))(k := None)"
  by (auto simp: remove_session_def fun_eq_iff split: option.split)

lemma remove_session_frame [simp]:
  "m_group_session_list (remove_session k sm) = m_group_session_list sm"
  "fsm_next_id (remove_session k sm) = fsm_next_id sm"
  by (simp_all add: remove_session_def split: option.split)

lemma remove_session_inv: "fsm_inv sm \<Longrightarrow> fsm_inv (remove_session k sm)"
  by (auto simp: remove_session_def fsm_inv_def set_om_erase ids_below_erase split: option.split)

lemma update_session_inv:
  assumes "fsm_inv sm" and "\<And>s. session_id (f s) = session_id s"
  shows "fsm_inv (update_session k f sm)"
  using assms by (auto simp: fsm_inv_def update_session_def ids_below_update set_om_update)

section \<open>The registry of sessions\<close>

datatype session_request = Put_request int int string int | Get_request int int string

fun register_session_id :: "session_request \<Rightarrow> (session_manager, int) exec" where
  "register_session_id (Put_request u g p mf) =
     bindE (register_put_session u g p mf) (\<lambda>s. ret (ps_session_id s))"
| "register_session_id (Get_request u g p) =
     bindE (register_get_session u g p) (\<lambda>s. ret (gs_session_id s))"

definition has_session :: "session_manager \<Rightarrow> int \<Rightarrow> bool" where
  "has_session sm k \<longleftrightarrow> map_of (m_session_list sm) k \<noteq> None"

lemma register_session_id_eq:
  assumes "fsm_inv sm"
  obtains g p s where "register_session_id a sm = (Inr (fsm_next_id sm), enter_session g p s sm)"
    and "session_id s = fsm_next_id sm"
  by (cases a)
    (use that in \<open>auto simp: bindE_def register_session_eq [OF assms] new_put_session_def new_get_session_def\<close>)

lemma has_enter_session:
  "fsm_inv sm \<Longrightarrow> has_session (enter_session g p s sm) k \<longleftrightarrow> has_session sm k \<or> k = fsm_next_id sm"
  "fsm_next_id (enter_session g p s sm) = fsm_next_id sm + 1"
  by (auto simp: has_session_def enter_session_def on_register_session_def fsm_inv_def
      map_of_om_insert_fresh ids_below_fresh)

interpretation session_registry: registry has_session fsm_next_id fsm_inv register_session_id remove_session
proof unfold_locales
  fix sm k assume "fsm_inv sm" and "has_session sm k"
  then show "k < fsm_next_id sm" by (auto simp: fsm_inv_def has_session_def intro: ids_below_lookup)
next
  fix sm a r sm' assume inv: "fsm_inv sm" and reg: "register_session_id a sm = (r, sm')"
  obtain g p s where "register_session_id a sm = (Inr (fsm_next_id sm), enter_session g p s sm)"
    and s: "session_id s = fsm_next_id sm"
    by (rule register_session_id_eq [OF inv])
  with reg have sm': "sm' = enter_session g p s sm" by simp
  show "fsm_inv sm'" unfolding sm' by (rule enter_session_inv [OF inv s])
  show "fsm_next_id sm \<le> fsm_next_id sm'" by (simp add: sm' has_enter_session)
  fix j
  show "has_session sm' j \<Longrightarrow> has_session sm j \<or> fsm_next_id sm \<le> j"
    and "has_session sm j \<Longrightarrow> has_session sm' j"
    by (auto simp: sm' has_enter_session(1) [OF inv])
next
  fix sm a k sm' assume inv: "fsm_inv sm" and reg: "register_session_id a sm = (Inr k, sm')"
  obtain g p s where "register_session_id a sm = (Inr (fsm_next_id sm), enter_session g p s sm)"
    by (rule register_session_id_eq [OF inv])
  with reg show "k = fsm_next_id sm \<and> fsm_next_id sm' = k + 1 \<and> has_session sm' k"
    by (auto simp: has_enter_session inv)
next
  fix sm k j assume inv: "fsm_inv sm"
  show "fsm_inv (remove_session k sm)" and "fsm_next_id (remove_session k sm) = fsm_next_id sm"
    using inv by (simp_all add: remove_session_inv)
  show "has_session (remove_session k sm) j \<Longrightarrow> has_session sm j \<and> j \<noteq> k"
    by (auto simp: has_session_def remove_session_lookup split: if_splits)
qed

section \<open>Properties\<close>

text \<open>
  One session per group and path. After an upload session is registered, the lookup by
  path finds it for its user and finds nothing for any other user; registering a download
  session of the same path - also by another user - takes the path over, so the upload
  session is no longer found by path although it still exists. Other paths are unaffected.
\<close>

theorem session_lookup_by_path:
  assumes inv: "fsm_inv sm"
    and put: "register_put_session u g p mf sm = (r, sm1)"
    and get: "register_get_session v g p sm1 = (r', sm2)"
  shows "\<exists>s t. r = Inr s \<and> r' = Inr t \<and>
    fst (find_put_session_at u g p sm1) = Some s \<and>
    (\<forall>w. w \<noteq> u \<longrightarrow> fst (find_put_session_at w g p sm1) = None) \<and>
    fst (find_put_session_at u g p sm2) = None \<and>
    find_put_session sm2 (ps_session_id s) = Some s \<and>
    fst (find_get_session_at v g p sm2) = Some t \<and>
    (\<forall>h q w. (h, q) \<noteq> (g, p) \<longrightarrow>
       fst (find_put_session_at w h q sm2) = fst (find_put_session_at w h q sm) \<and>
       fst (find_get_session_at w h q sm2) = fst (find_get_session_at w h q sm))"
proof -
  let ?s = "new_put_session (fsm_next_id sm) u g p mf"
  have sm1: "r = Inr ?s" "sm1 = enter_session g p (PUT_SESSION ?s) sm"
    using put by (simp_all add: register_session_eq [OF inv])
  have inv1: "fsm_inv sm1" unfolding sm1 by (rule enter_session_inv [OF inv]) (simp add: new_put_session_def)
  let ?t = "new_get_session (fsm_next_id sm1) v g p"
  have sm2: "r' = Inr ?t" "sm2 = enter_session g p (GET_SESSION ?t) sm1"
    using get by (simp_all add: register_session_eq [OF inv1])
  have fresh: "map_of (m_session_list sm) (fsm_next_id sm) = None"
    and "map_of (m_session_list sm1) (fsm_next_id sm1) = None" and "om_ok (m_session_list sm)" "om_ok (m_session_list sm1)"
    using inv inv1 by (auto simp: fsm_inv_def ids_below_fresh)
  then have "find_put_session sm2 (ps_session_id ?s) = Some ?s"
    by (simp add: find_put_session_def sm2 sm1 enter_session_def on_register_session_def
        map_of_om_insert_fresh new_put_session_def)
  moreover have at1: "session_at sm1 h q = (if h = g \<and> q = p then Some (PUT_SESSION ?s) else session_at sm h q)" for h q
    by (simp add: sm1 session_at_enter [OF inv])
  moreover have "session_at sm2 h q = (if h = g \<and> q = p then Some (GET_SESSION ?t) else session_at sm1 h q)" for h q
    by (simp add: sm2 session_at_enter [OF inv1])
  ultimately show ?thesis
    using sm1(1) sm2(1) by (auto simp: find_put_at_fst find_get_at_fst new_put_session_def new_get_session_def)
qed

theorem session_lookup_by_path_witness:
  "fst (find_put_session_at 7 1 ''a/b'' (snd (register_put_session 7 1 ''a/b'' 3 empty_session_manager))) \<noteq> None \<and>
   fst (find_put_session_at 7 1 ''a/b'' (snd (register_get_session 8 1 ''a/b''
     (snd (register_put_session 7 1 ''a/b'' 3 empty_session_manager))))) = None"
  using session_lookup_by_path [OF fsm_inv_empty surjective_pairing surjective_pairing, of 7 1 "''a/b''" 3 8]
  by auto

text \<open>
  Sessions end for good. Removing a session makes both lookups by its id and the lookup by
  its path fail, no later registration hands out its id again, and the lookup's own clean-up
  changes no later answer.
\<close>

theorem removed_session_gone:
  assumes inv: "fsm_inv sm" and "has_session sm k"
    and sm'_def: "sm' = snd (run_ops register_session_id remove_session ops (remove_session k sm))"
  shows "find_put_session sm' k = None \<and> find_get_session sm' k = None \<and>
    k \<notin> set (fst (run_ops register_session_id remove_session ops (remove_session k sm))) \<and>
    (\<forall>g p s. session_at sm' g p = Some s \<longrightarrow> session_id s \<noteq> k) \<and>
    (\<forall>g p. session_at (snd (find_session g p sm')) = session_at sm')"
proof -
  have inv': "fsm_inv sm'" unfolding sm'_def by (intro session_registry.run_inv remove_session_inv inv)
  have gone: "\<not> has_session sm' k"
    unfolding sm'_def by (rule session_registry.removed_never_reused(1) [OF inv assms(2)])
  have "session_id s \<noteq> k" if at: "session_at sm' g p = Some s" for g p s
  proof
    assume k: "session_id s = k"
    obtain j where j: "map_of (m_session_list sm') j = Some s"
      using at by (auto simp: session_at_def split: option.splits)
    then have "session_id s = j" using inv' by (fastforce simp: fsm_inv_def dest: map_of_SomeD)
    with j k gone show False by (simp add: has_session_def)
  qed
  then show ?thesis
    using gone find_session_frame(1) [OF inv'] session_registry.removed_never_reused(2) [OF inv assms(2), of ops]
    by (auto simp: has_session_def find_put_session_def find_get_session_def)
qed

theorem removed_session_gone_witness:
  "find_put_session (snd (run_ops register_session_id remove_session [Register (Get_request 8 1 ''x'')]
     (remove_session 1 (snd (register_put_session 7 1 ''a/b'' 3 empty_session_manager))))) 1 = None"
proof -
  have "fsm_inv (snd (register_put_session 7 1 ''a/b'' 3 empty_session_manager))"
    by (simp add: register_session_eq [OF fsm_inv_empty])
      (rule enter_session_inv [OF fsm_inv_empty], simp add: new_put_session_def)
  moreover have "has_session (snd (register_put_session 7 1 ''a/b'' 3 empty_session_manager)) 1"
    by (simp add: has_session_def register_put_session_def empty_session_manager_def
        on_register_session_def new_put_session_def Let_def)
  ultimately show ?thesis
    using removed_session_gone [OF _ _ refl] by blast
qed

end
