(* ===== verification/Services.thy ===== *)
theory Services
  imports Registry "HOL-Library.Word"
begin

text \<open>
  \<open>NetworkServiceManager\<close> of \<open>foundation/network.{h,cpp}\<close>, with the table of connections it
  asks for (\<open>NetworkManagerImpl::m_conn_list\<close> and its id counter, and whether a connection is
  closing). Opening a socket is the operating system's: \<open>reach ip port\<close> says whether the
  \<open>SocketAddress\<close> and \<open>StreamSocket\<close> constructors succeed; they throw otherwise.
\<close>

section \<open>Connections\<close>

record conn_table =
  m_net_conns :: "(int, bool) omap"       \<comment> \<open>\<open>is_open()\<close> of every connection\<close>
  m_net_next_id :: int

definition net_register_connection :: "(string \<Rightarrow> 16 word \<Rightarrow> bool) \<Rightarrow> string \<Rightarrow> 16 word \<Rightarrow> (conn_table, int) exec" where
  "net_register_connection reach host port = (\<lambda>ct.
     if reach host port
     then (Inr (m_net_next_id ct), ct\<lparr>m_net_conns := om_insert (m_net_next_id ct) True (m_net_conns ct),
                                      m_net_next_id := m_net_next_id ct + 1\<rparr>)
     else (Inl Std_exception, ct))"

definition find_open_connection :: "conn_table \<Rightarrow> int \<Rightarrow> bool" where
  "find_open_connection ct conn_id \<longleftrightarrow> map_of (m_net_conns ct) conn_id = Some True"

text \<open>\<open>close()\<close> deletes the connection at once, or marks it while messages are unsent.\<close>

definition net_remove_connection :: "(int \<Rightarrow> bool) \<Rightarrow> int \<Rightarrow> conn_table \<Rightarrow> conn_table" where
  "net_remove_connection unsent conn_id ct =
     (if unsent conn_id then ct\<lparr>m_net_conns := om_update conn_id (\<lambda>_. False) (m_net_conns ct)\<rparr>
      else ct\<lparr>m_net_conns := om_erase conn_id (m_net_conns ct)\<rparr>)"

section \<open>Services\<close>

record network_service =
  ns_service_id :: int
  ns_ip :: string
  ns_port :: "16 word"

record service_manager =
  m_service_list :: "(int, network_service) omap"
  m_conn_list :: "(int, int) omap"
  m_conn_service_list :: "(int, int) omap"
  sm_next_id :: int

definition empty_service_manager :: service_manager where
  "empty_service_manager =
     \<lparr>m_service_list = [], m_conn_list = [], m_conn_service_list = [], sm_next_id = 1\<rparr>"

definition find_service :: "service_manager \<Rightarrow> int \<Rightarrow> network_service option" where
  "find_service sm service_id = map_of (m_service_list sm) service_id"

definition find_service_at :: "service_manager \<Rightarrow> string \<Rightarrow> 16 word \<Rightarrow> network_service option" where
  "find_service_at sm ip port = om_find_if (\<lambda>s. ns_ip s = ip \<and> ns_port s = port) (m_service_list sm)"

definition register_service :: "string \<Rightarrow> 16 word \<Rightarrow> (service_manager, network_service) exec" where
  "register_service ip port = (\<lambda>sm. case find_service_at sm ip port of
     Some _ \<Rightarrow> (Inl (Thrown (Foundation ERR_NETWORK_SERVICE_ALREADY_EXIST)), sm)
   | None \<Rightarrow>
       let s = \<lparr>ns_service_id = sm_next_id sm, ns_ip = ip, ns_port = port\<rparr>;
           key = sm_next_id sm;
           sm1 = sm\<lparr>sm_next_id := sm_next_id sm + 1\<rparr>
       in if map_of (m_service_list sm1) key \<noteq> None
          then (Inl (Thrown (Foundation ERR_NETWORK_SERVICE_ALREADY_EXIST)), sm1)
          else (Inr s, sm1\<lparr>m_service_list := om_insert key s (m_service_list sm1)\<rparr>))"

text \<open>Both tables change in \<open>remove_service\<close> and \<open>get_connection_id\<close>: the state is the pair.\<close>

definition remove_service :: "(int \<Rightarrow> bool) \<Rightarrow> int \<Rightarrow> service_manager \<times> conn_table \<Rightarrow> service_manager \<times> conn_table" where
  "remove_service unsent service_id = (\<lambda>(sm, ct).
     (sm\<lparr>m_service_list := om_erase service_id (m_service_list sm)\<rparr>,
      case map_of (m_conn_list sm) service_id of
        None \<Rightarrow> ct | Some conn_id \<Rightarrow> net_remove_connection unsent conn_id ct))"

definition get_connection_id :: "(string \<Rightarrow> 16 word \<Rightarrow> bool) \<Rightarrow> int \<Rightarrow> (service_manager \<times> conn_table, int) exec" where
  "get_connection_id reach service_id = (\<lambda>(sm, ct). case find_service sm service_id of
     None \<Rightarrow> (Inl (Thrown (Foundation ERR_NETWORK_SERVICE_NOT_EXIST)), (sm, ct))
   | Some s \<Rightarrow> (case map_of (m_conn_list sm) service_id of
       None \<Rightarrow> (case net_register_connection reach (ns_ip s) (ns_port s) ct of
           (Inl e, ct') \<Rightarrow> (Inl e, (sm, ct'))
         | (Inr c, ct') \<Rightarrow>
             (Inr c, (sm\<lparr>m_conn_list := om_insert service_id c (m_conn_list sm),
                         m_conn_service_list := om_insert c service_id (m_conn_service_list sm)\<rparr>, ct')))
     | Some conn_id \<Rightarrow>
         if find_open_connection ct conn_id then (Inr conn_id, (sm, ct))
         else (case net_register_connection reach (ns_ip s) (ns_port s) ct of
           (Inl e, ct') \<Rightarrow> (Inl e, (sm, ct'))
         | (Inr c, ct') \<Rightarrow>
             (Inr c, (sm\<lparr>m_conn_list := om_put service_id c (m_conn_list sm),
                         m_conn_service_list := om_insert c service_id
                            (om_erase conn_id (m_conn_service_list sm))\<rparr>, ct')))))"

definition find_service_by_connection :: "service_manager \<Rightarrow> int \<Rightarrow> network_service option" where
  "find_service_by_connection sm conn_id = (case map_of (m_conn_service_list sm) conn_id of
     None \<Rightarrow> None | Some service_id \<Rightarrow> find_service sm service_id)"

section \<open>The invariant\<close>

text \<open>
  Services sit under their ids, no two share an address; a connection in the tables was
  handed out by the connection table, and the two connection maps agree.
\<close>

definition sm_inv :: "service_manager \<times> conn_table \<Rightarrow> bool" where
  "sm_inv w \<longleftrightarrow> (case w of (sm, ct) \<Rightarrow>
     ids_below (m_service_list sm) (sm_next_id sm) \<and>
     (\<forall>(k, s) \<in> set (m_service_list sm). ns_service_id s = k) \<and>
     inj_on (\<lambda>e. (ns_ip (snd e), ns_port (snd e))) (set (m_service_list sm)) \<and>
     om_ok (m_conn_list sm) \<and> om_ok (m_conn_service_list sm) \<and>
     ids_below (m_net_conns ct) (m_net_next_id ct) \<and>
     (\<forall>s c. map_of (m_conn_list sm) s = Some c \<longrightarrow> c < m_net_next_id ct) \<and>
     (\<forall>s c. map_of (m_conn_service_list sm) c = Some s \<longleftrightarrow> map_of (m_conn_list sm) s = Some c))"

lemma sm_inv_empty: "sm_inv (empty_service_manager, \<lparr>m_net_conns = [], m_net_next_id = 1\<rparr>)"
  by (simp add: sm_inv_def empty_service_manager_def)

lemma register_service_cases:
  assumes "sm_inv (sm, ct)" and "register_service ip port sm = (r, sm')"
  obtains (taken) "find_service_at sm ip port \<noteq> None" and "sm' = sm"
      and "r = Inl (Thrown (Foundation ERR_NETWORK_SERVICE_ALREADY_EXIST))"
    | (new) s where "find_service_at sm ip port = None" and "r = Inr s"
      and "s = \<lparr>ns_service_id = sm_next_id sm, ns_ip = ip, ns_port = port\<rparr>"
      and "sm' = sm\<lparr>sm_next_id := sm_next_id sm + 1,
                    m_service_list := om_insert (sm_next_id sm) s (m_service_list sm)\<rparr>"
proof (cases "find_service_at sm ip port")
  case None
  have "map_of (m_service_list sm) (sm_next_id sm) = None"
    using assms(1) by (simp add: sm_inv_def ids_below_fresh)
  with None assms(2) new show ?thesis by (simp add: register_service_def Let_def)
next
  case (Some t)
  with assms(2) have "sm' = sm" "r = Inl (Thrown (Foundation ERR_NETWORK_SERVICE_ALREADY_EXIST))"
    by (simp_all add: register_service_def)
  with Some show ?thesis by (intro taken) simp_all
qed

lemma register_service_inv:
  assumes inv: "sm_inv (sm, ct)" and reg: "register_service ip port sm = (r, sm')"
  shows "sm_inv (sm', ct)"
  using assms
proof (cases rule: register_service_cases)
  case (new s)
  have fresh: "map_of (m_service_list sm) (sm_next_id sm) = None" and ok: "om_ok (m_service_list sm)"
    using inv by (auto simp: sm_inv_def ids_below_fresh)
  have "\<forall>(k, t) \<in> set (m_service_list sm). \<not> (ns_ip t = ip \<and> ns_port t = port)"
    using new(1) by (simp add: find_service_at_def om_find_if_None)
  then have "inj_on (\<lambda>e. (ns_ip (snd e), ns_port (snd e))) (insert (sm_next_id sm, s) (set (m_service_list sm)))"
    using inv by (fastforce simp: sm_inv_def inj_on_insert new(3))
  then show ?thesis
    using inv by (auto simp: sm_inv_def new(3,4) set_om_insert [OF ok fresh] ids_below_insert)
qed (use inv in simp)

lemma find_service_erase:
  "find_service (sm\<lparr>m_service_list := om_erase k (m_service_list sm)\<rparr>) j =
     (if j = k then None else find_service sm j)"
  by (simp add: find_service_def)

lemma remove_service_inv: "sm_inv w \<Longrightarrow> sm_inv (remove_service unsent k w)"
proof -
  assume inv: "sm_inv w"
  obtain sm ct where w: "w = (sm, ct)" by fastforce
  have "inj_on (\<lambda>e. (ns_ip (snd e), ns_port (snd e))) {e \<in> set (m_service_list sm). fst e \<noteq> k}"
    using inv by (auto simp: sm_inv_def w intro: inj_on_subset)
  moreover have "ids_below (m_net_conns (net_remove_connection unsent c ct)) (m_net_next_id (net_remove_connection unsent c ct))"
    and "m_net_next_id (net_remove_connection unsent c ct) = m_net_next_id ct" for c
    using inv by (auto simp: sm_inv_def w net_remove_connection_def ids_below_erase ids_below_update)
  ultimately show ?thesis
    using inv by (auto simp: sm_inv_def w remove_service_def set_om_erase ids_below_erase split: option.split)
qed

lemma om_lookup_fresh:
  "om_ok m \<Longrightarrow> map_of m k = None \<Longrightarrow> map_of (om_insert k v m) j = (if j = k then Some v else map_of m j)"
  by (simp add: map_of_om_insert_fresh)

lemma get_connection_id_inv:
  assumes inv: "sm_inv w" and get: "get_connection_id reach k w = (r, w')"
  shows "sm_inv w'"
proof -
  obtain sm ct where w: "w = (sm, ct)" by fastforce
  let ?n = "m_net_next_id ct"
  have ok: "om_ok (m_conn_list sm)" "om_ok (m_conn_service_list sm)"
    and agree: "\<And>s c. map_of (m_conn_service_list sm) c = Some s \<longleftrightarrow> map_of (m_conn_list sm) s = Some c"
    and below: "\<And>s c. map_of (m_conn_list sm) s = Some c \<Longrightarrow> c < ?n"
    and conns: "ids_below (m_net_conns ct) ?n"
    using inv by (auto simp: sm_inv_def w)
  have fresh: "map_of (m_conn_service_list sm) ?n = None"
    using agree below by (metis less_irrefl not_None_eq)
  show ?thesis
  proof (cases "find_service sm k = None \<or> (\<exists>c. map_of (m_conn_list sm) k = Some c \<and> find_open_connection ct c)")
    case True
    with get inv show ?thesis by (auto simp: w get_connection_id_def split: option.splits)
  next
    case False
    then obtain s where s: "find_service sm k = Some s" by auto
    let ?ct = "ct\<lparr>m_net_conns := om_insert ?n True (m_net_conns ct), m_net_next_id := ?n + 1\<rparr>"
    show ?thesis
    proof (cases "reach (ns_ip s) (ns_port s)")
      case no: False
      with get inv False s show ?thesis
        by (auto simp: w get_connection_id_def net_register_connection_def split: option.splits)
    next
      case reach: True
      obtain cs where w': "w' = (sm\<lparr>m_conn_list := om_put k ?n (m_conn_list sm), m_conn_service_list := cs\<rparr>, ?ct)"
        and cs: "map_of cs = (\<lambda>c. if c = ?n then Some k else if map_of (m_conn_list sm) k = Some c then None
                                   else map_of (m_conn_service_list sm) c)" and okcs: "om_ok cs"
      proof (cases "map_of (m_conn_list sm) k")
        case None
        have "om_insert k ?n (m_conn_list sm) = om_put k ?n (m_conn_list sm)"
          using None by (rule om_insert_put)
        with get s reach None fresh ok(2) show ?thesis
          by (intro that [of "om_insert ?n k (m_conn_service_list sm)"])
            (auto simp: w get_connection_id_def net_register_connection_def map_of_om_insert_fresh fun_eq_iff)
      next
        case (Some c)
        with False s have "\<not> find_open_connection ct c" by auto
        with get s reach Some fresh ok(2) show ?thesis
          by (intro that [of "om_insert ?n k (om_erase c (m_conn_service_list sm))"])
            (auto simp: w get_connection_id_def net_register_connection_def map_of_om_insert_fresh fun_eq_iff)
      qed
      have put: "map_of (om_put k ?n (m_conn_list sm)) = (map_of (m_conn_list sm))(k \<mapsto> ?n)"
        using ok(1) by (simp add: map_of_om_put)
      have "map_of cs c = Some t \<longleftrightarrow> ((map_of (m_conn_list sm))(k \<mapsto> ?n)) t = Some c" for c t
        using agree [of c t] agree [of c k] below [of t c] by (auto simp: cs)
      moreover have "c < ?n + 1" if "((map_of (m_conn_list sm))(k \<mapsto> ?n)) t = Some c" for c t
        using that below [of t c] by (auto split: if_splits)
      ultimately show ?thesis
        using inv conns okcs by (simp add: sm_inv_def w w' put ids_below_insert)
    qed
  qed
qed

section \<open>Properties\<close>

definition example_services :: "service_manager \<times> conn_table" where
  "example_services =
     (\<lparr>m_service_list = [(1, \<lparr>ns_service_id = 1, ns_ip = ''10.0.0.1'', ns_port = 9000\<rparr>)],
       m_conn_list = [(1, 4)], m_conn_service_list = [(4, 1)], sm_next_id = 2\<rparr>,
      \<lparr>m_net_conns = [(3, True)], m_net_next_id = 5\<rparr>)"

lemma sm_inv_example: "sm_inv example_services"
  by (auto simp: sm_inv_def example_services_def ids_below_def split: if_splits)

text \<open>
  The connection of a service. \<open>get_connection_id\<close> throws \<open>ERR_NETWORK_SERVICE_NOT_EXIST\<close>
  for an unknown service. Otherwise, when it returns, the connection is open, the two tables
  lead from the service to the connection and back, and asking again gives the same
  connection without a change. It opens a new one only when there was none or the old one
  was closed or closing, and it fails only when the address cannot be reached.
\<close>

theorem get_connection_id_spec:
  assumes inv: "sm_inv (sm, ct)" and get: "get_connection_id reach k (sm, ct) = (r, (sm', ct'))"
  shows "sm_inv (sm', ct') \<and>
    (case find_service sm k of
       None \<Rightarrow> r = Inl (Thrown (Foundation ERR_NETWORK_SERVICE_NOT_EXIST)) \<and> (sm', ct') = (sm, ct)
     | Some s \<Rightarrow>
         (case r of
            Inl e \<Rightarrow> e = Std_exception \<and> \<not> reach (ns_ip s) (ns_port s) \<and> (sm', ct') = (sm, ct)
          | Inr c \<Rightarrow> find_open_connection ct' c \<and> find_service_by_connection sm' c = Some s \<and>
              get_connection_id reach k (sm', ct') = (Inr c, (sm', ct')) \<and>
              (case map_of (m_conn_list sm) k of
                 Some c0 \<Rightarrow> if find_open_connection ct c0 then c = c0 \<and> (sm', ct') = (sm, ct)
                            else c = m_net_next_id ct
               | None \<Rightarrow> c = m_net_next_id ct)))" (is "_ \<and> ?P")
proof
  show inv': "sm_inv (sm', ct')" by (rule get_connection_id_inv [OF inv get])
  have agree: "map_of (m_conn_service_list sm') c = Some k" if "map_of (m_conn_list sm') k = Some c" for c
    using inv' that by (auto simp: sm_inv_def)
  have ok: "om_ok (m_conn_list sm)" and fresh: "om_ok (m_net_conns ct)" "map_of (m_net_conns ct) (m_net_next_id ct) = None"
    using inv by (auto simp: sm_inv_def ids_below_fresh)
  show ?P
  proof (cases "find_service sm k")
    case None
    with get show ?thesis by (simp add: get_connection_id_def)
  next
    case (Some s)
    have *: ?P if r: "r = Inr c" and serv: "m_service_list sm' = m_service_list sm"
        and conn: "map_of (m_conn_list sm') k = Some c" and op: "find_open_connection ct' c"
        and old: "case map_of (m_conn_list sm) k of
                 Some c0 \<Rightarrow> if find_open_connection ct c0 then c = c0 \<and> (sm', ct') = (sm, ct)
                            else c = m_net_next_id ct
               | None \<Rightarrow> c = m_net_next_id ct" for c
    proof -
      have "find_service sm' k = Some s" using Some serv by (simp add: find_service_def)
      moreover have "get_connection_id reach k (sm', ct') = (Inr c, (sm', ct'))"
        using calculation conn op by (simp add: get_connection_id_def)
      ultimately show ?thesis
        using Some r op agree [OF conn] old by (simp add: find_service_by_connection_def)
    qed
    show ?thesis
    proof (cases "\<exists>c. map_of (m_conn_list sm) k = Some c \<and> find_open_connection ct c")
      case True
      then obtain c where "map_of (m_conn_list sm) k = Some c" and "find_open_connection ct c" by auto
      with get Some show ?thesis by (intro * [of c]) (simp_all add: get_connection_id_def)
    next
      case False
      have op: "find_open_connection (ct\<lparr>m_net_conns := om_insert (m_net_next_id ct) True (m_net_conns ct),
          m_net_next_id := m_net_next_id ct + 1\<rparr>) (m_net_next_id ct)"
        using fresh by (simp add: find_open_connection_def map_of_om_insert_fresh)
      show ?thesis
      proof (cases "reach (ns_ip s) (ns_port s)")
        case no: False
        then have "(r, (sm', ct')) = (Inl Std_exception, (sm, ct))"
          using get Some False
          by (cases "map_of (m_conn_list sm) k")
            (simp_all add: get_connection_id_def net_register_connection_def)
        with no Some show ?thesis by simp
      next
        case yes: True
        show ?thesis
        proof (cases "map_of (m_conn_list sm) k")
          case None
          with get Some yes op ok show ?thesis
            by (intro * [of "m_net_next_id ct"])
              (auto simp add: get_connection_id_def net_register_connection_def map_of_om_insert_fresh)
        next
          case c: (Some c)
          with False have "\<not> find_open_connection ct c" by simp
          with c get Some yes op ok show ?thesis
            by (intro * [of "m_net_next_id ct"])
              (auto simp add: get_connection_id_def net_register_connection_def map_of_om_put)
        qed
      qed
    qed
  qed
qed

theorem get_connection_id_spec_witness:
  "fst (get_connection_id (\<lambda>_ _. True) 1 example_services) = Inr 5 \<and>
   fst (get_connection_id (\<lambda>_ _. True) 2 example_services) = Inl (Thrown (Foundation ERR_NETWORK_SERVICE_NOT_EXIST))"
proof -
  obtain sm ct where e: "example_services = (sm, ct)" by fastforce
  have inv: "sm_inv (sm, ct)" using sm_inv_example e by simp
  obtain r sm' ct' where g: "get_connection_id (\<lambda>_ _. True) 1 (sm, ct) = (r, (sm', ct'))"
    by (metis surj_pair)
  obtain r2 sm2 ct2 where g2: "get_connection_id (\<lambda>_ _. True) 2 (sm, ct) = (r2, (sm2, ct2))"
    by (metis surj_pair)
  have f: "find_service sm 1 = Some \<lparr>ns_service_id = 1, ns_ip = ''10.0.0.1'', ns_port = 9000\<rparr>"
    "find_service sm 2 = None" "map_of (m_conn_list sm) 1 = Some 4" "\<not> find_open_connection ct 4"
    "m_net_next_id ct = 5"
    using e by (auto simp: example_services_def find_service_def find_open_connection_def)
  show ?thesis
    using get_connection_id_spec [OF inv g] get_connection_id_spec [OF inv g2] f
    by (simp add: e g g2 split: sum.splits)
qed

end
