(* ===== verification/Actors.thy ===== *)
theory Actors
  imports Prelude
begin

text \<open>
  \<open>ActorMessage\<close> and \<open>ActorMessageQueue\<close> of \<open>foundation/actor_message.{h,cpp}\<close> and
  \<open>Delegation::delegate\<close> of \<open>foundation/delegation.{h,cpp}\<close>: the only way the network thread
  and the worker thread talk to each other. Every operation takes its queue's mutex, so an
  execution of the two threads is a sequence of these operations. A delegated
  \<open>std::function\<close> is a value of the type parameter \<open>'d\<close>, one constructor per lambda of the
  code, holding what the lambda captures.
\<close>

section \<open>Messages and queues\<close>

record network_msg =
  nm_conn_id :: int
  nm_service_id :: int
  nm_package_id :: int

datatype 'd actor_message =
    NETWORK_TYPE network_msg
  | DELEGATE_TYPE string 'd          \<comment> \<open>caller, function\<close>

datatype queue_type = IN_QUEUE | OUT_QUEUE

record 'm actor_queues =
  q_in :: "'m list"
  q_out :: "'m list"

definition empty_queues :: "'m actor_queues" where
  "empty_queues = \<lparr>q_in = [], q_out = []\<rparr>"

fun queue_of :: "queue_type \<Rightarrow> 'm actor_queues \<Rightarrow> 'm list" where
  "queue_of IN_QUEUE q = q_in q"
| "queue_of OUT_QUEUE q = q_out q"

fun set_queue :: "queue_type \<Rightarrow> 'm list \<Rightarrow> 'm actor_queues \<Rightarrow> 'm actor_queues" where
  "set_queue IN_QUEUE ms q = q\<lparr>q_in := ms\<rparr>"
| "set_queue OUT_QUEUE ms q = q\<lparr>q_out := ms\<rparr>"

definition queue_push :: "queue_type \<Rightarrow> 'm \<Rightarrow> 'm actor_queues \<Rightarrow> 'm actor_queues" where
  "queue_push t m q = set_queue t (queue_of t q @ [m]) q"

text \<open>\<open>front()\<close> of an empty \<open>std::queue\<close> is undefined.\<close>

definition queue_pop :: "queue_type \<Rightarrow> ('m actor_queues, 'm) exec" where
  "queue_pop t = (\<lambda>q. case queue_of t q of
     [] \<Rightarrow> (Inl Undefined, q) | m # ms \<Rightarrow> (Inr m, set_queue t ms q))"

definition queue_empty :: "queue_type \<Rightarrow> 'm actor_queues \<Rightarrow> bool" where
  "queue_empty t q \<longleftrightarrow> queue_of t q = []"

definition queue_size :: "queue_type \<Rightarrow> 'm actor_queues \<Rightarrow> nat" where
  "queue_size t q = length (queue_of t q)"

datatype actor_target = NETWORK | WORKER

definition delegate ::
  "string \<Rightarrow> actor_target \<Rightarrow> 'd \<Rightarrow> 'd actor_message actor_queues \<Rightarrow> 'd actor_message actor_queues" where
  "delegate caller actor function q =
     queue_push (if actor = WORKER then IN_QUEUE else OUT_QUEUE) (DELEGATE_TYPE caller function) q"

section \<open>First in, first out\<close>

lemma queue_of_set [simp]:
  "queue_of t (set_queue u ms q) = (if t = u then ms else queue_of t q)"
  by (cases t; cases u) simp_all

text \<open>
  The contract of a queue: what is popped is what was pushed, in that order. \<open>ops\<close> is any
  interleaving of pushes (\<open>Some m\<close>) and pops (\<open>None\<close>) that pops only when not empty, which
  the callers check first.
\<close>

locale fifo =
  fixes content :: "'q \<Rightarrow> 'm list"
    and put :: "'m \<Rightarrow> 'q \<Rightarrow> 'q"
    and take_one :: "('q, 'm) exec"
  assumes content_put: "content (put m q) = content q @ [m]"
    and take_Cons: "content q = m # ms \<Longrightarrow> \<exists>q'. take_one q = (Inr m, q') \<and> content q' = ms"
begin

fun run_queue :: "'m option list \<Rightarrow> 'q \<Rightarrow> 'm list \<times> 'q" where
  "run_queue [] q = ([], q)"
| "run_queue (Some m # ops) q = run_queue ops (put m q)"
| "run_queue (None # ops) q = (case take_one q of
     (Inl _, q') \<Rightarrow> run_queue ops q
   | (Inr m, q') \<Rightarrow> (let (ms, r) = run_queue ops q' in (m # ms, r)))"

fun can_run :: "'m option list \<Rightarrow> nat \<Rightarrow> bool" where
  "can_run [] n \<longleftrightarrow> True"
| "can_run (Some m # ops) n \<longleftrightarrow> can_run ops (Suc n)"
| "can_run (None # ops) n \<longleftrightarrow> 0 < n \<and> can_run ops (n - 1)"

lemma fifo_order:
  "can_run ops (length (content q)) \<Longrightarrow>
   content q @ List.map_filter id ops = fst (run_queue ops q) @ content (snd (run_queue ops q))"
proof (induction ops q rule: run_queue.induct)
  case (1 q)
  then show ?case by (simp add: map_filter_def)
next
  case (2 m ops q)
  then show ?case by (simp add: content_put map_filter_simps)
next
  case (3 ops q)
  then obtain m ms where q: "content q = m # ms" by (cases "content q") auto
  from take_Cons [OF q] obtain q' where q': "take_one q = (Inr m, q')" "content q' = ms" by auto
  with 3 q show ?case by (auto simp: map_filter_simps split: prod.split)
qed

end

interpretation in_fifo: fifo "queue_of IN_QUEUE" "queue_push IN_QUEUE" "queue_pop IN_QUEUE"
  by unfold_locales (simp_all add: queue_push_def queue_pop_def)

interpretation out_fifo: fifo "queue_of OUT_QUEUE" "queue_push OUT_QUEUE" "queue_pop OUT_QUEUE"
  by unfold_locales (simp_all add: queue_push_def queue_pop_def)

lemma queue_push_other: "t \<noteq> u \<Longrightarrow> queue_of t (queue_push u m q) = queue_of t q"
  by (simp add: queue_push_def)

lemma queue_push_same [simp]: "queue_of t (queue_push t m q) = queue_of t q @ [m]"
  by (simp add: queue_push_def)

end
