(* ===== verification/Nodes.thy ===== *)
theory Nodes
  imports Services Actors
begin

text \<open>
  \<open>StorageNodeManager\<close> of \<open>resource_server/core.{h,cpp}\<close>. Registering a node takes three
  hops: the caller delegates to the network thread, which registers a network service and
  delegates back to the worker, which enters the node. \<open>node_call\<close> has one constructor per
  lambda; \<open>node_system\<close> is what the lambdas touch, with the two queues between the threads,
  and \<open>node_step\<close> lets callers, the network thread and the worker act in any order.
\<close>

section \<open>State\<close>

record storage_node =
  n_node_id :: int
  n_ip :: string
  n_port :: "16 word"
  n_service_id :: int
  n_use_counting :: int

definition new_node :: "int \<Rightarrow> string \<Rightarrow> 16 word \<Rightarrow> int \<Rightarrow> storage_node" where
  "new_node node_id ip port service_id =
     \<lparr>n_node_id = node_id, n_ip = ip, n_port = port, n_service_id = service_id, n_use_counting = 0\<rparr>"

record node_manager =
  m_node_list :: "(int, storage_node) omap"
  nm_next_id :: int

definition empty_node_manager :: node_manager where
  "empty_node_manager = \<lparr>m_node_list = [], nm_next_id = 1\<rparr>"

section \<open>Operations of the worker thread\<close>

definition find_node :: "node_manager \<Rightarrow> int \<Rightarrow> storage_node option" where
  "find_node nm node_id = map_of (m_node_list nm) node_id"

definition find_node_at :: "node_manager \<Rightarrow> string \<Rightarrow> 16 word \<Rightarrow> storage_node option" where
  "find_node_at nm ip port = om_find_if (\<lambda>n. n_ip n = ip \<and> n_port n = port) (m_node_list nm)"

definition get_node :: "node_manager \<Rightarrow> int \<Rightarrow> storage_node res" where
  "get_node nm node_id = (case find_node nm node_id of
     None \<Rightarrow> Inl (Thrown (Resource ERR_NODE_NOT_EXIST)) | Some n \<Rightarrow> Inr n)"

definition get_node_at :: "node_manager \<Rightarrow> string \<Rightarrow> 16 word \<Rightarrow> storage_node res" where
  "get_node_at nm ip port = (case find_node_at nm ip port of
     None \<Rightarrow> Inl (Thrown (Resource ERR_NODE_NOT_EXIST)) | Some n \<Rightarrow> Inr n)"

text \<open>The loop over all nodes, from the first: a later node replaces the candidate only when
  it is strictly less used.\<close>

fun lowest_load :: "storage_node \<Rightarrow> storage_node list \<Rightarrow> storage_node" where
  "lowest_load low [] = low"
| "lowest_load low (n # ns) = lowest_load (if n_use_counting n < n_use_counting low then n else low) ns"

text \<open>On an empty map, \<open>begin()->second\<close> reads past the end.\<close>

definition get_fit_node :: "node_manager \<Rightarrow> storage_node res" where
  "get_fit_node nm = (case om_find_if (\<lambda>n. n_use_counting n = 0) (m_node_list nm) of
     Some n \<Rightarrow> Inr n
   | None \<Rightarrow> (case m_node_list nm of
       [] \<Rightarrow> Inl Undefined
     | e # es \<Rightarrow> Inr (lowest_load (snd e) (map snd (e # es)))))"

definition add_node_use :: "int \<Rightarrow> int \<Rightarrow> node_manager \<Rightarrow> node_manager" where
  "add_node_use node_id d nm =
     nm\<lparr>m_node_list := om_update node_id (\<lambda>n. n\<lparr>n_use_counting := n_use_counting n + d\<rparr>) (m_node_list nm)\<rparr>"

section \<open>Delegated calls\<close>

type_synonym register_callback = "(storage_node \<Rightarrow> node_manager \<Rightarrow> node_manager) option"

datatype node_call =
    Register_service_for string "16 word" register_callback    \<comment> \<open>\<open>register_node\<close>, network part\<close>
  | Add_node string "16 word" int register_callback            \<comment> \<open>\<open>register_node\<close>, worker part\<close>
  | Remove_service_of int                                      \<comment> \<open>\<open>remove_node\<close>, network part\<close>
  | Register_service_again string "16 word" int                \<comment> \<open>\<open>deserialize\<close>, network part\<close>
  | Set_service int int                                        \<comment> \<open>\<open>deserialize\<close>, worker part\<close>

record node_system =
  sys_nodes :: node_manager
  sys_services :: "service_manager \<times> conn_table"
  sys_queues :: "node_call actor_message actor_queues"

definition register_node :: "string \<Rightarrow> 16 word \<Rightarrow> register_callback \<Rightarrow> node_system \<Rightarrow> node_system" where
  "register_node ip port callback s =
     s\<lparr>sys_queues := delegate ''register_node'' NETWORK (Register_service_for ip port callback) (sys_queues s)\<rparr>"

definition remove_node :: "int \<Rightarrow> node_system \<Rightarrow> node_system" where
  "remove_node node_id s = (case find_node (sys_nodes s) node_id of
     None \<Rightarrow> s
   | Some n \<Rightarrow>
       s\<lparr>sys_queues := delegate ''remove_node'' NETWORK (Remove_service_of (n_service_id n)) (sys_queues s),
         sys_nodes := (sys_nodes s)\<lparr>m_node_list := om_erase node_id (m_node_list (sys_nodes s))\<rparr>\<rparr>)"

definition add_node :: "string \<Rightarrow> 16 word \<Rightarrow> int \<Rightarrow> node_manager \<Rightarrow> storage_node option \<times> node_manager" where
  "add_node ip port service_id nm =
    (let n = new_node (nm_next_id nm) ip port service_id;
         nm1 = nm\<lparr>nm_next_id := nm_next_id nm + 1\<rparr>
     in if map_of (m_node_list nm1) (n_node_id n) \<noteq> None then (None, nm1)
        else (Some n, nm1\<lparr>m_node_list := om_insert (n_node_id n) n (m_node_list nm1)\<rparr>))"

text \<open>
  Running a delegated call. Both threads run it inside \<open>safe_call\<close>, so an exception ends the
  call and is logged; \<open>add_node\<close> logs and returns (\<open>None\<close>) where the insertion fails.
\<close>

fun run_node_call :: "(int \<Rightarrow> bool) \<Rightarrow> node_call \<Rightarrow> node_system \<Rightarrow> node_system" where
  "run_node_call unsent (Register_service_for ip port callback) s =
     (case register_service ip port (fst (sys_services s)) of
        (Inl _, sm) \<Rightarrow> s\<lparr>sys_services := (sm, snd (sys_services s))\<rparr>
      | (Inr service, sm) \<Rightarrow>
          s\<lparr>sys_services := (sm, snd (sys_services s)),
            sys_queues := delegate ''register_node'' WORKER
              (Add_node ip port (ns_service_id service) callback) (sys_queues s)\<rparr>)"
| "run_node_call unsent (Add_node ip port service_id callback) s =
     (case add_node ip port service_id (sys_nodes s) of
        (None, nm) \<Rightarrow> s\<lparr>sys_nodes := nm\<rparr>
      | (Some n, nm) \<Rightarrow> s\<lparr>sys_nodes := (case callback of None \<Rightarrow> nm | Some f \<Rightarrow> f n nm)\<rparr>)"
| "run_node_call unsent (Remove_service_of service_id) s =
     s\<lparr>sys_services := remove_service unsent service_id (sys_services s)\<rparr>"
| "run_node_call unsent (Register_service_again ip port node_id) s =
     (case register_service ip port (fst (sys_services s)) of
        (Inl _, sm) \<Rightarrow> s\<lparr>sys_services := (sm, snd (sys_services s))\<rparr>
      | (Inr service, sm) \<Rightarrow>
          s\<lparr>sys_services := (sm, snd (sys_services s)),
            sys_queues := delegate ''deserialize'' WORKER
              (Set_service node_id (ns_service_id service)) (sys_queues s)\<rparr>)"
| "run_node_call unsent (Set_service node_id service_id) s =
     (case get_node (sys_nodes s) node_id of
        Inl _ \<Rightarrow> s
      | Inr _ \<Rightarrow> s\<lparr>sys_nodes := (sys_nodes s)\<lparr>m_node_list :=
                    om_update node_id (\<lambda>n. n\<lparr>n_service_id := service_id\<rparr>) (m_node_list (sys_nodes s))\<rparr>\<rparr>)"

text \<open>One turn of a thread: take the first message of its queue, if there is one, and run it.\<close>

definition thread_turn :: "(int \<Rightarrow> bool) \<Rightarrow> queue_type \<Rightarrow> node_system \<Rightarrow> node_system" where
  "thread_turn unsent t s =
     (if queue_empty t (sys_queues s) then s
      else case queue_pop t (sys_queues s) of
        (Inl _, q) \<Rightarrow> s\<lparr>sys_queues := q\<rparr>
      | (Inr (NETWORK_TYPE m), q) \<Rightarrow> s\<lparr>sys_queues := q\<rparr>
      | (Inr (DELEGATE_TYPE caller f), q) \<Rightarrow> run_node_call unsent f (s\<lparr>sys_queues := q\<rparr>))"

text \<open>Steps of the system, in any order. The code passes no callback.\<close>

inductive node_step :: "(int \<Rightarrow> bool) \<Rightarrow> node_system \<Rightarrow> node_system \<Rightarrow> bool" for unsent where
  step_register: "node_step unsent s (register_node ip port None s)"
| step_remove: "node_step unsent s (remove_node node_id s)"
| step_use: "node_step unsent s (s\<lparr>sys_nodes := add_node_use node_id d (sys_nodes s)\<rparr>)"
| step_network: "node_step unsent s (thread_turn unsent OUT_QUEUE s)"
| step_worker: "node_step unsent s (thread_turn unsent IN_QUEUE s)"

inductive_cases node_stepE: "node_step unsent s t"

section \<open>Invariants\<close>

definition nm_inv :: "node_manager \<Rightarrow> bool" where
  "nm_inv nm \<longleftrightarrow> ids_below (m_node_list nm) (nm_next_id nm) \<and>
     (\<forall>e \<in> set (m_node_list nm). n_node_id (snd e) = fst e)"

lemma nm_inv_empty: "nm_inv empty_node_manager"
  by (simp add: nm_inv_def empty_node_manager_def)

lemma nm_inv_update:
  assumes "nm_inv nm" and "\<And>n. n_node_id (f n) = n_node_id n"
  shows "nm_inv (nm\<lparr>m_node_list := om_update k f (m_node_list nm)\<rparr>)"
  using assms by (auto simp: nm_inv_def ids_below_update set_om_update)

lemma nm_inv_erase: "nm_inv nm \<Longrightarrow> nm_inv (nm\<lparr>m_node_list := om_erase k (m_node_list nm)\<rparr>)"
  by (auto simp: nm_inv_def set_om_erase ids_below_erase)

lemma add_node_ok:
  assumes "nm_inv nm"
  shows "add_node ip port sid nm = (Some (new_node (nm_next_id nm) ip port sid),
    nm\<lparr>nm_next_id := nm_next_id nm + 1,
       m_node_list := om_insert (nm_next_id nm) (new_node (nm_next_id nm) ip port sid) (m_node_list nm)\<rparr>)"
  using assms by (simp add: add_node_def new_node_def nm_inv_def ids_below_fresh Let_def)

lemma add_node_inv:
  assumes "nm_inv nm" and "add_node ip port sid nm = (r, nm')"
  shows "nm_inv nm'"
proof -
  have ok: "om_ok (m_node_list nm)" and fresh: "map_of (m_node_list nm) (nm_next_id nm) = None"
    using assms(1) by (auto simp: nm_inv_def ids_below_fresh)
  show ?thesis
    using assms by (auto simp: add_node_ok nm_inv_def set_om_insert [OF ok fresh] ids_below_insert new_node_def)
qed

definition has_node :: "node_manager \<Rightarrow> int \<Rightarrow> bool" where
  "has_node nm k \<longleftrightarrow> find_node nm k \<noteq> None"

definition add_node_id :: "string \<times> 16 word \<times> int \<Rightarrow> (node_manager, int) exec" where
  "add_node_id a = (\<lambda>nm. case add_node (fst a) (fst (snd a)) (snd (snd a)) nm of
     (None, nm') \<Rightarrow> (Inl Aborted, nm') | (Some n, nm') \<Rightarrow> (Inr (n_node_id n), nm'))"

definition erase_node :: "int \<Rightarrow> node_manager \<Rightarrow> node_manager" where
  "erase_node k nm = nm\<lparr>m_node_list := om_erase k (m_node_list nm)\<rparr>"

interpretation node_registry: registry has_node nm_next_id nm_inv add_node_id erase_node
proof unfold_locales
  fix nm k assume "nm_inv nm" and "has_node nm k"
  then show "k < nm_next_id nm"
    by (auto simp: nm_inv_def has_node_def find_node_def intro: ids_below_lookup)
next
  fix nm a r nm' assume inv: "nm_inv nm" and reg: "add_node_id a nm = (r, nm')"
  have look: "map_of (om_insert (nm_next_id nm) v (m_node_list nm)) =
      (map_of (m_node_list nm))(nm_next_id nm \<mapsto> v)" for v
    using inv by (auto simp: nm_inv_def map_of_om_insert_fresh ids_below_fresh)
  have nm': "nm' = snd (add_node (fst a) (fst (snd a)) (snd (snd a)) nm)"
    using reg by (auto simp: add_node_id_def split: prod.splits option.splits)
  then show "nm_inv nm'" using add_node_inv [OF inv surjective_pairing] by simp
  show "nm_next_id nm \<le> nm_next_id nm'" using nm' by (simp add: add_node_ok [OF inv])
  fix j
  show "has_node nm' j \<Longrightarrow> has_node nm j \<or> nm_next_id nm \<le> j"
    and "has_node nm j \<Longrightarrow> has_node nm' j"
    using nm' by (auto simp: add_node_ok [OF inv] has_node_def find_node_def look split: if_splits)
next
  fix nm a k nm' assume inv: "nm_inv nm" and reg: "add_node_id a nm = (Inr k, nm')"
  have "map_of (om_insert (nm_next_id nm) v (m_node_list nm)) =
      (map_of (m_node_list nm))(nm_next_id nm \<mapsto> v)" for v
    using inv by (auto simp: nm_inv_def map_of_om_insert_fresh ids_below_fresh)
  then show "k = nm_next_id nm \<and> nm_next_id nm' = k + 1 \<and> has_node nm' k"
    using reg by (auto simp: add_node_id_def add_node_ok [OF inv] has_node_def find_node_def new_node_def)
next
  fix nm k j assume inv: "nm_inv nm"
  show "nm_inv (erase_node k nm)" and "nm_next_id (erase_node k nm) = nm_next_id nm"
    using inv by (simp_all add: erase_node_def nm_inv_erase)
  show "has_node (erase_node k nm) j \<Longrightarrow> has_node nm j \<and> j \<noteq> k"
    by (auto simp: erase_node_def has_node_def find_node_def split: if_splits)
qed

section \<open>The least used node\<close>

lemma lowest_load_in: "lowest_load low ns \<in> insert low (set ns)"
  by (induction low ns rule: lowest_load.induct) auto

lemma lowest_load_least:
  "n \<in> insert low (set ns) \<Longrightarrow> n_use_counting (lowest_load low ns) \<le> n_use_counting n"
proof (induction low ns arbitrary: n rule: lowest_load.induct)
  case (2 low m ns)
  let ?l = "if n_use_counting m < n_use_counting low then m else low"
  have "n_use_counting (lowest_load ?l ns) \<le> n_use_counting ?l" by (rule "2.IH") simp
  moreover have "n_use_counting (lowest_load ?l ns) \<le> n_use_counting n" if "n \<in> set ns"
    by (rule "2.IH") (simp add: that)
  ultimately show ?case using "2.prems" by (auto split: if_splits)
qed simp

text \<open>Ties go to the node met first: the one with the smallest id.\<close>

lemma lowest_load_first:
  assumes "sorted_wrt (<) (map n_node_id (low # ns))" and "n \<in> insert low (set ns)"
    and "n_use_counting n = n_use_counting (lowest_load low ns)"
  shows "n_node_id (lowest_load low ns) \<le> n_node_id n"
  using assms
proof (induction low ns arbitrary: n rule: lowest_load.induct)
  case (2 low m ns)
  let ?l = "if n_use_counting m < n_use_counting low then m else low"
  have sorted: "sorted_wrt (<) (map n_node_id (?l # ns))" using "2.prems"(1) by auto
  have eq: "lowest_load low (m # ns) = lowest_load ?l ns" by simp
  show ?case
  proof (cases "n \<in> insert ?l (set ns)")
    case True
    with "2.IH" [OF sorted] "2.prems"(3) show ?thesis by (simp only: eq)
  next
    case False
    with "2.prems"(2) have n: "n = low \<and> ?l = m \<or> n = m \<and> ?l = low" by (auto split: if_splits)
    have le: "n_use_counting (lowest_load ?l ns) \<le> n_use_counting ?l"
      by (rule lowest_load_least) simp
    show ?thesis
    proof (cases "?l = m \<and> n = low")
      case True
      with le "2.prems"(3) False show ?thesis by (auto split: if_splits)
    next
      case F: False
      with n have "?l = low" "n = m" by auto
      with le "2.prems"(3) False have "n_use_counting low = n_use_counting (lowest_load ?l ns)"
        by (auto split: if_splits simp: eq)
      then have "n_node_id (lowest_load ?l ns) \<le> n_node_id low"
        using "2.IH" [OF sorted, of low] \<open>?l = low\<close> by simp
      moreover have "n_node_id low < n_node_id m" using "2.prems"(1) by simp
      ultimately show ?thesis using \<open>n = m\<close> by (simp only: eq)
    qed
  qed
qed simp

lemma find_first_free:
  assumes "om_ok m" and "List.find (\<lambda>e. P (snd e)) m = Some e" and "(k, n) \<in> set m" and "P n"
  shows "fst e \<le> k"
  using assms
proof (induction m)
  case (Cons a m)
  then show ?case by (cases a) (auto split: if_splits dest: find_Some_in intro: less_imp_le)
qed simp

section \<open>The address of a node's service\<close>

definition service_at :: "service_manager \<Rightarrow> string \<Rightarrow> 16 word \<Rightarrow> int \<Rightarrow> bool" where
  "service_at sm ip port sid \<longleftrightarrow> sid < sm_next_id sm \<and>
     (\<forall>s. find_service sm sid = Some s \<longrightarrow> ns_ip s = ip \<and> ns_port s = port)"

definition node_addr_ok :: "node_system \<Rightarrow> string \<Rightarrow> 16 word \<Rightarrow> int \<Rightarrow> bool" where
  "node_addr_ok s ip port node_id \<longleftrightarrow> node_id < nm_next_id (sys_nodes s) \<and>
     (\<forall>n. find_node (sys_nodes s) node_id = Some n \<longrightarrow> n_ip n = ip \<and> n_port n = port)"

fun call_ok :: "node_system \<Rightarrow> node_call \<Rightarrow> bool" where
  "call_ok s (Register_service_for ip port cb) \<longleftrightarrow> cb = None"
| "call_ok s (Add_node ip port sid cb) \<longleftrightarrow> cb = None \<and> service_at (fst (sys_services s)) ip port sid"
| "call_ok s (Remove_service_of sid) \<longleftrightarrow> True"
| "call_ok s (Register_service_again ip port node_id) \<longleftrightarrow> node_addr_ok s ip port node_id"
| "call_ok s (Set_service node_id sid) \<longleftrightarrow>
     (\<exists>ip port. node_addr_ok s ip port node_id \<and> service_at (fst (sys_services s)) ip port sid)"

definition queued :: "node_system \<Rightarrow> node_call set" where
  "queued s = {f. \<exists>t caller. DELEGATE_TYPE caller f \<in> set (queue_of t (sys_queues s))}"

definition nodes_ok :: "node_system \<Rightarrow> bool" where
  "nodes_ok s \<longleftrightarrow> (\<forall>k n. find_node (sys_nodes s) k = Some n \<longrightarrow>
     n_service_id n = 0 \<or> service_at (fst (sys_services s)) (n_ip n) (n_port n) (n_service_id n))"

definition sys_inv :: "node_system \<Rightarrow> bool" where
  "sys_inv s \<longleftrightarrow> nm_inv (sys_nodes s) \<and> sm_inv (sys_services s) \<and> nodes_ok s \<and>
     (\<forall>f \<in> queued s. call_ok s f)"

lemma queued_simps [simp]:
  "queued (s\<lparr>sys_nodes := nm\<rparr>) = queued s" "queued (s\<lparr>sys_services := sv\<rparr>) = queued s"
  by (simp_all add: queued_def)

lemma queued_delegate [simp]:
  "queued (s\<lparr>sys_queues := delegate caller actor f (sys_queues s)\<rparr>) = insert f (queued s)"
  unfolding queued_def delegate_def queue_push_def
  by (auto split: if_splits) (metis queue_of.simps queue_type.exhaust)+

text \<open>The parts of the state that \<open>call_ok\<close> reads.\<close>

lemma call_ok_queues [simp]: "call_ok (s\<lparr>sys_queues := q\<rparr>) f = call_ok s f"
  by (cases f) (simp_all add: node_addr_ok_def)

lemma call_ok_mono:
  assumes "call_ok s f"
    and "\<And>ip port sid. service_at (fst (sys_services s)) ip port sid \<Longrightarrow> service_at (fst (sys_services t)) ip port sid"
    and "\<And>ip port k. node_addr_ok s ip port k \<Longrightarrow> node_addr_ok t ip port k"
  shows "call_ok t f"
  using assms(1) by (cases f) (auto intro: assms(2,3))

lemma nodes_okD:
  "nodes_ok s \<Longrightarrow> find_node (sys_nodes s) k = Some n \<Longrightarrow>
   n_service_id n = 0 \<or> service_at (fst (sys_services s)) (n_ip n) (n_port n) (n_service_id n)"
  by (simp add: nodes_ok_def)

lemma nodes_ok_mono:
  assumes "nodes_ok s" and "sys_nodes t = sys_nodes s"
    and "\<And>ip port sid. service_at (fst (sys_services s)) ip port sid \<Longrightarrow> service_at (fst (sys_services t)) ip port sid"
  shows "nodes_ok t"
  using assms(1) unfolding nodes_ok_def assms(2) by (blast intro: assms(3))

lemma service_at_remove:
  "service_at (fst sv) ip port sid \<Longrightarrow> service_at (fst (remove_service unsent k sv)) ip port sid"
  by (cases sv) (simp add: service_at_def remove_service_def find_service_erase)

lemma service_at_register:
  assumes "sm_inv (sm, ct)" and "register_service ip port sm = (r, sm')"
  shows "service_at sm ip' port' sid \<Longrightarrow> service_at sm' ip' port' sid"
    and "r = Inr s \<Longrightarrow> service_at sm' ip port (ns_service_id s)"
proof -
  have look: "map_of (om_insert (sm_next_id sm) v (m_service_list sm)) =
      (map_of (m_service_list sm))(sm_next_id sm \<mapsto> v)" for v
    using assms(1) by (auto simp: sm_inv_def map_of_om_insert_fresh ids_below_fresh)
  from assms show "service_at sm ip' port' sid \<Longrightarrow> service_at sm' ip' port' sid"
    by (cases rule: register_service_cases) (auto simp: service_at_def find_service_def look)
  from assms show "r = Inr s \<Longrightarrow> service_at sm' ip port (ns_service_id s)"
    by (cases rule: register_service_cases) (auto simp: service_at_def find_service_def look)
qed

section \<open>Every step keeps the system invariant\<close>

lemma sys_inv_services:
  assumes "sys_inv s" and "sm_inv sv"
    and "\<And>ip port sid. service_at (fst (sys_services s)) ip port sid \<Longrightarrow> service_at (fst sv) ip port sid"
  shows "sys_inv (s\<lparr>sys_services := sv\<rparr>)"
proof -
  have "nodes_ok (s\<lparr>sys_services := sv\<rparr>)"
    by (rule nodes_ok_mono [of s]) (use assms in \<open>auto simp: sys_inv_def\<close>)
  moreover have "call_ok (s\<lparr>sys_services := sv\<rparr>) f" if "call_ok s f" for f
    by (rule call_ok_mono [OF that]) (use assms(3) in \<open>auto simp: node_addr_ok_def\<close>)
  ultimately show ?thesis using assms(1,2) by (simp add: sys_inv_def)
qed

lemma sys_inv_delegate:
  "sys_inv s \<Longrightarrow> call_ok s f \<Longrightarrow> sys_inv (s\<lparr>sys_queues := delegate caller actor f (sys_queues s)\<rparr>)"
  by (auto simp: sys_inv_def nodes_ok_def)

lemma sys_inv_nodes:
  assumes "sys_inv s" and "nm_inv nm" and "nm_next_id (sys_nodes s) \<le> nm_next_id nm"
    and "\<And>k n. find_node nm k = Some n \<Longrightarrow>
      (n_service_id n = 0 \<or> service_at (fst (sys_services s)) (n_ip n) (n_port n) (n_service_id n)) \<and>
      (nm_next_id (sys_nodes s) \<le> k \<or> (\<exists>m. find_node (sys_nodes s) k = Some m \<and> n_ip m = n_ip n \<and> n_port m = n_port n))"
  shows "sys_inv (s\<lparr>sys_nodes := nm\<rparr>)"
proof -
  have "call_ok (s\<lparr>sys_nodes := nm\<rparr>) f" if "call_ok s f" for f
  proof (rule call_ok_mono [OF that])
    fix ip port k assume *: "node_addr_ok s ip port k"
    then have "n_ip n = ip \<and> n_port n = port" if "find_node nm k = Some n" for n
      using assms(4) [OF that] by (auto simp: node_addr_ok_def)
    with * assms(3) show "node_addr_ok (s\<lparr>sys_nodes := nm\<rparr>) ip port k"
      by (simp add: node_addr_ok_def)
  qed simp
  with assms show ?thesis by (simp add: sys_inv_def nodes_ok_def)
qed

lemma find_node_insert:
  "nm_inv nm \<Longrightarrow> find_node (nm\<lparr>nm_next_id := j, m_node_list := om_insert (nm_next_id nm) v (m_node_list nm)\<rparr>) k =
     (if k = nm_next_id nm then Some v else find_node nm k)"
  by (auto simp: nm_inv_def find_node_def map_of_om_insert_fresh ids_below_fresh)

lemma find_node_update:
  "find_node (nm\<lparr>m_node_list := om_update j f (m_node_list nm)\<rparr>) k =
     (if k = j then map_option f (find_node nm j) else find_node nm k)"
  by (simp add: find_node_def map_of_om_update)

lemma find_node_erase:
  "find_node (nm\<lparr>m_node_list := om_erase j (m_node_list nm)\<rparr>) k = (if k = j then None else find_node nm k)"
  by (simp add: find_node_def)

lemma sys_inv_run_call:
  assumes inv: "sys_inv s" and ok: "call_ok s f"
  shows "sys_inv (run_node_call unsent f s)"
proof -
  obtain sm ct where sv: "sys_services s = (sm, ct)" by fastforce
  have sm: "sm_inv (sm, ct)" and nm: "nm_inv (sys_nodes s)" and nodes: "nodes_ok s"
    using inv sv by (auto simp: sys_inv_def)
  have reg: "sys_inv (s\<lparr>sys_services := (sm', ct)\<rparr>)" if "register_service ip port sm = (r, sm')" for ip port r sm'
    using service_at_register(1) [OF sm that] register_service_inv [OF sm that]
    by (intro sys_inv_services [OF inv]) (auto simp: sv)
  show ?thesis
  proof (cases f)
    case (Register_service_for ip port cb)
    obtain r sm' where r: "register_service ip port sm = (r, sm')" by fastforce
    show ?thesis
    proof (cases r)
      case (Inr service)
      have "call_ok (s\<lparr>sys_services := (sm', ct)\<rparr>) (Add_node ip port (ns_service_id service) cb)"
        using service_at_register(2) [OF sm r Inr] ok Register_service_for by simp
      from sys_inv_delegate [OF reg [OF r] this] show ?thesis
        by (simp add: Register_service_for sv r Inr)
    qed (use reg [OF r] in \<open>simp add: Register_service_for sv r\<close>)
  next
    case (Add_node ip port sid cb)
    have "sys_inv (s\<lparr>sys_nodes := snd (add_node ip port sid (sys_nodes s))\<rparr>)"
    proof (rule sys_inv_nodes [OF inv])
      show "nm_inv (snd (add_node ip port sid (sys_nodes s)))"
        by (rule add_node_inv [OF nm surjective_pairing])
    qed (use ok Add_node nodes in \<open>auto simp: add_node_ok [OF nm] find_node_insert [OF nm] nodes_ok_def
        new_node_def split: if_splits\<close>)
    then show ?thesis using ok Add_node by (simp add: add_node_ok [OF nm])
  next
    case (Remove_service_of sid)
    then show ?thesis
      using sys_inv_services [OF inv, of "remove_service unsent sid (sys_services s)"]
        remove_service_inv [of "sys_services s"] service_at_remove inv by (simp add: sys_inv_def)
  next
    case (Register_service_again ip port node_id)
    obtain r sm' where r: "register_service ip port sm = (r, sm')" by fastforce
    show ?thesis
    proof (cases r)
      case (Inr service)
      have "call_ok (s\<lparr>sys_services := (sm', ct)\<rparr>) (Set_service node_id (ns_service_id service))"
        using service_at_register(2) [OF sm r Inr] ok Register_service_again
        by (auto simp: node_addr_ok_def)
      from sys_inv_delegate [OF reg [OF r] this] show ?thesis
        by (simp add: Register_service_again sv r Inr)
    qed (use reg [OF r] in \<open>simp add: Register_service_again sv r\<close>)
  next
    case (Set_service node_id sid)
    then obtain ip port where *: "node_addr_ok s ip port node_id" "service_at (fst (sys_services s)) ip port sid"
      using ok by auto
    show ?thesis
    proof (cases "find_node (sys_nodes s) node_id")
      case (Some n)
      have "sys_inv (s\<lparr>sys_nodes := (sys_nodes s)\<lparr>m_node_list :=
          om_update node_id (\<lambda>n. n\<lparr>n_service_id := sid\<rparr>) (m_node_list (sys_nodes s))\<rparr>\<rparr>)"
        by (rule sys_inv_nodes [OF inv nm_inv_update [OF nm]])
          (use * Some nodes in \<open>auto simp: find_node_update node_addr_ok_def nodes_ok_def split: if_splits\<close>)
      with Some show ?thesis by (simp add: Set_service get_node_def)
    qed (use inv in \<open>simp add: Set_service get_node_def\<close>)
  qed
qed

lemma sys_inv_turn: "sys_inv s \<Longrightarrow> sys_inv (thread_turn unsent t s)"
proof -
  assume inv: "sys_inv s"
  show ?thesis
  proof (cases "queue_of t (sys_queues s)")
    case (Cons m ms)
    let ?s = "s\<lparr>sys_queues := set_queue t ms (sys_queues s)\<rparr>"
    have "queued ?s \<subseteq> queued s"
      unfolding queued_def using Cons by (auto split: if_splits) (metis list.set_intros(2))
    then have s: "sys_inv ?s" using inv by (auto simp: sys_inv_def nodes_ok_def)
    show ?thesis
    proof (cases m)
      case (DELEGATE_TYPE caller f)
      have "f \<in> queued s" unfolding queued_def using Cons DELEGATE_TYPE
        by (auto intro!: exI [of _ t] exI [of _ caller])
      then have "call_ok ?s f" using inv by (simp add: sys_inv_def)
      with s show ?thesis
        by (simp add: thread_turn_def queue_empty_def queue_pop_def Cons DELEGATE_TYPE sys_inv_run_call)
    qed (use s Cons in \<open>simp add: thread_turn_def queue_empty_def queue_pop_def\<close>)
  qed (use inv in \<open>simp add: thread_turn_def queue_empty_def\<close>)
qed

lemma sys_inv_step: "node_step unsent s t \<Longrightarrow> sys_inv s \<Longrightarrow> sys_inv t"
proof (induction rule: node_step.induct)
  case (step_register s ip port)
  then show ?case unfolding register_node_def by (intro sys_inv_delegate) simp_all
next
  case (step_remove s node_id)
  show ?case
  proof (cases "find_node (sys_nodes s) node_id")
    case (Some n)
    let ?s = "s\<lparr>sys_queues := delegate ''remove_node'' NETWORK (Remove_service_of (n_service_id n)) (sys_queues s)\<rparr>"
    have inv: "sys_inv ?s" using step_remove by (intro sys_inv_delegate) simp_all
    have "sys_inv (?s\<lparr>sys_nodes := (sys_nodes ?s)\<lparr>m_node_list := om_erase node_id (m_node_list (sys_nodes ?s))\<rparr>\<rparr>)"
    proof (rule sys_inv_nodes [OF inv nm_inv_erase])
      fix k m assume "find_node ((sys_nodes ?s)\<lparr>m_node_list := om_erase node_id (m_node_list (sys_nodes ?s))\<rparr>) k = Some m"
      then have "find_node (sys_nodes ?s) k = Some m" by (simp add: find_node_erase split: if_splits)
      with nodes_okD [of ?s k m] inv
      show "(n_service_id m = 0 \<or> service_at (fst (sys_services ?s)) (n_ip m) (n_port m) (n_service_id m)) \<and>
        (nm_next_id (sys_nodes ?s) \<le> k \<or>
          (\<exists>l. find_node (sys_nodes ?s) k = Some l \<and> n_ip l = n_ip m \<and> n_port l = n_port m))"
        by (simp add: sys_inv_def)
    qed (use step_remove in \<open>simp_all add: sys_inv_def\<close>)
    then show ?thesis using Some by (simp add: remove_node_def)
  qed (use step_remove in \<open>simp add: remove_node_def\<close>)
next
  case (step_use s node_id d)
  show ?case
    unfolding add_node_use_def
  proof (rule sys_inv_nodes [OF step_use nm_inv_update])
    let ?f = "\<lambda>n. n\<lparr>n_use_counting := n_use_counting n + d\<rparr>"
    fix k m assume "find_node ((sys_nodes s)\<lparr>m_node_list := om_update node_id ?f (m_node_list (sys_nodes s))\<rparr>) k = Some m"
    then obtain l where l: "find_node (sys_nodes s) k = Some l"
      and "n_service_id m = n_service_id l" "n_ip m = n_ip l" "n_port m = n_port l"
      by (auto simp: find_node_update split: if_splits)
    with nodes_okD [OF _ l] step_use
    show "(n_service_id m = 0 \<or> service_at (fst (sys_services s)) (n_ip m) (n_port m) (n_service_id m)) \<and>
        (nm_next_id (sys_nodes s) \<le> k \<or>
          (\<exists>l. find_node (sys_nodes s) k = Some l \<and> n_ip l = n_ip m \<and> n_port l = n_port m))"
      by (simp add: sys_inv_def)
  qed (use step_use in \<open>simp_all add: sys_inv_def\<close>)
qed (simp_all add: sys_inv_turn)

lemma sys_inv_steps: "(node_step unsent)\<^sup>*\<^sup>* s t \<Longrightarrow> sys_inv s \<Longrightarrow> sys_inv t"
  by (induction rule: rtranclp_induct) (auto intro: sys_inv_step)

section \<open>Properties\<close>

text \<open>
  Choosing a node for a new group. With no node registered, \<open>get_fit_node\<close> dereferences
  the end of an empty map. Otherwise it returns a registered node that no other is less used
  than, and among the least used ones the one with the smallest id.
\<close>

theorem get_fit_node_spec:
  assumes inv: "nm_inv nm" and nonneg: "\<And>k n. find_node nm k = Some n \<Longrightarrow> 0 \<le> n_use_counting n"
  shows "case get_fit_node nm of
      Inl e \<Rightarrow> e = Undefined \<and> m_node_list nm = []
    | Inr n \<Rightarrow> find_node nm (n_node_id n) = Some n \<and>
        (\<forall>k m. find_node nm k = Some m \<longrightarrow> n_use_counting n \<le> n_use_counting m \<and>
           (n_use_counting m = n_use_counting n \<longrightarrow> n_node_id n \<le> k))"
proof (cases "m_node_list nm")
  case Nil
  then show ?thesis by (simp add: get_fit_node_def om_find_if_def)
next
  case (Cons e es)
  have ok: "om_ok (m_node_list nm)" using inv by (auto simp: nm_inv_def)
  have mem: "find_node nm k = Some m \<longleftrightarrow> (k, m) \<in> set (m_node_list nm)" for k m
    using ok by (simp add: find_node_def om_ok_map_of)
  have id: "n_node_id m = k" if "(k, m) \<in> set (m_node_list nm)" for k m
    using inv that by (auto simp: nm_inv_def)
  show ?thesis
  proof (cases "List.find (\<lambda>e. n_use_counting (snd e) = 0) (m_node_list nm)")
    case (Some f)
    obtain k n where f: "f = (k, n)" by fastforce
    have in': "(k, n) \<in> set (m_node_list nm)" and zero: "n_use_counting n = 0"
      using find_Some_in [OF Some] f by auto
    have fit: "get_fit_node nm = Inr n" using Some f by (simp add: get_fit_node_def om_find_if_def)
    have "0 \<le> n_use_counting m" "n_use_counting m = 0 \<longrightarrow> k \<le> j" if "find_node nm j = Some m" for j m
      using nonneg [OF that] find_first_free [OF ok Some, of j m] that f by (auto simp: mem)
    then show ?thesis using fit in' id [OF in'] zero by (simp add: mem)
  next
    case None
    let ?ns = "map snd (e # es)" and ?n = "lowest_load (snd e) (map snd (e # es))"
    have fit: "get_fit_node nm = Inr ?n" using None Cons by (simp add: get_fit_node_def om_find_if_def)
    have "?n \<in> snd ` set (m_node_list nm)" using lowest_load_in [of "snd e" ?ns] Cons by auto
    then obtain k where in': "(k, ?n) \<in> set (m_node_list nm)" by force
    have low: "lowest_load (snd e) (map snd (e # es)) = lowest_load (snd e) (map snd es)" by simp
    have "map n_node_id (snd e # map snd es) = map fst (m_node_list nm)"
      using Cons id by (auto simp: comp_def)
    then have sorted: "sorted_wrt (<) (map n_node_id (snd e # map snd es))"
      using ok by (simp add: om_ok_def)
    have "n_use_counting ?n \<le> n_use_counting m" if "(j, m) \<in> set (m_node_list nm)" for j m
      by (rule lowest_load_least) (use that Cons in force)
    moreover have "n_node_id ?n \<le> j" if "(j, m) \<in> set (m_node_list nm)" "n_use_counting m = n_use_counting ?n" for j m
    proof -
      have "m \<in> insert (snd e) (set (map snd es))" using that(1) Cons by force
      from lowest_load_first [OF sorted this] that id show ?thesis by (simp add: low)
    qed
    ultimately show ?thesis using fit in' id [OF in'] by (simp add: mem del: lowest_load.simps)
  qed
qed

definition example_nodes :: node_manager where
  "example_nodes =
     \<lparr>m_node_list = [(1, (new_node 1 ''10.0.0.1'' 9000 1)\<lparr>n_use_counting := 3\<rparr>),
                     (2, (new_node 2 ''10.0.0.2'' 9000 2)\<lparr>n_use_counting := 1\<rparr>),
                     (4, (new_node 4 ''10.0.0.4'' 9000 4)\<lparr>n_use_counting := 1\<rparr>)],
      nm_next_id = 5\<rparr>"

lemma nm_inv_example: "nm_inv example_nodes"
  by (simp add: nm_inv_def example_nodes_def ids_below_def new_node_def)

theorem get_fit_node_spec_witness:
  "\<exists>n. get_fit_node example_nodes = Inr n \<and> n_node_id n = 2"
proof -
  have f: "find_node example_nodes k = Some n \<longleftrightarrow>
     k = 1 \<and> n = (new_node 1 ''10.0.0.1'' 9000 1)\<lparr>n_use_counting := 3\<rparr> \<or>
     k = 2 \<and> n = (new_node 2 ''10.0.0.2'' 9000 2)\<lparr>n_use_counting := 1\<rparr> \<or>
     k = 4 \<and> n = (new_node 4 ''10.0.0.4'' 9000 4)\<lparr>n_use_counting := 1\<rparr>" for k n
    by (auto simp: find_node_def example_nodes_def)
  have "m_node_list example_nodes \<noteq> []" by (simp add: example_nodes_def)
  have nonneg: "0 \<le> n_use_counting n" if "find_node example_nodes k = Some n" for k n
    using that by (auto simp: f)
  have spec: "case get_fit_node example_nodes of
      Inl e \<Rightarrow> e = Undefined \<and> m_node_list example_nodes = []
    | Inr n \<Rightarrow> find_node example_nodes (n_node_id n) = Some n \<and>
        (\<forall>k m. find_node example_nodes k = Some m \<longrightarrow> n_use_counting n \<le> n_use_counting m \<and>
           (n_use_counting m = n_use_counting n \<longrightarrow> n_node_id n \<le> k))"
    by (rule get_fit_node_spec [OF nm_inv_example]) (rule nonneg)
  obtain n where n: "get_fit_node example_nodes = Inr n"
    using spec \<open>m_node_list example_nodes \<noteq> []\<close> by (cases "get_fit_node example_nodes") simp_all
  have least: "n_use_counting n \<le> n_use_counting m \<and> (n_use_counting m = n_use_counting n \<longrightarrow> n_node_id n \<le> k)"
    if "find_node example_nodes k = Some m" for k m
    using spec that n by simp
  have own: "find_node example_nodes (n_node_id n) = Some n" using spec n by simp
  have "find_node example_nodes 2 = Some ((new_node 2 ''10.0.0.2'' 9000 2)\<lparr>n_use_counting := 1\<rparr>)"
    by (simp add: f)
  from least [OF this] own n show ?thesis by (auto simp: f new_node_def)
qed

text \<open>
  C31. A node never talks to another node's address. However callers, the network thread and
  the worker interleave, the service that a node record names - as long as the service
  exists - has the node's own address, also while registrations and removals are under way.
\<close>

theorem node_service_address:
  assumes "sys_inv s" and "(node_step unsent)\<^sup>*\<^sup>* s t"
    and "find_node (sys_nodes t) k = Some n" and "n_service_id n \<noteq> 0"
    and "find_service (fst (sys_services t)) (n_service_id n) = Some sv"
  shows "ns_ip sv = n_ip n \<and> ns_port sv = n_port n"
  using sys_inv_steps [OF assms(2,1)] assms(3-5)
  by (auto simp: sys_inv_def nodes_ok_def service_at_def)

definition empty_node_system :: node_system where
  "empty_node_system =
     \<lparr>sys_nodes = empty_node_manager,
      sys_services = (empty_service_manager, \<lparr>m_net_conns = [], m_net_next_id = 1\<rparr>),
      sys_queues = empty_queues\<rparr>"

lemma empty_queue [simp]: "queue_of t empty_queues = []"
  by (cases t) (simp_all add: empty_queues_def)

lemma sys_inv_empty: "sys_inv empty_node_system"
proof -
  have "queued empty_node_system = {}"
    using empty_queue by (simp add: queued_def empty_node_system_def)
  moreover have "nodes_ok empty_node_system"
    by (simp add: nodes_ok_def find_node_def empty_node_system_def empty_node_manager_def)
  ultimately show ?thesis
    by (simp add: sys_inv_def) (simp add: empty_node_system_def nm_inv_empty sm_inv_empty)
qed

text \<open>
  C32. Registering a node takes effect. On a system with empty queues, where no service has
  the address, one turn of the network thread and one of the worker enter the node under
  the next id with a service of its address; where a service has the address already, the
  node is never entered.
\<close>

theorem register_node_effect:
  assumes inv: "sys_inv s" and "sys_queues s = empty_queues"
    and t: "t = thread_turn unsent IN_QUEUE (thread_turn unsent OUT_QUEUE (register_node ip port None s))"
  shows "sys_queues t = empty_queues \<and>
    (case find_service_at (fst (sys_services s)) ip port of
       Some _ \<Rightarrow> sys_nodes t = sys_nodes s
     | None \<Rightarrow>
         find_node (sys_nodes t) (nm_next_id (sys_nodes s)) =
           Some (new_node (nm_next_id (sys_nodes s)) ip port (sm_next_id (fst (sys_services s)))) \<and>
         find_service (fst (sys_services t)) (sm_next_id (fst (sys_services s))) =
           Some \<lparr>ns_service_id = sm_next_id (fst (sys_services s)), ns_ip = ip, ns_port = port\<rparr>)"
proof -
  obtain sm ct where sv: "sys_services s = (sm, ct)" by fastforce
  have sm: "sm_inv (sm, ct)" and nm: "nm_inv (sys_nodes s)" using inv sv by (auto simp: sys_inv_def)
  have look: "map_of (om_insert (sm_next_id sm) v (m_service_list sm)) (sm_next_id sm) = Some v" for v
    using sm by (auto simp: sm_inv_def map_of_om_insert_fresh ids_below_fresh)
  obtain r sm' where r: "register_service ip port sm = (r, sm')" by fastforce
  note turn_defs = t register_node_def thread_turn_def queue_empty_def queue_pop_def delegate_def queue_push_def
  show ?thesis
    using sm r
  proof (cases rule: register_service_cases)
    case taken
    then show ?thesis
      using assms(2) by (auto simp: turn_defs sv r empty_queues_def)
  next
    case (new service)
    then show ?thesis
      using assms(2)
      by (simp add: turn_defs sv r empty_queues_def add_node_ok [OF nm] find_node_insert [OF nm]
          find_service_def look)
  qed
qed

theorem register_node_effect_witness:
  "find_node (sys_nodes (thread_turn (\<lambda>_. False) IN_QUEUE (thread_turn (\<lambda>_. False) OUT_QUEUE
      (register_node ''10.0.0.1'' 9000 None empty_node_system)))) 1 = Some (new_node 1 ''10.0.0.1'' 9000 1)"
proof -
  have "find_service_at (fst (sys_services empty_node_system)) ''10.0.0.1'' 9000 = None"
    and "nm_next_id (sys_nodes empty_node_system) = 1" "sm_next_id (fst (sys_services empty_node_system)) = 1"
    and "sys_queues empty_node_system = empty_queues"
    by (simp_all add: empty_node_system_def empty_service_manager_def empty_node_manager_def
        find_service_at_def om_find_if_def)
  with register_node_effect [OF sys_inv_empty _ refl, of "\<lambda>_. False" "''10.0.0.1''" 9000]
  show ?thesis by simp
qed

definition example_run :: node_system where
  "example_run = thread_turn (\<lambda>_. False) IN_QUEUE (thread_turn (\<lambda>_. False) OUT_QUEUE
      (register_node ''10.0.0.1'' 9000 None empty_node_system))"

lemma example_run_steps: "(node_step (\<lambda>_. False))\<^sup>*\<^sup>* empty_node_system example_run"
  unfolding example_run_def
  by (meson rtranclp.rtrancl_refl rtranclp.rtrancl_into_rtrancl step_register step_network step_worker)

lemma example_run_node:
  "find_node (sys_nodes example_run) 1 = Some (new_node 1 ''10.0.0.1'' 9000 1)"
  "find_service (fst (sys_services example_run)) 1 =
     Some \<lparr>ns_service_id = 1, ns_ip = ''10.0.0.1'', ns_port = 9000\<rparr>"
  by (simp_all add: example_run_def register_node_def thread_turn_def queue_empty_def queue_pop_def
      delegate_def queue_push_def empty_node_system_def empty_queues_def empty_service_manager_def
      empty_node_manager_def register_service_def find_service_at_def om_find_if_def Let_def
      add_node_def new_node_def find_node_def find_service_def)

theorem node_service_address_witness:
  "\<exists>n sv. find_node (sys_nodes example_run) 1 = Some n \<and>
     find_service (fst (sys_services example_run)) (n_service_id n) = Some sv \<and>
     ns_ip sv = n_ip n \<and> ns_port sv = n_port n"
  using node_service_address [OF sys_inv_empty example_run_steps example_run_node(1)] example_run_node
  by (auto simp: new_node_def)

end
