(* ===== verification/Sharing_Groups.thy ===== *)
theory Sharing_Groups
  imports Users Files Nodes Sessions Paths
begin

text \<open>
  \<open>SharingGroup\<close> and \<open>SharingGroupManager\<close> of \<open>resource_server/core.{h,cpp}\<close>: the roles of
  users in a group, the directory tree that hangs off a group's root directory, and the
  registry of groups. The tree lives in the file manager, the load of the storage nodes in
  the node manager; \<open>core\<close> is the record of all managers of the resource server.
\<close>

section \<open>State\<close>

record sharing_group =
  m_group_id :: int
  m_group_name :: string
  m_owner_id :: int
  m_root_dir_id :: int
  m_node_id :: int
  m_manager_list :: "int list"
  m_member_list :: "int list"

definition new_group :: "int \<Rightarrow> string \<Rightarrow> int \<Rightarrow> int \<Rightarrow> int \<Rightarrow> sharing_group" where
  "new_group group_id group_name owner_id root_dir_id node_id =
     \<lparr>m_group_id = group_id, m_group_name = group_name, m_owner_id = owner_id,
      m_root_dir_id = root_dir_id, m_node_id = node_id,
      m_manager_list = [owner_id], m_member_list = [owner_id]\<rparr>"

record group_manager =
  m_group_list :: "(int, sharing_group) omap"
  gm_next_id :: int

definition empty_group_manager :: group_manager where
  "empty_group_manager = \<lparr>m_group_list = [], gm_next_id = 1\<rparr>"

record core =
  c_users :: user_manager
  c_groups :: group_manager
  c_files :: file_manager
  c_nodes :: node_manager
  c_sessions :: session_manager

abbreviation on_users where "on_users \<equiv> zoom c_users (\<lambda>x c. c\<lparr>c_users := x\<rparr>)"
abbreviation on_groups where "on_groups \<equiv> zoom c_groups (\<lambda>x c. c\<lparr>c_groups := x\<rparr>)"
abbreviation on_files where "on_files \<equiv> zoom c_files (\<lambda>x c. c\<lparr>c_files := x\<rparr>)"
abbreviation on_nodes where "on_nodes \<equiv> zoom c_nodes (\<lambda>x c. c\<lparr>c_nodes := x\<rparr>)"
abbreviation on_sessions where "on_sessions \<equiv> zoom c_sessions (\<lambda>x c. c\<lparr>c_sessions := x\<rparr>)"

section \<open>Roles\<close>

definition is_manager :: "sharing_group \<Rightarrow> int \<Rightarrow> bool" where
  "is_manager g user_id \<longleftrightarrow> user_id \<in> set (m_manager_list g)"

definition is_member :: "sharing_group \<Rightarrow> int \<Rightarrow> bool" where
  "is_member g user_id \<longleftrightarrow> user_id \<in> set (m_member_list g)"

definition join_group :: "int \<Rightarrow> sharing_group \<Rightarrow> sharing_group" where
  "join_group user_id g =
     (if user_id \<in> set (m_member_list g) then g
      else g\<lparr>m_member_list := m_member_list g @ [user_id]\<rparr>)"

text \<open>\<open>std::find\<close> and \<open>erase\<close> of the iterator remove the first occurrence.\<close>

definition kick_out_user :: "int \<Rightarrow> (sharing_group, unit) exec" where
  "kick_out_user user_id = (\<lambda>g.
     if user_id = m_owner_id g then (Inl (Thrown (Resource ERR_GROUP_CANNOT_KICK_OUT_OWNER)), g)
     else (Inr (), g\<lparr>m_member_list := remove1 user_id (m_member_list g),
                     m_manager_list := remove1 user_id (m_manager_list g)\<rparr>))"

definition assign_as_manager :: "int \<Rightarrow> (sharing_group, unit) exec" where
  "assign_as_manager user_id = (\<lambda>g.
     if is_member g user_id then
       bindE (kick_out_user user_id)
         (\<lambda>_. modify (\<lambda>g. g\<lparr>m_manager_list := m_manager_list g @ [user_id]\<rparr>)) g
     else if is_manager g user_id then (Inl (Thrown (Resource ERR_GROUP_ALREADY_IS_MANAGER)), g)
     else (Inl (Thrown (Resource ERR_GROUP_USER_NOT_JOIN)), g))"

definition assign_as_member :: "int \<Rightarrow> (sharing_group, unit) exec" where
  "assign_as_member user_id = (\<lambda>g.
     if is_manager g user_id then
       bindE (kick_out_user user_id)
         (\<lambda>_. modify (\<lambda>g. g\<lparr>m_member_list := m_member_list g @ [user_id]\<rparr>)) g
     else if is_member g user_id then (Inl (Thrown (Resource ERR_GROUP_ALREADY_IS_MEMBER)), g)
     else (Inl (Thrown (Resource ERR_GROUP_USER_NOT_JOIN)), g))"

section \<open>The directory tree\<close>

text \<open>The loop of \<open>get_file_id\<close>; the list is what \<open>split\<close> returned.\<close>

fun walk :: "file_manager \<Rightarrow> int \<Rightarrow> string list \<Rightarrow> int res" where
  "walk fm parent_dir_id [] = Inr parent_dir_id"
| "walk fm parent_dir_id (dir_name # names) = (case get_file fm parent_dir_id of
     Inl e \<Rightarrow> Inl e
   | Inr parent \<Rightarrow>
       if sf_file_type parent \<noteq> DIRECTORY then Inr INVALID_ID
       else (case sf_body parent of
         Sharing_directory file_list \<Rightarrow>
           (let file_id = dir_find_file fm file_list dir_name in
            if file_id = INVALID_ID then Inr file_id else walk fm file_id names)
       | _ \<Rightarrow> Inl Bad_cast))"

text \<open>The loop of \<open>create_path\<close>.\<close>

fun create_walk :: "int \<Rightarrow> string list \<Rightarrow> (file_manager, unit) exec" where
  "create_walk parent_id [] fm = (Inr (), fm)"
| "create_walk parent_id (dir_name # names) fm = (case get_file fm parent_id of
     Inl e \<Rightarrow> (Inl e, fm)
   | Inr parent \<Rightarrow>
       if sf_file_type parent \<noteq> DIRECTORY then (Inl (Thrown (Resource ERR_GROUP_NOT_DIRECTORY)), fm)
       else (case sf_body parent of
         Sharing_directory file_list \<Rightarrow>
           (let file_id = dir_find_file fm file_list dir_name in
            if file_id = INVALID_ID
            then (case register_file DIRECTORY dir_name 0 fm of
                (Inl e, fm1) \<Rightarrow> (Inl e, fm1)
              | (Inr new_file, fm1) \<Rightarrow>
                  create_walk (sf_file_id new_file) names
                    (update_dir parent_id (\<lambda>ids. ids @ [sf_file_id new_file]) fm1))
            else create_walk file_id names fm)
       | _ \<Rightarrow> (Inl Bad_cast, fm)))"

text \<open>The loop of \<open>remove_path\<close>: the last two ids of the walk.\<close>

fun remove_walk :: "file_manager \<Rightarrow> int \<Rightarrow> int \<Rightarrow> string list \<Rightarrow> (int \<times> int) res" where
  "remove_walk fm previous_parent_id parent_id [] = Inr (previous_parent_id, parent_id)"
| "remove_walk fm previous_parent_id parent_id (dir_name # names) = (case get_file fm parent_id of
     Inl e \<Rightarrow> Inl e
   | Inr parent \<Rightarrow>
       if sf_file_type parent \<noteq> DIRECTORY then Inl (Thrown (Resource ERR_GROUP_NOT_DIRECTORY))
       else (case sf_body parent of
         Sharing_directory file_list \<Rightarrow>
           (let file_id = dir_find_file fm file_list dir_name in
            if file_id = INVALID_ID then Inl (Thrown (Resource ERR_FILE_NOT_EXIST))
            else remove_walk fm parent_id file_id names)
       | _ \<Rightarrow> Inl Bad_cast))"

text \<open>The operations. A path argument is a \<open>FilePath\<close>, the string left in \<open>m_path\<close>.\<close>

definition get_file_id :: "poco \<Rightarrow> sharing_group \<Rightarrow> string \<Rightarrow> file_manager \<Rightarrow> int res" where
  "get_file_id P g path fm = walk fm (m_root_dir_id g) (split_path P path)"

definition exist_path :: "poco \<Rightarrow> sharing_group \<Rightarrow> string \<Rightarrow> file_manager \<Rightarrow> bool res" where
  "exist_path P g path fm = map_sum id (\<lambda>k. k \<noteq> INVALID_ID) (get_file_id P g path fm)"

definition add_file :: "poco \<Rightarrow> sharing_group \<Rightarrow> string \<Rightarrow> int \<Rightarrow> (file_manager, unit) exec" where
  "add_file P g dir_path file_id = (\<lambda>fm. case get_file_id P g dir_path fm of
     Inl e \<Rightarrow> (Inl e, fm)
   | Inr dir_id \<Rightarrow> (case get_file fm dir_id of
       Inl e \<Rightarrow> (Inl e, fm)
     | Inr dir_file \<Rightarrow>
         if sf_file_type dir_file \<noteq> DIRECTORY then (Inl (Thrown (Resource ERR_GROUP_NOT_DIRECTORY)), fm)
         else (case sf_body dir_file of
             Sharing_directory _ \<Rightarrow> (Inr (), update_dir dir_id (\<lambda>ids. ids @ [file_id]) fm)
           | _ \<Rightarrow> (Inl Bad_cast, fm))))"

definition create_path :: "poco \<Rightarrow> sharing_group \<Rightarrow> string \<Rightarrow> (file_manager, unit) exec" where
  "create_path P g path = create_walk (m_root_dir_id g) (split_path P path)"

definition remove_path :: "poco \<Rightarrow> sharing_group \<Rightarrow> string \<Rightarrow> (file_manager, unit) exec" where
  "remove_path P g path = (\<lambda>fm.
     case remove_walk fm (m_root_dir_id g) (m_root_dir_id g) (split_path P path) of
       Inl e \<Rightarrow> (Inl e, fm)
     | Inr (previous_parent_id, parent_id) \<Rightarrow>
         if parent_id = m_root_dir_id g
         then (Inl (Thrown (Resource ERR_GROUP_CANNOT_REMOVE_ROOT_DIR)), fm)
         else (case remove_file parent_id fm of
             (Inl e, fm1) \<Rightarrow> (Inl e, fm1)
           | (Inr _, fm1) \<Rightarrow> (case get_file fm1 previous_parent_id of
               Inl e \<Rightarrow> (Inl e, fm1)
             | Inr previous_parent \<Rightarrow>
                 if sf_file_type previous_parent \<noteq> DIRECTORY then (Inl Aborted, fm1)
                 else (case sf_body previous_parent of
                     Sharing_directory _ \<Rightarrow>
                       (Inr (), update_dir previous_parent_id (dir_remove_file parent_id) fm1)
                   | _ \<Rightarrow> (Inl Bad_cast, fm1)))))"

section \<open>The registry of groups\<close>

definition find_group :: "group_manager \<Rightarrow> int \<Rightarrow> sharing_group option" where
  "find_group gm group_id = map_of (m_group_list gm) group_id"

definition find_group_by_name :: "group_manager \<Rightarrow> string \<Rightarrow> sharing_group option" where
  "find_group_by_name gm group_name = om_find_if (\<lambda>g. m_group_name g = group_name) (m_group_list gm)"

definition get_group :: "group_manager \<Rightarrow> int \<Rightarrow> sharing_group res" where
  "get_group gm group_id = (case find_group gm group_id of
     None \<Rightarrow> Inl (Thrown (Resource ERR_GROUP_NOT_EXIST)) | Some g \<Rightarrow> Inr g)"

definition get_group_by_name :: "group_manager \<Rightarrow> string \<Rightarrow> sharing_group res" where
  "get_group_by_name gm group_name = (case find_group_by_name gm group_name of
     None \<Rightarrow> Inl (Thrown (Resource ERR_GROUP_NOT_EXIST)) | Some g \<Rightarrow> Inr g)"

definition register_group :: "int \<Rightarrow> string \<Rightarrow> (core, sharing_group) exec" where
  "register_group user_id group_name =
     bindE (gets (\<lambda>c. find_group_by_name (c_groups c) group_name)) (\<lambda>old_group.
     bindE (throw_if (old_group \<noteq> None) (Resource ERR_GROUP_ALREADY_EXIST)) (\<lambda>_.
     bindE (on_files (register_file DIRECTORY group_name 0)) (\<lambda>root_dir.
     bindE (getsE (\<lambda>c. get_fit_node (c_nodes c))) (\<lambda>fit_node.
     bindE (gets (\<lambda>c. new_group (gm_next_id (c_groups c)) group_name user_id
                        (sf_file_id root_dir) (n_node_id fit_node))) (\<lambda>group.
     bindE (modify (\<lambda>c. c\<lparr>c_groups := (c_groups c)\<lparr>gm_next_id := gm_next_id (c_groups c) + 1\<rparr>,
                          c_nodes := add_node_use (n_node_id fit_node) 1 (c_nodes c)\<rparr>)) (\<lambda>_.
     bindE (gets (\<lambda>c. find_group (c_groups c) (m_group_id group))) (\<lambda>present.
     bindE (throw_if (present \<noteq> None) (Resource ERR_GROUP_ALREADY_EXIST)) (\<lambda>_.
     bindE (modify (\<lambda>c. c\<lparr>c_groups := (c_groups c)\<lparr>m_group_list :=
              om_insert (m_group_id group) group (m_group_list (c_groups c))\<rparr>\<rparr>)) (\<lambda>_.
     ret group)))))))))"

definition remove_group :: "int \<Rightarrow> int \<Rightarrow> (core, unit) exec" where
  "remove_group user_id group_id =
     bindE (getsE (\<lambda>c. get_group (c_groups c) group_id)) (\<lambda>group.
     bindE (throw_if (m_owner_id group \<noteq> user_id) (Resource ERR_GROUP_NOT_PERMIT_NEED_OWNER)) (\<lambda>_.
     bindE (getsE (\<lambda>c. get_node (c_nodes c) (m_node_id group))) (\<lambda>node.
     modify (\<lambda>c. c\<lparr>c_nodes := add_node_use (n_node_id node) (- 1) (c_nodes c),
       c_groups := (c_groups c)\<lparr>m_group_list := om_erase group_id (m_group_list (c_groups c))\<rparr>\<rparr>))))"

text \<open>A write through a reference to a group: an operation on the entry at its id.\<close>

definition on_group :: "int \<Rightarrow> (sharing_group, 'a) exec \<Rightarrow> (core, 'a) exec" where
  "on_group group_id m = (\<lambda>c. case find_group (c_groups c) group_id of
     None \<Rightarrow> (Inl Undefined, c)
   | Some g \<Rightarrow> (case m g of (r, g') \<Rightarrow>
       (r, c\<lparr>c_groups := (c_groups c)\<lparr>m_group_list :=
              om_update group_id (\<lambda>_. g') (m_group_list (c_groups c))\<rparr>\<rparr>)))"

section \<open>Roles: the invariant and the transitions\<close>

definition group_inv :: "sharing_group \<Rightarrow> bool" where
  "group_inv g \<longleftrightarrow> is_manager g (m_owner_id g) \<and> is_member g (m_owner_id g) \<and>
     distinct (m_manager_list g) \<and> distinct (m_member_list g)"

lemma group_inv_new: "group_inv (new_group k name u d n)"
  by (simp add: group_inv_def new_group_def is_manager_def is_member_def)

lemma is_manager_simps [simp]:
  "is_manager (g\<lparr>m_manager_list := us\<rparr>) v \<longleftrightarrow> v \<in> set us"
  "is_member (g\<lparr>m_manager_list := us\<rparr>) v \<longleftrightarrow> is_member g v"
  "is_manager (g\<lparr>m_member_list := us\<rparr>) v \<longleftrightarrow> is_manager g v"
  "is_member (g\<lparr>m_member_list := us\<rparr>) v \<longleftrightarrow> v \<in> set us"
  by (simp_all add: is_manager_def is_member_def)

lemmas role_defs = join_group_def kick_out_user_def assign_as_manager_def assign_as_member_def
  bindE_def group_inv_def

lemma join_group_inv: "group_inv g \<Longrightarrow> group_inv (join_group u g)"
  by (auto simp: role_defs is_member_def)

lemma keeps_kick_out_user [keeps_intros]: "keeps group_inv (kick_out_user u)"
  by (auto simp: keeps_def role_defs is_manager_def is_member_def)

lemma keeps_assign_as_manager [keeps_intros]: "keeps group_inv (assign_as_manager u)"
  by (auto simp: keeps_def role_defs is_manager_def is_member_def)

lemma keeps_assign_as_member [keeps_intros]: "keeps group_inv (assign_as_member u)"
  by (auto simp: keeps_def role_defs is_manager_def is_member_def)

text \<open>The owner and the place of a group never change.\<close>

lemma role_frames [unchanged_intros]:
  "unchanged m_owner_id (kick_out_user u)" "unchanged m_owner_id (assign_as_manager u)"
  "unchanged m_owner_id (assign_as_member u)"
  "unchanged m_root_dir_id (kick_out_user u)" "unchanged m_root_dir_id (assign_as_manager u)"
  "unchanged m_root_dir_id (assign_as_member u)"
  by (simp_all add: unchanged_def role_defs)

lemma join_group_roles:
  "group_inv g \<Longrightarrow> group_inv (join_group u g) \<and> is_member (join_group u g) u \<and>
   is_manager (join_group u g) u = is_manager g u \<and>
   (\<forall>v. v \<noteq> u \<longrightarrow> is_manager (join_group u g) v = is_manager g v \<and>
      is_member (join_group u g) v = is_member g v)"
  using join_group_inv [of g u] by (auto simp: join_group_def is_member_def)

lemma kick_out_roles:
  assumes inv: "group_inv g" and kick: "kick_out_user u g = (r, g')"
  shows "group_inv g' \<and> (r = Inr () \<longleftrightarrow> u \<noteq> m_owner_id g) \<and> (r \<noteq> Inr () \<longrightarrow> g' = g) \<and>
    (r = Inr () \<longrightarrow> \<not> is_member g' u \<and> \<not> is_manager g' u) \<and>
    (\<forall>v. v \<noteq> u \<longrightarrow> is_manager g' v = is_manager g v \<and> is_member g' v = is_member g v)"
proof -
  have "group_inv g'" by (rule keepsD_eq [OF keeps_kick_out_user inv kick])
  moreover have "distinct (m_manager_list g)" "distinct (m_member_list g)" using inv by (simp_all add: group_inv_def)
  ultimately show ?thesis
    using kick by (cases "u = m_owner_id g") (auto simp: kick_out_user_def is_manager_def is_member_def)
qed

lemma assign_manager_roles:
  assumes inv: "group_inv g" and assign: "assign_as_manager u g = (r, g')"
  shows "group_inv g' \<and> (r = Inr () \<longleftrightarrow> is_member g u \<and> u \<noteq> m_owner_id g) \<and> (r \<noteq> Inr () \<longrightarrow> g' = g) \<and>
    (r = Inr () \<longrightarrow> is_manager g' u \<and> \<not> is_member g' u) \<and>
    (\<forall>v. v \<noteq> u \<longrightarrow> is_manager g' v = is_manager g v \<and> is_member g' v = is_member g v)"
proof -
  have "group_inv g'" by (rule keepsD_eq [OF keeps_assign_as_manager inv assign])
  moreover obtain q h where kick: "kick_out_user u g = (q, h)" by fastforce
  ultimately show ?thesis
    using assign kick_out_roles [OF inv kick]
    by (cases "is_member g u"; cases q)
      (auto simp: assign_as_manager_def bindE_def kick is_manager_def split: if_splits)
qed

lemma assign_member_roles:
  assumes inv: "group_inv g" and assign: "assign_as_member u g = (r, g')"
  shows "group_inv g' \<and> (r = Inr () \<longleftrightarrow> is_manager g u \<and> u \<noteq> m_owner_id g) \<and> (r \<noteq> Inr () \<longrightarrow> g' = g) \<and>
    (r = Inr () \<longrightarrow> is_member g' u \<and> \<not> is_manager g' u) \<and>
    (\<forall>v. v \<noteq> u \<longrightarrow> is_manager g' v = is_manager g v \<and> is_member g' v = is_member g v)"
proof -
  have "group_inv g'" by (rule keepsD_eq [OF keeps_assign_as_member inv assign])
  moreover obtain q h where kick: "kick_out_user u g = (q, h)" by fastforce
  ultimately show ?thesis
    using assign kick_out_roles [OF inv kick]
    by (cases "is_manager g u"; cases q)
      (auto simp: assign_as_member_def bindE_def kick is_member_def split: if_splits)
qed

section \<open>Walks through the tree\<close>

lemma dir_find_file_cases:
  obtains (none) "dir_find_file fm ids name = INVALID_ID"
      and "\<forall>c \<in> set ids. \<forall>f. find_file fm c = Some f \<longrightarrow> sf_file_name f \<noteq> name"
    | (some) c f where "dir_find_file fm ids name = c" and "c \<in> set ids"
      and "find_file fm c = Some f" and "sf_file_name f = name"
proof -
  let ?P = "\<lambda>c. case find_file fm c of None \<Rightarrow> False | Some f \<Rightarrow> sf_file_name f = name"
  show ?thesis
  proof (cases "List.find ?P ids")
    case None
    then have "dir_find_file fm ids name = INVALID_ID" by (simp add: dir_find_file_def)
    with None show ?thesis by (intro none) (auto simp: find_None split: option.splits)
  next
    case (Some c)
    from find_Some_in [OF this] obtain f where "c \<in> set ids" "find_file fm c = Some f" "sf_file_name f = name"
      by (auto split: option.splits)
    with Some show ?thesis by (intro some [of c f]) (auto simp: dir_find_file_def)
  qed
qed

lemma find_cong_append:
  "(\<forall>x \<in> set xs. P x = Q x) \<Longrightarrow> List.find P xs = Some y \<Longrightarrow> List.find Q (xs @ ys) = Some y"
  by (induction xs) (auto split: if_splits)

lemma find_append_skip:
  "(\<forall>x \<in> set xs. \<not> P x) \<Longrightarrow> List.find P (xs @ ys) = List.find P ys"
  by (induction xs) auto

text \<open>
  What creating a directory does to a file manager: files stay, with their name and class,
  directories may list more, all of them newer than the old manager's counter.
\<close>

definition grown :: "int \<Rightarrow> file_body \<Rightarrow> file_body \<Rightarrow> bool" where
  "grown n b b' \<longleftrightarrow> (case b of
     Sharing_directory ids \<Rightarrow> (\<exists>new. b' = Sharing_directory (ids @ new) \<and> (\<forall>c \<in> set new. n \<le> c))
   | _ \<Rightarrow> b' = b)"

definition fm_ext :: "file_manager \<Rightarrow> file_manager \<Rightarrow> bool" where
  "fm_ext fm fm' \<longleftrightarrow> fm_next_id fm \<le> fm_next_id fm' \<and>
     (\<forall>k f. find_file fm k = Some f \<longrightarrow> (\<exists>f'. find_file fm' k = Some f' \<and>
        sf_file_type f' = sf_file_type f \<and> sf_file_name f' = sf_file_name f \<and>
        grown (fm_next_id fm) (sf_body f) (sf_body f'))) \<and>
     (\<forall>k < fm_next_id fm. find_file fm k = None \<longrightarrow> find_file fm' k = None)"

lemma grown_refl [simp]: "grown n b b"
  by (auto simp: grown_def split: file_body.split)

lemma grown_trans: "grown n b b' \<Longrightarrow> grown n' b' b'' \<Longrightarrow> n \<le> n' \<Longrightarrow> grown n b b''"
  by (fastforce simp: grown_def split: file_body.splits)

lemma fm_ext_refl [simp]: "fm_ext fm fm"
  by (simp add: fm_ext_def)

lemma fm_extE:
  assumes "fm_ext fm fm'" and "find_file fm k = Some f"
  obtains f' where "find_file fm' k = Some f'" and "sf_file_type f' = sf_file_type f"
    and "sf_file_name f' = sf_file_name f" and "grown (fm_next_id fm) (sf_body f) (sf_body f')"
  using assms unfolding fm_ext_def by blast

lemma fm_ext_trans:
  assumes "fm_ext fm fm'" and "fm_ext fm' fm''"
  shows "fm_ext fm fm''"
proof -
  have le: "fm_next_id fm \<le> fm_next_id fm'" "fm_next_id fm' \<le> fm_next_id fm''"
    using assms by (auto simp: fm_ext_def)
  have "\<exists>f''. find_file fm'' k = Some f'' \<and> sf_file_type f'' = sf_file_type f \<and>
      sf_file_name f'' = sf_file_name f \<and> grown (fm_next_id fm) (sf_body f) (sf_body f'')"
    if f: "find_file fm k = Some f" for k f
  proof -
    obtain f' where f': "find_file fm' k = Some f'" "sf_file_type f' = sf_file_type f"
      "sf_file_name f' = sf_file_name f" "grown (fm_next_id fm) (sf_body f) (sf_body f')"
      by (rule fm_extE [OF assms(1) f])
    obtain f'' where "find_file fm'' k = Some f''" "sf_file_type f'' = sf_file_type f'"
      "sf_file_name f'' = sf_file_name f'" "grown (fm_next_id fm') (sf_body f') (sf_body f'')"
      by (rule fm_extE [OF assms(2) f'(1)])
    with f' le grown_trans show ?thesis by fastforce
  qed
  moreover have "find_file fm'' k = None" if "k < fm_next_id fm" "find_file fm k = None" for k
    using assms that le unfolding fm_ext_def by (meson less_le_trans)
  ultimately show ?thesis using le by (simp add: fm_ext_def)
qed

lemma dir_find_file_ext:
  assumes "fm_ext fm fm'" and "\<forall>c \<in> set ids. c < fm_next_id fm"
    and "dir_find_file fm ids name = c" and "c \<noteq> INVALID_ID"
  shows "dir_find_file fm' (ids @ new) name = c"
proof -
  let ?P = "\<lambda>fm c. case find_file fm c of None \<Rightarrow> False | Some f \<Rightarrow> sf_file_name f = name"
  have "\<forall>c \<in> set ids. ?P fm c = ?P fm' c"
  proof
    fix d assume "d \<in> set ids"
    with assms(1,2) show "?P fm d = ?P fm' d"
      by (cases "find_file fm d") (auto simp: fm_ext_def elim: fm_extE [OF assms(1)] split: option.split)
  qed
  moreover have "List.find (?P fm) ids = Some c"
    using assms(3,4) by (auto simp: dir_find_file_def split: option.splits)
  ultimately have "List.find (?P fm') (ids @ new) = Some c" by (rule find_cong_append)
  then show ?thesis by (simp add: dir_find_file_def)
qed

lemma dir_ids:
  assumes "fm_inv fm" and "find_file fm k = Some f" and "sf_body f = Sharing_directory ids" and "c \<in> set ids"
  shows "k < c" and "c < fm_next_id fm" and "c \<noteq> INVALID_ID"
  using fm_invD [OF assms(1,2)] assms(3,4) by (auto simp: links_ok_def INVALID_ID_def)

lemma walk_ext:
  assumes "fm_inv fm" and "fm_ext fm fm'"
  shows "walk fm k names = Inr j \<Longrightarrow> j \<noteq> INVALID_ID \<Longrightarrow> walk fm' k names = Inr j"
proof (induction names arbitrary: k)
  case (Cons name names)
  then obtain f ids where f: "find_file fm k = Some f" and type: "sf_file_type f = DIRECTORY"
    and body: "sf_body f = Sharing_directory ids"
    by (auto simp: get_file_def split: option.splits if_splits file_body.splits)
  let ?c = "dir_find_file fm ids name"
  have c: "?c \<noteq> INVALID_ID" and rest: "walk fm ?c names = Inr j"
    using Cons.prems f type body by (auto simp: get_file_def Let_def split: if_splits)
  obtain f' new where f': "find_file fm' k = Some f'" "sf_file_type f' = DIRECTORY"
    and body': "sf_body f' = Sharing_directory (ids @ new)"
    by (rule fm_extE [OF assms(2) f]) (auto simp: type body grown_def)
  have "dir_find_file fm' (ids @ new) name = ?c"
    using dir_ids(2) [OF assms(1) f body] by (intro dir_find_file_ext [OF assms(2)]) (auto simp: c)
  then show ?case
    using Cons.IH [OF rest Cons.prems(2)] f' body' c by (simp add: get_file_def Let_def)
qed simp

section \<open>Creating a path\<close>

text \<open>One new directory under a directory.\<close>

definition add_dir :: "int \<Rightarrow> string \<Rightarrow> file_manager \<Rightarrow> file_manager" where
  "add_dir parent_id name fm = update_dir parent_id (\<lambda>ids. ids @ [fm_next_id fm])
     (enter_file \<lparr>sf_file_id = fm_next_id fm, sf_file_type = DIRECTORY, sf_file_name = name,
                  sf_body = Sharing_directory []\<rparr> fm)"

lemma add_dir_props:
  assumes inv: "fm_inv fm" and p: "find_file fm parent_id = Some p" and body: "sf_body p = Sharing_directory ids"
  shows "fm_inv (add_dir parent_id name fm)" and "fm_ext fm (add_dir parent_id name fm)"
    and "find_file (add_dir parent_id name fm) (fm_next_id fm) =
      Some \<lparr>sf_file_id = fm_next_id fm, sf_file_type = DIRECTORY, sf_file_name = name,
            sf_body = Sharing_directory []\<rparr>"
    and "find_file (add_dir parent_id name fm) parent_id =
      Some (p\<lparr>sf_body := Sharing_directory (ids @ [fm_next_id fm])\<rparr>)"
    and "fm_next_id (add_dir parent_id name fm) = fm_next_id fm + 1"
    and "k \<noteq> parent_id \<Longrightarrow> k \<noteq> fm_next_id fm \<Longrightarrow> find_file (add_dir parent_id name fm) k = find_file fm k"
proof -
  let ?f = "\<lparr>sf_file_id = fm_next_id fm, sf_file_type = DIRECTORY, sf_file_name = name,
             sf_body = Sharing_directory []\<rparr>"
  let ?g = "enter_file ?f fm"
  have lt: "parent_id < fm_next_id fm" by (rule fm_invD(2) [OF inv p])
  have inv': "fm_inv ?g" using inv by (rule fm_inv_enter) (simp_all add: links_ok_def)
  have next': "fm_next_id ?g = fm_next_id fm + 1" by (simp add: enter_file_def)
  have find: "find_file ?g k = (if k = fm_next_id fm then Some ?f else find_file fm k)" for k
    using find_enter_file [OF inv] by simp
  show "fm_inv (add_dir parent_id name fm)"
    unfolding add_dir_def
    by (rule fm_inv_update_dir [OF inv']) (use lt p body next' in \<open>auto simp: find\<close>)
  show new: "find_file (add_dir parent_id name fm) (fm_next_id fm) = Some ?f"
    and par: "find_file (add_dir parent_id name fm) parent_id =
      Some (p\<lparr>sf_body := Sharing_directory (ids @ [fm_next_id fm])\<rparr>)"
    and nxt: "fm_next_id (add_dir parent_id name fm) = fm_next_id fm + 1"
    using lt p body by (simp_all add: add_dir_def find_file_update_dir find next' on_dir.simps)
  show other: "find_file (add_dir parent_id name fm) k = find_file fm k"
    if "k \<noteq> parent_id" "k \<noteq> fm_next_id fm" for k
    using that by (simp add: add_dir_def find_file_update_dir find)
  show "fm_ext fm (add_dir parent_id name fm)"
    unfolding fm_ext_def
  proof (intro conjI allI impI)
    fix k f assume f: "find_file fm k = Some f"
    then have "k \<noteq> fm_next_id fm" using fm_invD(2) [OF inv f] by simp
    with f p body par other show "\<exists>f'. find_file (add_dir parent_id name fm) k = Some f' \<and>
        sf_file_type f' = sf_file_type f \<and> sf_file_name f' = sf_file_name f \<and>
        grown (fm_next_id fm) (sf_body f) (sf_body f')"
      by (cases "k = parent_id") (auto simp: grown_def split: file_body.split)
  next
    fix k assume "k < fm_next_id fm" "find_file fm k = None"
    then show "find_file (add_dir parent_id name fm) k = None" using p other by (cases "k = parent_id") auto
  qed (simp add: nxt)
qed

lemma create_walk_Cons:
  assumes inv: "fm_inv fm" and p: "find_file fm k = Some p" and type: "sf_file_type p = DIRECTORY"
  obtains ids where "sf_body p = Sharing_directory ids"
    and "create_walk k (name # names) fm =
      (let c = dir_find_file fm ids name in
       if c = INVALID_ID then create_walk (fm_next_id fm) names (add_dir k name fm)
       else create_walk c names fm)"
proof -
  obtain ids where body: "sf_body p = Sharing_directory ids"
    using fm_invD(4) [OF inv p] type body_type_simps(1) [of "sf_body p"] by auto
  with p type show ?thesis
    by (intro that [of ids])
      (simp_all add: get_file_def register_directory [OF inv refl] add_dir_def Let_def)
qed

lemma create_walk_error:
  "find_file fm k = None \<Longrightarrow> create_walk k (name # names) fm = (Inl (Thrown (Resource ERR_FILE_NOT_EXIST)), fm)"
  "find_file fm k = Some p \<Longrightarrow> sf_file_type p \<noteq> DIRECTORY \<Longrightarrow>
   create_walk k (name # names) fm = (Inl (Thrown (Resource ERR_GROUP_NOT_DIRECTORY)), fm)"
  by (simp_all add: get_file_def)

lemma walk_Cons:
  assumes "find_file fm k = Some p" and "sf_file_type p = DIRECTORY" and "sf_body p = Sharing_directory ids"
  shows "walk fm k (name # names) =
    (let c = dir_find_file fm ids name in if c = INVALID_ID then Inr INVALID_ID else walk fm c names)"
  using assms by (simp add: get_file_def Let_def)

declare create_walk.simps(2) [simp del] walk.simps(2) [simp del]

text \<open>In a directory that is empty, the rest of the path is always created.\<close>

lemma create_walk_fresh:
  "fm_inv fm \<Longrightarrow> find_file fm k = Some p \<Longrightarrow> sf_file_type p = DIRECTORY \<Longrightarrow>
   sf_body p = Sharing_directory [] \<Longrightarrow> fst (create_walk k names fm) = Inr ()"
proof (induction names arbitrary: k p fm)
  case (Cons name names)
  note add = add_dir_props [OF Cons.prems(1,2,4)]
  have "create_walk k (name # names) fm = create_walk (fm_next_id fm) names (add_dir k name fm)"
    by (rule create_walk_Cons [OF Cons.prems(1-3), of name names])
      (simp add: Cons.prems(4) dir_find_file_def)
  with Cons.IH [OF add(1,3)] show ?case by simp
qed simp

lemma create_walk_props:
  assumes "fm_inv fm" and "create_walk k names fm = (r, fm')"
  shows "fm_inv fm'" and "fm_ext fm fm'" and "\<And>e. r = Inl e \<Longrightarrow> fm' = fm"
    and "r = Inr () \<Longrightarrow> k \<noteq> INVALID_ID \<Longrightarrow> \<exists>j. walk fm' k names = Inr j \<and> j \<noteq> INVALID_ID"
proof -
  have "fm_inv fm' \<and> fm_ext fm fm' \<and> (r \<noteq> Inr () \<longrightarrow> fm' = fm) \<and>
    (r = Inr () \<longrightarrow> k \<noteq> INVALID_ID \<longrightarrow> (\<exists>j. walk fm' k names = Inr j \<and> j \<noteq> INVALID_ID))"
    using assms
  proof (induction names arbitrary: k fm)
    case (Cons name names)
    show ?case
    proof (cases "find_file fm k")
      case None
      with Cons.prems show ?thesis by (auto simp: create_walk_error)
    next
      case (Some p)
      show ?thesis
      proof (cases "sf_file_type p = DIRECTORY")
        case False
        with Some Cons.prems show ?thesis by (auto simp: create_walk_error)
      next
        case True
        obtain ids where body: "sf_body p = Sharing_directory ids"
          and step: "create_walk k (name # names) fm = (let c = dir_find_file fm ids name in
             if c = INVALID_ID then create_walk (fm_next_id fm) names (add_dir k name fm)
             else create_walk c names fm)"
          by (rule create_walk_Cons [OF Cons.prems(1) Some True])
        let ?c = "dir_find_file fm ids name"
        note ids = dir_ids [OF Cons.prems(1) Some body]
        show ?thesis
        proof (cases "?c = INVALID_ID")
          case False
          then have "create_walk ?c names fm = (r, fm')" using Cons.prems(2) step by (simp add: Let_def)
          note IH = Cons.IH [OF Cons.prems(1) this]
          then have ext: "fm_ext fm fm'" by simp
          obtain f' new where f': "find_file fm' k = Some f'" "sf_file_type f' = DIRECTORY"
            and body': "sf_body f' = Sharing_directory (ids @ new)"
            by (rule fm_extE [OF ext Some]) (auto simp: True body grown_def)
          have "dir_find_file fm' (ids @ new) name = ?c"
            using IH ids(2) by (intro dir_find_file_ext [of fm fm']) (auto simp: False)
          then have "walk fm' k (name # names) = walk fm' ?c names"
            using False by (simp add: walk_Cons [OF f' body'] Let_def)
          with IH False show ?thesis by simp
        next
          case new: True
          let ?n = "fm_next_id fm"
          note add = add_dir_props [OF Cons.prems(1) Some body, where name = name]
          have "create_walk ?n names (add_dir k name fm) = (r, fm')"
            using Cons.prems(2) step new by (simp add: Let_def)
          note IH = Cons.IH [OF add(1) this]
          have ok: "r = Inr ()"
            using create_walk_fresh [OF add(1,3), of names] \<open>create_walk ?n names _ = _\<close> by simp
          have ext: "fm_ext (add_dir k name fm) fm'" using IH by simp
          obtain f' new' where f': "find_file fm' k = Some f'" "sf_file_type f' = DIRECTORY"
            and body': "sf_body f' = Sharing_directory ((ids @ [?n]) @ new')"
            by (rule fm_extE [OF ext add(4)]) (auto simp: True grown_def)
          have "dir_find_file (add_dir k name fm) (ids @ [?n]) name = ?n"
          proof -
            have "\<not> (case find_file (add_dir k name fm) c of None \<Rightarrow> False | Some f \<Rightarrow> sf_file_name f = name)"
              if c: "c \<in> set ids" for c
            proof -
              have "find_file (add_dir k name fm) c = find_file fm c"
                using add(6) ids(1,2) [OF c] by fastforce
              moreover have "\<forall>f. find_file fm c = Some f \<longrightarrow> sf_file_name f \<noteq> name"
                by (rule dir_find_file_cases [of fm ids name]) (use new c ids(3) in auto)
              ultimately show ?thesis by (auto split: option.split)
            qed
            then show ?thesis
              unfolding dir_find_file_def by (subst find_append_skip) (auto simp: add(3))
          qed
          moreover have "?n \<noteq> INVALID_ID" using Cons.prems(1) by (simp add: fm_inv_def INVALID_ID_def)
          moreover have "\<forall>c \<in> set (ids @ [?n]). c < fm_next_id (add_dir k name fm)"
            using ids(2) by (force simp: add(5))
          ultimately have "dir_find_file fm' ((ids @ [?n]) @ new') name = ?n"
            by (intro dir_find_file_ext [OF ext]) simp_all
          then have "walk fm' k (name # names) = walk fm' ?n names"
            using \<open>?n \<noteq> INVALID_ID\<close> by (simp add: walk_Cons [OF f' body'] Let_def)
          with IH ok \<open>?n \<noteq> INVALID_ID\<close> fm_ext_trans [OF add(2) ext] show ?thesis by simp
        qed
      qed
    qed
  qed simp
  then show "fm_inv fm'" "fm_ext fm fm'" "\<And>e. r = Inl e \<Longrightarrow> fm' = fm"
    "r = Inr () \<Longrightarrow> k \<noteq> INVALID_ID \<Longrightarrow> \<exists>j. walk fm' k names = Inr j \<and> j \<noteq> INVALID_ID"
    by auto
qed

text \<open>Creating a path that exists changes nothing.\<close>

lemma create_walk_existing:
  "fm_inv fm \<Longrightarrow> walk fm k (names @ [name]) = Inr j \<Longrightarrow> j \<noteq> INVALID_ID \<Longrightarrow>
   create_walk k (names @ [name]) fm = (Inr (), fm)"
proof (induction names arbitrary: k)
  case Nil
  then obtain p ids where p: "find_file fm k = Some p" "sf_file_type p = DIRECTORY" "sf_body p = Sharing_directory ids"
    by (auto simp: walk.simps get_file_def split: option.splits if_splits file_body.splits)
  from create_walk_Cons [OF Nil.prems(1) p(1,2), of name "[]"] p(3) walk_Cons [OF p, of name "[]"] Nil.prems
  show ?case by (auto simp: Let_def split: if_splits)
next
  case (Cons n names)
  then obtain p ids where p: "find_file fm k = Some p" "sf_file_type p = DIRECTORY" "sf_body p = Sharing_directory ids"
    by (auto simp: walk.simps get_file_def split: option.splits if_splits file_body.splits)
  from create_walk_Cons [OF Cons.prems(1) p(1,2), of n "names @ [name]"] p(3)
    walk_Cons [OF p, of n "names @ [name]"] Cons.prems Cons.IH
  show ?case by (auto simp: Let_def split: if_splits)
qed

section \<open>Names in a directory\<close>

text \<open>No two files that a directory lists have the same name.\<close>

definition unique_names :: "file_manager \<Rightarrow> bool" where
  "unique_names fm \<longleftrightarrow> (\<forall>k f ids. find_file fm k = Some f \<and> sf_body f = Sharing_directory ids \<longrightarrow>
     (\<forall>c \<in> set ids. \<forall>d \<in> set ids. \<forall>x y. find_file fm c = Some x \<and> find_file fm d = Some y \<and>
        sf_file_name x = sf_file_name y \<longrightarrow> c = d))"

lemma unique_namesD:
  "unique_names fm \<Longrightarrow> find_file fm k = Some f \<Longrightarrow> sf_body f = Sharing_directory ids \<Longrightarrow>
   c \<in> set ids \<Longrightarrow> d \<in> set ids \<Longrightarrow> find_file fm c = Some x \<Longrightarrow> find_file fm d = Some y \<Longrightarrow>
   sf_file_name x = sf_file_name y \<Longrightarrow> c = d"
  unfolding unique_names_def by blast

lemma unique_names_mono:
  assumes "unique_names fm"
    and "\<And>k f ids. find_file fm' k = Some f \<Longrightarrow> sf_body f = Sharing_directory ids \<Longrightarrow>
      \<exists>g ids'. find_file fm k = Some g \<and> sf_body g = Sharing_directory ids' \<and> set ids \<subseteq> set ids'"
    and "\<And>k f. find_file fm' k = Some f \<Longrightarrow> \<exists>g. find_file fm k = Some g \<and> sf_file_name g = sf_file_name f"
  shows "unique_names fm'"
  unfolding unique_names_def
proof (intro allI impI ballI)
  fix k f ids c d x y
  assume "find_file fm' k = Some f \<and> sf_body f = Sharing_directory ids" and cd: "c \<in> set ids" "d \<in> set ids"
    and xy: "find_file fm' c = Some x \<and> find_file fm' d = Some y \<and> sf_file_name x = sf_file_name y"
  then obtain g ids' where g: "find_file fm k = Some g" "sf_body g = Sharing_directory ids'" "set ids \<subseteq> set ids'"
    using assms(2) by blast
  from xy obtain x' y' where "find_file fm c = Some x'" "find_file fm d = Some y'"
    "sf_file_name x' = sf_file_name y'" using assms(3) by metis
  moreover have "c \<in> set ids'" "d \<in> set ids'" using g(3) cd by auto
  ultimately show "c = d" using unique_namesD [OF assms(1) g(1,2)] by blast
qed

lemma unique_names_add_dir:
  assumes inv: "fm_inv fm" and p: "find_file fm k = Some p" and body: "sf_body p = Sharing_directory ids"
    and uniq: "unique_names fm" and new: "dir_find_file fm ids name = INVALID_ID"
  shows "unique_names (add_dir k name fm)"
  unfolding unique_names_def
proof (intro allI impI ballI)
  let ?fm = "add_dir k name fm" and ?n = "fm_next_id fm"
  note add = add_dir_props [OF inv p body, where name = name]
  fix j f js c d x y
  assume f: "find_file ?fm j = Some f \<and> sf_body f = Sharing_directory js" and cd: "c \<in> set js" "d \<in> set js"
    and xy: "find_file ?fm c = Some x \<and> find_file ?fm d = Some y \<and> sf_file_name x = sf_file_name y"
  have old: "\<exists>z. find_file fm e = Some z \<and> sf_file_name z = sf_file_name w"
    if "find_file ?fm e = Some w" "e \<noteq> ?n" for e w
    using that add(4,6) p by (cases "e = k") auto
  have none: "sf_file_name z \<noteq> name" if "e \<in> set ids" "find_file fm e = Some z" for e z
    by (rule dir_find_file_cases [of fm ids name]) (use new that dir_ids(3) [OF inv p body] in auto)
  have lt: "e < ?n" if "e \<in> set ids" for e by (rule dir_ids(2) [OF inv p body that])
  show "c = d"
  proof (cases "j = k")
    case True
    with f add(4) have js: "set js = insert ?n (set ids)" by auto
    have n: "sf_file_name w = name" if "find_file ?fm ?n = Some w" for w
      using that add(3) by auto
    show ?thesis
    proof (cases "c = ?n \<or> d = ?n")
      case True
      then show ?thesis using cd js xy n none old by (metis insertE)
    next
      case False
      then obtain x' y' where "find_file fm c = Some x'" "find_file fm d = Some y'"
        "sf_file_name x' = sf_file_name y'" using old xy by metis
      moreover have "c \<in> set ids" "d \<in> set ids" using False cd js by auto
      ultimately show ?thesis using unique_namesD [OF uniq p body] by blast
    qed
  next
    case False
    with f add(3,6) have "j = ?n \<and> js = [] \<or> find_file fm j = Some f" by (cases "j = ?n") auto
    then show ?thesis
    proof
      assume fj: "find_file fm j = Some f"
      have "c \<noteq> ?n" "d \<noteq> ?n" using dir_ids(2) [OF inv fj, of js] f cd by auto
      then obtain x' y' where "find_file fm c = Some x'" "find_file fm d = Some y'"
        "sf_file_name x' = sf_file_name y'" using old xy by metis
      then show ?thesis using unique_namesD [OF uniq fj] f cd by blast
    qed (use cd in simp)
  qed
qed

lemma unique_names_create_walk:
  "fm_inv fm \<Longrightarrow> unique_names fm \<Longrightarrow> unique_names (snd (create_walk k names fm))"
proof (induction names arbitrary: k fm)
  case (Cons name names)
  show ?case
  proof (cases "\<exists>p. find_file fm k = Some p \<and> sf_file_type p = DIRECTORY")
    case False
    then show ?thesis
      using Cons.prems by (cases "find_file fm k") (auto simp: create_walk_error)
  next
    case True
    then obtain p where p: "find_file fm k = Some p" "sf_file_type p = DIRECTORY" by auto
    obtain ids where body: "sf_body p = Sharing_directory ids"
      and step: "create_walk k (name # names) fm = (let c = dir_find_file fm ids name in
             if c = INVALID_ID then create_walk (fm_next_id fm) names (add_dir k name fm)
             else create_walk c names fm)"
      by (rule create_walk_Cons [OF Cons.prems(1) p])
    show ?thesis
      using Cons.IH Cons.prems add_dir_props(1) [OF Cons.prems(1) p(1) body]
        unique_names_add_dir [OF Cons.prems(1) p(1) body Cons.prems(2)]
      by (simp add: step Let_def)
  qed
qed simp

section \<open>Removing a path\<close>

lemma remove_walk_Cons:
  assumes "remove_walk fm prev k (name # names) = Inr (pp, j)"
  obtains p ids where "find_file fm k = Some p" and "sf_file_type p = DIRECTORY"
    and "sf_body p = Sharing_directory ids" and "dir_find_file fm ids name \<noteq> INVALID_ID"
    and "remove_walk fm k (dir_find_file fm ids name) names = Inr (pp, j)"
  using assms by (auto simp: get_file_def Let_def split: option.splits if_splits file_body.splits)

declare remove_walk.simps(2) [simp del]

lemma dir_find_file_mem:
  "dir_find_file fm ids name = c \<Longrightarrow> c \<noteq> INVALID_ID \<Longrightarrow>
   c \<in> set ids \<and> (\<exists>f. find_file fm c = Some f \<and> sf_file_name f = name)"
  by (rule dir_find_file_cases [of fm ids name]) auto

lemma remove_walk_props:
  assumes inv: "fm_inv fm"
  shows "remove_walk fm prev k names = Inr (pp, j) \<Longrightarrow> names \<noteq> [] \<Longrightarrow>
    k \<le> pp \<and> pp < j \<and> walk fm k names = Inr j \<and> j \<noteq> INVALID_ID \<and>
    (\<exists>p ids. find_file fm pp = Some p \<and> sf_file_type p = DIRECTORY \<and> sf_body p = Sharing_directory ids \<and> j \<in> set ids) \<and>
    find_file fm j \<noteq> None"
proof (induction names arbitrary: prev k)
  case (Cons name names)
  from Cons.prems(1) obtain p ids where p: "find_file fm k = Some p" "sf_file_type p = DIRECTORY"
      "sf_body p = Sharing_directory ids" and c: "dir_find_file fm ids name \<noteq> INVALID_ID"
    and rest: "remove_walk fm k (dir_find_file fm ids name) names = Inr (pp, j)"
    by (rule remove_walk_Cons)
  let ?c = "dir_find_file fm ids name"
  from dir_find_file_mem [OF refl c] have mem: "?c \<in> set ids" "find_file fm ?c \<noteq> None" by auto
  have lt: "k < ?c" by (rule dir_ids(1) [OF inv p(1,3) mem(1)])
  have w: "walk fm k (name # names) = walk fm ?c names" using c by (simp add: walk_Cons [OF p] Let_def)
  show ?case
  proof (cases "names = []")
    case True
    with rest have "pp = k" "j = ?c" by auto
    with p mem lt c w True show ?thesis by auto
  next
    case False
    from Cons.IH [OF rest this] lt w show ?thesis by auto
  qed
qed simp

lemma find_weaken:
  "(\<forall>x \<in> set xs. Q x \<longrightarrow> P x) \<Longrightarrow> List.find P xs = Some y \<Longrightarrow> Q y \<Longrightarrow> List.find Q xs = Some y"
  by (induction xs) (auto split: if_splits)

text \<open>
  After the last file of a path is taken out of the manager (with the files \<open>D\<close>) and out of
  its directory's list, the same path leads nowhere.
\<close>

lemma walk_removed:
  assumes inv: "fm_inv fm" and uniq: "unique_names fm"
    and keep: "\<And>c. c \<notin> D \<Longrightarrow> c \<noteq> pp \<Longrightarrow> find_file fm' c = find_file fm c"
    and gone: "\<And>c. c \<in> D \<Longrightarrow> find_file fm' c = None" and "j \<in> D" and "pp \<notin> D"
    and par: "find_file fm pp = Some p" "sf_file_type p = DIRECTORY" "sf_body p = Sharing_directory ids"
      "find_file fm' pp = Some (p\<lparr>sf_body := Sharing_directory (dir_remove_file j ids)\<rparr>)"
    and D: "\<And>d f. d \<in> D \<Longrightarrow> d \<noteq> j \<Longrightarrow> find_file fm d = Some f \<Longrightarrow> sf_file_type f \<noteq> DIRECTORY"
  shows "remove_walk fm prev k names = Inr (pp, j) \<Longrightarrow> names \<noteq> [] \<Longrightarrow> walk fm' k names = Inr INVALID_ID"
proof (induction names arbitrary: prev k)
  case (Cons name names)
  from Cons.prems(1) obtain q js where q: "find_file fm k = Some q" "sf_file_type q = DIRECTORY"
      "sf_body q = Sharing_directory js" and c: "dir_find_file fm js name \<noteq> INVALID_ID"
    and rest: "remove_walk fm k (dir_find_file fm js name) names = Inr (pp, j)"
    by (rule remove_walk_Cons)
  let ?c = "dir_find_file fm js name"
  from dir_find_file_mem [OF refl c] obtain cf where mem: "?c \<in> set js"
    and cf: "find_file fm ?c = Some cf" "sf_file_name cf = name" by auto
  have old: "\<exists>f. find_file fm e = Some f \<and> sf_file_name f = sf_file_name f'"
    if "find_file fm' e = Some f'" for e f'
  proof (cases "e = pp")
    case False
    with that keep [of e] gone [of e] show ?thesis by (cases "e \<in> D") simp_all
  qed (use that par in auto)
  show ?case
  proof (cases "names = []")
    case True
    with rest have pp: "pp = k" and j: "j = ?c" by auto
    have "dir_find_file fm' (dir_remove_file j js) name = INVALID_ID"
    proof (rule dir_find_file_cases [of fm' "dir_remove_file j js" name])
      fix e f assume e: "e \<in> set (dir_remove_file j js)" "find_file fm' e = Some f" "sf_file_name f = name"
      with old obtain f0 where "find_file fm e = Some f0" "sf_file_name f0 = name" by blast
      moreover have "e \<in> set js" using e by (simp add: dir_remove_file_def)
      ultimately have "e = ?c" using unique_namesD [OF uniq q(1,3) _ mem _ cf(1), of e f0] cf(2) by simp
      with e j show ?thesis by (simp add: dir_remove_file_def)
    qed
    moreover have "find_file fm' k = Some (p\<lparr>sf_body := Sharing_directory (dir_remove_file j js)\<rparr>)"
      using par q pp by simp
    ultimately show ?thesis
      using walk_Cons [of fm' k "p\<lparr>sf_body := Sharing_directory (dir_remove_file j js)\<rparr>" _ name names] par(2)
      by (simp add: Let_def)
  next
    case False
    note props = remove_walk_props [OF inv rest False]
    have lt: "k < ?c" by (rule dir_ids(1) [OF inv q(1,3) mem])
    have "k \<notin> D" using D [of k q] q lt props by fastforce
    then have k: "find_file fm' k = Some q" using keep [of k] lt props q by auto
    have cdir: "sf_file_type cf = DIRECTORY"
      using rest False cf(1) by (cases names) (auto elim!: remove_walk_Cons)
    have "?c \<notin> D" using D [of ?c cf] cf(1) cdir props by fastforce
    then have c': "\<exists>f. find_file fm' ?c = Some f \<and> sf_file_name f = name"
      using keep [of ?c] cf par by (cases "?c = pp") auto
    have "List.find (\<lambda>c. case find_file fm' c of None \<Rightarrow> False | Some f \<Rightarrow> sf_file_name f = name) js = Some ?c"
    proof (rule find_weaken)
      show "List.find (\<lambda>c. case find_file fm c of None \<Rightarrow> False | Some f \<Rightarrow> sf_file_name f = name) js = Some ?c"
        using c by (auto simp: dir_find_file_def split: option.splits)
      show "\<forall>x \<in> set js. (case find_file fm' x of None \<Rightarrow> False | Some f \<Rightarrow> sf_file_name f = name) \<longrightarrow>
          (case find_file fm x of None \<Rightarrow> False | Some f \<Rightarrow> sf_file_name f = name)"
        using old by (fastforce split: option.splits)
    qed (use c' in auto)
    then have "dir_find_file fm' js name = ?c" by (simp add: dir_find_file_def)
    with c Cons.IH [OF rest False] show ?thesis by (simp add: walk_Cons [OF k q(2,3)] Let_def)
  qed
qed simp

lemma remove_path_ok:
  assumes inv: "fm_inv fm" and ok: "remove_path P g path fm = (Inr (), fm')"
  obtains pp j p ids fm1 where
    "remove_walk fm (m_root_dir_id g) (m_root_dir_id g) (split_path P path) = Inr (pp, j)"
    and "split_path P path \<noteq> []" and "j \<noteq> m_root_dir_id g"
    and "remove_file j fm = (Inr (), fm1)" and "fm' = update_dir pp (dir_remove_file j) fm1"
    and "find_file fm pp = Some p" and "sf_file_type p = DIRECTORY" and "sf_body p = Sharing_directory ids"
    and "find_file fm1 pp = Some p"
proof -
  let ?r = "m_root_dir_id g" and ?names = "split_path P path"
  obtain pp j where w: "remove_walk fm ?r ?r ?names = Inr (pp, j)" and j: "j \<noteq> ?r"
    using ok by (auto simp: remove_path_def split: sum.splits if_splits)
  then have names: "?names \<noteq> []" by auto
  obtain u fm1 where rem: "remove_file j fm = (Inr u, fm1)"
    using ok w j by (auto simp: remove_path_def split: prod.splits sum.splits)
  note props = remove_walk_props [OF inv w names]
  then obtain p ids where p: "find_file fm pp = Some p" "sf_file_type p = DIRECTORY"
    "sf_body p = Sharing_directory ids" by auto
  obtain p' where p': "find_file fm1 pp = Some p'" and fm': "fm' = update_dir pp (dir_remove_file j) fm1"
    using ok w j rem by (auto simp: remove_path_def get_file_def split: option.splits if_splits file_body.splits)
  have "find_file fm pp = Some p'" using remove_file_inv(3) [OF inv rem p'] by simp
  with p p' show ?thesis by (intro that [OF w names j _ fm' p]) (simp_all add: rem)
qed

lemma remove_path_inv:
  assumes inv: "fm_inv fm" and ok: "remove_path P g path fm = (r, fm')"
  shows "fm_inv fm'"
proof -
  have "fm_inv (update_dir pp (dir_remove_file j) fm1)" if "fm_inv fm1" for pp j fm1
    by (rule fm_inv_update_dir [OF that]) (auto simp: dir_remove_file_def)
  then show ?thesis
    using ok inv remove_file_inv(1) [OF inv]
    by (auto simp: remove_path_def split: sum.splits if_splits prod.splits file_body.splits)
qed

section \<open>The invariant of the groups and the load of the nodes\<close>

definition gm_inv :: "group_manager \<Rightarrow> bool" where
  "gm_inv gm \<longleftrightarrow> ids_below (m_group_list gm) (gm_next_id gm) \<and>
     (\<forall>e \<in> set (m_group_list gm). m_group_id (snd e) = fst e \<and> group_inv (snd e)) \<and>
     distinct (map (\<lambda>e. m_group_name (snd e)) (m_group_list gm))"

definition groups_on :: "group_manager \<Rightarrow> int \<Rightarrow> int" where
  "groups_on gm node_id = int (length (filter (\<lambda>e. m_node_id (snd e) = node_id) (m_group_list gm)))"

text \<open>A node's use count is the number of groups that live on it.\<close>

definition load_ok :: "core \<Rightarrow> bool" where
  "load_ok c \<longleftrightarrow> (\<forall>k n. find_node (c_nodes c) k = Some n \<longrightarrow> n_use_counting n = groups_on (c_groups c) k)"

definition core_inv :: "core \<Rightarrow> bool" where
  "core_inv c \<longleftrightarrow> um_inv (c_users c) \<and> gm_inv (c_groups c) \<and> fm_inv (c_files c) \<and>
     nm_inv (c_nodes c) \<and> fsm_inv (c_sessions c)"

lemma gm_inv_empty: "gm_inv empty_group_manager"
  by (simp add: gm_inv_def empty_group_manager_def)

lemma find_group_name_eq:
  assumes "gm_inv gm" and "find_group gm k = Some g"
  shows "find_group_by_name gm (m_group_name g) = Some g"
  unfolding find_group_by_name_def
proof (rule om_find_if_eqI)
  show "(k, g) \<in> set (m_group_list gm)" using assms(2) by (simp add: find_group_def map_of_SomeD)
  fix j h assume "(j, h) \<in> set (m_group_list gm)" "m_group_name h = m_group_name g"
  with \<open>(k, g) \<in> _\<close> assms(1) have "(j, h) = (k, g)"
    unfolding gm_inv_def distinct_map by (metis (mono_tags, lifting) inj_onD snd_conv)
  then show "h = g" by simp
qed simp

lemma gm_inv_enter:
  assumes inv: "gm_inv gm" and "m_group_id g = gm_next_id gm" and "group_inv g"
    and "find_group_by_name gm (m_group_name g) = None"
  shows "gm_inv (gm\<lparr>gm_next_id := gm_next_id gm + 1, m_group_list := om_insert (gm_next_id gm) g (m_group_list gm)\<rparr>)"
proof -
  have "om_insert (gm_next_id gm) g (m_group_list gm) = m_group_list gm @ [(gm_next_id gm, g)]"
    using inv by (simp add: gm_inv_def ids_below_insert_eq)
  moreover have "m_group_name g \<notin> (\<lambda>e. m_group_name (snd e)) ` set (m_group_list gm)"
    using assms(4) by (auto simp: find_group_by_name_def om_find_if_None)
  ultimately show ?thesis
    using assms ids_below_insert [of "m_group_list gm" "gm_next_id gm" g] by (auto simp: gm_inv_def)
qed

lemma groups_on_enter:
  "gm_inv gm \<Longrightarrow>
   groups_on (gm\<lparr>gm_next_id := n, m_group_list := om_insert (gm_next_id gm) g (m_group_list gm)\<rparr>) k =
     groups_on gm k + (if m_node_id g = k then 1 else 0)"
  by (simp add: groups_on_def gm_inv_def ids_below_insert_eq)

lemma gm_inv_erase: "gm_inv gm \<Longrightarrow> gm_inv (gm\<lparr>m_group_list := om_erase k (m_group_list gm)\<rparr>)"
  by (auto simp: gm_inv_def set_om_erase ids_below_erase)
    (simp add: om_erase_def distinct_map_filter)

lemma groups_on_erase:
  assumes inv: "gm_inv gm" and g: "find_group gm k = Some g"
  shows "groups_on (gm\<lparr>m_group_list := om_erase k (m_group_list gm)\<rparr>) n =
    groups_on gm n - (if m_node_id g = n then 1 else 0)"
proof -
  have "int (length (filter (\<lambda>e. m_node_id (snd e) = n) (om_erase k m))) =
      int (length (filter (\<lambda>e. m_node_id (snd e) = n) m)) - (if m_node_id g = n then 1 else 0)"
    if "map_of m k = Some g" "om_ok m" for m
    using that
  proof (induction m)
    case (Cons e m)
    obtain j h where e: "e = (j, h)" by fastforce
    show ?case
    proof (cases "j = k")
      case True
      then have "om_erase k (e # m) = m"
        using Cons.prems e by (auto simp: om_erase_def filter_id_conv)
      with True Cons.prems e show ?thesis by simp
    next
      case False
      with Cons e show ?thesis by (auto simp: om_erase_def)
    qed
  qed simp
  then show ?thesis using inv g by (auto simp: groups_on_def find_group_def gm_inv_def)
qed

text \<open>An operation on one group that leaves its identity alone.\<close>

lemma on_group_gm_inv:
  assumes inv: "gm_inv (c_groups c)" and k: "keeps group_inv m"
    and "unchanged m_group_id m" and "unchanged m_group_name m"
  shows "gm_inv (c_groups (snd (on_group k m c)))"
proof (cases "find_group (c_groups c) k")
  case (Some g)
  let ?gm = "c_groups c"
  have in': "(k, g) \<in> set (m_group_list ?gm)" using Some by (simp add: find_group_def map_of_SomeD)
  obtain r g' where m: "m g = (r, g')" by fastforce
  have g': "m_group_id g' = k" "m_group_name g' = m_group_name g" "group_inv g'"
    using in' inv unchangedD_eq [OF assms(3) m] unchangedD_eq [OF assms(4) m] keepsD_eq [OF k _ m]
    by (auto simp: gm_inv_def)
  have "om_ok (m_group_list ?gm)" using inv by (auto simp: gm_inv_def)
  then have same: "b = g" if "(k, b) \<in> set (m_group_list ?gm)" for b
    using that in' by (simp add: om_ok_map_of)
  have "map (\<lambda>e. m_group_name (snd e)) (om_update k (\<lambda>_. g') (m_group_list ?gm)) =
      map (\<lambda>e. m_group_name (snd e)) (m_group_list ?gm)"
    using same g'(2) by (auto simp: om_update_def)
  then show ?thesis
    using inv g' m Some by (auto simp: on_group_def gm_inv_def set_om_update ids_below_update)
qed (use inv in \<open>simp add: on_group_def\<close>)

section \<open>Properties\<close>

text \<open>
  C28. Roles. Joining makes a member and nothing else. \<open>assign_as_manager\<close> succeeds exactly for
  a member who is not the owner, and takes the member role away: the new manager is no
  longer in \<open>m_member_list\<close>, which the header describes as all members of the group, so that
  he fails every check for members. \<open>assign_as_member\<close> succeeds exactly for a manager who is
  not the owner, kicking out for everyone but the owner. The owner keeps both roles and no
  other user's role changes.
\<close>

theorem role_transitions:
  assumes inv: "group_inv g"
  shows "group_inv (join_group u g) \<and> is_member (join_group u g) u \<and>
      (is_manager (join_group u g) u \<longleftrightarrow> is_manager g u) \<and>
    (case assign_as_manager u g of (r, g') \<Rightarrow> group_inv g' \<and>
       (r = Inr () \<longleftrightarrow> is_member g u \<and> u \<noteq> m_owner_id g) \<and>
       (r = Inr () \<longrightarrow> is_manager g' u \<and> \<not> is_member g' u) \<and> (r \<noteq> Inr () \<longrightarrow> g' = g)) \<and>
    (case assign_as_member u g of (r, g') \<Rightarrow> group_inv g' \<and>
       (r = Inr () \<longleftrightarrow> is_manager g u \<and> u \<noteq> m_owner_id g) \<and>
       (r = Inr () \<longrightarrow> is_member g' u \<and> \<not> is_manager g' u) \<and> (r \<noteq> Inr () \<longrightarrow> g' = g)) \<and>
    (case kick_out_user u g of (r, g') \<Rightarrow> group_inv g' \<and>
       (r = Inr () \<longleftrightarrow> u \<noteq> m_owner_id g) \<and>
       (r = Inr () \<longrightarrow> \<not> is_member g' u \<and> \<not> is_manager g' u) \<and> (r \<noteq> Inr () \<longrightarrow> g' = g)) \<and>
    (\<forall>v. v \<noteq> u \<longrightarrow> (\<forall>g' \<in> {join_group u g, snd (assign_as_manager u g), snd (assign_as_member u g),
                              snd (kick_out_user u g)}.
       is_manager g' v = is_manager g v \<and> is_member g' v = is_member g v))"
proof -
  note roles = join_group_roles [OF inv, of u] assign_manager_roles [OF inv surjective_pairing, of u]
    assign_member_roles [OF inv surjective_pairing, of u] kick_out_roles [OF inv surjective_pairing, of u]
  have others: "\<forall>g' \<in> {join_group u g, snd (assign_as_manager u g), snd (assign_as_member u g),
      snd (kick_out_user u g)}. is_manager g' v = is_manager g v \<and> is_member g' v = is_member g v"
    if "v \<noteq> u" for v
    using roles that by simp
  have manager: "case assign_as_manager u g of (r, g') \<Rightarrow> group_inv g' \<and>
       (r = Inr () \<longleftrightarrow> is_member g u \<and> u \<noteq> m_owner_id g) \<and>
       (r = Inr () \<longrightarrow> is_manager g' u \<and> \<not> is_member g' u) \<and> (r \<noteq> Inr () \<longrightarrow> g' = g)"
    using roles(2) by (simp add: case_prod_unfold)
  have member: "case assign_as_member u g of (r, g') \<Rightarrow> group_inv g' \<and>
       (r = Inr () \<longleftrightarrow> is_manager g u \<and> u \<noteq> m_owner_id g) \<and>
       (r = Inr () \<longrightarrow> is_member g' u \<and> \<not> is_manager g' u) \<and> (r \<noteq> Inr () \<longrightarrow> g' = g)"
    using roles(3) by (simp add: case_prod_unfold)
  have kick: "case kick_out_user u g of (r, g') \<Rightarrow> group_inv g' \<and>
       (r = Inr () \<longleftrightarrow> u \<noteq> m_owner_id g) \<and>
       (r = Inr () \<longrightarrow> \<not> is_member g' u \<and> \<not> is_manager g' u) \<and> (r \<noteq> Inr () \<longrightarrow> g' = g)"
    using roles(4) inv by (cases "u = m_owner_id g") (simp_all add: case_prod_unfold)
  show ?thesis
    by (intro conjI manager member kick allI impI others) (simp_all add: roles(1))
qed

definition example_group :: sharing_group where
  "example_group = (new_group 1 ''g'' 5 1 1)\<lparr>m_member_list := [5, 6]\<rparr>"

theorem role_transitions_witness:
  "fst (assign_as_manager 6 example_group) = Inr () \<and>
   \<not> is_member (snd (assign_as_manager 6 example_group)) 6"
proof -
  have "group_inv example_group"
    by (simp add: example_group_def new_group_def group_inv_def is_manager_def is_member_def)
  moreover have "is_member example_group 6" "m_owner_id example_group \<noteq> 6"
    by (simp_all add: example_group_def new_group_def is_member_def)
  ultimately show ?thesis
    using role_transitions [of example_group 6] unfolding case_prod_unfold by simp
qed

text \<open>
  C29. Creating a path. The call either leaves the files as they were and fails, or it returns
  and the path exists. Every path that led to a file before still leads to the same one,
  names stay unique in every directory, and a second call changes nothing.
\<close>

theorem create_path_spec:
  assumes inv: "fm_inv fm" and "unique_names fm" and root: "m_root_dir_id g \<noteq> INVALID_ID"
    and create: "create_path P g path fm = (r, fm')"
  shows "fm_inv fm' \<and> unique_names fm' \<and>
    (case r of Inl e \<Rightarrow> fm' = fm
     | Inr _ \<Rightarrow> exist_path P g path fm' = Inr True \<and> create_path P g path fm' = (Inr (), fm')) \<and>
    (\<forall>h q k. get_file_id P h q fm = Inr k \<and> k \<noteq> INVALID_ID \<longrightarrow> get_file_id P h q fm' = Inr k)"
proof -
  let ?names = "split_path P path"
  have walk: "create_walk (m_root_dir_id g) ?names fm = (r, fm')" using create by (simp add: create_path_def)
  note props = create_walk_props [OF inv walk]
  have again: "create_walk (m_root_dir_id g) ?names fm' = (Inr (), fm')" if "r = Inr ()"
  proof (cases ?names rule: rev_cases)
    case (snoc ns n)
    with props(4) [OF that root] show ?thesis by (auto intro: create_walk_existing [OF props(1)])
  qed simp
  have "exist_path P g path fm' = Inr True" if "r = Inr ()"
    using props(4) [OF that root] by (auto simp: exist_path_def get_file_id_def)
  moreover have "unique_names fm'"
    using unique_names_create_walk [OF inv assms(2), of "m_root_dir_id g" ?names] walk by simp
  ultimately show ?thesis
    using props(1,3) again walk_ext [OF inv props(2)]
    by (auto simp: create_path_def get_file_id_def split: sum.split)
qed

definition example_tree :: file_manager where
  "example_tree =
     \<lparr>m_file_list =
        [(1, \<lparr>sf_file_id = 1, sf_file_type = DIRECTORY, sf_file_name = ''g'', sf_body = Sharing_directory [2, 4]\<rparr>),
         (2, \<lparr>sf_file_id = 2, sf_file_type = DIRECTORY, sf_file_name = ''d'', sf_body = Sharing_directory [3]\<rparr>),
         (3, \<lparr>sf_file_id = 3, sf_file_type = DIRECTORY, sf_file_name = ''e'', sf_body = Sharing_directory []\<rparr>),
         (4, \<lparr>sf_file_id = 4, sf_file_type = DIRECTORY, sf_file_name = ''e'', sf_body = Sharing_directory []\<rparr>)],
      fm_next_id = 5\<rparr>"

lemma example_tree_ok: "fm_inv example_tree" "unique_names example_tree"
proof -
  show "fm_inv example_tree"
    by (simp add: fm_inv_def example_tree_def ids_below_def file_ok_def links_ok_def)
  show "unique_names example_tree"
    unfolding unique_names_def example_tree_def find_file_def by (auto split: if_splits)
qed

lemma example_split: "split_path (std_poco None) ''d/e'' = [''d'', ''e'']"
  "split_path (std_poco None) ''x/y'' = [''x'', ''y'']"
  using split_path_join [OF poco_ok_std, of "[''d'', ''e'']"] split_path_join [OF poco_ok_std, of "[''x'', ''y'']"]
  by (simp_all add: component_def SEPARATOR_def)

theorem create_path_spec_witness:
  "exist_path (std_poco None) example_group ''x/y''
     (snd (create_path (std_poco None) example_group ''x/y'' example_tree)) = Inr True"
proof -
  let ?r = "create_path (std_poco None) example_group ''x/y'' example_tree"
  have "m_root_dir_id example_group \<noteq> INVALID_ID"
    by (simp add: example_group_def new_group_def INVALID_ID_def)
  note spec = create_path_spec [OF example_tree_ok this surjective_pairing]
  have "fst ?r = Inr ()"
    by (simp add: create_path_def example_split create_walk.simps get_file_def find_file_def example_tree_def
        example_group_def new_group_def dir_find_file_def INVALID_ID_def register_file_def new_file_body_def
        update_dir_def om_update_def on_dir.simps Let_def)
  with spec [of "std_poco None" "''x/y''"] show ?thesis by simp
qed

text \<open>
  C30. Removing a path. When the call returns, the path leads nowhere any more, the file that it
  led to is gone from the manager together with its storage file, and every other file is
  still registered - also the content of a removed directory, which no path reaches now.
  Names stay unique.
\<close>

theorem remove_path_spec:
  assumes inv: "fm_inv fm" and uniq: "unique_names fm" and ok: "remove_path P g path fm = (Inr (), fm')"
  shows "fm_inv fm' \<and> unique_names fm' \<and> exist_path P g path fm' = Inr False \<and>
    (\<exists>j. get_file_id P g path fm = Inr j \<and> j \<noteq> m_root_dir_id g \<and> has_file fm j \<and>
       (\<forall>c. has_file fm' c \<longleftrightarrow> has_file fm c \<and> c \<noteq> j \<and> storage_of fm j \<noteq> Some c))"
proof -
  obtain pp j p ids fm1 where
    w: "remove_walk fm (m_root_dir_id g) (m_root_dir_id g) (split_path P path) = Inr (pp, j)"
    and names: "split_path P path \<noteq> []" and j: "j \<noteq> m_root_dir_id g"
    and rem: "remove_file j fm = (Inr (), fm1)" and fm': "fm' = update_dir pp (dir_remove_file j) fm1"
    and p: "find_file fm pp = Some p" "sf_file_type p = DIRECTORY" "sf_body p = Sharing_directory ids"
    and p1: "find_file fm1 pp = Some p"
    by (rule remove_path_ok [OF inv ok])
  note props = remove_walk_props [OF inv w names]
  let ?D = "{c. c = j \<or> storage_of fm j = Some c}"
  have find1: "find_file fm1 c = (if c \<in> ?D then None else find_file fm c)" for c
    using inv rem by (cases rule: remove_file_cases) auto
  have D: "sf_file_type f \<noteq> DIRECTORY" if "d \<in> ?D" "d \<noteq> j" "find_file fm d = Some f" for d f
    using inv rem that by (cases rule: remove_file_cases) auto
  have pD: "pp \<notin> ?D" using p1 find1 by (metis option.distinct(1))
  have par: "find_file fm' pp = Some (p\<lparr>sf_body := Sharing_directory (dir_remove_file j ids)\<rparr>)"
    using p1 p(3) by (simp add: fm' find_file_update_dir on_dir.simps)
  have other: "find_file fm' c = find_file fm1 c" if "c \<noteq> pp" for c
    using that by (simp add: fm' find_file_update_dir)
  have "walk fm' (m_root_dir_id g) (split_path P path) = Inr INVALID_ID"
    by (rule walk_removed [OF inv uniq _ _ _ pD p par D w names]) (use find1 other pD in auto)
  then have "exist_path P g path fm' = Inr False"
    by (simp add: exist_path_def get_file_id_def)
  moreover have "unique_names fm'"
  proof (rule unique_names_mono [OF uniq])
    fix k f assume f: "find_file fm' k = Some f"
    show "\<exists>g. find_file fm k = Some g \<and> sf_file_name g = sf_file_name f"
      using f par p other [of k] find1 [of k] by (cases "k = pp") (auto split: if_splits)
    fix js assume "sf_body f = Sharing_directory js"
    then show "\<exists>g ids'. find_file fm k = Some g \<and> sf_body g = Sharing_directory ids' \<and> set js \<subseteq> set ids'"
      using f par p other [of k] find1 [of k]
      by (cases "k = pp") (auto simp: dir_remove_file_def split: if_splits)
  qed
  moreover have "fm_inv fm'" by (rule remove_path_inv [OF inv ok])
  moreover have "has_file fm' c \<longleftrightarrow> has_file fm c \<and> c \<noteq> j \<and> storage_of fm j \<noteq> Some c" for c
    using find1 [of c] other [of c] par p pD by (cases "c = pp") (auto simp: has_file_def)
  moreover have "get_file_id P g path fm = Inr j" and "has_file fm j"
    using props by (auto simp: get_file_id_def has_file_def)
  ultimately show ?thesis using j by blast
qed

theorem remove_path_spec_witness:
  "exist_path (std_poco None) example_group ''d/e''
     (snd (remove_path (std_poco None) example_group ''d/e'' example_tree)) = Inr False \<and>
   has_file (snd (remove_path (std_poco None) example_group ''d'' example_tree)) 3"
proof -
  let ?r = "remove_path (std_poco None) example_group ''d/e'' example_tree"
  let ?q = "remove_path (std_poco None) example_group ''d'' example_tree"
  have s: "split_path (std_poco None) ''d'' = [''d'']"
    using split_path_join [OF poco_ok_std, of "[''d'']"] by (simp add: component_def)
  note ev = remove_path_def remove_walk.simps get_file_def find_file_def example_tree_def
        example_group_def new_group_def dir_find_file_def INVALID_ID_def remove_file.simps
        update_dir_def om_update_def om_erase_def on_dir.simps
  have "fst ?r = Inr ()" and q: "fst ?q = Inr ()" by (simp_all add: ev s example_split Let_def)
  moreover have "get_file_id (std_poco None) example_group ''d'' example_tree = Inr 2"
    by (simp add: get_file_id_def walk.simps s ev)
  moreover have "storage_of example_tree 2 = None" "has_file example_tree 3"
    by (simp_all add: storage_of_def has_file_def ev)
  ultimately show ?thesis
    using remove_path_spec [OF example_tree_ok, of "std_poco None" example_group "''d/e''" "snd ?r"]
      remove_path_spec [OF example_tree_ok, of "std_poco None" example_group "''d''" "snd ?q"]
    by (auto simp: prod_eq_iff)
qed

lemma get_fit_node_cases:
  assumes "nm_inv nm"
  obtains (empty) "get_fit_node nm = Inl Undefined" and "m_node_list nm = []"
    | (node) n where "get_fit_node nm = Inr n" and "find_node nm (n_node_id n) = Some n"
proof (cases "om_find_if (\<lambda>n. n_use_counting n = 0) (m_node_list nm)")
  case None
  show ?thesis
  proof (cases "m_node_list nm")
    case Nil
    with None empty show ?thesis by (simp add: get_fit_node_def)
  next
    case (Cons e es)
    let ?n = "lowest_load (snd e) (map snd (e # es))"
    have "?n \<in> snd ` set (m_node_list nm)" using lowest_load_in [of "snd e" "map snd (e # es)"] Cons by auto
    then obtain k where "(k, ?n) \<in> set (m_node_list nm)" by force
    then have "find_node nm (n_node_id ?n) = Some ?n"
      using assms by (auto simp: nm_inv_def find_node_def om_ok_map_of [symmetric])
    with None Cons node show ?thesis by (simp add: get_fit_node_def)
  qed
next
  case (Some n)
  then obtain k where "(k, n) \<in> set (m_node_list nm)" by (auto elim: om_find_if_SomeE)
  then have "find_node nm (n_node_id n) = Some n"
    using assms by (auto simp: nm_inv_def find_node_def om_ok_map_of [symmetric])
  with Some node show ?thesis by (simp add: get_fit_node_def)
qed

lemma find_add_node_use:
  "find_node (add_node_use k d nm) j =
     (if j = k then map_option (\<lambda>n. n\<lparr>n_use_counting := n_use_counting n + d\<rparr>) (find_node nm k) else find_node nm j)"
  by (simp add: add_node_use_def find_node_update)

lemma add_node_use_inv: "nm_inv nm \<Longrightarrow> nm_inv (add_node_use k d nm)"
  unfolding add_node_use_def by (rule nm_inv_update) simp_all

text \<open>The state after \<open>register_group\<close> has run through.\<close>

definition group_entered :: "int \<Rightarrow> string \<Rightarrow> storage_node \<Rightarrow> core \<Rightarrow> core" where
  "group_entered u name n c =
     (let fm = enter_file \<lparr>sf_file_id = fm_next_id (c_files c), sf_file_type = DIRECTORY, sf_file_name = name,
                           sf_body = Sharing_directory []\<rparr> (c_files c);
          g = new_group (gm_next_id (c_groups c)) name u (fm_next_id (c_files c)) (n_node_id n)
      in c\<lparr>c_files := fm, c_nodes := add_node_use (n_node_id n) 1 (c_nodes c),
           c_groups := (c_groups c)\<lparr>gm_next_id := gm_next_id (c_groups c) + 1,
             m_group_list := om_insert (gm_next_id (c_groups c)) g (m_group_list (c_groups c))\<rparr>\<rparr>)"

lemma register_group_cases:
  assumes inv: "core_inv c" and reg: "register_group u name c = (r, c')"
  obtains (taken) "find_group_by_name (c_groups c) name \<noteq> None"
      and "r = Inl (Thrown (Resource ERR_GROUP_ALREADY_EXIST))" and "c' = c"
    | (no_node) "find_group_by_name (c_groups c) name = None" and "m_node_list (c_nodes c) = []"
      and "r = Inl Undefined" and "c' = c\<lparr>c_files := snd (register_file DIRECTORY name 0 (c_files c))\<rparr>"
    | (new) n where "find_group_by_name (c_groups c) name = None" and "get_fit_node (c_nodes c) = Inr n"
      and "find_node (c_nodes c) (n_node_id n) = Some n"
      and "r = Inr (new_group (gm_next_id (c_groups c)) name u (fm_next_id (c_files c)) (n_node_id n))"
      and "c' = group_entered u name n c"
proof (cases "find_group_by_name (c_groups c) name")
  case None
  have fm: "fm_inv (c_files c)" and nm: "nm_inv (c_nodes c)" using inv by (simp_all add: core_inv_def)
  have gm: "find_group (c_groups c) (gm_next_id (c_groups c)) = None"
    using inv by (simp add: core_inv_def gm_inv_def find_group_def ids_below_fresh)
  show ?thesis
    using nm
  proof (cases rule: get_fit_node_cases)
    case empty
    with reg None show ?thesis
      by (intro no_node)
        (auto simp: register_group_def exec_defs register_directory [OF fm refl])
  next
    case (node n)
    with reg None gm show ?thesis
      by (intro new [OF None node])
        (auto simp: register_group_def exec_defs register_directory [OF fm refl] group_entered_def Let_def
          find_group_def new_group_def)
  qed
next
  case (Some g)
  with reg have "(r, c') = (Inl (Thrown (Resource ERR_GROUP_ALREADY_EXIST)), c)"
    by (simp add: register_group_def bindE_throw_if)
  with Some show ?thesis by (intro taken) simp_all
qed

lemma group_entered_inv:
  assumes inv: "core_inv c" and n: "find_node (c_nodes c) (n_node_id n) = Some n"
    and name: "find_group_by_name (c_groups c) name = None"
  shows "core_inv (group_entered u name n c)" and "load_ok c \<Longrightarrow> load_ok (group_entered u name n c)"
    and "find_group (c_groups (group_entered u name n c)) (gm_next_id (c_groups c)) =
      Some (new_group (gm_next_id (c_groups c)) name u (fm_next_id (c_files c)) (n_node_id n))"
    and "k \<noteq> gm_next_id (c_groups c) \<Longrightarrow>
      find_group (c_groups (group_entered u name n c)) k = find_group (c_groups c) k"
proof -
  let ?gm = "c_groups c" and ?g = "new_group (gm_next_id (c_groups c)) name u (fm_next_id (c_files c)) (n_node_id n)"
  have gm: "gm_inv ?gm" and fm: "fm_inv (c_files c)" and nm: "nm_inv (c_nodes c)"
    using inv by (simp_all add: core_inv_def)
  have "gm_inv (?gm\<lparr>gm_next_id := gm_next_id ?gm + 1, m_group_list := om_insert (gm_next_id ?gm) ?g (m_group_list ?gm)\<rparr>)"
    by (rule gm_inv_enter [OF gm]) (use name group_inv_new in \<open>simp_all add: new_group_def\<close>)
  moreover have "fm_inv (enter_file \<lparr>sf_file_id = fm_next_id (c_files c), sf_file_type = DIRECTORY,
      sf_file_name = name, sf_body = Sharing_directory []\<rparr> (c_files c))"
    by (rule fm_inv_enter [OF fm]) (simp_all add: links_ok_def)
  ultimately show "core_inv (group_entered u name n c)"
    using inv by (simp add: core_inv_def group_entered_def Let_def add_node_use_inv)
  show "load_ok (group_entered u name n c)" if "load_ok c"
    using that n
    by (auto simp: load_ok_def group_entered_def Let_def find_add_node_use groups_on_enter [OF gm] new_group_def
        split: if_splits)
  have ok: "om_ok (m_group_list ?gm)" "map_of (m_group_list ?gm) (gm_next_id ?gm) = None"
    using gm by (auto simp: gm_inv_def ids_below_fresh)
  then show "find_group (c_groups (group_entered u name n c)) (gm_next_id ?gm) = Some ?g"
    and "k \<noteq> gm_next_id ?gm \<Longrightarrow> find_group (c_groups (group_entered u name n c)) k = find_group ?gm k"
    by (simp_all add: group_entered_def Let_def find_group_def map_of_om_insert_fresh)
qed

lemma core_inv_files: "core_inv c \<Longrightarrow> fm_inv fm \<Longrightarrow> core_inv (c\<lparr>c_files := fm\<rparr>)"
  by (simp add: core_inv_def)

text \<open>
  C26. Registering a group. A taken name is refused without a change. With no storage node the
  call runs into undefined behaviour, after it has registered a root directory. Otherwise the
  new group gets the next id, its creator as owner, manager and member, a fresh empty root
  directory, and the node that \<open>get_fit_node\<close> chooses, whose use count goes up: use counts stay
  the number of groups on the node.
\<close>

theorem register_group_spec:
  assumes inv: "core_inv c" and load: "load_ok c" and reg: "register_group u name c = (r, c')"
  shows "core_inv c' \<and> load_ok c' \<and>
    (case r of
       Inl e \<Rightarrow> c_groups c' = c_groups c \<and>
         (if find_group_by_name (c_groups c) name \<noteq> None
          then e = Thrown (Resource ERR_GROUP_ALREADY_EXIST) \<and> c' = c
          else e = Undefined \<and> m_node_list (c_nodes c) = [] \<and> has_file (c_files c') (fm_next_id (c_files c)))
     | Inr g \<Rightarrow> find_group_by_name (c_groups c) name = None \<and>
         find_group (c_groups c') (m_group_id g) = Some g \<and> find_group (c_groups c) (m_group_id g) = None \<and>
         m_group_name g = name \<and> m_owner_id g = u \<and> is_manager g u \<and> is_member g u \<and>
         map_option sf_body (find_file (c_files c') (m_root_dir_id g)) = Some (Sharing_directory []) \<and>
         map_sum id n_node_id (get_fit_node (c_nodes c)) = Inr (m_node_id g) \<and>
         (\<forall>k. k \<noteq> m_group_id g \<longrightarrow> find_group (c_groups c') k = find_group (c_groups c) k))"
  using inv reg
proof (cases rule: register_group_cases)
  case taken
  then show ?thesis using inv load by simp
next
  case no_node
  have fm: "fm_inv (c_files c)" using inv by (simp add: core_inv_def)
  have "fm_inv (snd (register_file DIRECTORY name 0 (c_files c)))"
    by (rule register_file_inv [OF fm surjective_pairing])
  moreover have "has_file (snd (register_file DIRECTORY name 0 (c_files c))) (fm_next_id (c_files c))"
    by (simp add: register_directory [OF fm refl] has_file_def find_enter_file [OF fm])
  ultimately show ?thesis
    using no_node core_inv_files [OF inv] load by (simp add: load_ok_def)
next
  case (new n)
  have fm: "fm_inv (c_files c)" using inv by (simp add: core_inv_def)
  have "find_group (c_groups c) (gm_next_id (c_groups c)) = None"
    using inv by (simp add: core_inv_def gm_inv_def find_group_def ids_below_fresh)
  moreover have "map_option sf_body (find_file (c_files c') (fm_next_id (c_files c))) = Some (Sharing_directory [])"
    by (simp add: new(5) group_entered_def Let_def find_enter_file [OF fm])
  ultimately show ?thesis
    using group_entered_inv(1-3) [OF inv new(3,1), of u] group_entered_inv(4) [OF inv new(3,1), where u = u] load new
    by (simp add: new_group_def is_manager_def is_member_def)
qed

definition example_core :: core where
  "example_core =
     \<lparr>c_users = example_users,
      c_groups = \<lparr>m_group_list = [(1, example_group)], gm_next_id = 2\<rparr>,
      c_files = example_tree,
      c_nodes = \<lparr>m_node_list = [(1, (new_node 1 ''10.0.0.1'' 9000 1)\<lparr>n_use_counting := 1\<rparr>)], nm_next_id = 2\<rparr>,
      c_sessions = empty_session_manager\<rparr>"

lemma example_core_ok: "core_inv example_core" "load_ok example_core"
  by (simp_all add: core_inv_def load_ok_def example_core_def um_inv_example example_tree_ok fsm_inv_empty
      gm_inv_def nm_inv_def ids_below_def new_node_def example_group_def new_group_def group_inv_def
      is_manager_def is_member_def find_node_def groups_on_def)

theorem register_group_spec_witness:
  "fst (register_group 2 ''g'' example_core) = Inl (Thrown (Resource ERR_GROUP_ALREADY_EXIST)) \<and>
   load_ok (snd (register_group 2 ''h'' example_core))"
proof -
  have "find_group_by_name (c_groups example_core) ''g'' \<noteq> None"
    by (simp add: example_core_def find_group_by_name_def om_find_if_def example_group_def new_group_def)
  then show ?thesis
    using register_group_spec [OF example_core_ok surjective_pairing, of 2 "''g''"]
      register_group_spec [OF example_core_ok surjective_pairing, of 2 "''h''"]
    by (auto split: sum.splits)
qed

lemma remove_group_cases:
  assumes inv: "core_inv c" and rem: "remove_group u k c = (r, c')"
  obtains (missing) "find_group (c_groups c) k = None" and "r = Inl (Thrown (Resource ERR_GROUP_NOT_EXIST))" and "c' = c"
    | (refused) g where "find_group (c_groups c) k = Some g" and "m_owner_id g \<noteq> u"
        and "r = Inl (Thrown (Resource ERR_GROUP_NOT_PERMIT_NEED_OWNER))" and "c' = c"
    | (no_node) g where "find_group (c_groups c) k = Some g" and "m_owner_id g = u"
        and "find_node (c_nodes c) (m_node_id g) = None" and "r = Inl (Thrown (Resource ERR_NODE_NOT_EXIST))" and "c' = c"
    | (removed) g n where "find_group (c_groups c) k = Some g" and "m_owner_id g = u"
        and "find_node (c_nodes c) (m_node_id g) = Some n" and "r = Inr ()"
        and "c' = c\<lparr>c_nodes := add_node_use (m_node_id g) (- 1) (c_nodes c),
          c_groups := (c_groups c)\<lparr>m_group_list := om_erase k (m_group_list (c_groups c))\<rparr>\<rparr>"
proof (cases "find_group (c_groups c) k")
  case None
  with rem show ?thesis by (intro missing) (simp_all add: remove_group_def exec_defs get_group_def)
next
  case (Some g)
  note run = rem [unfolded remove_group_def exec_defs get_group_def get_node_def]
  show ?thesis
  proof (cases "m_owner_id g = u")
    case False
    with Some run show ?thesis by (intro refused) auto
  next
    case owner: True
    show ?thesis
    proof (cases "find_node (c_nodes c) (m_node_id g)")
      case None
      with Some owner run show ?thesis by (intro no_node) auto
    next
      case node: (Some n)
      have "n_node_id n = m_node_id g"
        using inv map_of_SomeD [OF node [unfolded find_node_def]] by (fastforce simp: core_inv_def nm_inv_def)
      with Some owner node run show ?thesis by (intro removed) auto
    qed
  qed
qed

lemma group_removed_inv:
  assumes inv: "core_inv c" and g: "find_group (c_groups c) k = Some g"
    and n: "find_node (c_nodes c) (m_node_id g) = Some n"
    and c': "c' = c\<lparr>c_nodes := add_node_use (m_node_id g) (- 1) (c_nodes c),
          c_groups := (c_groups c)\<lparr>m_group_list := om_erase k (m_group_list (c_groups c))\<rparr>\<rparr>"
  shows "core_inv c'" and "load_ok c \<Longrightarrow> load_ok c'"
proof -
  have gm: "gm_inv (c_groups c)" using inv by (simp add: core_inv_def)
  show "core_inv c'" using inv by (simp add: c' core_inv_def gm_inv_erase add_node_use_inv)
  show "load_ok c'" if "load_ok c"
    using that n by (auto simp: c' load_ok_def find_add_node_use groups_on_erase [OF gm g] split: if_splits)
qed

text \<open>
  C27. Removing a group. Only the owner can, and only while the node of the group is registered;
  otherwise nothing changes. The group's entry goes and its node's use count goes down, which
  keeps use counts equal to the number of groups on the node. The files of the group stay.
\<close>

theorem remove_group_spec:
  assumes inv: "core_inv c" and load: "load_ok c" and rem: "remove_group u k c = (r, c')"
  shows "core_inv c' \<and> load_ok c' \<and> c_files c' = c_files c \<and>
    (case find_group (c_groups c) k of
       None \<Rightarrow> r = Inl (Thrown (Resource ERR_GROUP_NOT_EXIST)) \<and> c' = c
     | Some g \<Rightarrow>
         if m_owner_id g \<noteq> u then r = Inl (Thrown (Resource ERR_GROUP_NOT_PERMIT_NEED_OWNER)) \<and> c' = c
         else if find_node (c_nodes c) (m_node_id g) = None
         then r = Inl (Thrown (Resource ERR_NODE_NOT_EXIST)) \<and> c' = c
         else r = Inr () \<and> (\<forall>j. find_group (c_groups c') j = (if j = k then None else find_group (c_groups c) j)))"
  using inv rem
proof (cases rule: remove_group_cases)
  case (removed g n)
  then show ?thesis using group_removed_inv [OF inv removed(1,3,5)] load by (simp add: find_group_def)
qed (use inv load in auto)

theorem remove_group_spec_witness:
  "fst (remove_group 6 1 example_core) = Inl (Thrown (Resource ERR_GROUP_NOT_PERMIT_NEED_OWNER)) \<and>
   find_group (c_groups (snd (remove_group 5 1 example_core))) 1 = None"
proof -
  have "find_group (c_groups example_core) 1 = Some example_group" "m_owner_id example_group = 5"
    "find_node (c_nodes example_core) (m_node_id example_group) \<noteq> None"
    by (simp_all add: example_core_def find_group_def find_node_def example_group_def new_group_def)
  then show ?thesis
    using remove_group_spec [OF example_core_ok surjective_pairing, of 6 1]
      remove_group_spec [OF example_core_ok surjective_pairing, of 5 1] by auto
qed

end
