(* ===== verification/Protocol.thy ===== *)
theory Protocol
  imports Omap "HOL-Library.Word"
begin

text \<open>
  The messages of \<open>protocol/protocol.proto\<close> and the command table of \<open>protocol/command.cpp\<close>
  with its data \<open>protocol/command.details\<close>. The classes that the protocol compiler generates
  are a datatype with the fields in the order of the \<open>.proto\<close> file; a sub-message field is an
  option, whose \<open>None\<close> is an unset field (\<open>has_error()\<close> is false), other fields have their
  default where they are unset. Turning a message into the bytes of a package and back is the
  protobuf library's work, a parameter \<open>codec\<close>.
\<close>

section \<open>Messages\<close>

type_synonym byte = "8 word"
type_synonym bytes = "byte list"

type_synonym error_info = "int \<times> int"        \<comment> \<open>category, code\<close>

definition MAX_FRAGMENT_CONTENT_LEN :: int where
  "MAX_FRAGMENT_CONTENT_LEN = 50000"

record proto_user =
  pu_user_id :: int
  pu_user_name :: string
  pu_group_list :: "int list"

record proto_group =
  pg_group_id :: int
  pg_group_name :: string
  pg_owner_id :: int
  pg_root_dir_id :: int
  pg_manager_list :: "int list"
  pg_member_list :: "int list"

datatype proto_file_type = PROTO_GENERAL_FILE | PROTO_DIRECTORY

record proto_file =
  pf_filename :: string
  pf_type :: proto_file_type

datatype message =
    RspError "error_info option"
  | ReqPing int int   \<comment> \<open>second, microsecond\<close>
  | RspPing "error_info option" int int   \<comment> \<open>error, second, microsecond\<close>
  | ReqRegisterUser string string   \<comment> \<open>username, password\<close>
  | RspRegisterUser "error_info option" "proto_user option"
  | ReqLoginUser int string   \<comment> \<open>user_id, password\<close>
  | RspLoginUser "error_info option"
  | ReqRemoveUser int
  | RspRemoveUser "error_info option"
  | ReqFindUser int string   \<comment> \<open>user_id, username\<close>
  | RspFindUser "error_info option" "proto_user option"
  | ReqRegisterGroup string
  | RspRegisterGroup "error_info option" int
  | ReqRemoveGroup int
  | RspRemoveGroup bool
  | ReqFindGroup int string   \<comment> \<open>group_id, group_name\<close>
  | RspFindGroup "error_info option" "proto_group option"
  | ReqJoinGroup int
  | RspJoinGroup "error_info option"
  | ReqAssignAsManager int int   \<comment> \<open>group_id, user_id\<close>
  | RspAssignAsManager "error_info option"
  | ReqAssignAsMember int int
  | RspAssignAsMember "error_info option"
  | ReqKickOutUser int int
  | RspKickOutUser "error_info option"
  | ReqListFile int string   \<comment> \<open>group_id, file_path\<close>
  | RspListFile "error_info option" "proto_file list"
  | ReqPutFileSession int string int   \<comment> \<open>group_id, file_path, max_fragment\<close>
  | RspPutFileSession "error_info option" int int   \<comment> \<open>error, session_id, next_fragment\<close>
  | ReqNodePutFileSession string int   \<comment> \<open>file_path, max_fragment\<close>
  | RspNodePutFileSession "error_info option" int
  | ReqPutFile int int bytes   \<comment> \<open>session_id, fragment_index, fragment_content\<close>
  | RspPutFile "error_info option" int int   \<comment> \<open>error, session_id, fragment_index\<close>
  | ReqGetFileSession int string   \<comment> \<open>group_id, file_path\<close>
  | RspGetFileSession "error_info option" int int   \<comment> \<open>error, session_id, max_fragment\<close>
  | ReqNodeGetFileSession string
  | RspNodeGetFileSession "error_info option" int int   \<comment> \<open>error, session_id, max_fragment\<close>
  | ReqGetFile int int   \<comment> \<open>session_id, fragment_index\<close>
  | RspGetFile "error_info option" int int bytes   \<comment> \<open>error, session_id, fragment_index, fragment_content\<close>
  | ReqCreatePath int string
  | RspCreatePath "error_info option"
  | ReqRemovePath int string bool   \<comment> \<open>group_id, path, force_remove_all\<close>
  | RspRemovePath "error_info option"

text \<open>\<open>GetDescriptor()->name()\<close>.\<close>

fun msg_name :: "message \<Rightarrow> string" where
  "msg_name (RspError _) = ''RspError''"
| "msg_name (ReqPing _ _) = ''ReqPing''"
| "msg_name (RspPing _ _ _) = ''RspPing''"
| "msg_name (ReqRegisterUser _ _) = ''ReqRegisterUser''"
| "msg_name (RspRegisterUser _ _) = ''RspRegisterUser''"
| "msg_name (ReqLoginUser _ _) = ''ReqLoginUser''"
| "msg_name (RspLoginUser _) = ''RspLoginUser''"
| "msg_name (ReqRemoveUser _) = ''ReqRemoveUser''"
| "msg_name (RspRemoveUser _) = ''RspRemoveUser''"
| "msg_name (ReqFindUser _ _) = ''ReqFindUser''"
| "msg_name (RspFindUser _ _) = ''RspFindUser''"
| "msg_name (ReqRegisterGroup _) = ''ReqRegisterGroup''"
| "msg_name (RspRegisterGroup _ _) = ''RspRegisterGroup''"
| "msg_name (ReqRemoveGroup _) = ''ReqRemoveGroup''"
| "msg_name (RspRemoveGroup _) = ''RspRemoveGroup''"
| "msg_name (ReqFindGroup _ _) = ''ReqFindGroup''"
| "msg_name (RspFindGroup _ _) = ''RspFindGroup''"
| "msg_name (ReqJoinGroup _) = ''ReqJoinGroup''"
| "msg_name (RspJoinGroup _) = ''RspJoinGroup''"
| "msg_name (ReqAssignAsManager _ _) = ''ReqAssignAsManager''"
| "msg_name (RspAssignAsManager _) = ''RspAssignAsManager''"
| "msg_name (ReqAssignAsMember _ _) = ''ReqAssignAsMember''"
| "msg_name (RspAssignAsMember _) = ''RspAssignAsMember''"
| "msg_name (ReqKickOutUser _ _) = ''ReqKickOutUser''"
| "msg_name (RspKickOutUser _) = ''RspKickOutUser''"
| "msg_name (ReqListFile _ _) = ''ReqListFile''"
| "msg_name (RspListFile _ _) = ''RspListFile''"
| "msg_name (ReqPutFileSession _ _ _) = ''ReqPutFileSession''"
| "msg_name (RspPutFileSession _ _ _) = ''RspPutFileSession''"
| "msg_name (ReqNodePutFileSession _ _) = ''ReqNodePutFileSession''"
| "msg_name (RspNodePutFileSession _ _) = ''RspNodePutFileSession''"
| "msg_name (ReqPutFile _ _ _) = ''ReqPutFile''"
| "msg_name (RspPutFile _ _ _) = ''RspPutFile''"
| "msg_name (ReqGetFileSession _ _) = ''ReqGetFileSession''"
| "msg_name (RspGetFileSession _ _ _) = ''RspGetFileSession''"
| "msg_name (ReqNodeGetFileSession _) = ''ReqNodeGetFileSession''"
| "msg_name (RspNodeGetFileSession _ _ _) = ''RspNodeGetFileSession''"
| "msg_name (ReqGetFile _ _) = ''ReqGetFile''"
| "msg_name (RspGetFile _ _ _ _) = ''RspGetFile''"
| "msg_name (ReqCreatePath _ _) = ''ReqCreatePath''"
| "msg_name (RspCreatePath _) = ''RspCreatePath''"
| "msg_name (ReqRemovePath _ _ _) = ''ReqRemovePath''"
| "msg_name (RspRemovePath _) = ''RspRemovePath''"

section \<open>The command table\<close>

definition default_command_name_map :: "(int, string) omap" where
  "default_command_name_map =
     [(1000, ''RspError''),
      (1001, ''ReqPing''),
      (1002, ''RspPing''),
      (1003, ''ReqRegisterUser''),
      (1004, ''RspRegisterUser''),
      (1005, ''ReqLoginUser''),
      (1006, ''RspLoginUser''),
      (1007, ''ReqRemoveUser''),
      (1008, ''RspRemoveUser''),
      (1009, ''ReqFindUser''),
      (1010, ''RspFindUser''),
      (1011, ''ReqRegisterGroup''),
      (1012, ''RspRegisterGroup''),
      (1013, ''ReqRemoveGroup''),
      (1014, ''RspRemoveGroup''),
      (1015, ''ReqFindGroup''),
      (1016, ''RspFindGroup''),
      (1017, ''ReqJoinGroup''),
      (1018, ''RspJoinGroup''),
      (1019, ''ReqAssignAsManager''),
      (1020, ''RspAssignAsManager''),
      (1021, ''ReqAssignAsMember''),
      (1022, ''RspAssignAsMember''),
      (1023, ''ReqKickOutUser''),
      (1024, ''RspKickOutUser''),
      (1025, ''ReqListFile''),
      (1026, ''RspListFile''),
      (1027, ''ReqPutFileSession''),
      (1028, ''RspPutFileSession''),
      (1029, ''ReqNodePutFileSession''),
      (1030, ''RspNodePutFileSession''),
      (1031, ''ReqPutFile''),
      (1032, ''RspPutFile''),
      (1033, ''ReqGetFileSession''),
      (1034, ''RspGetFileSession''),
      (1035, ''ReqNodeGetFileSession''),
      (1036, ''RspNodeGetFileSession''),
      (1037, ''ReqGetFile''),
      (1038, ''RspGetFile''),
      (1039, ''ReqCreatePath''),
      (1040, ''RspCreatePath''),
      (1041, ''ReqRemovePath''),
      (1042, ''RspRemovePath'')]"

text \<open>The constructor of \<open>CommandTableImpl\<close> inverts the map; \<open>insert\<close> keeps the first entry.\<close>

definition m_cmd_list :: "(string, int) omap" where
  "m_cmd_list = fold (\<lambda>(cmd, name) m. om_insert name cmd m) default_command_name_map []"

definition find_name :: "int \<Rightarrow> string option" where
  "find_name cmd = map_of default_command_name_map cmd"

definition get_name :: "int \<Rightarrow> string res" where
  "get_name cmd = (case find_name cmd of
     None \<Rightarrow> Inl (Thrown (Foundation ERR_PROTOCOL_NAME_NOT_EXIST)) | Some n \<Rightarrow> Inr n)"

definition find_command :: "string \<Rightarrow> int option" where
  "find_command name = map_of m_cmd_list name"

definition get_command :: "string \<Rightarrow> int res" where
  "get_command name = (case find_command name of
     None \<Rightarrow> Inl (Thrown (Foundation ERR_PROTOCOL_COMMAND_NOT_EXIST)) | Some c \<Rightarrow> Inr c)"

definition message_command :: "message \<Rightarrow> int res" where
  "message_command m = get_command (msg_name m)"

text \<open>
  The name under which \<open>Network::send_protocol\<close> sends a message: an \<open>RspError\<close> that answers a
  command goes out as the response message of that command (\<open>msg_name.replace(0, 3, "Rsp")\<close>).
\<close>

definition send_name :: "message \<Rightarrow> int \<Rightarrow> string res" where
  "send_name m trigger_cmd =
     (if msg_name m = ''RspError'' \<and> trigger_cmd \<noteq> 0
      then map_sum id (\<lambda>n. ''Rsp'' @ drop 3 n) (get_name trigger_cmd)
      else Inr (msg_name m))"

definition send_command :: "message \<Rightarrow> int \<Rightarrow> int res" where
  "send_command m trigger_cmd = (case send_name m trigger_cmd of
     Inl e \<Rightarrow> Inl e | Inr n \<Rightarrow> get_command n)"

section \<open>Lookups in both directions\<close>

lemma fold_insert_lookup:
  assumes "distinct (map snd es)" and "om_ok m" and "\<forall>e \<in> set es. map_of m (snd e) = None"
  shows "om_ok (fold (\<lambda>(c, n) m. om_insert n c m) es m) \<and>
    map_of (fold (\<lambda>(c, n) m. om_insert n c m) es m) n =
      (case map_of (map (\<lambda>(c, n). (n, c)) es) n of None \<Rightarrow> map_of m n | Some c \<Rightarrow> Some c)"
  using assms
proof (induction es arbitrary: m)
  case (Cons e es)
  obtain c k where e: "e = (c, k)" by fastforce
  with Cons.prems have k: "map_of m k = None" by auto
  have notin: "map_of (map (\<lambda>(c, n). (n, c)) es) k = None"
    using Cons.prems(1) e by (auto simp: map_of_eq_None_iff image_iff)
  have "om_ok (om_insert k c m)" using Cons.prems(2) by simp
  moreover have "\<forall>e \<in> set es. map_of (om_insert k c m) (snd e) = None"
    using Cons.prems e by (auto simp: map_of_om_insert_fresh [OF Cons.prems(2) k] image_iff)
  ultimately show ?case
    using Cons.IH [of "om_insert k c m"] Cons.prems(1) e notin
    by (auto simp: map_of_om_insert_fresh [OF Cons.prems(2) k] split: option.split)
qed simp

lemma default_map_distinct:
  "distinct (map fst default_command_name_map)" "distinct (map snd default_command_name_map)"
  by (simp_all add: default_command_name_map_def)

lemma find_command_iff: "find_command n = Some c \<longleftrightarrow> (c, n) \<in> set default_command_name_map"
proof -
  have "map_of m_cmd_list n = map_of (map (\<lambda>(c, n). (n, c)) default_command_name_map) n"
    using fold_insert_lookup [OF default_map_distinct(2), of "[]" n]
    by (auto simp: m_cmd_list_def split: option.splits)
  moreover have "map_of (map (\<lambda>(c, n). (n, c)) default_command_name_map) n = Some c \<longleftrightarrow>
      (c, n) \<in> set default_command_name_map"
    using default_map_distinct(2)
    by (subst map_of_eq_Some_iff) (force simp: comp_def case_prod_unfold image_iff)+
  ultimately show ?thesis by (simp add: find_command_def)
qed

lemma find_name_iff: "find_name c = Some n \<longleftrightarrow> (c, n) \<in> set default_command_name_map"
  using default_map_distinct(1) by (simp add: find_name_def)

lemma find_command_lookup: "find_name c = Some n \<Longrightarrow> find_command n = Some c"
  by (simp add: find_command_iff find_name_iff)

section \<open>The codec\<close>

text \<open>
  \<open>'c\<close> is the type of package contents. \<open>to_content\<close> is \<open>SerializeToArray\<close> (\<open>None\<close> where it
  fails), \<open>of_content\<close> parses a content as the message class of the given name, \<open>size_of\<close> is
  \<open>ByteSize\<close>. \<open>codec_ok\<close>: what was serialised parses back to itself as its own class, parsing
  as a class yields an object of that class, and sizes are not negative.
\<close>

record 'c codec =
  to_content :: "message \<Rightarrow> 'c option"
  of_content :: "string \<Rightarrow> 'c \<Rightarrow> message option"
  size_of :: "message \<Rightarrow> int"

definition codec_ok :: "'c codec \<Rightarrow> bool" where
  "codec_ok C \<longleftrightarrow> (\<forall>m c. to_content C m = Some c \<longrightarrow> of_content C (msg_name m) c = Some m) \<and>
     (\<forall>n c m. of_content C n c = Some m \<longrightarrow> msg_name m = n) \<and>
     (\<forall>m. 0 \<le> size_of C m)"

definition message_codec :: "message codec" where
  "message_codec = \<lparr>to_content = Some, of_content = (\<lambda>n m. if msg_name m = n then Some m else None),
                    size_of = (\<lambda>_. 0)\<rparr>"

lemma codec_ok_message: "codec_ok message_codec"
  by (simp add: codec_ok_def message_codec_def)

section \<open>Properties\<close>

text \<open>
  Commands and names. The two tables are inverse to each other, every message class has a
  command, and every request has a response whose command follows its own: that is the
  command under which an error answering the request is sent, while a message other than
  \<open>RspError\<close> goes out under its own.
\<close>

theorem command_table:
  "(\<forall>c n. find_name c = Some n \<longleftrightarrow> find_command n = Some c) \<and>
   (\<exists>c. message_command m = Inr c \<and> 1000 \<le> c \<and> c \<le> 1042 \<and> send_command m 0 = Inr c \<and>
        (msg_name m \<noteq> ''RspError'' \<longrightarrow> send_command m t = Inr c)) \<and>
   (msg_name m = ''RspError'' \<and> take 3 (msg_name r) = ''Req'' \<and> message_command r = Inr t \<longrightarrow>
      send_command m t = Inr (t + 1))"
proof (intro conjI allI)
  show "find_name c = Some n \<longleftrightarrow> find_command n = Some c" for c n
    by (simp add: find_command_iff find_name_iff)
  have cmd: "\<exists>c. find_command (msg_name m) = Some c \<and> 1000 \<le> c \<and> c \<le> 1042"
    by (cases m) (simp_all add: find_command_iff default_command_name_map_def)
  then show "\<exists>c. message_command m = Inr c \<and> 1000 \<le> c \<and> c \<le> 1042 \<and> send_command m 0 = Inr c \<and>
        (msg_name m \<noteq> ''RspError'' \<longrightarrow> send_command m t = Inr c)"
    by (auto simp: message_command_def get_command_def send_command_def send_name_def)
  show "msg_name m = ''RspError'' \<and> take 3 (msg_name r) = ''Req'' \<and> message_command r = Inr t \<longrightarrow>
      send_command m t = Inr (t + 1)"
  proof (intro impI)
    assume *: "msg_name m = ''RspError'' \<and> take 3 (msg_name r) = ''Req'' \<and> message_command r = Inr t"
    then have name: "find_name t = Some (msg_name r)"
      by (auto simp: message_command_def get_command_def find_command_iff find_name_iff split: option.splits)
    then have "(t, msg_name r) \<in> set default_command_name_map" by (simp add: find_name_iff)
    with * have "(t + 1, ''Rsp'' @ drop 3 (msg_name r)) \<in> set default_command_name_map \<and> t \<noteq> 0"
      by (cases r) (auto simp: default_command_name_map_def)
    then have "find_command (''Rsp'' @ drop 3 (msg_name r)) = Some (t + 1)" and "t \<noteq> 0"
      unfolding find_command_iff by blast+
    with * name show "send_command m t = Inr (t + 1)"
      by (simp add: send_command_def send_name_def get_name_def get_command_def)
  qed
qed

theorem command_table_witness:
  "send_command (RspError None) 1027 = Inr 1028"
proof -
  have "message_command (ReqPutFileSession 1 [] 1) = Inr 1027"
    by (simp add: message_command_def get_command_def find_command_iff [THEN iffD2] default_command_name_map_def)
  then show ?thesis
    using command_table [of "RspError None" 1027 "ReqPutFileSession 1 [] 1"] by simp
qed

end
