(* ===== verification/Package.thy ===== *)
theory Package
  imports Registry "HOL-Library.Word"
begin

text \<open>
  \<open>foundation/package.{h,cpp}\<close>: the receive buffer \<open>PackageBuffer\<close> and the registry
  \<open>PackageManager\<close> of the packages that the two threads exchange by id. \<open>std::size_t\<close> is a
  64-bit word with its wrap-around, since the lengths in a header are read from the network.
  \<open>aes_cipher_length\<close> of \<open>crypto/aes.cpp\<close> is here because \<open>register_package\<close> sizes its buffers
  with it.
\<close>

section \<open>Headers\<close>

type_synonym size_t = "64 word"

record package_header =
  h_version :: int
  h_command :: int
  h_content_length :: int
  h_self_package_id :: int
  h_trigger_package_id :: int

definition PACKAGE_VERSION :: int where
  "PACKAGE_VERSION = 2"

definition reset_header :: package_header where
  "reset_header = \<lparr>h_version = PACKAGE_VERSION, h_command = 0, h_content_length = 0,
                   h_self_package_id = 0, h_trigger_package_id = 0\<rparr>"

record trigger_source =
  ts_command :: int
  ts_package_id :: int

definition get_trigger_source :: "package_header \<Rightarrow> trigger_source" where
  "get_trigger_source h = \<lparr>ts_command = h_command h, ts_package_id = h_self_package_id h\<rparr>"

text \<open>\<open>sizeof(PackageHeader)\<close>, packed: a \<open>short\<close> and four \<open>int\<close>s.\<close>

definition HEADER_LEN :: size_t where "HEADER_LEN = 18"
definition STACK_CONTENT_LEN :: size_t where "STACK_CONTENT_LEN = 320"
definition STACK_BUFFER_LEN :: size_t where "STACK_BUFFER_LEN = HEADER_LEN + STACK_CONTENT_LEN"
definition FIRST_HEAP_BUFFER_LEN :: size_t where "FIRST_HEAP_BUFFER_LEN = 512"
definition MAX_BUFFER_LEN :: size_t where "MAX_BUFFER_LEN = 65536"
definition MAX_CONTENT_LEN :: size_t where "MAX_CONTENT_LEN = MAX_BUFFER_LEN - HEADER_LEN"

lemmas package_consts = HEADER_LEN_def STACK_CONTENT_LEN_def STACK_BUFFER_LEN_def
  FIRST_HEAP_BUFFER_LEN_def MAX_BUFFER_LEN_def MAX_CONTENT_LEN_def

section \<open>The receive buffer\<close>

text \<open>
  The loop of \<open>expect_content_length\<close>: it doubles until the content fits. It need not end, so it
  is a partial function, whose \<open>None\<close> is a loop that runs for ever.
\<close>

partial_function (option) grow :: "size_t \<Rightarrow> size_t \<Rightarrow> size_t option" where
  "grow content_length len =
     (if len - HEADER_LEN < content_length then grow content_length (len * 2) else Some len)"

text \<open>
  \<open>expect_content_length\<close> on a buffer of length \<open>m_length\<close>: the outer \<open>None\<close> is a call that
  does not return; otherwise the result and the new length. Copying the header into a buffer
  shorter than a header writes past it.
\<close>

definition expect_content_length :: "size_t \<Rightarrow> size_t \<Rightarrow> (bool res \<times> size_t) option" where
  "expect_content_length content_length m_length =
     (if m_length - HEADER_LEN \<ge> content_length then Some (Inr True, m_length)
      else
        let old_length = (if m_length = STACK_BUFFER_LEN then FIRST_HEAP_BUFFER_LEN else m_length)
        in case grow content_length old_length of
             None \<Rightarrow> None
           | Some new_length \<Rightarrow>
               if new_length > MAX_BUFFER_LEN then Some (Inr False, m_length)
               else if new_length < HEADER_LEN then Some (Inl Undefined, new_length)
               else Some (Inr True, new_length))"

text \<open>The lengths that a buffer can have: the stack buffer, then a doubled 512.\<close>

definition buffer_lengths :: "size_t list" where
  "buffer_lengths = [338, 512, 1024, 2048, 4096, 8192, 16384, 32768, 65536]"

section \<open>How the buffer grows\<close>

lemma grow_stop: "\<not> len - HEADER_LEN < n \<Longrightarrow> grow n len = Some len"
  by (subst grow.simps) simp

lemma grow_step: "len - HEADER_LEN < n \<Longrightarrow> grow n len = grow n (len * 2)"
  by (subst grow.simps) simp

lemma unat_pow2: "k < 64 \<Longrightarrow> unat ((2::size_t) ^ k) = 2 ^ k"
proof -
  assume k: "k < 64"
  then have "(2::nat) ^ k < 2 ^ 64" by (intro power_strict_increasing) auto
  moreover have "(2::size_t) ^ k = word_of_nat (2 ^ k)" by simp
  ultimately show ?thesis by (simp add: k unsigned_of_nat take_bit_nat_eq_self del: of_nat_power)
qed

lemma unat_pow2_header:
  assumes "9 \<le> k" and "k < 64"
  shows "unat ((2::size_t) ^ k - HEADER_LEN) = 2 ^ k - 18"
proof -
  have "(512::nat) \<le> 2 ^ k" using power_increasing [OF assms(1), of "2::nat"] by simp
  then have "HEADER_LEN \<le> (2::size_t) ^ k"
    by (simp add: word_le_nat_alt unat_pow2 assms HEADER_LEN_def)
  then show ?thesis by (simp add: unat_sub unat_pow2 assms HEADER_LEN_def)
qed

text \<open>From a power of two, the loop ends at the first power that holds header and content.\<close>

lemma grow_pow2:
  assumes "9 \<le> k" and "k \<le> 32" and "unat n + 18 \<le> 2 ^ 32"
  shows "\<exists>j. k \<le> j \<and> j \<le> 32 \<and> grow n (2 ^ k) = Some (2 ^ j) \<and> unat n + 18 \<le> 2 ^ j \<and>
    (j = k \<or> 2 ^ (j - 1) < unat n + 18)"
  using assms(1,2)
proof (induction "32 - k" arbitrary: k)
  case 0
  then have k: "k = 32" by simp
  have "\<not> (2::size_t) ^ 32 - HEADER_LEN < n"
    using unat_pow2_header [of 32] assms(3) by (simp add: word_less_nat_alt)
  then have "grow n (2 ^ k) = Some (2 ^ 32)" unfolding k by (rule grow_stop)
  with assms(3) k show ?case by (intro exI [of _ 32]) simp
next
  case (Suc m)
  have lt: "k < 64" using Suc by simp
  have ge: "(512::nat) \<le> 2 ^ k" using power_increasing [OF Suc.prems(1), of "2::nat"] by simp
  show ?case
  proof (cases "(2::size_t) ^ k - HEADER_LEN < n")
    case True
    then have more: "2 ^ k < unat n + 18"
      using ge by (simp add: word_less_nat_alt unat_pow2_header [OF Suc.prems(1) lt])
    have "grow n (2 ^ k) = grow n (2 ^ Suc k)" using grow_step [OF True] by (simp add: mult.commute)
    moreover have "\<exists>j. Suc k \<le> j \<and> j \<le> 32 \<and> grow n (2 ^ Suc k) = Some (2 ^ j) \<and>
      unat n + 18 \<le> 2 ^ j \<and> (j = Suc k \<or> 2 ^ (j - 1) < unat n + 18)"
      by (rule Suc.hyps(1)) (use Suc.hyps(2) Suc.prems in auto)
    then obtain j where "Suc k \<le> j" "j \<le> 32" "grow n (2 ^ Suc k) = Some (2 ^ j)"
      "unat n + 18 \<le> 2 ^ j" "j = Suc k \<or> 2 ^ (j - 1) < unat n + 18" by blast
    ultimately show ?thesis using more by (intro exI [of _ j]) auto
  next
    case False
    then have "unat n + 18 \<le> 2 ^ k"
      using ge by (simp add: word_less_nat_alt unat_pow2_header [OF Suc.prems(1) lt] not_less)
    with False Suc.prems show ?thesis by (intro exI [of _ k]) (simp add: grow_stop)
  qed
qed

text \<open>With a content length above \<open>2 ^ 63\<close>, the length doubles until it wraps to 0.\<close>

lemma grow_wraps:
  assumes "9 \<le> k" and "k < 64" and "2 ^ 63 < unat n"
  shows "grow n (2 ^ k) = grow n 0"
  using assms(1,2)
proof (induction "63 - k" arbitrary: k)
  case 0
  then have k: "k = 63" by simp
  have "(2::size_t) ^ 63 - HEADER_LEN < n"
    using unat_pow2_header [of 63] assms(3) by (simp add: word_less_nat_alt)
  from grow_step [OF this] have "grow n (2 ^ 63) = grow n (2 ^ 63 * 2)" .
  moreover have "(2::size_t) ^ 63 * 2 = 0" by simp
  ultimately show ?case by (simp only: k)
next
  case (Suc m)
  have "(2::nat) ^ k \<le> 2 ^ 63" using Suc.prems by (intro power_increasing) auto
  then have "(2::size_t) ^ k - HEADER_LEN < n"
    using unat_pow2_header [OF Suc.prems] assms(3) by (simp add: word_less_nat_alt)
  then have "grow n (2 ^ k) = grow n (2 ^ Suc k)" using grow_step by (simp add: mult.commute)
  with Suc.hyps(1) [of "Suc k"] Suc.hyps(2) Suc.prems show ?case by simp
qed

lemma grow_zero_loops:
  assumes "0 - HEADER_LEN < n"
  shows "grow n 0 = None"
proof -
  have "grow n 0 \<noteq> Some y" for y
  proof
    assume "grow n 0 = Some y"
    have "0 = (0::size_t) \<longrightarrow> \<not> - HEADER_LEN < n"
    proof (rule grow.raw_induct [of "\<lambda>n l y. l = 0 \<longrightarrow> \<not> - HEADER_LEN < n" n 0 y])
      show "grow n 0 = Some y" by fact
    next
      fix g :: "size_t \<Rightarrow> size_t \<Rightarrow> size_t option" and m l z
      assume IH: "\<And>m l z. g m l = Some z \<Longrightarrow> l = 0 \<longrightarrow> \<not> - HEADER_LEN < m"
        and "(if l - HEADER_LEN < m then g m (l * 2) else Some l) = Some z"
      then show "l = 0 \<longrightarrow> \<not> - HEADER_LEN < m"
        using IH [of m 0 z] by (auto split: if_splits)
    qed
    with assms show False by simp
  qed
  then show ?thesis by (cases "grow n 0") auto
qed

lemma grow_zero_stops: "\<not> 0 - HEADER_LEN < n \<Longrightarrow> grow n 0 = Some 0"
  by (rule grow_stop)

text \<open>The start of the loop is a power of two for every length that a buffer can have.\<close>

lemma grow_start:
  assumes "len \<in> set buffer_lengths"
  obtains k where "9 \<le> k" and "k \<le> 16"
    and "(if len = STACK_BUFFER_LEN then FIRST_HEAP_BUFFER_LEN else len) = 2 ^ k"
    and "len = 338 \<or> len = 2 ^ k" and "unat len \<le> 2 ^ k"
proof -
  from assms consider "len = 338 \<or> len = 512" | "len = 1024" | "len = 2048" | "len = 4096" | "len = 8192"
    | "len = 16384" | "len = 32768" | "len = 65536" by (auto simp: buffer_lengths_def)
  then show ?thesis
    by cases (use that [of 9] that [of 10] that [of 11] that [of 12] that [of 13] that [of 14]
        that [of 15] that [of 16] in \<open>auto simp: package_consts\<close>)
qed

lemma pow2_in_buffer_lengths: "9 \<le> k \<Longrightarrow> k \<le> 16 \<Longrightarrow> (2::size_t) ^ k \<in> set buffer_lengths"
proof -
  assume "9 \<le> k" "k \<le> 16"
  then have "k \<in> {9, 10, 11, 12, 13, 14, 15, 16}" by auto
  then show ?thesis by (auto simp: buffer_lengths_def)
qed

lemma unat_word_of_int:
  "0 \<le> c \<Longrightarrow> c < 2 ^ 64 \<Longrightarrow> unat (word_of_int c :: size_t) = nat c"
  "- (2 ^ 64) \<le> c \<Longrightarrow> c < 0 \<Longrightarrow> unat (word_of_int c :: size_t) = nat (2 ^ 64 + c)"
proof -
  show "unat (word_of_int c :: size_t) = nat c" if "0 \<le> c" "c < 2 ^ 64"
    using that by (simp add: unsigned_of_int take_bit_int_eq_self)
  show "unat (word_of_int c :: size_t) = nat (2 ^ 64 + c)" if "- (2 ^ 64) \<le> c" "c < 0"
  proof -
    have "c mod 2 ^ 64 = (2 ^ 64 + c) mod 2 ^ 64" by simp
    also have "\<dots> = 2 ^ 64 + c" using that by (intro mod_pos_pos_trivial) auto
    finally show ?thesis by (simp add: unsigned_of_int take_bit_eq_mod)
  qed
qed

text \<open>
  C33. Making room for a content. The length of a content is the \<open>int\<close> of the header turned into
  a \<open>size_t\<close>. If it is between 0 and \<open>MAX_CONTENT_LEN\<close> the call returns true with a buffer that
  holds header and content and is at most 64 KiB long; a larger one is refused and leaves the
  buffer alone. A negative length is not refused: from -1 to -17 the loop never ends, and
  below that the length wraps to 0 and the header is copied into an empty allocation.
\<close>

theorem expect_content_length_spec:
  assumes "len \<in> set buffer_lengths" and "- (2 ^ 31) \<le> c" and "c < 2 ^ 31"
  shows "case expect_content_length (word_of_int c) len of
      None \<Rightarrow> - 17 \<le> c \<and> c < 0
    | Some (Inl e, len') \<Rightarrow> e = Undefined \<and> len' = 0 \<and> c < - 17
    | Some (Inr True, len') \<Rightarrow> 0 \<le> c \<and> c \<le> 65518 \<and> len' \<in> set buffer_lengths \<and>
        unat len \<le> unat len' \<and> unat HEADER_LEN + nat c \<le> unat len'
    | Some (Inr False, len') \<Rightarrow> 65518 < c \<and> len' = len"
proof -
  let ?n = "word_of_int c :: size_t"
  obtain k where k: "9 \<le> k" "k \<le> 16"
    and start: "(if len = STACK_BUFFER_LEN then FIRST_HEAP_BUFFER_LEN else len) = 2 ^ k"
    and len: "len = 338 \<or> len = 2 ^ k" "unat len \<le> 2 ^ k"
    by (rule grow_start [OF assms(1)])
  have len': "unat (len - HEADER_LEN) = unat len - 18" "18 \<le> unat len"
  proof -
    have "(512::nat) \<le> 2 ^ k" using power_increasing [OF k(1), of "2::nat"] by simp
    then show "18 \<le> unat len" using len(1) k by (auto simp: unat_pow2)
    then have "HEADER_LEN \<le> len" by (simp add: word_le_nat_alt HEADER_LEN_def)
    then show "unat (len - HEADER_LEN) = unat len - 18" by (simp add: unat_sub HEADER_LEN_def)
  qed
  have le: "(2::nat) ^ k \<le> 2 ^ 16" using k by (intro power_increasing) auto
  show ?thesis
  proof (cases "0 \<le> c")
    case True
    have n: "unat ?n = nat c" using True assms(3) by (intro unat_word_of_int) auto
    show ?thesis
    proof (cases "len - HEADER_LEN \<ge> ?n")
      case fits: True
      then have "nat c + 18 \<le> unat len" using len' by (simp add: word_le_nat_alt n)
      moreover have "expect_content_length ?n len = Some (Inr True, len)" using fits by (simp add: expect_content_length_def)
      ultimately show ?thesis using True assms(1) len(2) le by (simp add: HEADER_LEN_def)
    next
      case False
      have "unat ?n + 18 \<le> 2 ^ 32" using assms(3) True by (simp add: n)
      from grow_pow2 [OF k(1) _ this] k obtain j where j: "k \<le> j" "j \<le> 32" "grow ?n (2 ^ k) = Some (2 ^ j)"
        "unat ?n + 18 \<le> 2 ^ j" "j = k \<or> 2 ^ (j - 1) < unat ?n + 18" by auto
      have big: "(2::size_t) ^ j > MAX_BUFFER_LEN \<longleftrightarrow> 16 < j"
        using j(2) power_strict_increasing_iff [of "2::nat" 16 j]
        by (simp add: word_less_nat_alt unat_pow2 package_consts)
      have small: "\<not> (2::size_t) ^ j < HEADER_LEN"
        using j k power_increasing [of 9 j "2::nat"] by (simp add: word_less_nat_alt unat_pow2 HEADER_LEN_def)
      have res: "expect_content_length ?n len = Some (if 16 < j then (Inr False, len) else (Inr True, 2 ^ j))"
        using False small by (simp add: expect_content_length_def start j(3) big)
      show ?thesis
      proof (cases "16 < j")
        case True
        then have "(2::nat) ^ 16 \<le> 2 ^ (j - 1)" by (intro power_increasing) auto
        with True j(5) k n have "65518 < c" by auto
        with True res show ?thesis by simp
      next
        case F: False
        then have "(2::nat) ^ j \<le> 2 ^ 16" by (intro power_increasing) auto
        with j(4) n True have "c \<le> 65518" by simp
        moreover have "(2::nat) ^ k \<le> 2 ^ j" using j(1) by (intro power_increasing) auto
        moreover have "unat ((2::size_t) ^ j) = 2 ^ j" using j(2) by (intro unat_pow2) simp
        moreover have "(2::size_t) ^ j \<in> set buffer_lengths" using j(1) k F by (intro pow2_in_buffer_lengths) auto
        moreover have "unat len \<le> 2 ^ j" using len(2) calculation(2) by (rule le_trans)
        ultimately show ?thesis using F res True j(4) n by (simp add: HEADER_LEN_def)
      qed
    qed
  next
    case neg: False
    then have n: "unat ?n = nat (2 ^ 64 + c)" using assms(2) by (intro unat_word_of_int) auto
    then have big: "2 ^ 63 < unat ?n" using assms(2) neg by simp
    have "\<not> len - HEADER_LEN \<ge> ?n"
      using len' len(2) le big by (simp add: word_le_nat_alt)
    then have exp: "expect_content_length ?n len = (case grow ?n 0 of None \<Rightarrow> None
        | Some l \<Rightarrow> if l > MAX_BUFFER_LEN then Some (Inr False, len)
                    else if l < HEADER_LEN then Some (Inl Undefined, l) else Some (Inr True, l))"
      using grow_wraps [OF k(1) _ big] k(2) by (simp add: expect_content_length_def start)
    have loop: "0 - HEADER_LEN < ?n \<longleftrightarrow> - 17 \<le> c"
    proof -
      have "unat (0 - HEADER_LEN) = 2 ^ 64 - 18" by (simp add: HEADER_LEN_def)
      then show ?thesis using neg assms(2) by (simp add: word_less_nat_alt n) linarith
    qed
    show ?thesis
    proof (cases "- 17 \<le> c")
      case True
      with loop neg show ?thesis by (simp add: exp grow_zero_loops)
    next
      case False
      with loop show ?thesis by (simp add: exp grow_zero_stops package_consts)
    qed
  qed
qed

theorem expect_content_length_spec_witness:
  "expect_content_length (word_of_int (- 1)) 338 = None \<and>
   (\<exists>l. expect_content_length (word_of_int (- 100)) 338 = Some (Inl Undefined, l))"
  using expect_content_length_spec [of 338 "- 1"] expect_content_length_spec [of 338 "- 100"]
  by (auto simp: buffer_lengths_def split: option.splits prod.splits sum.splits bool.splits)

section \<open>Cipher lengths\<close>

definition AES_BLOCK_SIZE :: size_t where "AES_BLOCK_SIZE = 16"

definition aes_cipher_length :: "size_t \<Rightarrow> size_t" where
  "aes_cipher_length plain_length =
     (let over = plain_length mod AES_BLOCK_SIZE;
          pad_length = (if over = 0 then 0 else AES_BLOCK_SIZE - over)
      in plain_length + pad_length)"

text \<open>On lengths that are not about to wrap, it is the next multiple of 16.\<close>

lemma next_block:
  fixes m :: nat
  assumes "m mod 16 \<noteq> 0"
  shows "m + (16 - m mod 16) = (m + 15) div 16 * 16"
proof -
  obtain q r where m: "m = 16 * q + r" and r: "r < 16"
    by (metis mult_div_mod_eq mod_less_divisor zero_less_numeral)
  then have "m mod 16 = r" by simp
  moreover have "(m + 15) div 16 = q + 1"
    by (rule div_nat_eqI) (use m r assms calculation in simp_all)
  ultimately show ?thesis using m r by simp
qed

lemma same_block:
  fixes m :: nat
  assumes "m mod 16 = 0"
  shows "m = (m + 15) div 16 * 16"
proof -
  obtain q where m: "m = 16 * q" using assms by (metis mod_0_imp_dvd dvdE)
  have "(m + 15) div 16 = q"
    by (rule div_nat_eqI) (use m in simp_all)
  then show ?thesis using m by simp
qed

lemma aes_cipher_length_nat:
  assumes "unat n < 2 ^ 64 - 16"
  shows "unat (aes_cipher_length n) = (unat n + 15) div 16 * 16"
proof -
  let ?over = "n mod AES_BLOCK_SIZE"
  have over: "unat ?over = unat n mod 16"
    by (simp add: AES_BLOCK_SIZE_def unat_mod)
  show ?thesis
  proof (cases "?over = 0")
    case True
    then have "unat ?over = 0" by simp
    then have "unat n mod 16 = 0" by (simp only: over)
    from same_block [OF this] True show ?thesis by (simp add: aes_cipher_length_def)
  next
    case False
    then have "unat ?over \<noteq> 0" by (simp add: unat_eq_zero)
    then have pos: "unat n mod 16 \<noteq> 0" by (metis over)
    have sixteen: "unat AES_BLOCK_SIZE = 16" by (simp add: AES_BLOCK_SIZE_def)
    have "?over \<le> AES_BLOCK_SIZE"
      by (simp only: word_le_nat_alt over sixteen mod_le_divisor zero_less_numeral)
    then have pad: "unat (AES_BLOCK_SIZE - ?over) = 16 - unat n mod 16"
      by (simp only: unat_sub over sixteen)
    have "unat n + unat (AES_BLOCK_SIZE - ?over) < 2 ^ 64"
      using assms by (simp only: pad)
    then have "unat (n + (AES_BLOCK_SIZE - ?over)) = unat n + (16 - unat n mod 16)"
      by (simp add: unat_word_ariths pad)
    with next_block [OF pos] False show ?thesis by (simp add: aes_cipher_length_def)
  qed
qed

section \<open>The registry of packages\<close>

text \<open>
  An entry owns \<open>length\<close> bytes; the content is \<open>None\<close> until something is written there. The
  length calculator is either none or \<open>aes_cipher_length\<close>, so it is a flag.
\<close>

record 'c package =
  p_id :: int
  p_length :: size_t
  p_header :: package_header
  p_content :: "'c option"
  p_cipher_length :: bool

record 'c package_manager =
  m_package_list :: "(int, 'c package) omap"
  pm_next_id :: int

definition empty_package_manager :: "'c package_manager" where
  "empty_package_manager = \<lparr>m_package_list = [], pm_next_id = 1\<rparr>"

text \<open>
  \<open>alloc_ok\<close> says which sizes \<open>new char[len]\<close> can serve; it throws \<open>std::bad_alloc\<close> for the
  others. Resetting the header writes 18 bytes into the new buffer.
\<close>

definition register_package ::
  "(size_t \<Rightarrow> bool) \<Rightarrow> int \<Rightarrow> ('c package_manager, 'c package) exec" where
  "register_package alloc_ok content_len = (\<lambda>pm.
     let cipher_content_len = aes_cipher_length (word_of_int content_len);
         len = HEADER_LEN + cipher_content_len
     in if \<not> alloc_ok len then (Inl Std_exception, pm)
        else
          let entry = \<lparr>p_id = pm_next_id pm, p_length = len, p_header = reset_header,
                       p_content = None, p_cipher_length = False\<rparr>;
              pm1 = pm\<lparr>pm_next_id := pm_next_id pm + 1\<rparr>
          in if map_of (m_package_list pm1) (p_id entry) \<noteq> None
             then (Inl (Thrown (Foundation ERR_NETWORK_PACKAGE_ALREADY_EXIST)), pm1)
             else
               let pm2 = pm1\<lparr>m_package_list := om_insert (p_id entry) entry (m_package_list pm1)\<rparr>
               in if len < HEADER_LEN then (Inl Undefined, pm2) else (Inr entry, pm2))"

definition remove_package :: "int \<Rightarrow> 'c package_manager \<Rightarrow> 'c package_manager" where
  "remove_package package_id pm = pm\<lparr>m_package_list := om_erase package_id (m_package_list pm)\<rparr>"

definition find_package :: "'c package_manager \<Rightarrow> int \<Rightarrow> 'c package option" where
  "find_package pm package_id = map_of (m_package_list pm) package_id"

definition get_package :: "'c package_manager \<Rightarrow> int \<Rightarrow> 'c package res" where
  "get_package pm package_id = (case find_package pm package_id of
     None \<Rightarrow> Inl (Thrown (Foundation ERR_NETWORK_PACKAGE_NOT_EXIST)) | Some p \<Rightarrow> Inr p)"

definition package_count :: "'c package_manager \<Rightarrow> nat" where
  "package_count pm = length (m_package_list pm)"

definition valid_length :: "'c package \<Rightarrow> size_t" where
  "valid_length p =
     (let content_len = word_of_int (h_content_length (p_header p)) in
      if p_cipher_length p then HEADER_LEN + aes_cipher_length content_len else HEADER_LEN + content_len)"

definition update_package :: "int \<Rightarrow> ('c package \<Rightarrow> 'c package) \<Rightarrow> 'c package_manager \<Rightarrow> 'c package_manager" where
  "update_package package_id f pm = pm\<lparr>m_package_list := om_update package_id f (m_package_list pm)\<rparr>"

definition pm_inv :: "'c package_manager \<Rightarrow> bool" where
  "pm_inv pm \<longleftrightarrow> ids_below (m_package_list pm) (pm_next_id pm) \<and> 0 < pm_next_id pm \<and>
     (\<forall>e \<in> set (m_package_list pm). p_id (snd e) = fst e)"

lemma pm_inv_empty: "pm_inv empty_package_manager"
  by (simp add: pm_inv_def empty_package_manager_def)

lemma pm_inv_remove: "pm_inv pm \<Longrightarrow> pm_inv (remove_package k pm)"
  by (auto simp: pm_inv_def remove_package_def set_om_erase ids_below_erase)

lemma pm_next_id_remove [simp]: "pm_next_id (remove_package k pm) = pm_next_id pm"
  by (simp add: remove_package_def)

lemma pm_inv_update: "pm_inv pm \<Longrightarrow> (\<And>p. p_id (f p) = p_id p) \<Longrightarrow> pm_inv (update_package k f pm)"
  by (auto simp: pm_inv_def update_package_def set_om_update ids_below_update)

lemma find_package_remove: "find_package (remove_package k pm) j = (if j = k then None else find_package pm j)"
  by (simp add: find_package_def remove_package_def)

lemma find_package_update:
  "find_package (update_package k f pm) j = (if j = k then map_option f (find_package pm k) else find_package pm j)"
  by (simp add: find_package_def update_package_def map_of_om_update)

definition new_package :: "int \<Rightarrow> int \<Rightarrow> 'c package" where
  "new_package content_len k =
     \<lparr>p_id = k, p_length = HEADER_LEN + aes_cipher_length (word_of_int content_len),
      p_header = reset_header, p_content = None, p_cipher_length = False\<rparr>"

definition enter_package :: "int \<Rightarrow> 'c package_manager \<Rightarrow> 'c package_manager" where
  "enter_package content_len pm =
     pm\<lparr>pm_next_id := pm_next_id pm + 1,
        m_package_list := om_insert (pm_next_id pm) (new_package content_len (pm_next_id pm)) (m_package_list pm)\<rparr>"

lemma register_package_cases:
  assumes "pm_inv pm" and "register_package alloc_ok n pm = (r, pm')"
  obtains (no_memory) "\<not> alloc_ok (HEADER_LEN + aes_cipher_length (word_of_int n))"
      and "r = Inl Std_exception" and "pm' = pm"
    | (short) "HEADER_LEN + aes_cipher_length (word_of_int n) < HEADER_LEN" and "r = Inl Undefined"
      and "pm' = enter_package n pm"
    | (ok) "\<not> HEADER_LEN + aes_cipher_length (word_of_int n) < HEADER_LEN"
      and "alloc_ok (HEADER_LEN + aes_cipher_length (word_of_int n))"
      and "r = Inr (new_package n (pm_next_id pm))" and "pm' = enter_package n pm"
proof -
  have "map_of (m_package_list pm) (pm_next_id pm) = None"
    using assms(1) by (simp add: pm_inv_def ids_below_fresh)
  with assms(2) that show ?thesis
    by (auto simp: register_package_def Let_def enter_package_def new_package_def split: if_splits)
qed

lemma enter_package_inv:
  assumes "pm_inv pm"
  shows "pm_inv (enter_package n pm)"
    and "find_package (enter_package n pm) k =
      (if k = pm_next_id pm then Some (new_package n (pm_next_id pm)) else find_package pm k)"
    and "pm_next_id (enter_package n pm) = pm_next_id pm + 1"
proof -
  have *: "om_ok (m_package_list pm)" "map_of (m_package_list pm) (pm_next_id pm) = None"
    using assms by (auto simp: pm_inv_def ids_below_fresh)
  show "pm_inv (enter_package n pm)"
    using assms by (auto simp: pm_inv_def enter_package_def set_om_insert [OF *] ids_below_insert new_package_def)
  show "find_package (enter_package n pm) k =
      (if k = pm_next_id pm then Some (new_package n (pm_next_id pm)) else find_package pm k)"
    by (simp add: find_package_def enter_package_def map_of_om_insert_fresh [OF *])
qed (simp add: enter_package_def)

lemma register_package_inv:
  assumes "pm_inv pm" and "register_package a n pm = (r, pm')"
  shows "pm_inv pm'"
  using assms by (cases rule: register_package_cases) (simp_all add: enter_package_inv assms(1))

definition has_package :: "'c package_manager \<Rightarrow> int \<Rightarrow> bool" where
  "has_package pm k \<longleftrightarrow> find_package pm k \<noteq> None"

definition register_package_id :: "(size_t \<Rightarrow> bool) \<Rightarrow> int \<Rightarrow> ('c package_manager, int) exec" where
  "register_package_id alloc_ok n = bindE (register_package alloc_ok n) (\<lambda>p. ret (p_id p))"

lemma register_package_id_cases:
  assumes "pm_inv pm" and "register_package_id alloc_ok n pm = (r, pm')"
  obtains (fails) e where "r = Inl e" and "pm' = pm"
    | (enters) "pm' = enter_package n pm" and "r = Inr (pm_next_id pm) \<or> r = Inl Undefined"
proof -
  obtain q pm1 where q: "register_package alloc_ok n pm = (q, pm1)" by fastforce
  from assms(1) q show ?thesis
    by (cases rule: register_package_cases)
      (use assms(2) q that in \<open>auto simp: register_package_id_def bindE_def new_package_def\<close>)
qed

interpretation package_registry: registry has_package pm_next_id pm_inv "register_package_id alloc_ok" remove_package
  for alloc_ok
proof unfold_locales
  fix pm :: "'c package_manager" and k assume "pm_inv pm" and "has_package pm k"
  then show "k < pm_next_id pm" by (auto simp: pm_inv_def has_package_def find_package_def intro: ids_below_lookup)
next
  fix pm pm' :: "'c package_manager" and n r assume inv: "pm_inv pm" and reg: "register_package_id alloc_ok n pm = (r, pm')"
  note enter = enter_package_inv [OF inv, of n]
  from inv reg show "pm_inv pm'" and "pm_next_id pm \<le> pm_next_id pm'"
    by (cases rule: register_package_id_cases; simp add: inv enter)+
  fix j
  from inv reg show "has_package pm' j \<Longrightarrow> has_package pm j \<or> pm_next_id pm \<le> j"
    and "has_package pm j \<Longrightarrow> has_package pm' j"
    by (cases rule: register_package_id_cases; auto simp: has_package_def enter split: if_splits)+
next
  fix pm pm' :: "'c package_manager" and n k assume inv: "pm_inv pm" and reg: "register_package_id alloc_ok n pm = (Inr k, pm')"
  from inv reg show "k = pm_next_id pm \<and> pm_next_id pm' = k + 1 \<and> has_package pm' k"
    by (cases rule: register_package_id_cases) (auto simp: has_package_def enter_package_inv [OF inv])
next
  fix pm :: "'c package_manager" and k j assume inv: "pm_inv pm"
  then show "pm_inv (remove_package k pm)" by (rule pm_inv_remove)
  show "pm_next_id (remove_package k pm) = pm_next_id pm" by (simp add: remove_package_def)
  show "has_package (remove_package k pm) j \<Longrightarrow> has_package pm j \<and> j \<noteq> k"
    by (auto simp: has_package_def find_package_remove split: if_splits)
qed

text \<open>
  The buffer of a registered package. For a content length from 0 to \<open>MAX_CONTENT_LEN\<close> the
  buffer holds the header and the content padded to the cipher's blocks, so that encryption
  in place stays inside it. For a negative length from -31 to -16 the padded length wraps and
  the buffer has two bytes, into which the header is written; from -15 to -1 it holds a
  header only, while the content's view of it claims almost \<open>2 ^ 64\<close> bytes.
\<close>

theorem register_package_buffer:
  assumes inv: "pm_inv pm" and reg: "register_package alloc_ok n pm = (r, pm')"
    and alloc: "\<And>l. unat l \<le> 2 ^ 17 \<Longrightarrow> alloc_ok l"
  shows "(0 \<le> n \<and> n \<le> 65518 \<longrightarrow> (\<exists>p. r = Inr p \<and> p_id p = pm_next_id pm \<and> find_package pm' (p_id p) = Some p \<and>
        unat (p_length p) = 18 + (nat n + 15) div 16 * 16)) \<and>
    (- 31 \<le> n \<and> n \<le> - 16 \<longrightarrow> r = Inl Undefined) \<and>
    (- 15 \<le> n \<and> n \<le> - 1 \<longrightarrow> (\<exists>p. r = Inr p \<and> p_length p = HEADER_LEN))"
proof -
  let ?l = "HEADER_LEN + aes_cipher_length (word_of_int n)"
  note enter = enter_package_inv [OF inv, of n]
  have small: "\<exists>p. r = Inr p \<and> p_id p = pm_next_id pm \<and> find_package pm' (p_id p) = Some p \<and> p_length p = ?l"
    if "unat ?l \<le> 2 ^ 17" "18 \<le> unat ?l"
    using inv reg
    by (cases rule: register_package_cases)
      (use alloc [of ?l] that enter in \<open>auto simp: new_package_def word_less_nat_alt HEADER_LEN_def\<close>)
  show ?thesis
  proof (intro conjI impI)
    assume n: "0 \<le> n \<and> n \<le> 65518"
    then have c: "unat (word_of_int n :: size_t) = nat n" by (intro unat_word_of_int) auto
    have a: "unat (aes_cipher_length (word_of_int n)) = (nat n + 15) div 16 * 16"
      using n by (subst aes_cipher_length_nat) (auto simp: c)
    have "unat ?l = 18 + (nat n + 15) div 16 * 16"
      using n a by (subst unat_add_lem [THEN iffD1]) (auto simp: HEADER_LEN_def)
    moreover have "(nat n + 15) div 16 * 16 \<le> nat n + 15" by simp
    moreover have "nat n \<le> 65518" using n nat_le_iff [of n 65518] by simp
    ultimately have l: "unat ?l \<le> 2 ^ 17" "18 \<le> unat ?l" "unat ?l = 18 + (nat n + 15) div 16 * 16" by simp_all
    from small [OF l(1,2)] l(3)
    show "\<exists>p. r = Inr p \<and> p_id p = pm_next_id pm \<and> find_package pm' (p_id p) = Some p \<and>
        unat (p_length p) = 18 + (nat n + 15) div 16 * 16" by metis
  next
    assume n: "- 31 \<le> n \<and> n \<le> - 16"
    then have "n \<in> set [- 31 .. - 16]" by (simp only: set_upto atLeastAtMost_iff)
    then have "?l = 2" by (auto simp: upto.simps aes_cipher_length_def AES_BLOCK_SIZE_def HEADER_LEN_def)
    have two: "?l < HEADER_LEN" "alloc_ok ?l"
      using alloc [of 2] by (simp_all only: \<open>?l = 2\<close>) (simp_all add: HEADER_LEN_def)
    from inv reg show "r = Inl Undefined"
      by (cases rule: register_package_cases) (simp_all only: two not_True_eq_False not_False_eq_True, (use two in auto)?)
  next
    assume n: "- 15 \<le> n \<and> n \<le> - 1"
    then have "n \<in> set [- 15 .. - 1]" by (simp only: set_upto atLeastAtMost_iff)
    then have "?l = HEADER_LEN" by (auto simp: upto.simps aes_cipher_length_def AES_BLOCK_SIZE_def HEADER_LEN_def)
    with small show "\<exists>p. r = Inr p \<and> p_length p = HEADER_LEN" by (auto simp: HEADER_LEN_def)
  qed
qed

theorem register_package_buffer_witness:
  "fst (register_package (\<lambda>_. True) (- 20) (empty_package_manager :: nat package_manager)) = Inl Undefined \<and>
   (\<exists>p. fst (register_package (\<lambda>_. True) 100 (empty_package_manager :: nat package_manager)) = Inr p \<and>
        unat (p_length p) = 130)"
  using register_package_buffer [OF pm_inv_empty surjective_pairing, of "\<lambda>_. True" "- 20"]
    register_package_buffer [OF pm_inv_empty surjective_pairing, of "\<lambda>_. True" 100] by auto

end
