(* ===== verification/Precise_Time.thy ===== *)
theory Precise_Time
  imports Main
begin

text \<open>
  \<open>lights::PreciseTime\<close> of \<open>lights/precise_time.h\<close>, the time points and intervals of the
  timers and of the client's delay measurements: seconds and nanoseconds. The fields are
  \<open>int64_t\<close> in the code; they are unbounded here, since no time of day or interval that the
  programs build comes near \<open>2 ^ 63\<close>. \<open>pt_ns\<close> is what a value stands for, and \<open>pt_norm\<close> the
  values whose nanoseconds are less than a second: the ones \<open>current_precise_time\<close> returns.
\<close>

record precise_time =
  seconds :: int
  nanoseconds :: int

definition NANOSECONDS_OF_SECOND :: int where
  "NANOSECONDS_OF_SECOND = 1000000000"

definition pt_seconds :: "int \<Rightarrow> precise_time" where
  "pt_seconds s = \<lparr>seconds = s, nanoseconds = 0\<rparr>"

definition pt_add :: "precise_time \<Rightarrow> precise_time \<Rightarrow> precise_time" where
  "pt_add left right =
     (let result = \<lparr>seconds = seconds left + seconds right, nanoseconds = nanoseconds left + nanoseconds right\<rparr>
      in if nanoseconds result \<ge> NANOSECONDS_OF_SECOND
         then \<lparr>seconds = seconds result + 1, nanoseconds = nanoseconds result - NANOSECONDS_OF_SECOND\<rparr>
         else result)"

definition pt_sub :: "precise_time \<Rightarrow> precise_time \<Rightarrow> precise_time" where
  "pt_sub left right =
     (let result = \<lparr>seconds = seconds left - seconds right, nanoseconds = nanoseconds left - nanoseconds right\<rparr>
      in if nanoseconds left < nanoseconds right
         then \<lparr>seconds = seconds result - 1, nanoseconds = \<bar>nanoseconds result\<bar>\<rparr>
         else result)"

text \<open>The factor is an \<open>int\<close>; division and remainder truncate, which differs from \<open>div\<close> and
  \<open>mod\<close> only for negative dividends, and the branch is taken for positive ones.\<close>

definition pt_mult :: "precise_time \<Rightarrow> int \<Rightarrow> precise_time" where
  "pt_mult time n =
     (let result = \<lparr>seconds = seconds time * n, nanoseconds = nanoseconds time * n\<rparr>
      in if nanoseconds result \<ge> NANOSECONDS_OF_SECOND
         then \<lparr>seconds = seconds result + nanoseconds result div NANOSECONDS_OF_SECOND,
               nanoseconds = nanoseconds result mod NANOSECONDS_OF_SECOND\<rparr>
         else result)"

definition pt_less :: "precise_time \<Rightarrow> precise_time \<Rightarrow> bool" where
  "pt_less left right =
     (if seconds left \<noteq> seconds right then seconds left < seconds right
      else nanoseconds left < nanoseconds right)"

definition pt_greater :: "precise_time \<Rightarrow> precise_time \<Rightarrow> bool" where
  "pt_greater left right =
     (if seconds left \<noteq> seconds right then seconds left > seconds right
      else nanoseconds left > nanoseconds right)"

section \<open>What the values stand for\<close>

definition pt_ns :: "precise_time \<Rightarrow> int" where
  "pt_ns t = seconds t * NANOSECONDS_OF_SECOND + nanoseconds t"

definition pt_norm :: "precise_time \<Rightarrow> bool" where
  "pt_norm t \<longleftrightarrow> 0 \<le> nanoseconds t \<and> nanoseconds t < NANOSECONDS_OF_SECOND"

lemmas pt_defs = pt_ns_def pt_norm_def NANOSECONDS_OF_SECOND_def

lemma pt_norm_seconds [simp]: "pt_norm (pt_seconds s)"
  by (simp add: pt_defs pt_seconds_def)

lemma pt_ns_seconds: "pt_ns (pt_seconds s) = s * 1000000000"
  by (simp add: pt_defs pt_seconds_def)

lemma pt_norm_add: "pt_norm a \<Longrightarrow> pt_norm b \<Longrightarrow> pt_norm (pt_add a b)"
  by (auto simp: pt_add_def Let_def pt_defs)

lemma pt_ns_add: "pt_ns (pt_add a b) = pt_ns a + pt_ns b"
  by (simp add: pt_add_def Let_def pt_defs algebra_simps)

lemma pt_ns_mult: "pt_ns (pt_mult t n) = pt_ns t * n"
proof (cases "nanoseconds t * n \<ge> NANOSECONDS_OF_SECOND")
  case True
  let ?x = "nanoseconds t * n" and ?s = "NANOSECONDS_OF_SECOND"
  have "(seconds t * n + ?x div ?s) * ?s + ?x mod ?s = seconds t * n * ?s + (?x div ?s * ?s + ?x mod ?s)"
    by (simp only: distrib_right add.assoc)
  also have "\<dots> = (seconds t * ?s + nanoseconds t) * n" by (simp add: algebra_simps)
  finally show ?thesis using True by (simp add: pt_mult_def pt_ns_def)
next
  case False
  then show ?thesis by (simp add: pt_mult_def pt_ns_def algebra_simps)
qed

text \<open>The subtraction of normal values is right when nothing has to be borrowed.\<close>

lemma pt_ns_sub:
  assumes "pt_norm a" and "pt_norm b"
  shows "pt_ns (pt_sub a b) = pt_ns a - pt_ns b +
    (if nanoseconds a < nanoseconds b then 2 * (nanoseconds b - nanoseconds a) - NANOSECONDS_OF_SECOND else 0)"
  using assms by (auto simp: pt_sub_def Let_def pt_defs)

lemma pt_less_ns:
  assumes "pt_norm a" and "pt_norm b"
  shows "pt_less a b \<longleftrightarrow> pt_ns a < pt_ns b" and "pt_greater a b \<longleftrightarrow> pt_ns b < pt_ns a"
  using assms by (auto simp: pt_less_def pt_greater_def pt_defs)

lemma pt_ns_inject:
  assumes "pt_norm a" and "pt_norm b" and "pt_ns a = pt_ns b"
  shows "a = b"
proof -
  have "seconds a = seconds b" using assms by (simp add: pt_defs)
  with assms show ?thesis by (simp add: pt_defs)
qed

section \<open>Properties\<close>

text \<open>
  Times count nanoseconds. On normal values the comparisons are those of the nanosecond
  counts, and addition and multiplication add and multiply them; a sum is normal again.
  Subtraction is not the inverse: whenever the left value has fewer nanoseconds it takes the
  absolute value of the difference instead of borrowing, and its result is off by twice the
  difference minus a second, so that it is right only for a difference of exactly half a
  second.
\<close>

theorem precise_time_arithmetic:
  assumes "pt_norm a" and "pt_norm b"
  shows "pt_norm (pt_add a b) \<and> pt_ns (pt_add a b) = pt_ns a + pt_ns b \<and>
    pt_ns (pt_mult a n) = pt_ns a * n \<and>
    (pt_less a b \<longleftrightarrow> pt_ns a < pt_ns b) \<and> (pt_greater a b \<longleftrightarrow> pt_ns b < pt_ns a) \<and>
    (pt_ns (pt_sub a b) = pt_ns a - pt_ns b \<longleftrightarrow>
       nanoseconds b \<le> nanoseconds a \<or> nanoseconds b - nanoseconds a = 500000000) \<and>
    (pt_sub (pt_add a b) b = a \<longleftrightarrow>
       nanoseconds a + nanoseconds b < NANOSECONDS_OF_SECOND \<or> nanoseconds a = 500000000)"
  (is "?add \<and> ?ns \<and> ?mult \<and> ?less \<and> ?greater \<and> ?sub \<and> ?inverse")
proof (intro conjI)
  show ?add ?ns ?mult using assms by (simp_all add: pt_norm_add pt_ns_add pt_ns_mult)
  show ?less ?greater using assms by (simp_all add: pt_less_ns)
  show ?sub using assms by (auto simp: pt_ns_sub NANOSECONDS_OF_SECOND_def)
  show ?inverse
    using assms by (cases a; cases b) (auto simp: pt_sub_def pt_add_def Let_def pt_defs)
qed

theorem precise_time_arithmetic_witness:
  "pt_ns (pt_sub \<lparr>seconds = 1, nanoseconds = 0\<rparr> \<lparr>seconds = 0, nanoseconds = 900000000\<rparr>) \<noteq> 100000000 \<and>
   pt_less \<lparr>seconds = 0, nanoseconds = 900000000\<rparr> \<lparr>seconds = 1, nanoseconds = 0\<rparr>"
  using precise_time_arithmetic [of "\<lparr>seconds = 1, nanoseconds = 0\<rparr>" "\<lparr>seconds = 0, nanoseconds = 900000000\<rparr>" 1]
    precise_time_arithmetic [of "\<lparr>seconds = 0, nanoseconds = 900000000\<rparr>" "\<lparr>seconds = 1, nanoseconds = 0\<rparr>" 1]
  by (simp add: pt_defs)

end
