(* ===== verification/Timers.thy ===== *)
theory Timers
  imports Prelude Precise_Time "HOL-Library.Multiset"
begin

text \<open>
  \<open>TimerManager\<close> of \<open>foundation/worker.{h,cpp}\<close>. The code keeps the timers in a vector that
  \<open>std::push_heap\<close> and \<open>std::pop_heap\<close> keep as a heap whose front expires first; here the
  vector is the list of the timers by expiry time, a timer behind the ones that expire with
  it (the standard leaves the order of those open). An expiry action is a value of the type
  parameter \<open>'x\<close>, one constructor per lambda of the code with what it captures. Reading the
  clock is an argument \<open>now\<close>.
\<close>

section \<open>State\<close>

datatype timer_call_policy = CALL_ONCE | CALL_FREQUENTLY

record 'x timer =
  tm_timer_id :: int
  tm_interval :: precise_time
  tm_expiry_time :: precise_time
  tm_expiry_action :: 'x
  tm_call_policy :: timer_call_policy
  tm_caller :: string

record 'x timer_manager =
  m_timer_queue :: "'x timer list"
  tmr_next_id :: int

definition empty_timer_manager :: "'x timer_manager" where
  "empty_timer_manager = \<lparr>m_timer_queue = [], tmr_next_id = 1\<rparr>"

text \<open>\<open>TimerCompare\<close>: the left timer expires after the right one.\<close>

definition timer_compare :: "'x timer \<Rightarrow> 'x timer \<Rightarrow> bool" where
  "timer_compare left right = pt_greater (tm_expiry_time left) (tm_expiry_time right)"

fun heap_push :: "'x timer \<Rightarrow> 'x timer list \<Rightarrow> 'x timer list" where
  "heap_push t [] = [t]"
| "heap_push t (u # q) = (if timer_compare u t then t # u # q else u # heap_push t q)"

section \<open>Operations\<close>

definition register_timer ::
  "string \<Rightarrow> precise_time \<Rightarrow> 'x \<Rightarrow> timer_call_policy \<Rightarrow> precise_time \<Rightarrow> precise_time \<Rightarrow>
   'x timer_manager \<Rightarrow> int \<times> 'x timer_manager" where
  "register_timer caller interval expiry_action call_policy delay now tm =
     (let delay = (if seconds delay = 0 then interval else delay);
          t = \<lparr>tm_timer_id = tmr_next_id tm, tm_interval = interval, tm_expiry_time = pt_add now delay,
               tm_expiry_action = expiry_action, tm_call_policy = call_policy, tm_caller = caller\<rparr>
      in (tm_timer_id t, \<lparr>m_timer_queue = heap_push t (m_timer_queue tm), tmr_next_id = tmr_next_id tm + 1\<rparr>))"

definition register_frequent_timer ::
  "string \<Rightarrow> precise_time \<Rightarrow> 'x \<Rightarrow> precise_time \<Rightarrow> precise_time \<Rightarrow> 'x timer_manager \<Rightarrow> int \<times> 'x timer_manager" where
  "register_frequent_timer caller interval expiry_action delay now tm =
     register_timer caller interval expiry_action CALL_FREQUENTLY delay now tm"

definition remove_timer :: "int \<Rightarrow> 'x timer_manager \<Rightarrow> 'x timer_manager" where
  "remove_timer time_id tm =
     tm\<lparr>m_timer_queue := filter (\<lambda>t. tm_timer_id t \<noteq> time_id) (m_timer_queue tm)\<rparr>"

text \<open>
  \<open>process_expiry_timer\<close> before and after it runs the action of the front timer: the timer
  to run, if the front one is due, and the removal of the front. The removal takes whatever
  timer is at the front by then.
\<close>

definition due_timer :: "precise_time \<Rightarrow> 'x timer_manager \<Rightarrow> 'x timer option" where
  "due_timer now tm = (case m_timer_queue tm of
     [] \<Rightarrow> None
   | tmr # _ \<Rightarrow> if pt_less now (tm_expiry_time tmr) then None else Some tmr)"

definition finish_timer :: "'x timer \<Rightarrow> precise_time \<Rightarrow> 'x timer_manager \<Rightarrow> 'x timer_manager" where
  "finish_timer tmr now tm =
     (let q = tl (m_timer_queue tm)
      in if tm_call_policy tmr = CALL_FREQUENTLY
         then tm\<lparr>m_timer_queue := heap_push (tmr\<lparr>tm_expiry_time := pt_add now (tm_interval tmr)\<rparr>) q\<rparr>
         else tm\<lparr>m_timer_queue := q\<rparr>)"

definition timer_count :: "'x timer_manager \<Rightarrow> nat" where
  "timer_count tm = length (m_timer_queue tm)"

section \<open>The contract of the queue\<close>

text \<open>
  What the manager relies on: the front is a timer that none expires before, and a push and a
  pop change the collection by exactly the timer pushed and the front. Popping until nothing
  is left then yields every timer once, in the order of the expiry times.
\<close>

locale expiry_queue =
  fixes ok :: "'q \<Rightarrow> bool"
    and timers :: "'q \<Rightarrow> 'x timer multiset"
    and push :: "'x timer \<Rightarrow> 'q \<Rightarrow> 'q"
    and front :: "'q \<Rightarrow> 'x timer"
    and pop :: "'q \<Rightarrow> 'q"
  assumes ok_push: "ok q \<Longrightarrow> pt_norm (tm_expiry_time t) \<Longrightarrow> ok (push t q)"
    and ok_pop: "ok q \<Longrightarrow> timers q \<noteq> {#} \<Longrightarrow> ok (pop q)"
    and ok_norm: "ok q \<Longrightarrow> t \<in># timers q \<Longrightarrow> pt_norm (tm_expiry_time t)"
    and timers_push: "ok q \<Longrightarrow> timers (push t q) = add_mset t (timers q)"
    and front_in: "ok q \<Longrightarrow> timers q \<noteq> {#} \<Longrightarrow> front q \<in># timers q"
    and front_least: "ok q \<Longrightarrow> t \<in># timers q \<Longrightarrow> \<not> timer_compare (front q) t"
    and timers_pop: "ok q \<Longrightarrow> timers q \<noteq> {#} \<Longrightarrow> timers (pop q) = timers q - {#front q#}"
begin

primrec drain :: "nat \<Rightarrow> 'q \<Rightarrow> 'x timer list" where
  "drain 0 q = []"
| "drain (Suc n) q = front q # drain n (pop q)"

lemma drain_mset: "ok q \<Longrightarrow> size (timers q) = n \<Longrightarrow> mset (drain n q) = timers q"
proof (induction n arbitrary: q)
  case (Suc n)
  then have ne: "timers q \<noteq> {#}" by auto
  note q = front_in [OF Suc.prems(1) ne] timers_pop [OF Suc.prems(1) ne]
  then have "mset (drain n (pop q)) = timers (pop q)"
    using Suc ne by (intro Suc.IH) (auto simp: ok_pop size_Diff_singleton)
  with q show ?case by simp
qed simp

lemma drain_sorted:
  "ok q \<Longrightarrow> size (timers q) = n \<Longrightarrow> sorted_wrt (\<lambda>s t. pt_ns (tm_expiry_time s) \<le> pt_ns (tm_expiry_time t)) (drain n q)"
proof (induction n arbitrary: q)
  case (Suc n)
  then have ne: "timers q \<noteq> {#}" by auto
  note q = front_in [OF Suc.prems(1) ne] timers_pop [OF Suc.prems(1) ne] ok_pop [OF Suc.prems(1) ne]
  then have size: "size (timers (pop q)) = n"
    using Suc.prems by (simp add: size_Diff_singleton)
  have "pt_ns (tm_expiry_time (front q)) \<le> pt_ns (tm_expiry_time t)" if "t \<in> set (drain n (pop q))" for t
  proof -
    have "t \<in># timers q"
      using that drain_mset [OF q(3) size] q(2) by (metis in_diffD in_multiset_in_set)
    then show ?thesis
      using front_least [OF Suc.prems(1)] ok_norm [OF Suc.prems(1)] q(1)
      by (auto simp: timer_compare_def pt_less_ns not_less)
  qed
  with Suc.IH [OF q(3) size] show ?case by simp
qed simp

end

definition queue_ok :: "'x timer list \<Rightarrow> bool" where
  "queue_ok q \<longleftrightarrow> sorted_wrt (\<lambda>s t. \<not> timer_compare s t) q \<and> (\<forall>t \<in> set q. pt_norm (tm_expiry_time t))"

lemma set_heap_push [simp]: "set (heap_push t q) = insert t (set q)"
  by (induction t q rule: heap_push.induct) auto

lemma mset_heap_push [simp]: "mset (heap_push t q) = add_mset t (mset q)"
  by (induction t q rule: heap_push.induct) auto

lemma queue_ok_push: "queue_ok q \<Longrightarrow> pt_norm (tm_expiry_time t) \<Longrightarrow> queue_ok (heap_push t q)"
  by (induction t q rule: heap_push.induct) (auto simp: queue_ok_def timer_compare_def pt_less_ns)

lemma queue_ok_tl: "queue_ok q \<Longrightarrow> queue_ok (tl q)"
  by (cases q) (auto simp: queue_ok_def)

interpretation timer_heap: expiry_queue queue_ok mset heap_push hd tl
proof unfold_locales
  fix q :: "'a timer list" and t
  show "queue_ok q \<Longrightarrow> mset q \<noteq> {#} \<Longrightarrow> queue_ok (tl q)" by (simp add: queue_ok_tl)
  show "queue_ok q \<Longrightarrow> t \<in># mset q \<Longrightarrow> \<not> timer_compare (hd q) t"
    by (cases q) (auto simp: queue_ok_def timer_compare_def pt_greater_def)
  show "mset q \<noteq> {#} \<Longrightarrow> mset (tl q) = mset q - {#hd q#}" by (cases q) auto
qed (simp_all add: queue_ok_push, auto simp: queue_ok_def)

text \<open>A timer that does not expire before the front stays behind it.\<close>

lemma heap_push_behind:
  "pt_norm (tm_expiry_time u) \<Longrightarrow> pt_norm (tm_expiry_time t) \<Longrightarrow>
   pt_ns (tm_expiry_time u) \<le> pt_ns (tm_expiry_time t) \<Longrightarrow> heap_push t (u # q) = u # heap_push t q"
  by (simp add: timer_compare_def pt_less_ns)

section \<open>The invariant\<close>

definition tmr_inv :: "'x timer_manager \<Rightarrow> bool" where
  "tmr_inv tm \<longleftrightarrow> queue_ok (m_timer_queue tm) \<and> distinct (map tm_timer_id (m_timer_queue tm)) \<and>
     (\<forall>t \<in> set (m_timer_queue tm). tm_timer_id t < tmr_next_id tm \<and> pt_norm (tm_interval t))"

lemma tmr_inv_empty: "tmr_inv empty_timer_manager"
  by (simp add: tmr_inv_def empty_timer_manager_def queue_ok_def)

lemma distinct_heap_push:
  "distinct (map tm_timer_id (heap_push t q)) \<longleftrightarrow> tm_timer_id t \<notin> tm_timer_id ` set q \<and> distinct (map tm_timer_id q)"
  by (induction t q rule: heap_push.induct) auto

lemma register_timer_inv:
  assumes "tmr_inv tm" and "pt_norm now" and "pt_norm interval" and "pt_norm delay"
  shows "tmr_inv (snd (register_timer caller interval a p delay now tm))"
  using assms
  by (force simp: tmr_inv_def register_timer_def Let_def distinct_heap_push intro!: queue_ok_push pt_norm_add)

lemma remove_timer_inv: "tmr_inv tm \<Longrightarrow> tmr_inv (remove_timer k tm)"
  by (auto simp: tmr_inv_def remove_timer_def queue_ok_def sorted_wrt_filter distinct_map_filter)

lemma finish_timer_inv:
  assumes "tmr_inv tm" and "pt_norm now" and "m_timer_queue tm = tmr # q"
  shows "tmr_inv (finish_timer tmr now tm)"
  using assms queue_ok_tl [of "m_timer_queue tm"]
  by (auto simp: tmr_inv_def finish_timer_def Let_def distinct_heap_push intro!: queue_ok_push pt_norm_add)

section \<open>Properties\<close>

text \<open>Registering a list of timers, each with its interval, at the times given.\<close>

fun register_all :: "(string \<times> precise_time \<times> 'x \<times> precise_time) list \<Rightarrow> 'x timer_manager \<Rightarrow> 'x timer_manager" where
  "register_all [] tm = tm"
| "register_all ((caller, interval, action, now) # rs) tm =
     register_all rs (snd (register_timer caller interval action CALL_ONCE (pt_seconds 0) now tm))"

lemma register_all_inv:
  "tmr_inv tm \<Longrightarrow> \<forall>(caller, interval, action, now) \<in> set rs. pt_norm interval \<and> pt_norm now \<Longrightarrow>
   tmr_inv (register_all rs tm) \<and> timer_count (register_all rs tm) = timer_count tm + length rs"
proof (induction rs arbitrary: tm)
  case (Cons r rs)
  obtain caller interval action now where r: "r = (caller, interval, action, now)" by (cases r)
  let ?tm = "snd (register_timer caller interval action CALL_ONCE (pt_seconds 0) now tm)"
  have "size (mset (m_timer_queue ?tm)) = Suc (size (mset (m_timer_queue tm)))"
    by (simp only: register_timer_def Let_def snd_conv timer_manager.simps mset_heap_push size_add_mset)
  then have "timer_count ?tm = Suc (timer_count tm)" by (simp add: timer_count_def)
  moreover have "tmr_inv ?tm" using Cons.prems r by (intro register_timer_inv) auto
  ultimately show ?case using Cons.IH [of ?tm] Cons.prems(2) r by auto
qed simp

text \<open>
  Timers fire in order. After any registrations, taking the front again and again
  yields every registered timer exactly once, in the order of the expiry times, and the
  manager calls a timer due exactly when its expiry time is not after the current time
  and no timer expires earlier.
\<close>

theorem timer_order:
  assumes "tmr_inv tm" and "\<forall>(caller, interval, action, now) \<in> set rs. pt_norm interval \<and> pt_norm now"
    and q: "q = m_timer_queue (register_all rs tm)" and now: "pt_norm now"
  shows "mset (timer_heap.drain (length q) q) = mset q \<and> length q = timer_count tm + length rs \<and>
    sorted_wrt (\<lambda>s t. pt_ns (tm_expiry_time s) \<le> pt_ns (tm_expiry_time t)) (timer_heap.drain (length q) q) \<and>
    (case due_timer now (register_all rs tm) of
       None \<Rightarrow> \<forall>t \<in> set q. pt_ns now < pt_ns (tm_expiry_time t)
     | Some u \<Rightarrow> u = hd q \<and> pt_ns (tm_expiry_time u) \<le> pt_ns now \<and>
         (\<forall>t \<in> set q. pt_ns (tm_expiry_time u) \<le> pt_ns (tm_expiry_time t)))"
proof -
  from register_all_inv [OF assms(1,2)] have inv: "tmr_inv (register_all rs tm)"
    and len: "length q = timer_count tm + length rs" by (simp_all add: timer_count_def q)
  from inv have ok: "queue_ok q" by (simp add: tmr_inv_def q)
  then have norm: "pt_norm (tm_expiry_time t)" if "t \<in> set q" for t
    using that by (simp add: queue_ok_def)
  have least: "pt_ns (tm_expiry_time (hd q)) \<le> pt_ns (tm_expiry_time t)" if "t \<in> set q" for t
  proof -
    have "\<not> timer_compare (hd q) t" using timer_heap.front_least [OF ok] that by simp
    moreover have "hd q \<in> set q" using that by (cases q) auto
    ultimately show ?thesis using norm that by (simp add: timer_compare_def pt_less_ns)
  qed
  have "case due_timer now (register_all rs tm) of
       None \<Rightarrow> \<forall>t \<in> set q. pt_ns now < pt_ns (tm_expiry_time t)
     | Some u \<Rightarrow> u = hd q \<and> pt_ns (tm_expiry_time u) \<le> pt_ns now \<and>
         (\<forall>t \<in> set q. pt_ns (tm_expiry_time u) \<le> pt_ns (tm_expiry_time t))"
    using least norm now
    by (cases q) (auto simp: due_timer_def pt_less_ns simp flip: q, force dest: less_le_trans)
  with timer_heap.drain_mset [OF ok, of "length q"] timer_heap.drain_sorted [OF ok, of "length q"] len
  show ?thesis by simp
qed

definition example_timers :: "(string \<times> precise_time \<times> nat \<times> precise_time) list" where
  "example_timers = [(''late'', pt_seconds 5, 1, pt_seconds 0), (''early'', pt_seconds 1, 2, pt_seconds 2)]"

theorem timer_order_witness:
  "\<exists>u. due_timer (pt_seconds 4) (register_all example_timers empty_timer_manager) = Some u \<and> tm_caller u = ''early''"
  using timer_order [OF tmr_inv_empty, of example_timers _ "pt_seconds 4"]
  by (simp add: example_timers_def empty_timer_manager_def register_timer_def pt_seconds_def pt_add_def
      Let_def timer_compare_def pt_greater_def pt_less_def due_timer_def NANOSECONDS_OF_SECOND_def)

end
