(* ===== verification/Transactions.thy ===== *)
theory Transactions
  imports Protocol Package Actors Timers
begin

text \<open>
  \<open>foundation/transaction.{h,cpp}\<close>: sending packages, the multiply phase transactions and
  their manager, and the table that leads from a command to its transaction. Everything here
  runs on the worker thread, on the state \<open>world\<close>: the package manager, the two actor queues,
  the transaction managers, the timers, the clock, and the state of the program on top
  (\<open>'app\<close>).

  A function pointer, a factory and a member function pointer are values of the type \<open>'f\<close>,
  one constructor per function of the program; the members that a derived transaction class
  adds are a value of the type \<open>'d\<close>. \<open>typeid\<close> comparisons become a predicate on the two. The
  bytes of a package are \<open>'c\<close> with the codec of theory \<open>Protocol\<close>.
\<close>

section \<open>State\<close>

record ('f, 'd) multi_trans =
  t_id :: int
  t_current_phase :: int
  t_on_active :: "'f option"
  t_first_conn_id :: int
  t_first_trigger_source :: trigger_source
  t_wait_conn_id :: int
  t_wait_service_id :: int
  t_wait_cmd :: int
  t_is_waiting :: bool
  t_data :: 'd

definition new_multi_trans :: "int \<Rightarrow> 'd \<Rightarrow> ('f, 'd) multi_trans" where
  "new_multi_trans trans_id d =
     \<lparr>t_id = trans_id, t_current_phase = 0, t_on_active = None, t_first_conn_id = 0,
      t_first_trigger_source = \<lparr>ts_command = 0, ts_package_id = 0\<rparr>, t_wait_conn_id = 0,
      t_wait_service_id = 0, t_wait_cmd = 0, t_is_waiting = False, t_data = d\<rparr>"

record ('f, 'd) multi_manager =
  mt_next_id :: int
  mt_trans_list :: "(int, ('f, 'd) multi_trans) omap"
  m_bind_list :: "(int, int) omap"

definition empty_multi_manager :: "('f, 'd) multi_manager" where
  "empty_multi_manager = \<lparr>mt_next_id = 1, mt_trans_list = [], m_bind_list = []\<rparr>"

datatype transaction_type = ONE_PHASE_TRANSACTION | MULTIPLY_PHASE_TRANSACTION

text \<open>The error handler is either \<open>on_transaction_error\<close> or a null function.\<close>

record 'f transaction =
  tr_type :: transaction_type
  tr_handler :: 'f
  tr_error_handler :: bool

datatype 'f timer_action =
    Wait_timeout int      \<comment> \<open>the lambda of \<open>wait_next_phase\<close>, which captures the transaction's id\<close>
  | Timer_call 'f

record ('c, 'f, 'd, 'app) world =
  w_packages :: "'c package_manager"
  w_queues :: "'f actor_message actor_queues"
  w_multi :: "('f, 'd) multi_manager"
  w_trans_list :: "(int, 'f transaction) omap"
  w_timers :: "'f timer_action timer_manager"
  w_now :: precise_time
  w_app :: 'app

abbreviation on_packages where "on_packages \<equiv> zoom w_packages (\<lambda>x w. w\<lparr>w_packages := x\<rparr>)"
abbreviation on_multi where "on_multi \<equiv> zoom w_multi (\<lambda>x w. w\<lparr>w_multi := x\<rparr>)"
abbreviation on_app where "on_app \<equiv> zoom w_app (\<lambda>x w. w\<lparr>w_app := x\<rparr>)"

section \<open>The manager of multiply phase transactions\<close>

definition register_multi :: "'d \<Rightarrow> (('f, 'd) multi_manager, ('f, 'd) multi_trans) exec" where
  "register_multi d = (\<lambda>mt.
     let trans = new_multi_trans (mt_next_id mt) d;
         mt1 = mt\<lparr>mt_next_id := mt_next_id mt + 1\<rparr>
     in if map_of (mt_trans_list mt1) (t_id trans) \<noteq> None
        then (Inl (Thrown (Foundation ERR_MULTIPLY_PHASE_TRANSACTION_ALREADY_EXIST)), mt1)
        else (Inr trans, mt1\<lparr>mt_trans_list := om_insert (t_id trans) trans (mt_trans_list mt1)\<rparr>))"

definition remove_multi :: "int \<Rightarrow> ('f, 'd) multi_manager \<Rightarrow> ('f, 'd) multi_manager" where
  "remove_multi trans_id mt = mt\<lparr>mt_trans_list := om_erase trans_id (mt_trans_list mt)\<rparr>"

definition find_multi :: "('f, 'd) multi_manager \<Rightarrow> int \<Rightarrow> ('f, 'd) multi_trans option" where
  "find_multi mt trans_id = map_of (mt_trans_list mt) trans_id"

definition multi_count :: "('f, 'd) multi_manager \<Rightarrow> nat" where
  "multi_count mt = length (mt_trans_list mt)"

definition bind_transaction :: "int \<Rightarrow> int \<Rightarrow> (('f, 'd) multi_manager, unit) exec" where
  "bind_transaction trans_id package_id = (\<lambda>mt.
     if map_of (m_bind_list mt) package_id \<noteq> None
     then (Inl (Thrown (Foundation ERR_BOUND_TRANSACTION_ALREADY_EXIST)), mt)
     else (Inr (), mt\<lparr>m_bind_list := om_insert package_id trans_id (m_bind_list mt)\<rparr>))"

definition remove_bound_transaction :: "int \<Rightarrow> ('f, 'd) multi_manager \<Rightarrow> ('f, 'd) multi_manager" where
  "remove_bound_transaction package_id mt = mt\<lparr>m_bind_list := om_erase package_id (m_bind_list mt)\<rparr>"

definition find_bound_transaction :: "('f, 'd) multi_manager \<Rightarrow> int \<Rightarrow> ('f, 'd) multi_trans option" where
  "find_bound_transaction mt package_id = (case map_of (m_bind_list mt) package_id of
     None \<Rightarrow> None | Some trans_id \<Rightarrow> find_multi mt trans_id)"

text \<open>A write through a pointer to a registered transaction.\<close>

definition update_multi ::
  "int \<Rightarrow> (('f, 'd) multi_trans \<Rightarrow> ('f, 'd) multi_trans) \<Rightarrow> ('f, 'd) multi_manager \<Rightarrow> ('f, 'd) multi_manager" where
  "update_multi trans_id f mt = mt\<lparr>mt_trans_list := om_update trans_id f (mt_trans_list mt)\<rparr>"

section \<open>Sending\<close>

definition send_package :: "int \<Rightarrow> int \<Rightarrow> int \<Rightarrow> (('c, 'f, 'd, 'app) world, unit) exec" where
  "send_package conn_id package_id service_id = modify (\<lambda>w. w\<lparr>w_queues :=
     queue_push OUT_QUEUE
       (NETWORK_TYPE \<lparr>nm_conn_id = conn_id, nm_service_id = service_id, nm_package_id = package_id\<rparr>)
       (w_queues w)\<rparr>)"

definition send_protocol ::
  "'c codec \<Rightarrow> (size_t \<Rightarrow> bool) \<Rightarrow> int \<Rightarrow> message \<Rightarrow> int \<Rightarrow> int \<Rightarrow> int \<Rightarrow> int \<Rightarrow>
   (('c, 'f, 'd, 'app) world, unit) exec" where
  "send_protocol C A conn_id msg bind_trans_id trigger_package_id trigger_cmd service_id =
     (let size = size_of C msg in
      if (word_of_int size :: size_t) > MAX_CONTENT_LEN then ret ()
      else
        bindE (on_packages (register_package A size)) (\<lambda>package.
        bindE (getsE (\<lambda>_. send_command msg trigger_cmd)) (\<lambda>cmd.
        bindE (on_packages (modify (update_package (p_id package) (\<lambda>p. p\<lparr>p_header := (p_header p)
                 \<lparr>h_command := cmd, h_content_length := size, h_self_package_id := p_id package,
                  h_trigger_package_id := trigger_package_id\<rparr>\<rparr>)))) (\<lambda>_.
        case to_content C msg of
          None \<Rightarrow> on_packages (modify (remove_package (p_id package)))
        | Some content \<Rightarrow>
            bindE (on_packages (modify (update_package (p_id package) (\<lambda>p. p\<lparr>p_content := Some content\<rparr>)))) (\<lambda>_.
            bindE (if bind_trans_id \<noteq> 0 then on_multi (bind_transaction bind_trans_id (p_id package)) else ret ()) (\<lambda>_.
            send_package conn_id (p_id package) service_id))))))"

definition send_back_protocol ::
  "'c codec \<Rightarrow> (size_t \<Rightarrow> bool) \<Rightarrow> int \<Rightarrow> message \<Rightarrow> trigger_source \<Rightarrow> int \<Rightarrow>
   (('c, 'f, 'd, 'app) world, unit) exec" where
  "send_back_protocol C A conn_id msg trigger_source bind_trans_id =
     send_protocol C A conn_id msg bind_trans_id (ts_package_id trigger_source) (ts_command trigger_source) 0"

text \<open>The overload that takes the trigger package reads the same two fields of its header.\<close>

definition send_back ::
  "'c codec \<Rightarrow> (size_t \<Rightarrow> bool) \<Rightarrow> int \<Rightarrow> message \<Rightarrow> 'c package \<Rightarrow> (('c, 'f, 'd, 'app) world, unit) exec" where
  "send_back C A conn_id msg trigger_package =
     send_protocol C A conn_id msg 0 (h_self_package_id (p_header trigger_package))
       (h_command (p_header trigger_package)) 0"

definition service_send_protocol ::
  "'c codec \<Rightarrow> (size_t \<Rightarrow> bool) \<Rightarrow> int \<Rightarrow> message \<Rightarrow> int \<Rightarrow> (('c, 'f, 'd, 'app) world, unit) exec" where
  "service_send_protocol C A service_id msg bind_trans_id = send_protocol C A 0 msg bind_trans_id 0 0 service_id"

definition on_transaction_error ::
  "'c codec \<Rightarrow> (size_t \<Rightarrow> bool) \<Rightarrow> int \<Rightarrow> trigger_source \<Rightarrow> error_info \<Rightarrow> (('c, 'f, 'd, 'app) world, unit) exec" where
  "on_transaction_error C A conn_id trigger_source error_info =
     send_back_protocol C A conn_id (RspError (Some error_info)) trigger_source 0"

text \<open>\<open>Package::parse_to_protocol\<close>, with the fields of the message class that is asked for.\<close>

definition parse_to_protocol :: "'c codec \<Rightarrow> string \<Rightarrow> (message \<Rightarrow> 'm res) \<Rightarrow> 'c package \<Rightarrow> 'm res" where
  "parse_to_protocol C name members package = (case p_content package of
     None \<Rightarrow> Inl Undefined
   | Some content \<Rightarrow> (case of_content C name content of
       None \<Rightarrow> Inl (Thrown (Foundation ERR_NETWORK_PACKAGE_CANNOT_PARSE_TO_PROTOCOL))
     | Some msg \<Rightarrow> members msg))"

section \<open>A multiply phase transaction\<close>

text \<open>
  The members of \<open>MultiplyPhaseTransaction\<close>, on the transaction \<open>this\<close> with the id
  \<open>trans_id\<close>. A call on a transaction that is not registered any more is a call on a deleted
  object.
\<close>

definition this_trans :: "int \<Rightarrow> (('c, 'f, 'd, 'app) world, ('f, 'd) multi_trans) exec" where
  "this_trans trans_id = getsE (\<lambda>w. case find_multi (w_multi w) trans_id of
     None \<Rightarrow> Inl Undefined | Some t \<Rightarrow> Inr t)"

definition write_trans ::
  "int \<Rightarrow> (('f, 'd) multi_trans \<Rightarrow> ('f, 'd) multi_trans) \<Rightarrow> (('c, 'f, 'd, 'app) world, unit) exec" where
  "write_trans trans_id f =
     bindE (this_trans trans_id) (\<lambda>_. on_multi (modify (update_multi trans_id f)))"

definition pre_on_init :: "int \<Rightarrow> int \<Rightarrow> 'c package \<Rightarrow> (('c, 'f, 'd, 'app) world, unit) exec" where
  "pre_on_init trans_id conn_id package = write_trans trans_id (\<lambda>t. t
     \<lparr>t_first_conn_id := conn_id, t_first_trigger_source := get_trigger_source (p_header package)\<rparr>)"

definition clear_waiting_state :: "int \<Rightarrow> (('c, 'f, 'd, 'app) world, unit) exec" where
  "clear_waiting_state trans_id = write_trans trans_id (\<lambda>t. t\<lparr>t_is_waiting := False\<rparr>)"

definition DEFAULT_TIMEOUT :: int where "DEFAULT_TIMEOUT = 1"

definition add_timer ::
  "string \<Rightarrow> precise_time \<Rightarrow> 'f timer_action \<Rightarrow> timer_call_policy \<Rightarrow> (('c, 'f, 'd, 'app) world, unit) exec" where
  "add_timer caller interval action call_policy = modify (\<lambda>w. w\<lparr>w_timers :=
     snd (register_timer caller interval action call_policy (pt_seconds 0) (w_now w) (w_timers w))\<rparr>)"

text \<open>\<open>same_class\<close> is \<open>*on_active.type_info() == typeid(*this)\<close>.\<close>

definition wait_next_phase ::
  "('d \<Rightarrow> 'f \<Rightarrow> bool) \<Rightarrow> int \<Rightarrow> int \<Rightarrow> int \<Rightarrow> 'f \<Rightarrow> int \<Rightarrow> int \<Rightarrow> (('c, 'f, 'd, 'app) world, unit) exec" where
  "wait_next_phase same_class trans_id conn_id cmd on_active timeout service_id =
     bindE (this_trans trans_id) (\<lambda>t.
     if \<not> same_class (t_data t) on_active then fail Aborted
     else
       bindE (write_trans trans_id (\<lambda>t. t\<lparr>t_wait_conn_id := conn_id, t_wait_service_id := service_id,
                t_wait_cmd := cmd, t_current_phase := t_current_phase t + 1, t_on_active := Some on_active,
                t_is_waiting := True\<rparr>)) (\<lambda>_.
       add_timer ''wait_next_phase'' (pt_seconds timeout) (Wait_timeout trans_id) CALL_ONCE))"

text \<open>The message argument is an object of the class that is waited for.\<close>

definition service_wait_next_phase ::
  "('d \<Rightarrow> 'f \<Rightarrow> bool) \<Rightarrow> int \<Rightarrow> int \<Rightarrow> string \<Rightarrow> 'f \<Rightarrow> (('c, 'f, 'd, 'app) world, unit) exec" where
  "service_wait_next_phase same_class trans_id service_id name on_active =
     bindE (getsE (\<lambda>_. get_command name)) (\<lambda>cmd.
     wait_next_phase same_class trans_id 0 cmd on_active DEFAULT_TIMEOUT service_id)"

definition send_back_message ::
  "'c codec \<Rightarrow> (size_t \<Rightarrow> bool) \<Rightarrow> int \<Rightarrow> message \<Rightarrow> (('c, 'f, 'd, 'app) world, unit) exec" where
  "send_back_message C A trans_id msg =
     bindE (this_trans trans_id) (\<lambda>t.
     send_back_protocol C A (t_first_conn_id t) msg (t_first_trigger_source t) 0)"

text \<open>\<open>MultiplyPhaseTransaction::on_error\<close> and \<open>send_back_error\<close> do the same.\<close>

definition multi_on_error ::
  "'c codec \<Rightarrow> (size_t \<Rightarrow> bool) \<Rightarrow> int \<Rightarrow> error_info \<Rightarrow> (('c, 'f, 'd, 'app) world, unit) exec" where
  "multi_on_error C A trans_id error_info =
     bindE (this_trans trans_id) (\<lambda>t.
     on_transaction_error C A (t_first_conn_id t) (t_first_trigger_source t) error_info)"

section \<open>The table of transactions\<close>

definition register_transaction ::
  "int \<Rightarrow> transaction_type \<Rightarrow> 'f \<Rightarrow> bool \<Rightarrow> ((int, 'f transaction) omap, unit) exec" where
  "register_transaction cmd trans_type handler error_handler = (\<lambda>m.
     if map_of m cmd \<noteq> None then (Inl (Thrown (Foundation ERR_TRANSACTION_ALREADY_EXIST)), m)
     else (Inr (), om_insert cmd \<lparr>tr_type = trans_type, tr_handler = handler, tr_error_handler = error_handler\<rparr> m))"

text \<open>The two macros pass an object of the request class, whose command is looked up.\<close>

definition register_one_phase_transaction :: "string \<Rightarrow> 'f \<Rightarrow> ((int, 'f transaction) omap, unit) exec" where
  "register_one_phase_transaction name handler =
     bindE (getsE (\<lambda>_. get_command name)) (\<lambda>cmd. register_transaction cmd ONE_PHASE_TRANSACTION handler True)"

definition register_multiply_phase_transaction :: "string \<Rightarrow> 'f \<Rightarrow> ((int, 'f transaction) omap, unit) exec" where
  "register_multiply_phase_transaction name factory =
     bindE (getsE (\<lambda>_. get_command name)) (\<lambda>cmd. register_transaction cmd MULTIPLY_PHASE_TRANSACTION factory False)"

definition remove_transaction :: "int \<Rightarrow> (int, 'f transaction) omap \<Rightarrow> (int, 'f transaction) omap" where
  "remove_transaction cmd m = om_erase cmd m"

definition find_transaction :: "(int, 'f transaction) omap \<Rightarrow> int \<Rightarrow> 'f transaction option" where
  "find_transaction m cmd = map_of m cmd"

section \<open>Sending, case by case\<close>

definition mt_inv :: "('f, 'd) multi_manager \<Rightarrow> bool" where
  "mt_inv mt \<longleftrightarrow> ids_below (mt_trans_list mt) (mt_next_id mt) \<and> 0 < mt_next_id mt \<and>
     (\<forall>e \<in> set (mt_trans_list mt). t_id (snd e) = fst e \<and> 0 < fst e) \<and> om_ok (m_bind_list mt)"

text \<open>Package ids are not reused, so a binding never collides with one that is left over.\<close>

definition world_inv :: "('c, 'f, 'd, 'app) world \<Rightarrow> bool" where
  "world_inv w \<longleftrightarrow> pm_inv (w_packages w) \<and> mt_inv (w_multi w) \<and> tmr_inv (w_timers w) \<and> pt_norm (w_now w) \<and>
     (\<forall>k \<in> fst ` set (m_bind_list (w_multi w)). k < pm_next_id (w_packages w))"

text \<open>The package that \<open>send_protocol\<close> builds, and the world in which it is on its way.\<close>

definition outgoing :: "int \<Rightarrow> int \<Rightarrow> int \<Rightarrow> int \<Rightarrow> 'c \<Rightarrow> 'c package" where
  "outgoing k len cmd trigger_package_id content = (new_package len k)
     \<lparr>p_header := \<lparr>h_version = PACKAGE_VERSION, h_command = cmd, h_content_length = len,
                   h_self_package_id = k, h_trigger_package_id = trigger_package_id\<rparr>,
      p_content := Some content\<rparr>"

definition sent :: "int \<Rightarrow> int \<Rightarrow> 'c package \<Rightarrow> int \<Rightarrow> ('c, 'f, 'd, 'app) world \<Rightarrow> ('c, 'f, 'd, 'app) world" where
  "sent conn_id service_id p bind_trans_id w = w
     \<lparr>w_packages := (w_packages w)\<lparr>pm_next_id := pm_next_id (w_packages w) + 1,
        m_package_list := om_insert (pm_next_id (w_packages w)) p (m_package_list (w_packages w))\<rparr>,
      w_multi := (if bind_trans_id = 0 then w_multi w
        else (w_multi w)\<lparr>m_bind_list := om_insert (pm_next_id (w_packages w)) bind_trans_id (m_bind_list (w_multi w))\<rparr>),
      w_queues := queue_push OUT_QUEUE (NETWORK_TYPE \<lparr>nm_conn_id = conn_id, nm_service_id = service_id,
        nm_package_id = pm_next_id (w_packages w)\<rparr>) (w_queues w)\<rparr>"

lemma om_update_insert_fresh:
  "om_ok m \<Longrightarrow> map_of m k = None \<Longrightarrow> om_update k f (om_insert k v m) = om_insert k (f v) m"
  by (induction m) (auto simp: om_update_def map_of_eq_None_iff image_iff intro!: map_idI, fastforce+)

lemma om_erase_insert_fresh: "om_ok m \<Longrightarrow> map_of m k = None \<Longrightarrow> om_erase k (om_insert k v m) = m"
  by (induction m) (auto simp: om_erase_def filter_id_conv map_of_eq_None_iff image_iff, fastforce+)

lemma send_length:
  assumes "0 \<le> n" and "n < 2 ^ 64" and "\<not> MAX_CONTENT_LEN < (word_of_int n :: size_t)"
  shows "n \<le> 65518" and "\<not> HEADER_LEN + aes_cipher_length (word_of_int n) < HEADER_LEN"
proof -
  have n: "unat (word_of_int n :: size_t) = nat n"
    using assms(1,2) by (intro unat_word_of_int) auto
  then have "nat n \<le> 65518"
    using assms(3) by (simp add: word_less_nat_alt package_consts)
  then show le: "n \<le> 65518" by simp
  have "nat n \<le> 65518" using le by simp
  then have a: "unat (aes_cipher_length (word_of_int n)) = (nat n + 15) div 16 * 16"
    by (subst aes_cipher_length_nat) (auto simp: n)
  have "(nat n + 15) div 16 * 16 \<le> nat n + 15" by simp
  then have "unat (HEADER_LEN + aes_cipher_length (word_of_int n)) = 18 + (nat n + 15) div 16 * 16"
    using \<open>nat n \<le> 65518\<close> a by (subst unat_add_lem [THEN iffD1]) (auto simp: HEADER_LEN_def)
  then show "\<not> HEADER_LEN + aes_cipher_length (word_of_int n) < HEADER_LEN"
    by (simp add: word_less_nat_alt HEADER_LEN_def)
qed

lemma enter_update:
  assumes "pm_inv pm"
  shows "update_package (pm_next_id pm) f (enter_package n pm) = pm\<lparr>pm_next_id := pm_next_id pm + 1,
      m_package_list := om_insert (pm_next_id pm) (f (new_package n (pm_next_id pm))) (m_package_list pm)\<rparr>"
    and "remove_package (pm_next_id pm) (update_package (pm_next_id pm) f (enter_package n pm)) =
      pm\<lparr>pm_next_id := pm_next_id pm + 1\<rparr>"
proof -
  have "om_ok (m_package_list pm)" "map_of (m_package_list pm) (pm_next_id pm) = None"
    using assms by (auto simp: pm_inv_def ids_below_fresh)
  then show "update_package (pm_next_id pm) f (enter_package n pm) = pm\<lparr>pm_next_id := pm_next_id pm + 1,
      m_package_list := om_insert (pm_next_id pm) (f (new_package n (pm_next_id pm))) (m_package_list pm)\<rparr>"
    and "remove_package (pm_next_id pm) (update_package (pm_next_id pm) f (enter_package n pm)) =
      pm\<lparr>pm_next_id := pm_next_id pm + 1\<rparr>"
    by (simp_all add: update_package_def remove_package_def enter_package_def om_update_insert_fresh
        om_erase_insert_fresh)
qed

text \<open>
  The sizes that \<open>ByteSize\<close> returns fit an \<open>int\<close>; the case of a length that wraps, which
  \<open>register_package\<close> has, is then out of reach.
\<close>

definition size_ok :: "'c codec \<Rightarrow> message \<Rightarrow> bool" where
  "size_ok C m \<longleftrightarrow> 0 \<le> size_of C m \<and> size_of C m < 2 ^ 31"

lemma send_protocol_cases:
  assumes inv: "world_inv w" and size: "size_ok C m"
    and send: "send_protocol C A conn m bid tid cmd svc w = (r, w')"
  obtains (too_large) "size_of C m > 65518" and "r = Inr ()" and "w' = w"
    | (no_memory) "\<not> A (HEADER_LEN + aes_cipher_length (word_of_int (size_of C m)))"
        and "r = Inl Std_exception" and "w' = w" and "size_of C m \<le> 65518"
    | (unknown) e where "send_command m cmd = Inl e" and "r = Inl e"
        and "w' = w\<lparr>w_packages := enter_package (size_of C m) (w_packages w)\<rparr>" and "size_of C m \<le> 65518"
    | (unserialised) "to_content C m = None" and "r = Inr ()"
        and "w' = w\<lparr>w_packages := (w_packages w)\<lparr>pm_next_id := pm_next_id (w_packages w) + 1\<rparr>\<rparr>" and "size_of C m \<le> 65518"
    | (sent) c content where "send_command m cmd = Inr c" and "to_content C m = Some content" and "r = Inr ()"
        and "w' = sent conn svc (outgoing (pm_next_id (w_packages w)) (size_of C m) c tid content) bid w"
        and "size_of C m \<le> 65518" and "A (HEADER_LEN + aes_cipher_length (word_of_int (size_of C m)))"
proof (cases "MAX_CONTENT_LEN < (word_of_int (size_of C m) :: size_t)")
  case True
  have "unat (word_of_int (size_of C m) :: size_t) = nat (size_of C m)"
    using size by (intro unat_word_of_int) (auto simp: size_ok_def)
  with True have "size_of C m > 65518" by (simp add: word_less_nat_alt package_consts)
  with True too_large send show ?thesis by (simp add: send_protocol_def)
next
  case False
  let ?n = "size_of C m" and ?pm = "w_packages w"
  note len = send_length [OF _ _ False]
  have small: "size_of C m \<le> 65518" using len(1) size by (simp add: size_ok_def)
  have pm: "pm_inv ?pm" using inv by (simp add: world_inv_def)
  obtain q pm1 where reg: "register_package A ?n ?pm = (q, pm1)" by fastforce
  note send = send [unfolded send_protocol_def Let_def]
  from pm reg show ?thesis
  proof (cases rule: register_package_cases)
    case no_memory
    with send False reg have "r = Inl Std_exception" "w' = w" by (simp_all add: bindE_def zoom_def)
    with no_memory(1) show ?thesis using small by (rule that(2))
  next
    case short
    with len size show ?thesis by (simp add: size_ok_def)
  next
    case ok
    let ?k = "pm_next_id ?pm"
    have k: "p_id (new_package ?n ?k) = ?k" by (simp add: new_package_def)
    show ?thesis
    proof (cases "send_command m cmd")
      case (Inl e)
      with send False reg ok k have "r = Inl e" "w' = w\<lparr>w_packages := enter_package ?n ?pm\<rparr>"
        by (simp_all add: bindE_def zoom_def)
      with Inl show ?thesis using small by (rule that(3))
    next
      case (Inr c)
      show ?thesis
      proof (cases "to_content C m")
        case None
        with send False reg ok k Inr
        have "r = Inr ()" "w' = w\<lparr>w_packages := ?pm\<lparr>pm_next_id := ?k + 1\<rparr>\<rparr>"
          by (simp_all add: bindE_def zoom_def k enter_update(2) [OF pm])
        with None show ?thesis using small by (rule that(4))
      next
        case (Some content)
        let ?p = "outgoing ?k ?n c tid content"
        let ?pm' = "?pm\<lparr>pm_next_id := ?k + 1, m_package_list := om_insert ?k ?p (m_package_list ?pm)\<rparr>"
        have fresh: "om_ok (m_package_list ?pm)" "map_of (m_package_list ?pm) ?k = None"
          using pm by (auto simp: pm_inv_def ids_below_fresh)
        have built: "update_package ?k (\<lambda>p. p\<lparr>p_content := Some content\<rparr>)
            (update_package ?k (\<lambda>p. p\<lparr>p_header := (p_header p)\<lparr>h_command := c, h_content_length := ?n,
               h_self_package_id := ?k, h_trigger_package_id := tid\<rparr>\<rparr>) (enter_package ?n ?pm)) = ?pm'"
          by (simp only: enter_update(1) [OF pm])
            (simp add: update_package_def om_update_insert_fresh [OF fresh] outgoing_def new_package_def reset_header_def)
        have bound: "map_of (m_bind_list (w_multi w)) ?k = None"
          using inv by (force simp: world_inv_def map_of_eq_None_iff)
        have "r = Inr () \<and> w' = sent conn svc ?p bid w"
          using send False reg ok Some Inr
          by (cases "bid = 0")
            (simp_all add: bindE_def zoom_def k built bind_transaction_def bound send_package_def sent_def)
        with Inr Some show ?thesis using that(5) small ok(2) by blast
      qed
    qed
  qed
qed

lemma send_protocol_sent:
  assumes inv: "world_inv w" and size: "size_ok C m" "size_of C m \<le> 65518"
    and "A (HEADER_LEN + aes_cipher_length (word_of_int (size_of C m)))"
    and "send_command m cmd = Inr c" and "to_content C m = Some content"
  shows "send_protocol C A conn m bid tid cmd svc w =
    (Inr (), sent conn svc (outgoing (pm_next_id (w_packages w)) (size_of C m) c tid content) bid w)"
proof -
  obtain r w' where send: "send_protocol C A conn m bid tid cmd svc w = (r, w')" by fastforce
  with inv size(1) show ?thesis
    by (cases rule: send_protocol_cases) (use assms send in auto)
qed

lemma sent_packages:
  assumes inv: "pm_inv pm" and p: "p_id p = pm_next_id pm"
    and pm': "pm' = pm\<lparr>pm_next_id := pm_next_id pm + 1,
      m_package_list := om_insert (pm_next_id pm) p (m_package_list pm)\<rparr>"
  shows "pm_inv pm'" and "find_package pm' = (find_package pm)(pm_next_id pm \<mapsto> p)"
    and "find_package pm (pm_next_id pm) = None"
proof -
  have *: "om_ok (m_package_list pm)" "map_of (m_package_list pm) (pm_next_id pm) = None"
    using inv by (auto simp: pm_inv_def ids_below_fresh)
  show "pm_inv pm'" using inv p by (auto simp: pm' pm_inv_def set_om_insert [OF *] ids_below_insert)
  show "find_package pm' = (find_package pm)(pm_next_id pm \<mapsto> p)"
    by (simp add: pm' fun_eq_iff find_package_def map_of_om_insert_fresh [OF *])
  show "find_package pm (pm_next_id pm) = None" using * by (simp add: find_package_def)
qed

lemma outgoing_simps [simp]:
  "p_id (outgoing k n c tid content) = k"
  "p_content (outgoing k n c tid content) = Some content"
  "h_command (p_header (outgoing k n c tid content)) = c"
  "h_trigger_package_id (p_header (outgoing k n c tid content)) = tid"
  "h_self_package_id (p_header (outgoing k n c tid content)) = k"
  "h_content_length (p_header (outgoing k n c tid content)) = n"
  by (simp_all add: outgoing_def new_package_def)

section \<open>What a transaction's code does to the worker's state\<close>

text \<open>
  \<open>infra_step me s t\<close>: from \<open>s\<close> to \<open>t\<close> no package is lost, no transaction is registered or
  removed, nothing is put into the worker's own queue, timers are only added and expire
  after now, and whoever waits in \<open>t\<close> waited in \<open>s\<close> or has a timer that ends the wait.
  \<open>calm\<close> code only makes such steps.
\<close>

definition has_wait_timer :: "'f timer_action timer_manager \<Rightarrow> int \<Rightarrow> bool" where
  "has_wait_timer tm k \<longleftrightarrow> (\<exists>x \<in> set (m_timer_queue tm). tm_expiry_action x = Wait_timeout k)"

definition timers_added :: "precise_time \<Rightarrow> 'x timer list \<Rightarrow> 'x timer_manager \<Rightarrow> 'x timer_manager \<Rightarrow> bool" where
  "timers_added now xs tm tm' \<longleftrightarrow> m_timer_queue tm' = fold heap_push xs (m_timer_queue tm) \<and>
     (\<forall>x \<in> set xs. pt_norm (tm_expiry_time x) \<and> pt_ns now \<le> pt_ns (tm_expiry_time x))"

definition waiting :: "('f, 'd) multi_manager \<Rightarrow> int \<Rightarrow> bool" where
  "waiting mt k \<longleftrightarrow> (\<exists>t. find_multi mt k = Some t \<and> t_is_waiting t)"

definition trigger_command :: "('f, 'd) multi_manager \<Rightarrow> int \<Rightarrow> int option" where
  "trigger_command mt k = map_option (\<lambda>t. ts_command (t_first_trigger_source t)) (find_multi mt k)"

definition infra_step :: "int \<Rightarrow> ('c, 'f, 'd, 'app) world \<Rightarrow> ('c, 'f, 'd, 'app) world \<Rightarrow> bool" where
  "infra_step me s t \<longleftrightarrow> world_inv t \<and> w_trans_list t = w_trans_list s \<and> w_now t = w_now s \<and>
     (\<forall>k p. find_package (w_packages s) k = Some p \<longrightarrow> find_package (w_packages t) k = Some p) \<and>
     mt_next_id (w_multi t) = mt_next_id (w_multi s) \<and>
     map fst (mt_trans_list (w_multi t)) = map fst (mt_trans_list (w_multi s)) \<and>
     q_in (w_queues t) = q_in (w_queues s) \<and>
     (\<forall>k. k \<noteq> me \<longrightarrow> find_multi (w_multi t) k = find_multi (w_multi s) k) \<and>
     (\<exists>xs. timers_added (w_now s) xs (w_timers s) (w_timers t) \<and>
        (waiting (w_multi t) me \<longrightarrow> waiting (w_multi s) me \<or> (\<exists>x \<in> set xs. tm_expiry_action x = Wait_timeout me))) \<and>
     trigger_command (w_multi t) me = trigger_command (w_multi s) me"

definition calm :: "int \<Rightarrow> (('c, 'f, 'd, 'app) world, 'a) exec \<Rightarrow> bool" where
  "calm me m \<longleftrightarrow> (\<forall>s. world_inv s \<longrightarrow> infra_step me s (snd (m s)))"

named_theorems calm_intros \<open>rules that derive \<open>calm\<close> for a compound call\<close>

lemma set_fold_heap_push [simp]: "set (fold heap_push xs q) = set xs \<union> set q"
  by (induction xs arbitrary: q) auto

lemma timers_added_refl [simp]: "timers_added now [] tm tm"
  by (simp add: timers_added_def)

lemma timers_added_trans:
  "timers_added now xs a b \<Longrightarrow> timers_added now ys b c \<Longrightarrow> timers_added now (xs @ ys) a c"
  by (auto simp: timers_added_def)

lemma timers_added_wait:
  "timers_added now xs a b \<Longrightarrow>
   has_wait_timer b k \<longleftrightarrow> has_wait_timer a k \<or> (\<exists>x \<in> set xs. tm_expiry_action x = Wait_timeout k)"
  by (auto simp: timers_added_def has_wait_timer_def)

lemma infra_step_refl: "world_inv s \<Longrightarrow> infra_step me s s"
  by (auto simp: infra_step_def intro!: exI [of _ "[]"])

lemma infra_step_trans:
  assumes st: "infra_step me s t" and tu: "infra_step me t u"
  shows "infra_step me s u"
proof -
  from st obtain xs where xs: "timers_added (w_now s) xs (w_timers s) (w_timers t)"
      "waiting (w_multi t) me \<longrightarrow> waiting (w_multi s) me \<or> (\<exists>x \<in> set xs. tm_expiry_action x = Wait_timeout me)"
    by (auto simp: infra_step_def)
  from st tu obtain ys where ys: "timers_added (w_now s) ys (w_timers t) (w_timers u)"
      "waiting (w_multi u) me \<longrightarrow> waiting (w_multi t) me \<or> (\<exists>x \<in> set ys. tm_expiry_action x = Wait_timeout me)"
    by (auto simp: infra_step_def)
  have "waiting (w_multi u) me \<longrightarrow> waiting (w_multi s) me \<or> (\<exists>x \<in> set (xs @ ys). tm_expiry_action x = Wait_timeout me)"
    using xs(2) ys(2) by auto
  with timers_added_trans [OF xs(1) ys(1)]
  have "\<exists>zs. timers_added (w_now s) zs (w_timers s) (w_timers u) \<and>
     (waiting (w_multi u) me \<longrightarrow> waiting (w_multi s) me \<or> (\<exists>x \<in> set zs. tm_expiry_action x = Wait_timeout me))"
    by blast
  with st tu show ?thesis unfolding infra_step_def by auto
qed

lemma infra_step_inv: "infra_step me s t \<Longrightarrow> world_inv t"
  by (simp add: infra_step_def)

lemma calmD: "calm me m \<Longrightarrow> world_inv s \<Longrightarrow> m s = (r, t) \<Longrightarrow> infra_step me s t"
  by (metis calm_def snd_conv)

lemma calm_ret [calm_intros]: "calm me (ret a)"
  and calm_fail [calm_intros]: "calm me (fail e)"
  and calm_gets [calm_intros]: "calm me (gets f)"
  and calm_getsE [calm_intros]: "calm me (getsE g)"
  and calm_throw_if [calm_intros]: "calm me (throw_if b c)"
  by (simp_all add: calm_def infra_step_refl)

lemma calm_bindE [calm_intros]:
  assumes "calm me m" and "\<And>a. calm me (f a)"
  shows "calm me (bindE m f)"
  unfolding calm_def
proof (intro allI impI)
  fix s :: "('a, 'b, 'c, 'd) world" assume s: "world_inv s"
  obtain r t where m: "m s = (r, t)" by fastforce
  note st = calmD [OF assms(1) s m]
  show "infra_step me s (snd (bindE m f s))"
  proof (cases r)
    case (Inr a)
    obtain q u where f: "f a t = (q, u)" by fastforce
    note tu = calmD [OF assms(2) infra_step_inv [OF st] f]
    show ?thesis using infra_step_trans [OF st tu] by (simp add: bindE_def m f Inr)
  qed (simp add: bindE_def m st)
qed

lemma calm_if [calm_intros]: "calm me m \<Longrightarrow> calm me n \<Longrightarrow> calm me (if b then m else n)"
  by simp

lemma calm_option [calm_intros]:
  "calm me m \<Longrightarrow> (\<And>a. calm me (f a)) \<Longrightarrow> calm me (case x of None \<Rightarrow> m | Some a \<Rightarrow> f a)"
  by (cases x) simp_all

lemma calm_prod [calm_intros]: "(\<And>a b. calm me (f a b)) \<Longrightarrow> calm me (case x of (a, b) \<Rightarrow> f a b)"
  by (cases x) simp

lemma infra_step_app: "world_inv s \<Longrightarrow> infra_step me s (s\<lparr>w_app := a\<rparr>)"
  by (auto simp: infra_step_def world_inv_def intro!: exI [of _ "[]"])

lemma calm_on_app [calm_intros]: "calm me (on_app m)"
  by (auto simp: calm_def zoom_def infra_step_app split: prod.split)

lemma infra_step_packages:
  assumes "world_inv s" and "pm_inv pm" and "pm_next_id (w_packages s) \<le> pm_next_id pm"
    and "\<And>k p. find_package (w_packages s) k = Some p \<Longrightarrow> find_package pm k = Some p"
  shows "infra_step me s (s\<lparr>w_packages := pm\<rparr>)"
  using assms by (fastforce simp: infra_step_def world_inv_def intro!: exI [of _ "[]"])

lemma om_insert_key: "(a, b) \<in> set (om_insert k v m) \<Longrightarrow> a = k \<or> (\<exists>c. (a, c) \<in> set m)"
  by (induction k v m rule: om_insert.induct) (auto split: if_splits)

lemma infra_step_sent:
  assumes inv: "world_inv s" and p: "p_id p = pm_next_id (w_packages s)"
  shows "infra_step me s (sent conn svc p bid s)"
proof -
  let ?pm = "w_packages s"
  have pm: "pm_inv ?pm" using inv by (simp add: world_inv_def)
  define pm' where "pm' = ?pm\<lparr>pm_next_id := pm_next_id ?pm + 1,
      m_package_list := om_insert (pm_next_id ?pm) p (m_package_list ?pm)\<rparr>"
  note new = sent_packages [OF pm p pm'_def]
  have world: "world_inv (sent conn svc p bid s)"
    using inv new(1) by (auto simp: world_inv_def mt_inv_def sent_def pm'_def dest!: om_insert_key dest: bspec)
  have queue: "q_in (w_queues (sent conn svc p bid s)) = q_in (w_queues s)"
    by (simp add: sent_def queue_push_def)
  have multi: "mt_trans_list (w_multi (sent conn svc p bid s)) = mt_trans_list (w_multi s)"
      "mt_next_id (w_multi (sent conn svc p bid s)) = mt_next_id (w_multi s)"
      "w_timers (sent conn svc p bid s) = w_timers s" "w_now (sent conn svc p bid s) = w_now s"
      "w_trans_list (sent conn svc p bid s) = w_trans_list s" "w_packages (sent conn svc p bid s) = pm'"
    by (simp_all add: sent_def pm'_def)
  show ?thesis
    unfolding infra_step_def using world new(2,3)
    by (auto simp: multi queue waiting_def find_multi_def trigger_command_def intro!: exI [of _ "[]"])
qed

text \<open>The codec's sizes are those of real messages.\<close>

definition sizes_ok :: "'c codec \<Rightarrow> bool" where
  "sizes_ok C \<longleftrightarrow> (\<forall>m. size_ok C m)"

lemma calm_send_protocol:
  assumes "sizes_ok C"
  shows "calm me (send_protocol C A conn m bid tid cmd svc)"
  unfolding calm_def
proof (intro allI impI)
  fix s :: "('a, 'b, 'c, 'd) world" assume s: "world_inv s"
  obtain r t where send: "send_protocol C A conn m bid tid cmd svc s = (r, t)" by fastforce
  have pm: "pm_inv (w_packages s)" using s by (simp add: world_inv_def)
  note enter = enter_package_inv [OF pm, of "size_of C m"]
  have fresh: "find_package (w_packages s) (pm_next_id (w_packages s)) = None"
    using pm by (auto simp: pm_inv_def find_package_def ids_below_fresh)
  have "size_ok C m" using assms by (simp add: sizes_ok_def)
  from s this send have "infra_step me s t"
  proof (cases rule: send_protocol_cases)
    case (unknown e)
    show ?thesis unfolding unknown(3)
      by (rule infra_step_packages [OF s enter(1)]) (use enter fresh in auto)
  next
    case unserialised
    have "pm_inv ((w_packages s)\<lparr>pm_next_id := pm_next_id (w_packages s) + 1\<rparr>)"
      using pm by (auto simp: pm_inv_def intro: ids_below_mono)
    with s show ?thesis unfolding unserialised(3)
      by (rule infra_step_packages) (auto simp: find_package_def)
  next
    case (sent c content)
    show ?thesis unfolding sent(4) by (rule infra_step_sent [OF s]) simp
  qed (simp_all add: infra_step_refl s)
  then show "infra_step me s (snd (send_protocol C A conn m bid tid cmd svc s))" by (simp add: send)
qed

lemma calm_send [calm_intros]:
  assumes "sizes_ok C"
  shows "calm me (send_back C A conn m p)" and "calm me (send_back_protocol C A conn m src bid)"
    and "calm me (service_send_protocol C A svc m bid)" and "calm me (on_transaction_error C A conn src e)"
  using assms
  by (simp_all add: send_back_def send_back_protocol_def service_send_protocol_def on_transaction_error_def
      calm_send_protocol)

lemma calm_this_trans [calm_intros]: "calm me (this_trans k)"
  by (simp add: this_trans_def calm_getsE)

lemma find_multi_update: "find_multi (update_multi k f mt) j = (if j = k then map_option f (find_multi mt k) else find_multi mt j)"
  by (simp add: find_multi_def update_multi_def map_of_om_update)

lemma mt_inv_update: "mt_inv mt \<Longrightarrow> (\<And>t. t_id (f t) = t_id t) \<Longrightarrow> mt_inv (update_multi k f mt)"
  by (auto simp: mt_inv_def update_multi_def set_om_update ids_below_update)

lemma world_inv_update: "world_inv s \<Longrightarrow> (\<And>t. t_id (f t) = t_id t) \<Longrightarrow>
    world_inv (s\<lparr>w_multi := update_multi k f (w_multi s)\<rparr>)"
  by (simp add: world_inv_def mt_inv_update) (simp add: update_multi_def)

lemma update_multi_simps [simp]:
  "mt_next_id (update_multi k f mt) = mt_next_id mt"
  "map fst (mt_trans_list (update_multi k f mt)) = map fst (mt_trans_list mt)"
  "m_bind_list (update_multi k f mt) = m_bind_list mt"
  by (simp_all add: update_multi_def)

lemma write_trans_apply:
  "write_trans k f s = (case find_multi (w_multi s) k of
     None \<Rightarrow> (Inl Undefined, s) | Some t \<Rightarrow> (Inr (), s\<lparr>w_multi := update_multi k f (w_multi s)\<rparr>))"
  by (simp add: write_trans_def this_trans_def bindE_getsE zoom_def split: option.split)

lemma calm_write_trans:
  assumes "\<And>t. t_id (f t) = t_id t" and "\<And>t. t_is_waiting (f t) \<Longrightarrow> t_is_waiting t"
    and "\<And>t. t_first_trigger_source (f t) = t_first_trigger_source t"
  shows "calm k (write_trans k f)"
  unfolding calm_def
proof (intro allI impI)
  fix s :: "('c, 'a, 'b, 'd) world" assume s: "world_inv s"
  have "waiting (w_multi s) j" if "waiting (update_multi k f (w_multi s)) j" for j
    using that assms(2) by (auto simp: waiting_def find_multi_update split: if_splits)
  then have "infra_step k s (s\<lparr>w_multi := update_multi k f (w_multi s)\<rparr>)"
    using world_inv_update [OF s, of f k] assms(1,3) by (auto simp: infra_step_def find_multi_update trigger_command_def option.map_comp comp_def intro!: exI [of _ "[]"])
  with s show "infra_step k s (snd (write_trans k f s))"
    by (simp add: write_trans_apply infra_step_refl split: option.split)
qed

lemma calm_clear_waiting_state [calm_intros]: "calm k (clear_waiting_state k)"
  unfolding clear_waiting_state_def by (rule calm_write_trans) auto

lemma add_timer_apply:
  "add_timer caller interval a p s = (Inr (), s\<lparr>w_timers :=
     snd (register_timer caller interval a p (pt_seconds 0) (w_now s) (w_timers s))\<rparr>)"
  by (simp add: add_timer_def)

text \<open>A timer is put among the others; it expires an interval from now.\<close>

lemma register_timer_added:
  assumes "tmr_inv tm" and "pt_norm now" and "pt_norm interval" and "0 \<le> seconds interval"
    and tm': "tm' = snd (register_timer caller interval a p (pt_seconds 0) now tm)"
  shows "tmr_inv tm'"
    and "\<exists>x. timers_added now [x] tm tm' \<and> tm_expiry_action x = a \<and> tm_expiry_time x = pt_add now interval"
proof -
  show "tmr_inv tm'" unfolding tm' by (rule register_timer_inv) (use assms in auto)
  define x where "x = \<lparr>tm_timer_id = tmr_next_id tm, tm_interval = interval, tm_expiry_time = pt_add now interval,
     tm_expiry_action = a, tm_call_policy = p, tm_caller = caller\<rparr>"
  have q: "m_timer_queue tm' = fold heap_push [x] (m_timer_queue tm)"
    by (simp add: tm' register_timer_def x_def pt_seconds_def)
  have "0 \<le> pt_ns interval" using assms(3,4) by (simp add: pt_defs)
  then have "pt_norm (tm_expiry_time x) \<and> pt_ns now \<le> pt_ns (tm_expiry_time x)"
    using assms(2,3) by (simp add: x_def pt_norm_add pt_ns_add)
  with q have "timers_added now [x] tm tm'" by (simp add: timers_added_def)
  then show "\<exists>x. timers_added now [x] tm tm' \<and> tm_expiry_action x = a \<and> tm_expiry_time x = pt_add now interval"
    by (intro exI [of _ x]) (simp add: x_def)
qed

lemma wait_next_phase_step:
  assumes "0 \<le> timeout" and s: "world_inv s"
  shows "infra_step k s (snd (wait_next_phase same_class k conn cmd cb timeout svc s))"
proof -
  let ?f = "\<lambda>t. t\<lparr>t_wait_conn_id := conn, t_wait_service_id := svc, t_wait_cmd := cmd,
      t_current_phase := t_current_phase t + 1, t_on_active := Some cb, t_is_waiting := True\<rparr>"
  show "infra_step k s (snd (wait_next_phase same_class k conn cmd cb timeout svc s))"
  proof (cases "\<exists>t. find_multi (w_multi s) k = Some t \<and> same_class (t_data t) cb")
    case False
    then have "snd (wait_next_phase same_class k conn cmd cb timeout svc s) = s"
      by (auto simp: wait_next_phase_def this_trans_def bindE_getsE split: option.split)
    with s show ?thesis by (simp add: infra_step_refl)
  next
    case True
    let ?mt = "update_multi k ?f (w_multi s)"
    define tm' where "tm' = snd (register_timer ''wait_next_phase'' (pt_seconds timeout) (Wait_timeout k)
        CALL_ONCE (pt_seconds 0) (w_now s) (w_timers s))"
    have norm: "tmr_inv (w_timers s)" "pt_norm (w_now s)" using s by (simp_all add: world_inv_def)
    note tm = register_timer_added [OF norm pt_norm_seconds _ tm'_def]
    have secs: "0 \<le> seconds (pt_seconds timeout)" using assms by (simp add: pt_seconds_def)
    from True have "snd (wait_next_phase same_class k conn cmd cb timeout svc s) =
        s\<lparr>w_multi := ?mt, w_timers := tm'\<rparr>"
      by (auto simp: wait_next_phase_def this_trans_def bindE_getsE write_trans_apply add_timer_apply
          bindE_def tm'_def)
    moreover have "world_inv (s\<lparr>w_multi := ?mt, w_timers := tm'\<rparr>)"
      using world_inv_update [OF s, of ?f k] tm(1) [OF secs] by (simp add: world_inv_def)
    moreover have "waiting (w_multi s) j \<or> j = k" if "waiting ?mt j" for j
      using that by (auto simp: waiting_def find_multi_update split: if_splits)
    moreover obtain x where "timers_added (w_now s) [x] (w_timers s) tm'" "tm_expiry_action x = Wait_timeout k"
      using tm(2) [OF secs] by blast
    ultimately show ?thesis by (auto simp: infra_step_def find_multi_update trigger_command_def option.map_comp comp_def intro!: exI [of _ "[x]"])
  qed
qed

lemma calm_wait_next_phase: "0 \<le> timeout \<Longrightarrow> calm k (wait_next_phase same_class k conn cmd cb timeout svc)"
  by (simp add: calm_def wait_next_phase_step)

lemma calm_service_wait [calm_intros]: "calm k (service_wait_next_phase same_class k svc name cb)"
  unfolding service_wait_next_phase_def
  by (intro calm_intros calm_wait_next_phase) (simp add: DEFAULT_TIMEOUT_def)

lemma calm_send_back_message [calm_intros]: "sizes_ok C \<Longrightarrow> calm me (send_back_message C A k m)"
  by (simp add: send_back_message_def calm_intros)

lemma calm_multi_on_error [calm_intros]: "sizes_ok C \<Longrightarrow> calm me (multi_on_error C A k e)"
  by (simp add: multi_on_error_def calm_intros)

section \<open>Properties\<close>

text \<open>
  C34. Sending. A message that is small enough, for which there is memory, that has a command
  and that serialises, leaves in one package at the end of the out queue: its header has the
  command that \<open>send_command\<close> gives, the content's length, the package's own fresh id and
  the id of the package it answers; whoever parses it as the message's class gets the message
  back; and the waiting transaction, if one is given, is bound to the package's id. In every
  other case nothing is put into the queue and nothing is bound. A message that is too large is
  dropped, and the caller does not learn of it.
\<close>

theorem send_protocol_spec:
  assumes inv: "world_inv w" and codec: "codec_ok C" "size_ok C m"
    and send: "send_protocol C A conn m bid tid cmd svc w = (r, w')"
  shows "(if size_of C m \<le> 65518 \<and> A (HEADER_LEN + aes_cipher_length (word_of_int (size_of C m))) \<and>
        (\<exists>c. send_command m cmd = Inr c) \<and> to_content C m \<noteq> None
      then \<exists>c p. send_command m cmd = Inr c \<and> r = Inr () \<and>
         q_in (w_queues w') = q_in (w_queues w) \<and> q_out (w_queues w') = q_out (w_queues w) @ [NETWORK_TYPE
             \<lparr>nm_conn_id = conn, nm_service_id = svc, nm_package_id = p_id p\<rparr>] \<and>
         find_package (w_packages w') (p_id p) = Some p \<and> find_package (w_packages w) (p_id p) = None \<and>
         p_header p = \<lparr>h_version = PACKAGE_VERSION, h_command = c, h_content_length = size_of C m,
                       h_self_package_id = p_id p, h_trigger_package_id = tid\<rparr> \<and>
         parse_to_protocol C (msg_name m) Inr p = Inr m \<and>
         map_of (m_bind_list (w_multi w')) = (if bid = 0 then map_of (m_bind_list (w_multi w))
            else (map_of (m_bind_list (w_multi w)))(p_id p \<mapsto> bid))
      else w_queues w' = w_queues w \<and> w_multi w' = w_multi w \<and>
         (65518 < size_of C m \<longrightarrow> r = Inr () \<and> w' = w) \<and>
         (size_of C m \<le> 65518 \<and> r = Inr () \<longrightarrow> to_content C m = None)) \<and>
    w_app w' = w_app w \<and> w_timers w' = w_timers w"
  using inv codec(2) send
proof (cases rule: send_protocol_cases)
  case (sent c' content)
  let ?k = "pm_next_id (w_packages w)"
  define p where "p = outgoing ?k (size_of C m) c' tid content"
  have pm: "pm_inv (w_packages w)" using inv by (simp add: world_inv_def)
  note new = sent_packages [OF pm, of p, OF _ refl]
  have k: "p_id p = ?k" by (simp add: p_def)
  have bound: "om_ok (m_bind_list (w_multi w))" "map_of (m_bind_list (w_multi w)) ?k = None"
    using inv by (force simp: world_inv_def mt_inv_def map_of_eq_None_iff)+
  have "find_package (w_packages w') ?k = Some p" "find_package (w_packages w) ?k = None"
    using new k by (simp_all add: sent(4) sent_def p_def)
  moreover have "parse_to_protocol C (msg_name m) Inr p = Inr m"
    using codec(1) sent(2) by (simp add: parse_to_protocol_def p_def codec_ok_def)
  moreover have "map_of (m_bind_list (w_multi w')) = (if bid = 0 then map_of (m_bind_list (w_multi w))
            else (map_of (m_bind_list (w_multi w)))(?k \<mapsto> bid))"
    by (simp add: sent(4) sent_def map_of_om_insert_fresh [OF bound])
  moreover have "q_in (w_queues w') = q_in (w_queues w)" "q_out (w_queues w') = q_out (w_queues w) @ [NETWORK_TYPE
             \<lparr>nm_conn_id = conn, nm_service_id = svc, nm_package_id = ?k\<rparr>]"
    by (simp_all add: sent(4) sent_def queue_push_def)
  moreover have "p_header p = \<lparr>h_version = PACKAGE_VERSION, h_command = c', h_content_length = size_of C m,
                       h_self_package_id = ?k, h_trigger_package_id = tid\<rparr>"
    by (simp add: p_def outgoing_def)
  moreover have "w_app w' = w_app w \<and> w_timers w' = w_timers w"
    by (simp add: sent(4) sent_def)
  ultimately show ?thesis using sent(1-3,5,6) k
    by (auto intro!: exI [of _ p])
qed auto

definition empty_world :: "'app \<Rightarrow> ('c, 'f, 'd, 'app) world" where
  "empty_world a = \<lparr>w_packages = empty_package_manager, w_queues = empty_queues, w_multi = empty_multi_manager,
     w_trans_list = [], w_timers = empty_timer_manager, w_now = pt_seconds 0, w_app = a\<rparr>"

lemma world_inv_empty: "world_inv (empty_world a)"
  by (simp add: world_inv_def empty_world_def pm_inv_empty tmr_inv_empty mt_inv_def empty_multi_manager_def)

lemma sizes_ok_message: "sizes_ok message_codec"
  by (simp add: sizes_ok_def size_ok_def message_codec_def)

theorem send_protocol_spec_witness:
  "\<exists>p w'. snd (send_protocol message_codec (\<lambda>_. True) 7 (RspLoginUser None) 0 5 1005 0
          (empty_world () :: (message, unit, unit, unit) world)) = w' \<and>
       find_package (w_packages w') (p_id p) = Some p \<and> h_command (p_header p) = 1006 \<and>
       parse_to_protocol message_codec ''RspLoginUser'' Inr p = Inr (RspLoginUser None)"
proof -
  have cmd: "send_command (RspLoginUser None) 1005 = Inr 1006"
    by (simp add: send_command_def send_name_def get_command_def find_command_iff [THEN iffD2] default_command_name_map_def)
  have size: "size_ok message_codec (RspLoginUser None)" "size_of message_codec (RspLoginUser None) = 0"
      "to_content message_codec (RspLoginUser None) \<noteq> None"
    by (simp_all add: size_ok_def message_codec_def)
  note spec = send_protocol_spec [OF world_inv_empty [of "()"] codec_ok_message size(1) surjective_pairing,
      where A = "\<lambda>_. True" and conn = 7 and bid = 0 and tid = 5 and cmd = 1005 and svc = 0]
  then show ?thesis using cmd size by auto
qed

end
