(* ===== verification/Worker.thy ===== *)
theory Worker
  imports Transactions
begin

text \<open>
  The worker thread, \<open>foundation/worker.cpp\<close> with \<open>safe_call\<close> of
  \<open>foundation/exception.cpp\<close>: it takes a message from its queue, finds the transaction that
  the package is for, runs it with its errors caught, and lets one timer expire. The program
  whose transactions it runs is a record of functions; the locale \<open>calm_program\<close> states what
  they must not do to the worker's own state, and proves that no transaction is left without a
  timer that ends it.
\<close>

section \<open>The program\<close>

text \<open>
  \<open>pr_on_init\<close>, \<open>pr_callback\<close> and \<open>pr_on_error\<close> are member functions: their first int is the
  id of \<open>this\<close>. \<open>pr_call\<close> is what a delegated function or a timer's action does.
\<close>

record ('c, 'f, 'd, 'app) program =
  pr_codec :: "'c codec"
  pr_alloc :: "size_t \<Rightarrow> bool"
  pr_handler :: "'f \<Rightarrow> int \<Rightarrow> 'c package \<Rightarrow> (('c, 'f, 'd, 'app) world, unit) exec"
  pr_factory :: "'f \<Rightarrow> 'd"
  pr_on_init :: "int \<Rightarrow> int \<Rightarrow> 'c package \<Rightarrow> (('c, 'f, 'd, 'app) world, unit) exec"
  pr_callback :: "'f \<Rightarrow> int \<Rightarrow> int \<Rightarrow> 'c package \<Rightarrow> (('c, 'f, 'd, 'app) world, unit) exec"
  pr_on_error :: "int \<Rightarrow> int \<Rightarrow> error_info \<Rightarrow> (('c, 'f, 'd, 'app) world, unit) exec"
  pr_call :: "'f \<Rightarrow> (('c, 'f, 'd, 'app) world, unit) exec"

section \<open>Calls with their errors caught\<close>

text \<open>\<open>get_error_info\<close> and \<open>to_error_info\<close>; other exceptions leave the \<open>ErrorInfo\<close> as it was built.\<close>

fun fault_info :: "fault \<Rightarrow> error_info" where
  "fault_info (Thrown c) = (category_value SPACELESS_CATEGORY, code_value c)"
| "fault_info _ = (category_value INVALID_CATEGORY, 0)"

definition to_error_info :: "error_code \<Rightarrow> error_info" where
  "to_error_info c = (category_value SPACELESS_CATEGORY, code_value c)"

text \<open>\<open>None\<close> is true; \<open>Some\<close> is false, with the error info that was filled in.\<close>

definition safe_call :: "('s, unit) exec \<Rightarrow> ('s, error_info option) exec" where
  "safe_call function = (\<lambda>s. case function s of
     (Inr _, t) \<Rightarrow> (Inr None, t)
   | (Inl e, t) \<Rightarrow> if catchable e then (Inr (Some (fault_info e)), t) else (Inl e, t))"

definition call_transaction :: "(error_info \<Rightarrow> ('s, unit) exec) option \<Rightarrow> ('s, unit) exec \<Rightarrow> ('s, bool) exec" where
  "call_transaction error_handler function =
     bindE (safe_call function) (\<lambda>error. case error of
       None \<Rightarrow> ret True
     | Some error_info \<Rightarrow> (case error_handler of
         None \<Rightarrow> ret False
       | Some h \<Rightarrow> bindE (safe_call (h error_info)) (\<lambda>_. ret False)))"

section \<open>Messages\<close>

definition end_unless_waiting :: "int \<Rightarrow> (('c, 'f, 'd, 'app) world, unit) exec" where
  "end_unless_waiting trans_id =
     bindE (this_trans trans_id) (\<lambda>t.
     if \<not> t_is_waiting t then on_multi (modify (remove_multi trans_id)) else ret ())"

definition start_transaction ::
  "('c, 'f, 'd, 'app) program \<Rightarrow> int \<Rightarrow> 'c package \<Rightarrow> (('c, 'f, 'd, 'app) world, unit) exec" where
  "start_transaction P conn_id package =
     bindE (gets (\<lambda>w. find_transaction (w_trans_list w) (h_command (p_header package)))) (\<lambda>trans.
     case trans of
       None \<Rightarrow> ret ()
     | Some tr \<Rightarrow> (case tr_type tr of
         ONE_PHASE_TRANSACTION \<Rightarrow>
           bindE (call_transaction
               (if tr_error_handler tr
                then Some (on_transaction_error (pr_codec P) (pr_alloc P) conn_id (get_trigger_source (p_header package)))
                else None)
               (pr_handler P (tr_handler tr) conn_id package)) (\<lambda>_. ret ())
       | MULTIPLY_PHASE_TRANSACTION \<Rightarrow>
           bindE (on_multi (register_multi (pr_factory P (tr_handler tr)))) (\<lambda>t.
           bindE (pre_on_init (t_id t) conn_id package) (\<lambda>_.
           bindE (call_transaction (Some (pr_on_error P (t_id t) conn_id)) (pr_on_init P (t_id t) conn_id package)) (\<lambda>_.
           end_unless_waiting (t_id t))))))"

definition fits_waiting :: "int \<Rightarrow> int \<Rightarrow> int \<Rightarrow> ('f, 'd) multi_trans \<Rightarrow> bool" where
  "fits_waiting conn_id service_id command t \<longleftrightarrow>
     (if t_wait_conn_id t \<noteq> 0 then conn_id = t_wait_conn_id t else service_id = t_wait_service_id t) \<and>
     command = t_wait_cmd t"

definition activate_transaction ::
  "('c, 'f, 'd, 'app) program \<Rightarrow> int \<Rightarrow> int \<Rightarrow> 'c package \<Rightarrow> ('f, 'd) multi_trans \<Rightarrow>
   (('c, 'f, 'd, 'app) world, unit) exec" where
  "activate_transaction P conn_id service_id package t =
     bindE
       (if fits_waiting conn_id service_id (h_command (p_header package)) t
        then
          bindE (clear_waiting_state (t_id t)) (\<lambda>_.
          bindE (call_transaction (Some (pr_on_error P (t_id t) conn_id))
             (bindE (this_trans (t_id t)) (\<lambda>t. case t_on_active t of
                None \<Rightarrow> fail Undefined
              | Some callback \<Rightarrow> pr_callback P callback (t_id t) conn_id package))) (\<lambda>_.
          end_unless_waiting (t_id t)))
        else ret ())
       (\<lambda>_. on_multi (modify (remove_bound_transaction (h_trigger_package_id (p_header package)))))"

definition trigger_transaction ::
  "('c, 'f, 'd, 'app) program \<Rightarrow> int \<Rightarrow> int \<Rightarrow> int \<Rightarrow> (('c, 'f, 'd, 'app) world, unit) exec" where
  "trigger_transaction P conn_id service_id package_id =
     bindE (gets (\<lambda>w. find_package (w_packages w) package_id)) (\<lambda>found. case found of
       None \<Rightarrow> ret ()
     | Some package \<Rightarrow>
         bindE (gets (\<lambda>w. if h_trigger_package_id (p_header package) \<noteq> 0
                          then find_bound_transaction (w_multi w) (h_trigger_package_id (p_header package))
                          else None)) (\<lambda>waiting_trans.
         bindE (case waiting_trans of
                  None \<Rightarrow> start_transaction P conn_id package
                | Some t \<Rightarrow> activate_transaction P conn_id service_id package t) (\<lambda>_.
         on_packages (modify (remove_package package_id)))))"

fun process_message :: "('c, 'f, 'd, 'app) program \<Rightarrow> 'f actor_message \<Rightarrow> (('c, 'f, 'd, 'app) world, unit) exec" where
  "process_message P (NETWORK_TYPE msg) =
     trigger_transaction P (nm_conn_id msg) (nm_service_id msg) (nm_package_id msg)"
| "process_message P (DELEGATE_TYPE caller function) =
     bindE (safe_call (pr_call P function)) (\<lambda>_. ret ())"

section \<open>Timers\<close>

text \<open>The lambda of \<open>wait_next_phase\<close>.\<close>

definition on_wait_timeout :: "('c, 'f, 'd, 'app) program \<Rightarrow> int \<Rightarrow> (('c, 'f, 'd, 'app) world, unit) exec" where
  "on_wait_timeout P trans_id =
     bindE (gets (\<lambda>w. find_multi (w_multi w) trans_id)) (\<lambda>trans. case trans of
       None \<Rightarrow> ret ()
     | Some t \<Rightarrow>
         bindE (clear_waiting_state trans_id) (\<lambda>_.
         bindE (pr_on_error P trans_id (t_wait_conn_id t) (to_error_info (Foundation ERR_TRANSACTION_TIMEOUT))) (\<lambda>_.
         end_unless_waiting trans_id)))"

fun expiry_action :: "('c, 'f, 'd, 'app) program \<Rightarrow> 'f timer_action \<Rightarrow> (('c, 'f, 'd, 'app) world, unit) exec" where
  "expiry_action P (Wait_timeout trans_id) = on_wait_timeout P trans_id"
| "expiry_action P (Timer_call function) = pr_call P function"

definition process_expiry_timer :: "('c, 'f, 'd, 'app) program \<Rightarrow> (('c, 'f, 'd, 'app) world, int) exec" where
  "process_expiry_timer P =
     bindE (gets (\<lambda>w. due_timer (w_now w) (w_timers w))) (\<lambda>due. case due of
       None \<Rightarrow> ret 0
     | Some tmr \<Rightarrow>
         bindE (safe_call (expiry_action P (tm_expiry_action tmr))) (\<lambda>_.
         bindE (modify (\<lambda>w. w\<lparr>w_timers := finish_timer tmr (w_now w) (w_timers w)\<rparr>)) (\<lambda>_.
         ret 1)))"

text \<open>One iteration of the loop of \<open>Worker::run\<close>; the sleeps are the environment's.\<close>

definition worker_turn :: "('c, 'f, 'd, 'app) program \<Rightarrow> (('c, 'f, 'd, 'app) world, unit) exec" where
  "worker_turn P =
     bindE (gets (\<lambda>w. queue_empty IN_QUEUE (w_queues w))) (\<lambda>empty.
     bindE (if \<not> empty
            then bindE (zoom w_queues (\<lambda>x w. w\<lparr>w_queues := x\<rparr>) (queue_pop IN_QUEUE)) (process_message P)
            else ret ()) (\<lambda>_.
     bindE (process_expiry_timer P) (\<lambda>_. ret ())))"

text \<open>
  The worker among its environment: the clock goes on, the network thread receives a package
  and hands it over, and it takes a package out of the out queue, sends and removes it.
\<close>

inductive worker_step :: "('c, 'f, 'd, 'app) program \<Rightarrow> ('c, 'f, 'd, 'app) world \<Rightarrow> ('c, 'f, 'd, 'app) world \<Rightarrow> bool"
  for P where
  turn: "worker_turn P s = (Inr (), t) \<Longrightarrow> worker_step P s t"
| clock: "pt_norm now \<Longrightarrow> pt_ns (w_now s) \<le> pt_ns now \<Longrightarrow> worker_step P s (s\<lparr>w_now := now\<rparr>)"
| receive: "register_package (pr_alloc P) n (w_packages s) = (Inr p, pm) \<Longrightarrow>
    worker_step P s (s\<lparr>w_packages := update_package (p_id p) (\<lambda>p. p\<lparr>p_header := h, p_content := Some content\<rparr>) pm,
      w_queues := queue_push IN_QUEUE (NETWORK_TYPE \<lparr>nm_conn_id = conn, nm_service_id = svc, nm_package_id = p_id p\<rparr>)
        (w_queues s)\<rparr>)"
| delegated: "worker_step P s (s\<lparr>w_queues := queue_push IN_QUEUE (DELEGATE_TYPE caller f) (w_queues s)\<rparr>)"
| send: "queue_pop OUT_QUEUE (w_queues s) = (Inr m, q) \<Longrightarrow>
    worker_step P s (s\<lparr>w_queues := q, w_packages := (case m of
       NETWORK_TYPE msg \<Rightarrow> remove_package (nm_package_id msg) (w_packages s) | _ \<Rightarrow> w_packages s)\<rparr>)"

inductive_cases worker_stepE: "worker_step P s t"

section \<open>The worker's invariant\<close>

text \<open>
  \<open>settled w k\<close>: if \<open>k\<close> is a transaction, it waits, a timer will end the wait, and an error
  answer for the command it serves can be sent. Between two turns of the worker every
  transaction is settled; \<open>pending me w\<close> is the state in the middle of a turn for \<open>me\<close>.
\<close>

definition answerable :: "int \<Rightarrow> bool" where
  "answerable c \<longleftrightarrow> (\<exists>c'. send_command (RspError None) c = Inr c')"

definition settled :: "('c, 'f, 'd, 'app) world \<Rightarrow> int \<Rightarrow> bool" where
  "settled w k \<longleftrightarrow> (find_multi (w_multi w) k \<noteq> None \<longrightarrow> waiting (w_multi w) k \<and> has_wait_timer (w_timers w) k \<and>
     (\<exists>c. trigger_command (w_multi w) k = Some c \<and> answerable c))"

definition worker_inv :: "('c, 'f, 'd, 'app) world \<Rightarrow> bool" where
  "worker_inv w \<longleftrightarrow> world_inv w \<and> (\<forall>c \<in> fst ` set (w_trans_list w). answerable c) \<and> (\<forall>k. settled w k)"

definition pending :: "int \<Rightarrow> ('c, 'f, 'd, 'app) world \<Rightarrow> bool" where
  "pending me w \<longleftrightarrow> world_inv w \<and> (\<forall>c \<in> fst ` set (w_trans_list w). answerable c) \<and>
     (\<forall>k. k \<noteq> me \<longrightarrow> settled w k) \<and>
     (waiting (w_multi w) me \<longrightarrow> has_wait_timer (w_timers w) me) \<and>
     (\<forall>c. trigger_command (w_multi w) me = Some c \<longrightarrow> answerable c)"

lemma find_multi_pos: "world_inv w \<Longrightarrow> find_multi (w_multi w) k = Some t \<Longrightarrow> 0 < k \<and> t_id t = k"
  unfolding world_inv_def mt_inv_def find_multi_def by (fastforce dest: map_of_SomeD)

lemma find_multi_0: "world_inv w \<Longrightarrow> find_multi (w_multi w) 0 = None"
  using find_multi_pos [of w 0] by (cases "find_multi (w_multi w) 0") auto

lemma worker_inv_pending: "worker_inv w \<Longrightarrow> pending me w"
  by (auto simp: worker_inv_def pending_def settled_def waiting_def trigger_command_def)

lemma pending_0:
  assumes "pending 0 w"
  shows "worker_inv w"
proof -
  have "settled w 0" using assms by (simp add: pending_def settled_def find_multi_0)
  then have "settled w k" for k using assms by (cases "k = 0") (simp_all add: pending_def)
  then show ?thesis using assms by (simp add: worker_inv_def pending_def)
qed

lemma infra_step_settled:
  assumes "infra_step me s t" and "k \<noteq> me" and "settled s k"
  shows "settled t k"
proof -
  from assms(1) obtain xs where "timers_added (w_now s) xs (w_timers s) (w_timers t)"
    by (auto simp: infra_step_def)
  then show ?thesis
    using assms by (auto simp: infra_step_def settled_def waiting_def trigger_command_def timers_added_wait)
qed

lemma pending_infra:
  assumes "pending me s" and step: "infra_step me s t"
  shows "pending me t"
proof -
  from step obtain xs where xs: "timers_added (w_now s) xs (w_timers s) (w_timers t)"
    "waiting (w_multi t) me \<longrightarrow> waiting (w_multi s) me \<or> (\<exists>x \<in> set xs. tm_expiry_action x = Wait_timeout me)"
    by (auto simp: infra_step_def)
  then have "waiting (w_multi t) me \<longrightarrow> has_wait_timer (w_timers t) me"
    using assms(1) by (auto simp: pending_def timers_added_wait)
  moreover have "settled t k" if "k \<noteq> me" for k
    using assms(1) infra_step_settled [OF step that] that by (simp add: pending_def)
  ultimately show ?thesis
    using assms(1) step by (auto simp: pending_def infra_step_def)
qed

lemma keeps_pending: "calm me m \<Longrightarrow> keeps (pending me) m"
  unfolding keeps_def calm_def by (meson pending_def pending_infra)

lemma keeps_worker_inv: "calm 0 m \<Longrightarrow> keeps worker_inv m"
  by (metis keeps_def keeps_pending pending_0 worker_inv_pending)

lemma calm_safe_call [calm_intros]: "calm me m \<Longrightarrow> calm me (safe_call m)"
  unfolding calm_def safe_call_def by (force split: prod.split sum.split)

lemma calm_call_transaction [calm_intros]:
  assumes "\<And>h i. handler = Some h \<Longrightarrow> calm me (h i)" and "calm me f"
  shows "calm me (call_transaction handler f)"
  unfolding call_transaction_def using assms by (cases handler) (simp_all add: calm_intros)

lemma calm_call_some:
  "(\<And>i. calm me (h i)) \<Longrightarrow> calm me f \<Longrightarrow> calm me (call_transaction (Some h) f)"
  by (rule calm_call_transaction) simp_all

text \<open>A call that ends normally from a state with \<open>P\<close> ends in one with \<open>Q\<close>.\<close>

definition ends :: "('s \<Rightarrow> bool) \<Rightarrow> ('s, 'a) exec \<Rightarrow> ('s \<Rightarrow> bool) \<Rightarrow> bool" where
  "ends P m Q \<longleftrightarrow> (\<forall>s a t. P s \<longrightarrow> m s = (Inr a, t) \<longrightarrow> Q t)"

lemma ends_bindE: "ends P m R \<Longrightarrow> (\<And>a. ends R (f a) Q) \<Longrightarrow> ends P (bindE m f) Q"
  unfolding ends_def by (blast elim: bindE_InrE)

lemma ends_gets: "(\<And>s. P s \<Longrightarrow> ends (\<lambda>s'. s' = s) (f (g s)) Q) \<Longrightarrow> ends P (bindE (gets g) f) Q"
  by (auto simp: ends_def)

lemma ends_keeps: "keeps P m \<Longrightarrow> ends P m P"
  unfolding ends_def keeps_def by (metis snd_conv)

lemma ends_weaken: "ends P m Q \<Longrightarrow> (\<And>s. P' s \<Longrightarrow> P s) \<Longrightarrow> ends P' m Q"
  by (auto simp: ends_def)

lemma ends_ret: "(\<And>s. P s \<Longrightarrow> Q s) \<Longrightarrow> ends P (ret a) Q"
  by (auto simp: ends_def)

lemma ends_modify: "(\<And>s. P s \<Longrightarrow> Q (f s)) \<Longrightarrow> ends P (modify f) Q"
  by (auto simp: ends_def)

lemma find_multi_remove: "find_multi (remove_multi k mt) j = (if j = k then None else find_multi mt j)"
  by (simp add: find_multi_def remove_multi_def)

lemma mt_inv_remove: "mt_inv mt \<Longrightarrow> mt_inv (remove_multi k mt)"
  by (auto simp: mt_inv_def remove_multi_def set_om_erase ids_below_erase)

lemma worker_inv_removed:
  assumes "pending me s"
  shows "worker_inv (s\<lparr>w_multi := remove_multi me (w_multi s)\<rparr>)"
proof -
  let ?s = "s\<lparr>w_multi := remove_multi me (w_multi s)\<rparr>"
  have "settled ?s k" for k
  proof (cases "k = me")
    case False
    with assms have "settled s k" by (simp add: pending_def)
    with False show ?thesis by (simp add: settled_def find_multi_remove waiting_def trigger_command_def)
  qed (simp add: settled_def find_multi_remove)
  moreover have "world_inv ?s"
    using assms by (simp add: pending_def world_inv_def mt_inv_remove) (simp add: remove_multi_def)
  ultimately show ?thesis using assms by (simp add: worker_inv_def pending_def)
qed

lemma end_unless_waiting_inv:
  assumes s: "pending me s" and run: "end_unless_waiting me s = (Inr a, t)"
  shows "worker_inv t"
proof -
  obtain tr where tr: "find_multi (w_multi s) me = Some tr"
    using run by (auto simp: end_unless_waiting_def this_trans_def bindE_getsE split: option.splits)
  show ?thesis
  proof (cases "t_is_waiting tr")
    case False
    with run tr have "t = s\<lparr>w_multi := remove_multi me (w_multi s)\<rparr>"
      by (auto simp: end_unless_waiting_def this_trans_def bindE_getsE zoom_def)
    with worker_inv_removed [OF s] show ?thesis by simp
  next
    case True
    with run tr have "t = s" by (auto simp: end_unless_waiting_def this_trans_def bindE_getsE)
    moreover have "settled s me" using s True tr
      by (auto simp: pending_def settled_def waiting_def trigger_command_def)
    ultimately show ?thesis using s by (auto simp: pending_def worker_inv_def)
  qed
qed

text \<open>Registering a transaction and \<open>pre_on_init\<close>: the new one answers a command of the table.\<close>

lemma start_pending:
  assumes w: "worker_inv w" and c: "h_command (p_header p) \<in> fst ` set (w_trans_list w)"
    and reg: "on_multi (register_multi d) w = (Inr t, w1)" and pre: "pre_on_init (t_id t) conn p w1 = (r, w2)"
  shows "pending (t_id t) w2"
proof -
  let ?mt = "w_multi w" and ?k = "mt_next_id (w_multi w)"
  have mt: "mt_inv ?mt" using w by (simp add: worker_inv_def world_inv_def)
  then have fresh: "om_ok (mt_trans_list ?mt)" "map_of (mt_trans_list ?mt) ?k = None"
    by (auto simp: mt_inv_def ids_below_fresh)
  have t: "t = new_multi_trans ?k d" and k: "t_id t = ?k"
    and w1: "w_multi w1 = ?mt\<lparr>mt_next_id := ?k + 1, mt_trans_list := om_insert ?k t (mt_trans_list ?mt)\<rparr>"
      "w1 = w\<lparr>w_multi := w_multi w1\<rparr>"
    using reg fresh(2) by (auto simp: register_multi_def zoom_def new_multi_trans_def Let_def)
  have look: "find_multi (w_multi w1) j = (if j = ?k then Some t else find_multi ?mt j)" for j
    by (simp add: w1(1) find_multi_def map_of_om_insert_fresh [OF fresh])
  have mt1: "mt_inv (w_multi w1)"
    using mt k unfolding w1(1) by (auto simp: mt_inv_def set_om_insert [OF fresh] ids_below_insert)
  then have inv1: "world_inv w1" using w w1 by (auto simp: worker_inv_def world_inv_def)
  let ?f = "\<lambda>t. t\<lparr>t_first_conn_id := conn, t_first_trigger_source := get_trigger_source (p_header p)\<rparr>"
  have w2: "w2 = w1\<lparr>w_multi := update_multi ?k ?f (w_multi w1)\<rparr>"
    using pre k by (auto simp: pre_on_init_def write_trans_apply look )
  have look2: "find_multi (w_multi w2) j = (if j = ?k then Some (?f t) else find_multi ?mt j)" for j
    by (simp add: w2 find_multi_update look)
  have "world_inv w2" unfolding w2 by (rule world_inv_update [OF inv1]) (simp add: )
  moreover have "settled w2 j" if "j \<noteq> ?k" for j
  proof -
    have "settled w j" using w by (simp add: worker_inv_def)
    moreover have "w_timers w2 = w_timers w" by (simp add: w2) (subst w1(2), simp)
    ultimately show ?thesis using that by (simp add: settled_def waiting_def trigger_command_def look2)
  qed
  moreover have "\<not> waiting (w_multi w2) ?k"
    by (simp add: waiting_def look2 t new_multi_trans_def)
  moreover have "trigger_command (w_multi w2) ?k = Some (h_command (p_header p))"
    by (simp add: trigger_command_def look2  get_trigger_source_def)
  moreover have "w_trans_list w2 = w_trans_list w" by (simp add: w2) (subst w1(2), simp)
  ultimately show ?thesis using w c by (auto simp: pending_def worker_inv_def k)
qed

lemma worker_inv_unbind:
  assumes w: "worker_inv w"
  shows "worker_inv (w\<lparr>w_multi := remove_bound_transaction k (w_multi w)\<rparr>)"
proof -
  let ?w = "w\<lparr>w_multi := remove_bound_transaction k (w_multi w)\<rparr>"
  have look: "find_multi (w_multi ?w) = find_multi (w_multi w)"
    by (simp add: fun_eq_iff find_multi_def remove_bound_transaction_def)
  have "settled ?w j = settled w j" for j
    by (simp only: settled_def waiting_def trigger_command_def look) simp
  moreover have "mt_inv (w_multi ?w)"
    using w by (simp add: worker_inv_def world_inv_def mt_inv_def remove_bound_transaction_def)
  moreover have "fst ` set (m_bind_list (w_multi ?w)) \<subseteq> fst ` set (m_bind_list (w_multi w))"
    by (simp add: remove_bound_transaction_def)
  moreover have "\<forall>j \<in> fst ` set (m_bind_list (w_multi w)). j < pm_next_id (w_packages w)"
    using w by (simp add: worker_inv_def world_inv_def)
  ultimately have "\<forall>j \<in> fst ` set (m_bind_list (w_multi ?w)). j < pm_next_id (w_packages w)"
    and "mt_inv (w_multi ?w)" and "\<And>j. settled ?w j = settled w j" by blast+
  with w show ?thesis unfolding worker_inv_def world_inv_def by auto
qed

text \<open>
  What the expiry of the front timer leaves behind: the other timers, and every transaction
  but \<open>me\<close>, whose timer it may have been, with a timer that is not the front.
\<close>

definition still_timed :: "'f timer_action timer list \<Rightarrow> ('c, 'f, 'd, 'app) world \<Rightarrow> int \<Rightarrow> bool" where
  "still_timed q w k \<longleftrightarrow> (find_multi (w_multi w) k \<noteq> None \<longrightarrow> waiting (w_multi w) k \<and>
     (\<exists>x \<in> set q. tm_expiry_action x = Wait_timeout k) \<and>
     (\<exists>c. trigger_command (w_multi w) k = Some c \<and> answerable c))"

definition expired ::
  "int \<Rightarrow> 'f timer_action timer \<Rightarrow> 'f timer_action timer list \<Rightarrow> ('c, 'f, 'd, 'app) world \<Rightarrow> bool" where
  "expired me tmr q w \<longleftrightarrow> world_inv w \<and> (\<forall>c \<in> fst ` set (w_trans_list w). answerable c) \<and>
     m_timer_queue (w_timers w) = tmr # q \<and> (\<forall>k. k \<noteq> me \<longrightarrow> still_timed q w k)"

lemma finish_expired:
  assumes w: "expired me tmr q w" and me: "still_timed q w me"
  shows "worker_inv (w\<lparr>w_timers := finish_timer tmr (w_now w) (w_timers w)\<rparr>)"
proof -
  let ?tm = "finish_timer tmr (w_now w) (w_timers w)"
  have tm: "tmr_inv (w_timers w)" "pt_norm (w_now w)" and q: "m_timer_queue (w_timers w) = tmr # q"
    using w by (auto simp: expired_def world_inv_def)
  have "tmr_inv ?tm" by (rule finish_timer_inv [OF tm q])
  moreover have "set q \<subseteq> set (m_timer_queue ?tm)"
    by (auto simp: finish_timer_def q Let_def)
  then have "has_wait_timer ?tm k" if "\<exists>x \<in> set q. tm_expiry_action x = Wait_timeout k" for k
    using that by (auto simp: has_wait_timer_def)
  then have "settled (w\<lparr>w_timers := ?tm\<rparr>) k" if "still_timed q w k" for k
    using that by (simp add: settled_def still_timed_def)
  then have "settled (w\<lparr>w_timers := ?tm\<rparr>) k" for k
    using w me by (cases "k = me") (simp_all add: expired_def)
  ultimately show ?thesis using w by (simp add: expired_def worker_inv_def world_inv_def)
qed

lemma expired_remove:
  assumes w: "expired me tmr q w"
  shows "expired me tmr q (w\<lparr>w_multi := remove_multi me (w_multi w)\<rparr>)"
    and "still_timed q (w\<lparr>w_multi := remove_multi me (w_multi w)\<rparr>) me"
proof -
  let ?w = "w\<lparr>w_multi := remove_multi me (w_multi w)\<rparr>"
  have "still_timed q ?w k" if "still_timed q w k" "k \<noteq> me" for k
    using that by (simp add: still_timed_def find_multi_remove waiting_def trigger_command_def)
  moreover have "world_inv ?w"
    using w by (simp add: expired_def world_inv_def mt_inv_remove) (simp add: remove_multi_def)
  ultimately show "expired me tmr q ?w" using w by (simp add: expired_def)
  show "still_timed q ?w me" by (simp add: still_timed_def find_multi_remove)
qed

lemma fold_heap_push_behind:
  "pt_norm (tm_expiry_time u) \<Longrightarrow>
   \<forall>x \<in> set xs. pt_norm (tm_expiry_time x) \<and> pt_ns (tm_expiry_time u) \<le> pt_ns (tm_expiry_time x) \<Longrightarrow>
   fold heap_push xs (u # q) = u # fold heap_push xs q"
proof (induction xs arbitrary: q)
  case (Cons x xs)
  then have "heap_push x (u # q) = u # heap_push x q" by (intro heap_push_behind) auto
  with Cons show ?case by (simp del: heap_push.simps)
qed simp

lemma infra_step_registered:
  assumes "infra_step me s t"
  shows "find_multi (w_multi t) k = None \<longleftrightarrow> find_multi (w_multi s) k = None"
proof -
  have "find_multi mt k = None \<longleftrightarrow> k \<notin> set (map fst (mt_trans_list mt))" for mt :: "('b, 'c) multi_manager"
    by (simp add: find_multi_def map_of_eq_None_iff)
  with assms show ?thesis by (simp only: infra_step_def)
qed

text \<open>From a settled world, the action of the due timer leads to an expired one.\<close>

lemma expired_infra:
  assumes s: "worker_inv s" and due: "due_timer (w_now s) (w_timers s) = Some tmr"
    and step: "infra_step me s t" and front: "\<forall>k. k \<noteq> me \<longrightarrow> tm_expiry_action tmr \<noteq> Wait_timeout k"
    and xs: "timers_added (w_now s) xs (w_timers s) (w_timers t)"
  shows "expired me tmr (fold heap_push xs (tl (m_timer_queue (w_timers s)))) t"
proof -
  obtain q where q: "m_timer_queue (w_timers s) = tmr # q" and late: "\<not> pt_less (w_now s) (tm_expiry_time tmr)"
    using due by (auto simp: due_timer_def split: list.splits if_splits)
  have inv: "world_inv s" using s by (simp add: worker_inv_def)
  then have norm: "pt_norm (tm_expiry_time tmr)" "pt_norm (w_now s)"
    using q by (auto simp: world_inv_def tmr_inv_def queue_ok_def)
  with late have le: "pt_ns (tm_expiry_time tmr) \<le> pt_ns (w_now s)" by (simp add: pt_less_ns)
  from xs have "fold heap_push xs (tmr # q) = tmr # fold heap_push xs q"
    using le by (intro fold_heap_push_behind [OF norm(1)]) (auto simp: timers_added_def)
  with xs q have qt: "m_timer_queue (w_timers t) = tmr # fold heap_push xs q"
    by (simp add: timers_added_def)
  have "still_timed (fold heap_push xs q) t k" if "k \<noteq> me" for k
  proof (cases "find_multi (w_multi t) k = None")
    case False
    have "settled t k" using infra_step_settled [OF step \<open>k \<noteq> me\<close>] s by (simp add: worker_inv_def)
    moreover have "find_multi (w_multi s) k \<noteq> None" using False step \<open>k \<noteq> me\<close> by (simp add: infra_step_def)
    then have "has_wait_timer (w_timers s) k" using s by (simp add: worker_inv_def settled_def)
    then have "\<exists>x \<in> set q. tm_expiry_action x = Wait_timeout k"
      using front \<open>k \<noteq> me\<close> q by (auto simp: has_wait_timer_def)
    ultimately show ?thesis using False by (auto simp: settled_def still_timed_def)
  qed (simp add: still_timed_def)
  then show ?thesis using s step qt q by (simp add: expired_def infra_step_def worker_inv_def)
qed

lemma infra_step_added: "infra_step me s t \<Longrightarrow> \<exists>xs. timers_added (w_now s) xs (w_timers s) (w_timers t)"
  by (auto simp: infra_step_def)

lemma worker_inv_packages:
  assumes w: "worker_inv w" and "pm_inv pm" and "pm_next_id (w_packages w) \<le> pm_next_id pm"
  shows "worker_inv (w\<lparr>w_packages := pm\<rparr>)"
proof -
  have "settled (w\<lparr>w_packages := pm\<rparr>) j = settled w j" for j by (simp add: settled_def)
  with assms show ?thesis by (force simp: worker_inv_def world_inv_def)
qed

lemma worker_inv_queues: "worker_inv (w\<lparr>w_queues := q\<rparr>) = worker_inv w"
  by (simp add: worker_inv_def world_inv_def settled_def)

text \<open>What the network thread does to the packages and the queues.\<close>

lemma receive_inv:
  assumes s: "worker_inv s" and reg: "register_package a n (w_packages s) = (Inr p, pm)"
  shows "worker_inv (s\<lparr>w_packages := update_package k (\<lambda>p. p\<lparr>p_header := h, p_content := c\<rparr>) pm, w_queues := q\<rparr>)"
proof -
  have inv: "pm_inv (w_packages s)" using s by (simp add: worker_inv_def world_inv_def)
  from inv reg have "pm_inv pm \<and> pm_next_id (w_packages s) \<le> pm_next_id pm"
    by (cases rule: register_package_cases) (auto simp: enter_package_inv [OF inv])
  then have "worker_inv (s\<lparr>w_packages := update_package k (\<lambda>p. p\<lparr>p_header := h, p_content := c\<rparr>) pm\<rparr>)"
    using s by (intro worker_inv_packages pm_inv_update) (auto simp: update_package_def)
  then show ?thesis by (subst (asm) worker_inv_queues [symmetric, of _ q]) simp
qed

lemma send_inv:
  assumes s: "worker_inv s"
  shows "worker_inv (s\<lparr>w_queues := q, w_packages := (case m of
       NETWORK_TYPE msg \<Rightarrow> remove_package (nm_package_id msg) (w_packages s) | _ \<Rightarrow> w_packages s)\<rparr>)"
proof -
  have "pm_inv (w_packages (s\<lparr>w_queues := q\<rparr>))" using s by (simp add: worker_inv_def world_inv_def)
  moreover have "worker_inv (s\<lparr>w_queues := q\<rparr>)" using s by (simp add: worker_inv_queues)
  ultimately show ?thesis
    by (intro worker_inv_packages) (auto simp: pm_inv_remove split: actor_message.split)
qed

text \<open>What an error answer needs: memory for its package, and sizes that are those of messages.\<close>

lemma on_transaction_error_returns:
  assumes inv: "world_inv w" and sizes: "sizes_ok C" and memory: "\<And>n. A n" and c: "answerable (ts_command src)"
  shows "fst (on_transaction_error C A conn src e w) = Inr ()"
proof -
  obtain r w' where run: "send_protocol C A conn (RspError (Some e)) 0 (ts_package_id src) (ts_command src) 0 w = (r, w')"
    by fastforce
  have "size_ok C (RspError (Some e))" using sizes by (simp add: sizes_ok_def)
  moreover have "send_command (RspError (Some e)) c = send_command (RspError None) c" for c
    by (simp add: send_command_def send_name_def)
  ultimately have "r = Inr ()"
    using inv run c memory by (cases rule: send_protocol_cases [OF _ _ run]) (auto simp: answerable_def)
  with run show ?thesis by (simp add: on_transaction_error_def send_back_protocol_def)
qed

lemma multi_on_error_returns:
  assumes "world_inv w" and "sizes_ok C" and "\<And>n. A n" and "trigger_command (w_multi w) k = Some c" and "answerable c"
  shows "fst (multi_on_error C A k e w) = Inr ()"
  using assms on_transaction_error_returns [where A = A, OF assms(1-3)]
  by (cases e) (auto simp: trigger_command_def multi_on_error_def this_trans_def bindE_getsE)

section \<open>Programs that leave the worker's state alone\<close>

locale calm_program =
  fixes P :: "('c, 'f, 'd, 'app) program"
  assumes codec: "sizes_ok (pr_codec P)"
    and calm_handler: "calm 0 (pr_handler P f conn p)"
    and calm_on_init: "calm k (pr_on_init P k conn p)"
    and calm_callback: "calm k (pr_callback P f k conn p)"
    and calm_on_error: "calm k (pr_on_error P k conn e)"
    and calm_call: "calm 0 (pr_call P f)"
    and on_error_returns: "world_inv w \<Longrightarrow> trigger_command (w_multi w) k = Some c \<Longrightarrow> answerable c \<Longrightarrow>
      fst (pr_on_error P k conn e w) = Inr ()"
begin

lemma ends_start: "ends worker_inv (start_transaction P conn p) worker_inv"
  unfolding ends_def
proof (intro allI impI)
  fix s u :: "('c, 'f, 'd, 'app) world" and a
  assume s: "worker_inv s" and run: "start_transaction P conn p s = (Inr a, u)"
  show "worker_inv u"
  proof (cases "find_transaction (w_trans_list s) (h_command (p_header p))")
    case None
    with s run show ?thesis by (simp add: start_transaction_def)
  next
    case (Some tr)
    show ?thesis
    proof (cases "tr_type tr")
      case ONE_PHASE_TRANSACTION
      let ?h = "if tr_error_handler tr
                then Some (on_transaction_error (pr_codec P) (pr_alloc P) conn (get_trigger_source (p_header p))) else None"
      have "calm 0 (call_transaction ?h (pr_handler P (tr_handler tr) conn p))"
        by (rule calm_call_transaction) (auto simp: calm_handler calm_send codec split: if_splits)
      then have "keeps worker_inv (call_transaction ?h (pr_handler P (tr_handler tr) conn p))"
        by (rule keeps_worker_inv)
      with s run Some ONE_PHASE_TRANSACTION show ?thesis
        by (auto simp: start_transaction_def elim!: bindE_InrE dest: keepsD_eq)
    next
      case MULTIPLY_PHASE_TRANSACTION
      from run Some MULTIPLY_PHASE_TRANSACTION obtain t w1 w2 w3 b x
        where reg: "on_multi (register_multi (pr_factory P (tr_handler tr))) s = (Inr t, w1)"
          and pre: "pre_on_init (t_id t) conn p w1 = (Inr x, w2)"
          and call: "call_transaction (Some (pr_on_error P (t_id t) conn)) (pr_on_init P (t_id t) conn p) w2 = (Inr b, w3)"
          and end': "end_unless_waiting (t_id t) w3 = (Inr a, u)"
        by (auto simp: start_transaction_def elim!: bindE_InrE)
      have c: "h_command (p_header p) \<in> fst ` set (w_trans_list s)"
        using Some by (simp add: find_transaction_def map_of_SomeD')
      have "calm (t_id t) (call_transaction (Some (pr_on_error P (t_id t) conn)) (pr_on_init P (t_id t) conn p))"
        by (rule calm_call_some [OF calm_on_error calm_on_init])
      then have "pending (t_id t) w3"
        using start_pending [OF s c reg pre] call keeps_pending keepsD_eq by metis
      then show ?thesis using end' by (rule end_unless_waiting_inv)
    qed
  qed
qed

lemma ends_activate: "ends worker_inv (activate_transaction P conn svc p t) worker_inv"
  unfolding ends_def
proof (intro allI impI)
  fix s u :: "('c, 'f, 'd, 'app) world" and a
  assume s: "worker_inv s" and run: "activate_transaction P conn svc p t s = (Inr a, u)"
  let ?unbind = "on_multi (modify (remove_bound_transaction (h_trigger_package_id (p_header p))))"
  let ?callback = "bindE (this_trans (t_id t)) (\<lambda>t. case t_on_active t of
                None \<Rightarrow> fail Undefined | Some callback \<Rightarrow> pr_callback P callback (t_id t) conn p)"
  have "\<exists>w. worker_inv w \<and> ?unbind w = (Inr a, u)"
  proof (cases "fits_waiting conn svc (h_command (p_header p)) t")
    case False
    with s run show ?thesis by (auto simp: activate_transaction_def)
  next
    case True
    from run True obtain w1 w2 w3 b x y
      where clear: "clear_waiting_state (t_id t) s = (Inr x, w1)"
        and call: "call_transaction (Some (pr_on_error P (t_id t) conn)) ?callback w1 = (Inr b, w2)"
        and end': "end_unless_waiting (t_id t) w2 = (Inr y, w3)"
        and unbind: "?unbind w3 = (Inr a, u)"
      by (auto simp: activate_transaction_def elim!: bindE_InrE)
    have own: "calm (t_id t) (case t_on_active t' of None \<Rightarrow> fail Undefined
        | Some callback \<Rightarrow> pr_callback P callback (t_id t') conn p)" if "t_id t' = t_id t" for t'
      using that calm_callback [of "t_id t"] by (cases "t_on_active t'") (simp_all add: calm_fail)
    have "calm (t_id t) ?callback" unfolding calm_def
    proof (intro allI impI)
      fix v :: "('c, 'f, 'd, 'app) world" assume v: "world_inv v"
      show "infra_step (t_id t) v (snd (?callback v))"
      proof (cases "find_multi (w_multi v) (t_id t)")
        case None
        with v show ?thesis by (simp add: this_trans_def bindE_getsE infra_step_refl)
      next
        case (Some t')
        with own [of t'] find_multi_pos [OF v] v show ?thesis
          by (simp add: this_trans_def bindE_getsE calm_def)
      qed
    qed
    then have calm: "calm (t_id t) (call_transaction (Some (pr_on_error P (t_id t) conn)) ?callback)"
      by (rule calm_call_some [OF calm_on_error])
    have "pending (t_id t) w1"
      using keepsD_eq [OF keeps_pending [OF calm_clear_waiting_state] worker_inv_pending [OF s] clear] .
    then have "pending (t_id t) w2" by (rule keepsD_eq [OF keeps_pending [OF calm] _ call])
    from end_unless_waiting_inv [OF this end'] unbind show ?thesis by blast
  qed
  then obtain w where w: "worker_inv w" and unbind: "?unbind w = (Inr a, u)" by blast
  from unbind have u: "u = w\<lparr>w_multi :=
      remove_bound_transaction (h_trigger_package_id (p_header p)) (w_multi w)\<rparr>"
    by (simp add: zoom_def)
  from worker_inv_unbind [OF w] show "worker_inv u" by (simp only: u)
qed

lemma ends_trigger: "ends worker_inv (trigger_transaction P conn svc k) worker_inv"
  unfolding ends_def
proof (intro allI impI)
  fix s u :: "('c, 'f, 'd, 'app) world" and a
  assume s: "worker_inv s" and run: "trigger_transaction P conn svc k s = (Inr a, u)"
  show "worker_inv u"
  proof (cases "find_package (w_packages s) k")
    case None
    with s run show ?thesis by (simp add: trigger_transaction_def)
  next
    case (Some p)
    let ?m = "\<lambda>waiting. case waiting of None \<Rightarrow> start_transaction P conn p | Some t \<Rightarrow> activate_transaction P conn svc p t"
    from run Some obtain waiting w b where m: "?m waiting s = (Inr b, w)"
        and u: "u = w\<lparr>w_packages := remove_package k (w_packages w)\<rparr>"
      by (auto simp: trigger_transaction_def zoom_def elim!: bindE_InrE)
    from m have w: "worker_inv w"
    proof (cases waiting)
      case None
      with m have "start_transaction P conn p s = (Inr b, w)" by simp
      with s ends_start show ?thesis unfolding ends_def by blast
    next
      case (Some t)
      with m have "activate_transaction P conn svc p t s = (Inr b, w)" by simp
      with s ends_activate show ?thesis unfolding ends_def by blast
    qed
    have "pm_inv (w_packages w)" using w by (simp add: worker_inv_def world_inv_def)
    then have "pm_inv (remove_package k (w_packages w))" by (rule pm_inv_remove)
    from worker_inv_packages [OF w this] show ?thesis by (simp add: u remove_package_def)
  qed
qed

lemma ends_process_message: "ends worker_inv (process_message P m) worker_inv"
proof (cases m)
  case (DELEGATE_TYPE caller f)
  have "keeps worker_inv (bindE (safe_call (pr_call P f)) (\<lambda>_. ret ()))"
    by (intro keeps_bindE keeps_ret keeps_worker_inv calm_safe_call calm_call)
  with DELEGATE_TYPE show ?thesis by (simp add: ends_keeps)
qed (simp add: ends_trigger)

text \<open>A timeout: the answer is sent, and the transaction is gone unless it waits again.\<close>

lemma wait_timeout_expired:
  assumes s: "worker_inv s" and due: "due_timer (w_now s) (w_timers s) = Some tmr"
    and k: "tm_expiry_action tmr = Wait_timeout k" and run: "on_wait_timeout P k s = (r, t)"
  shows "\<exists>q. expired k tmr q t \<and> still_timed q t k"
proof -
  have inv: "world_inv s" using s by (simp add: worker_inv_def)
  have front: "\<forall>j. j \<noteq> k \<longrightarrow> tm_expiry_action tmr \<noteq> Wait_timeout j" using k by simp
  show ?thesis
  proof (cases "find_multi (w_multi s) k")
    case None
    with run have "t = s" by (simp add: on_wait_timeout_def)
    with expired_infra [OF s due infra_step_refl [OF inv] front timers_added_refl] None
    show ?thesis by (auto simp: still_timed_def)
  next
    case (Some tr)
    let ?clear = "\<lambda>t. t\<lparr>t_is_waiting := False\<rparr>"
    define s1 where "s1 = s\<lparr>w_multi := update_multi k ?clear (w_multi s)\<rparr>"
    have clear: "clear_waiting_state k s = (Inr (), s1)"
      using Some by (simp add: clear_waiting_state_def write_trans_apply s1_def)
    note step1 = calmD [OF calm_clear_waiting_state inv clear]
    note inv1 = infra_step_inv [OF step1]
    obtain c where c: "trigger_command (w_multi s1) k = Some c" "answerable c"
      using s Some step1 by (auto simp: worker_inv_def settled_def infra_step_def)
    let ?error = "pr_on_error P k (t_wait_conn_id tr) (to_error_info (Foundation ERR_TRANSACTION_TIMEOUT))"
    obtain s2 where err: "?error s1 = (Inr (), s2)"
      using on_error_returns [OF inv1 c] by (metis prod.collapse)
    note step2 = calmD [OF calm_on_error inv1 err]
    note step = infra_step_trans [OF step1 step2]
    have "\<not> waiting (w_multi s1) k" using Some by (simp add: s1_def waiting_def find_multi_update)
    moreover have "w_timers s1 = w_timers s" "w_now s1 = w_now s" by (simp_all add: s1_def)
    ultimately obtain xs where xs: "timers_added (w_now s) xs (w_timers s) (w_timers s2)"
        and new: "waiting (w_multi s2) k \<Longrightarrow> \<exists>x \<in> set xs. tm_expiry_action x = Wait_timeout k"
      using step2 by (auto simp: infra_step_def)
    note left_over = expired_infra [OF s due step front xs]
    have "find_multi (w_multi s2) k \<noteq> None" using infra_step_registered [OF step, of k] Some by simp
    then obtain tr2 where tr2: "find_multi (w_multi s2) k = Some tr2" by blast
    have t: "t = (if t_is_waiting tr2 then s2 else s2\<lparr>w_multi := remove_multi k (w_multi s2)\<rparr>)"
      using run Some by (simp add: on_wait_timeout_def bindE_def clear err
          end_unless_waiting_def this_trans_def tr2 zoom_def split: if_splits)
    show ?thesis
    proof (cases "t_is_waiting tr2")
      case True
      then have "waiting (w_multi s2) k" using tr2 by (simp add: waiting_def)
      moreover have "trigger_command (w_multi s2) k = Some c" using c step2 by (simp add: infra_step_def)
      ultimately have "still_timed (fold heap_push xs (tl (m_timer_queue (w_timers s)))) s2 k"
        using new c(2) by (auto simp: still_timed_def)
      with left_over t True show ?thesis by auto
    next
      case False
      with t expired_remove [OF left_over] show ?thesis by auto
    qed
  qed
qed

lemma ends_expiry: "ends worker_inv (process_expiry_timer P) worker_inv"
  unfolding ends_def
proof (intro allI impI)
  fix s u :: "('c, 'f, 'd, 'app) world" and a
  assume s: "worker_inv s" and run: "process_expiry_timer P s = (Inr a, u)"
  show "worker_inv u"
  proof (cases "due_timer (w_now s) (w_timers s)")
    case None
    with s run show ?thesis by (simp add: process_expiry_timer_def)
  next
    case (Some tmr)
    with run obtain b t where call: "safe_call (expiry_action P (tm_expiry_action tmr)) s = (Inr b, t)"
        and u: "u = t\<lparr>w_timers := finish_timer tmr (w_now t) (w_timers t)\<rparr>"
      by (auto simp: process_expiry_timer_def elim!: bindE_InrE)
    obtain r where act: "expiry_action P (tm_expiry_action tmr) s = (r, t)"
      using call by (auto simp: safe_call_def split: prod.splits sum.splits if_splits)
    have "\<exists>k q. expired k tmr q t \<and> still_timed q t k"
    proof (cases "tm_expiry_action tmr")
      case (Wait_timeout k)
      with wait_timeout_expired [OF s Some Wait_timeout] act show ?thesis by auto
    next
      case (Timer_call f)
      have inv: "world_inv s" using s by (simp add: worker_inv_def)
      from act Timer_call have "pr_call P f s = (r, t)" by simp
      note step = calmD [OF calm_call inv this]
      obtain xs where "timers_added (w_now s) xs (w_timers s) (w_timers t)"
        using infra_step_added [OF step] by blast
      from expired_infra [OF s Some step _ this] Timer_call
      have "expired 0 tmr (fold heap_push xs (tl (m_timer_queue (w_timers s)))) t" by simp
      moreover have "still_timed q t 0" for q
        using find_multi_0 [OF infra_step_inv [OF step]] by (simp add: still_timed_def)
      ultimately show ?thesis by blast
    qed
    then show ?thesis using finish_expired u by blast
  qed
qed

lemma turn_inv:
  assumes s: "worker_inv s" and run: "worker_turn P s = (Inr a, t)"
  shows "worker_inv t"
proof -
  have expiry: "worker_inv v" if "worker_inv u" "process_expiry_timer P u = (Inr b, v)" for u v b
    using ends_expiry that unfolding ends_def by blast
  have message: "worker_inv v" if "worker_inv u" "process_message P m u = (Inr b, v)" for m u v b
    using ends_process_message that unfolding ends_def by blast
  show ?thesis
  proof (cases "q_in (w_queues s)")
    case Nil
    with run obtain b where "process_expiry_timer P s = (Inr b, t)"
      by (auto simp: worker_turn_def queue_empty_def elim!: bindE_InrE)
    with s expiry show ?thesis by blast
  next
    case (Cons m ms)
    let ?s = "s\<lparr>w_queues := (w_queues s)\<lparr>q_in := ms\<rparr>\<rparr>"
    from Cons run obtain u b c where "process_message P m ?s = (Inr b, u)" and "process_expiry_timer P u = (Inr c, t)"
      by (auto simp: worker_turn_def queue_empty_def queue_pop_def zoom_def bindE_def split: prod.splits sum.splits)
    moreover have "worker_inv ?s" using s by (simp add: worker_inv_queues)
    ultimately show ?thesis using message expiry by blast
  qed
qed

lemma step_inv:
  assumes "worker_step P s t" and s: "worker_inv s"
  shows "worker_inv t"
  using assms(1)
proof cases
  case turn
  with s show ?thesis by (blast intro: turn_inv)
next
  case clock
  with s show ?thesis by (auto simp: worker_inv_def world_inv_def settled_def)
next
  case receive
  with receive_inv [OF s] show ?thesis by blast
next
  case delegated
  with s show ?thesis by (auto simp: worker_inv_queues)
next
  case send
  with send_inv [OF s] show ?thesis by blast
qed

lemma reachable_inv: "(worker_step P)\<^sup>*\<^sup>* s t \<Longrightarrow> worker_inv s \<Longrightarrow> worker_inv t"
  by (induction rule: rtranclp_induct) (auto intro: step_inv)

text \<open>So no transaction is ever left without a timer that will end it.\<close>

lemma no_transaction_left:
  assumes "(worker_step P)\<^sup>*\<^sup>* s t" and "worker_inv s" and "find_multi (w_multi t) k = Some tr"
  shows "t_is_waiting tr \<and> has_wait_timer (w_timers t) k"
  using reachable_inv [OF assms(1,2)] assms(3) by (auto simp: worker_inv_def settled_def waiting_def)

end

section \<open>What the calls leave alone\<close>

lemma unchanged_prod [unchanged_intros]:
  "(\<And>a b. unchanged f (g a b)) \<Longrightarrow> unchanged f (case x of (a, b) \<Rightarrow> g a b)"
  by (cases x) simp

lemma keeps_prod [keeps_intros]: "(\<And>a b. keeps P (g a b)) \<Longrightarrow> keeps P (case x of (a, b) \<Rightarrow> g a b)"
  by (cases x) simp

lemma keeps_unchanged: "unchanged f m \<Longrightarrow> keeps (\<lambda>w. P (f w)) m"
  by (simp add: keeps_def unchanged_def)

lemma send_protocol_app [unchanged_intros]: "unchanged w_app (send_protocol C A conn m bid tid cmd svc)"
  by (auto simp: send_protocol_def send_package_def Let_def intro!: unchanged_intros unchanged_zoom unchanged_modify)

lemma sending_app [unchanged_intros]:
  "unchanged w_app (send_back C A conn m p)" "unchanged w_app (send_back_protocol C A conn m src bid)"
  "unchanged w_app (service_send_protocol C A svc m bid)" "unchanged w_app (on_transaction_error C A conn src e)"
  "unchanged w_app (send_back_message C A k m)" "unchanged w_app (multi_on_error C A k e)"
  by (simp_all add: send_back_def send_back_protocol_def service_send_protocol_def on_transaction_error_def
      send_back_message_def multi_on_error_def this_trans_def unchanged_intros)

lemma waiting_app [unchanged_intros]:
  "unchanged w_app (this_trans k)" "unchanged w_app (write_trans k f)"
  "unchanged w_app (service_wait_next_phase sc k svc name cb)"
  by (auto simp: this_trans_def write_trans_def service_wait_next_phase_def wait_next_phase_def add_timer_def
      intro!: unchanged_intros unchanged_zoom unchanged_modify)

lemma keeps_app_unchanged: "unchanged w_app m \<Longrightarrow> keeps (\<lambda>w. Q (w_app w)) m"
  by (rule keeps_unchanged)

section \<open>Invariants of the program's state\<close>

text \<open>
  What the program's functions keep of its state on every outcome, a turn of the worker keeps,
  whatever it runs.
\<close>

lemma keeps_safe_call [keeps_intros]: "keeps P m \<Longrightarrow> keeps P (safe_call m)"
  unfolding keeps_def safe_call_def by (force split: prod.split sum.split)

lemma unchanged_safe_call: "unchanged f m \<Longrightarrow> unchanged f (safe_call m)"
  by (auto simp: unchanged_def safe_call_def split: prod.split sum.split) (metis snd_conv)+

lemma keeps_call_transaction [keeps_intros]:
  assumes "\<And>h i. handler = Some h \<Longrightarrow> keeps P (h i)" and "keeps P f"
  shows "keeps P (call_transaction handler f)"
  unfolding call_transaction_def using assms by (cases handler) (simp_all add: keeps_intros)

lemma worker_calls_app [unchanged_intros]:
  "unchanged w_app (on_multi m)" "unchanged w_app (on_packages n)" "unchanged w_app (end_unless_waiting k)"
  "unchanged w_app (pre_on_init k conn p)" "unchanged w_app (clear_waiting_state k)"
  by (auto simp: end_unless_waiting_def pre_on_init_def clear_waiting_state_def
      intro!: unchanged_intros unchanged_zoom)

lemma worker_state_app [unchanged_intros]:
  "unchanged w_app (zoom w_queues (\<lambda>x w. w\<lparr>w_queues := x\<rparr>) m)" "unchanged w_app (modify (\<lambda>w. w\<lparr>w_timers := f w\<rparr>))"
  by (simp_all add: unchanged_zoom unchanged_modify)

lemmas app_keeps_intros = keeps_intros worker_calls_app [THEN keeps_app_unchanged]
  waiting_app [THEN keeps_app_unchanged] sending_app [THEN keeps_app_unchanged] worker_state_app [THEN keeps_app_unchanged]

text \<open>What the worker's own calls leave alone besides: the timers.\<close>

definition timed :: "('c, 'f, 'd, 'app) world \<Rightarrow> 'f timer_action timer_manager \<times> 'app" where
  "timed w = (w_timers w, w_app w)"

lemma unchanged_timed [unchanged_intros]:
  "unchanged timed (on_multi m)" "unchanged timed (on_packages n)" "unchanged timed (zoom w_queues (\<lambda>x w. w\<lparr>w_queues := x\<rparr>) q)"
  "unchanged timed (modify (\<lambda>w. w\<lparr>w_queues := g w\<rparr>))"
  by (auto simp: unchanged_def timed_def zoom_def split: prod.split)

lemma send_protocol_timed [unchanged_intros]: "unchanged timed (send_protocol C A conn m bid tid cmd svc)"
  by (auto simp: send_protocol_def send_package_def Let_def intro!: unchanged_intros)

lemma worker_calls_timed [unchanged_intros]:
  "unchanged timed (on_transaction_error C A conn src e)" "unchanged timed (this_trans k)" "unchanged timed (write_trans k f)"
  "unchanged timed (end_unless_waiting k)" "unchanged timed (pre_on_init k conn p)" "unchanged timed (clear_waiting_state k)"
  "unchanged timed (multi_on_error C A k e)"
  by (auto simp: on_transaction_error_def send_back_protocol_def this_trans_def write_trans_def end_unless_waiting_def
      pre_on_init_def clear_waiting_state_def multi_on_error_def intro!: unchanged_intros)

lemma keeps_timed: "unchanged timed m \<Longrightarrow> keeps (\<lambda>w. J (w_timers w) (w_app w)) m"
  by (simp add: keeps_def unchanged_def timed_def)

lemmas timed_keeps_intros = keeps_intros unchanged_timed [THEN keeps_timed] worker_calls_timed [THEN keeps_timed]

text \<open>
  What the program's functions, and the expiry of a timer, keep of the timers and the program's
  state, every run of the worker keeps among its environment.
\<close>

locale timed_invariant =
  fixes P :: "('c, 'f, 'd, 'app) program" and J :: "'f timer_action timer_manager \<Rightarrow> 'app \<Rightarrow> bool"
  assumes handler: "keeps (\<lambda>w. J (w_timers w) (w_app w)) (pr_handler P f conn p)"
    and on_init: "keeps (\<lambda>w. J (w_timers w) (w_app w)) (pr_on_init P k conn p)"
    and callback: "keeps (\<lambda>w. J (w_timers w) (w_app w)) (pr_callback P f k conn p)"
    and on_error: "keeps (\<lambda>w. J (w_timers w) (w_app w)) (pr_on_error P k conn e)"
    and call: "keeps (\<lambda>w. J (w_timers w) (w_app w)) (pr_call P f)"
    and expiry: "keeps (\<lambda>w. J (w_timers w) (w_app w)) (process_expiry_timer P)"
begin

lemma keeps_start: "keeps (\<lambda>w. J (w_timers w) (w_app w)) (start_transaction P conn p)"
  unfolding start_transaction_def
  by (auto split: option.split transaction_type.split if_splits intro!: timed_keeps_intros handler on_init on_error)

lemma keeps_activate: "keeps (\<lambda>w. J (w_timers w) (w_app w)) (activate_transaction P conn svc p t)"
  unfolding activate_transaction_def
  by (auto split: option.split intro!: timed_keeps_intros callback on_error)

lemma keeps_trigger: "keeps (\<lambda>w. J (w_timers w) (w_app w)) (trigger_transaction P conn svc k)"
  unfolding trigger_transaction_def
  by (auto split: option.split intro!: timed_keeps_intros keeps_start keeps_activate)

lemma keeps_message: "keeps (\<lambda>w. J (w_timers w) (w_app w)) (process_message P m)"
  by (cases m) (auto intro!: keeps_intros keeps_trigger call)

lemma keeps_turn: "keeps (\<lambda>w. J (w_timers w) (w_app w)) (worker_turn P)"
  unfolding worker_turn_def
  by (auto intro!: timed_keeps_intros keeps_message expiry)

lemma step: "worker_step P s t \<Longrightarrow> J (w_timers s) (w_app s) \<Longrightarrow> J (w_timers t) (w_app t)"
  by (induction rule: worker_step.induct) (auto dest: keepsD_eq [OF keeps_turn])

lemma reachable: "(worker_step P)\<^sup>*\<^sup>* s t \<Longrightarrow> J (w_timers s) (w_app s) \<Longrightarrow> J (w_timers t) (w_app t)"
  by (induction rule: rtranclp_induct) (auto intro: step)

end

locale app_invariant =
  fixes P :: "('c, 'f, 'd, 'app) program" and Q :: "'app \<Rightarrow> bool"
  assumes handler: "keeps (\<lambda>w. Q (w_app w)) (pr_handler P f conn p)"
    and on_init: "keeps (\<lambda>w. Q (w_app w)) (pr_on_init P k conn p)"
    and callback: "keeps (\<lambda>w. Q (w_app w)) (pr_callback P f k conn p)"
    and on_error: "keeps (\<lambda>w. Q (w_app w)) (pr_on_error P k conn e)"
    and call: "keeps (\<lambda>w. Q (w_app w)) (pr_call P f)"
begin

lemma keeps_expiry: "keeps (\<lambda>w. Q (w_app w)) (process_expiry_timer P)"
proof -
  have "keeps (\<lambda>w. Q (w_app w)) (expiry_action P a)" for a
    by (cases a) (auto simp: on_wait_timeout_def intro!: app_keeps_intros on_error call)
  then show ?thesis
    unfolding process_expiry_timer_def
    by (auto intro!: app_keeps_intros)
qed

end

sublocale app_invariant \<subseteq> timed: timed_invariant P "\<lambda>_. Q"
  by unfold_locales (fact handler on_init callback on_error call keeps_expiry)+

context app_invariant begin

lemma reachable_app: "(worker_step P)\<^sup>*\<^sup>* s t \<Longrightarrow> Q (w_app s) \<Longrightarrow> Q (w_app t)"
  by (rule timed.reachable)

end

section \<open>Properties\<close>

text \<open>
  C35. A package that answers a request but comes from another connection or service, or has
  another command than the one waited for, does not run the transaction: nothing of the
  program's state and no transaction changes. But the binding of the request is removed all
  the same, so that the genuine response, when it comes, is no longer recognised: it is
  treated like a request of its own, and the transaction waits until it times out.
\<close>

theorem unfit_response:
  assumes p: "find_package (w_packages w) k = Some p" "h_trigger_package_id (p_header p) = b" "b \<noteq> 0"
    and bound: "find_bound_transaction (w_multi w) b = Some t"
    and unfit: "\<not> fits_waiting conn svc (h_command (p_header p)) t"
    and w': "trigger_transaction P conn svc k w = (r, w')"
    and q: "find_package (w_packages w') j = Some q" "h_trigger_package_id (p_header q) = b"
  shows "r = Inr () \<and> find_multi (w_multi w') = find_multi (w_multi w) \<and> w_app w' = w_app w \<and>
    w_timers w' = w_timers w \<and> w_queues w' = w_queues w \<and> find_bound_transaction (w_multi w') b = None \<and>
    trigger_transaction P conn' svc' j w' =
      bindE (start_transaction P conn' q) (\<lambda>_. on_packages (modify (remove_package j))) w'"
proof -
  have w: "(r, w') = (Inr (), w\<lparr>w_multi := remove_bound_transaction b (w_multi w),
      w_packages := remove_package k (w_packages w)\<rparr>)"
    using p bound unfit w' by (simp add: trigger_transaction_def activate_transaction_def bindE_def zoom_def)
  then have "find_bound_transaction (w_multi w') b = None"
    by (simp add: find_bound_transaction_def remove_bound_transaction_def)
  with w q p(3) show ?thesis
    by (simp add: trigger_transaction_def fun_eq_iff find_multi_def remove_bound_transaction_def)
qed

definition idle_program :: "(message, nat, nat, nat) program" where
  "idle_program = \<lparr>pr_codec = message_codec, pr_alloc = (\<lambda>_. True), pr_handler = (\<lambda>_ _ _. fail Bad_cast),
     pr_factory = id, pr_on_init = (\<lambda>_ _ _. ret ()), pr_callback = (\<lambda>_ _ _ _. ret ()),
     pr_on_error = (\<lambda>_ _ _. ret ()), pr_call = (\<lambda>_. ret ())\<rparr>"

text \<open>Transaction 1 waits for service 9 to answer package 1; packages 2 and 3 claim to.\<close>

definition answer_package :: "int \<Rightarrow> int \<Rightarrow> message package" where
  "answer_package k c = (new_package 0 k)\<lparr>p_header := \<lparr>h_version = 2, h_command = c, h_content_length = 0,
     h_self_package_id = 7, h_trigger_package_id = 1\<rparr>, p_content := Some (RspError None)\<rparr>"

definition waiting_world :: "(message, nat, nat, nat) world" where
  "waiting_world = (empty_world 0)
     \<lparr>w_packages := \<lparr>m_package_list = [(2, answer_package 2 1030), (3, answer_package 3 1030)], pm_next_id = 4\<rparr>,
      w_multi := \<lparr>mt_next_id = 2, mt_trans_list = [(1, (new_multi_trans 1 0)\<lparr>t_wait_service_id := 9,
         t_wait_cmd := 1030, t_is_waiting := True, t_on_active := Some 0\<rparr>)], m_bind_list = [(1, 1)]\<rparr>\<rparr>"

lemmas waiting_world_defs = waiting_world_def answer_package_def new_package_def new_multi_trans_def empty_world_def

theorem unfit_response_witness:
  "find_bound_transaction (w_multi (snd (trigger_transaction idle_program 0 8 2 waiting_world))) 1 = None"
proof -
  have p: "find_package (w_packages waiting_world) 2 = Some (answer_package 2 1030)"
      "h_trigger_package_id (p_header (answer_package 2 1030)) = 1"
      "find_bound_transaction (w_multi waiting_world) 1 = find_multi (w_multi waiting_world) 1"
    by (simp_all add: find_package_def waiting_world_defs find_bound_transaction_def)
  obtain t where t: "find_multi (w_multi waiting_world) 1 = Some t"
      "\<not> fits_waiting 0 8 (h_command (p_header (answer_package 2 1030))) t"
    by (simp add: waiting_world_defs find_multi_def fits_waiting_def)
  have q: "find_package (w_packages (snd (trigger_transaction idle_program 0 8 2 waiting_world))) 3 =
      Some (answer_package 3 1030)" "h_trigger_package_id (p_header (answer_package 3 1030)) = 1"
    using p t by (simp_all add: trigger_transaction_def activate_transaction_def bindE_def zoom_def find_package_remove)
      (simp_all add: find_package_def waiting_world_defs)
  show ?thesis
    using unfit_response [OF p(1,2) _ _ t(2) surjective_pairing q] p(3) t(1) by simp
qed

text \<open>
  A request that fails is answered. When the handler of a one phase transaction ends in an
  exception, the worker sends, after whatever the handler has sent, one package to the
  connection the request came from: it carries the id of the request and the command of the
  request's response, and its content is an \<open>RspError\<close> with the category and code of the
  exception - or with category and code 0 when it is not one of the program's own. What the
  handler changed before it failed stays.
\<close>

theorem one_phase_error_answered:
  assumes inv: "world_inv w" and p: "find_package (w_packages w) k = Some p"
    and new: "h_trigger_package_id (p_header p) \<noteq> 0 \<Longrightarrow>
      find_bound_transaction (w_multi w) (h_trigger_package_id (p_header p)) = None"
    and tr: "find_transaction (w_trans_list w) (h_command (p_header p)) = Some tr"
      "tr_type tr = ONE_PHASE_TRANSACTION" "tr_error_handler tr"
    and handler: "calm 0 (pr_handler P (tr_handler tr) conn p)"
      "pr_handler P (tr_handler tr) conn p w = (Inl e, w1)" "catchable e"
    and codec: "codec_ok (pr_codec P)" "\<And>l. pr_alloc P l" "size_ok (pr_codec P) (RspError (Some (fault_info e)))"
      "size_of (pr_codec P) (RspError (Some (fault_info e))) \<le> 65518"
      "to_content (pr_codec P) (RspError (Some (fault_info e))) = Some content"
    and cmd: "send_command (RspError (Some (fault_info e))) (h_command (p_header p)) = Inr c"
    and run: "trigger_transaction P conn svc k w = (r, w')"
  shows "r = Inr () \<and> w_app w' = w_app w1 \<and> (\<exists>q. q_out (w_queues w') = q_out (w_queues w1) @
      [NETWORK_TYPE \<lparr>nm_conn_id = conn, nm_service_id = 0, nm_package_id = p_id q\<rparr>] \<and>
    find_package (w_packages w') (p_id q) = Some q \<and> h_command (p_header q) = c \<and>
    h_trigger_package_id (p_header q) = h_self_package_id (p_header p) \<and>
    parse_to_protocol (pr_codec P) ''RspError'' Inr q = Inr (RspError (Some (fault_info e))))"
proof -
  let ?m = "RspError (Some (fault_info e))"
  note step = calmD [OF handler(1) inv handler(2)]
  note inv1 = infra_step_inv [OF step]
  define n where "n = pm_next_id (w_packages w1)"
  define q where "q = outgoing n (size_of (pr_codec P) ?m) c (h_self_package_id (p_header p)) content"
  have send: "on_transaction_error (pr_codec P) (pr_alloc P) conn (get_trigger_source (p_header p)) (fault_info e) w1 =
      (Inr (), sent conn 0 q 0 w1)"
    using send_protocol_sent [OF inv1 codec(3,4,2) cmd codec(5)]
    by (simp add: on_transaction_error_def send_back_protocol_def get_trigger_source_def q_def n_def)
  have "start_transaction P conn p w = (Inr (), sent conn 0 q 0 w1)"
    using tr handler(2,3) send
    by (simp add: start_transaction_def call_transaction_def safe_call_def bindE_def)
  moreover have "(if h_trigger_package_id (p_header p) \<noteq> 0
      then find_bound_transaction (w_multi w) (h_trigger_package_id (p_header p)) else None) = None"
    using new by simp
  ultimately have w': "r = Inr ()" "w' = (sent conn 0 q 0 w1)\<lparr>w_packages := remove_package k (w_packages (sent conn 0 q 0 w1))\<rparr>"
    using run p by (simp_all add: trigger_transaction_def bindE_def zoom_def)
  have pm: "pm_inv (w_packages w1)" using inv1 by (simp add: world_inv_def)
  have "find_package (w_packages w1) k = Some p" using step p by (simp add: infra_step_def)
  then have "k \<noteq> n" using sent_packages(3) [OF pm, of q] by (auto simp: q_def n_def)
  moreover have "find_package (w_packages (sent conn 0 q 0 w1)) n = Some q"
    using sent_packages(2) [OF pm, of q, OF _ refl] by (simp add: q_def n_def sent_def)
  ultimately have "find_package (w_packages w') n = Some q"
    by (simp add: w'(2) find_package_remove)
  moreover have "parse_to_protocol (pr_codec P) ''RspError'' Inr q = Inr ?m"
    using codec(1,5) by (force simp: parse_to_protocol_def q_def codec_ok_def)
  moreover have "q_out (w_queues w') = q_out (w_queues w1) @
      [NETWORK_TYPE \<lparr>nm_conn_id = conn, nm_service_id = 0, nm_package_id = n\<rparr>]"
    by (simp add: w'(2) sent_def queue_push_def n_def)
  ultimately show ?thesis using w'
    by (intro conjI exI [of _ q]) (simp_all add: q_def sent_def)
qed

definition request_world :: "(message, nat, nat, nat) world" where
  "request_world = waiting_world
     \<lparr>w_packages := \<lparr>m_package_list = [(2, (answer_package 2 1005)\<lparr>p_header := \<lparr>h_version = 2, h_command = 1005,
        h_content_length = 0, h_self_package_id = 7, h_trigger_package_id = 0\<rparr>\<rparr>)], pm_next_id = 4\<rparr>,
      w_trans_list := [(1005, \<lparr>tr_type = ONE_PHASE_TRANSACTION, tr_handler = 0, tr_error_handler = True\<rparr>)]\<rparr>"

theorem one_phase_error_answered_witness:
  "\<exists>q. parse_to_protocol message_codec ''RspError'' Inr q = Inr (RspError (Some (0, 0))) \<and>
     find_package (w_packages (snd (trigger_transaction idle_program 5 0 2 request_world))) (p_id q) = Some q \<and>
     h_command (p_header q) = 1006"
proof -
  have inv: "world_inv request_world"
    by (simp add: world_inv_def request_world_def waiting_world_defs pm_inv_def ids_below_def mt_inv_def
        tmr_inv_empty)
  obtain p where p: "find_package (w_packages request_world) 2 = Some p"
      "h_command (p_header p) = 1005" "h_trigger_package_id (p_header p) = 0"
    by (simp add: request_world_def find_package_def)
  have tr: "find_transaction (w_trans_list request_world) (h_command (p_header p)) =
      Some \<lparr>tr_type = ONE_PHASE_TRANSACTION, tr_handler = 0, tr_error_handler = True\<rparr>"
    by (simp add: p request_world_def find_transaction_def)
  have cmd: "send_command (RspError (Some (fault_info Bad_cast))) (h_command (p_header p)) = Inr 1006"
    using p by (simp add: send_command_def send_name_def get_command_def get_name_def find_name_def
        find_command_iff [THEN iffD2] default_command_name_map_def)
  have codec: "pr_codec idle_program = message_codec" "pr_alloc idle_program l"
      "calm 0 (pr_handler idle_program 0 5 p)" "pr_handler idle_program 0 5 p request_world = (Inl Bad_cast, request_world)" for l
    by (simp_all add: idle_program_def calm_fail)
  have size: "size_ok message_codec m" "size_of message_codec m \<le> 65518" "to_content message_codec m = Some m" for m
    using sizes_ok_message by (simp_all add: sizes_ok_def message_codec_def)
  show ?thesis
    using one_phase_error_answered [OF inv p(1) _ tr _ _ _ _ _ _ codec(2) _ _ _ cmd surjective_pairing,
        where conn = 5 and svc = 0 and ?w1.0 = request_world]
    by (auto simp: codec size p codec_ok_message)
qed

end
