(* ===== verification/Core_Invariant.thy ===== *)
theory Core_Invariant
  imports Sharing_Groups
begin

text \<open>
  The invariant of the managers of the resource server together, \<open>core_ok\<close>: each manager's
  own invariant, use counts that are the number of groups on a node, and groups that live on
  nodes whose ids have been given out. One \<open>keeps core_ok\<close> rule per operation that the
  transactions call, on every outcome of the operation, in \<open>keeps_intros\<close>.
\<close>

definition groups_placed :: "core \<Rightarrow> bool" where
  "groups_placed c \<longleftrightarrow> (\<forall>e \<in> set (m_group_list (c_groups c)). m_node_id (snd e) < nm_next_id (c_nodes c))"

definition core_ok :: "core \<Rightarrow> bool" where
  "core_ok c \<longleftrightarrow> core_inv c \<and> load_ok c \<and> groups_placed c"

lemma core_ok_parts:
  "core_ok c \<Longrightarrow> um_inv (c_users c)" "core_ok c \<Longrightarrow> gm_inv (c_groups c)" "core_ok c \<Longrightarrow> fm_inv (c_files c)"
  "core_ok c \<Longrightarrow> nm_inv (c_nodes c)" "core_ok c \<Longrightarrow> fsm_inv (c_sessions c)"
  by (simp_all add: core_ok_def core_inv_def)

section \<open>Users, files and sessions\<close>

lemma keeps_on_users [keeps_intros]: "keeps um_inv m \<Longrightarrow> keeps core_ok (on_users m)"
  by (rule keeps_zoom [where Q = um_inv]) (auto simp: core_ok_def core_inv_def load_ok_def groups_placed_def)

lemma keeps_on_files [keeps_intros]: "keeps fm_inv m \<Longrightarrow> keeps core_ok (on_files m)"
  by (rule keeps_zoom [where Q = fm_inv]) (auto simp: core_ok_def core_inv_def load_ok_def groups_placed_def)

lemma keeps_on_sessions [keeps_intros]: "keeps fsm_inv m \<Longrightarrow> keeps core_ok (on_sessions m)"
  by (rule keeps_zoom [where Q = fsm_inv]) (auto simp: core_ok_def core_inv_def load_ok_def groups_placed_def)

lemma keeps_iff: "keeps P m \<longleftrightarrow> (\<forall>s r t. P s \<longrightarrow> m s = (r, t) \<longrightarrow> P t)"
  by (auto simp: keeps_def) (metis snd_conv surj_pair)

lemma keeps_user_ops [keeps_intros]:
  "keeps um_inv (register_user n p root)" "keeps um_inv (modify (remove_user k))"
  "keeps um_inv (heartbeat now k)" "keeps um_inv (kick_out_offline_users now)"
  by (auto simp: keeps_iff kick_out_offline_users_def um_inv_sweep
      intro: um_inv_register um_inv_remove um_inv_heartbeat)

lemma keeps_login_user [keeps_intros]:
  "keeps um_inv (\<lambda>um. case login_user k p c um of (pass, um') \<Rightarrow> (Inr pass, um'))"
  using um_inv_login [of _ k p c] by (auto simp: keeps_def split: prod.split) (metis snd_conv)

lemma keeps_create_path [keeps_intros]: "keeps fm_inv (create_path P g path)"
  unfolding keeps_iff create_path_def by (blast intro: create_walk_props(1))

lemma keeps_remove_path [keeps_intros]: "keeps fm_inv (remove_path P g path)"
  unfolding keeps_iff by (blast intro: remove_path_inv)

text \<open>\<open>add_file\<close> of the newest file: every directory is older.\<close>

lemma add_newest_file_inv:
  assumes fm: "fm_inv fm" and new: "register_file GENERAL_FILE name arg fm = (Inr f, fm1)"
    and add: "add_file P g d (sf_file_id f) fm1 = (r, fm2)"
  shows "fm_inv fm2"
proof -
  have fm1: "fm_inv fm1" by (rule register_file_inv [OF fm new])
  obtain fm0 where fm1_eq: "fm1 = enter_file f fm0" and f: "sf_file_id f = fm_next_id fm0"
      "sf_file_type f = GENERAL_FILE" and fm0: "fm_inv fm0"
    using fm new
  proof (cases rule: register_file_cases)
    case (ok b fm0 h)
    note inv = new_file_body_inv [OF fm ok(1)]
    show ?thesis by (rule that [of fm0]) (use ok inv in auto)
  qed simp
  have "j < fm_next_id fm0" if j: "find_file fm1 j = Some e" "sf_body e = Sharing_directory ids" for j e ids
  proof -
    have "j < fm_next_id fm0 + 1" using fm_invD(2) [OF fm1 j(1)] by (simp add: fm1_eq enter_file_def)
    moreover have "j \<noteq> fm_next_id fm0"
      using j fm_invD(4) [OF fm1 j(1)] f find_enter_file [OF fm0 f(1), of j] by (auto simp: fm1_eq)
    ultimately show ?thesis by simp
  qed
  with fm1 add f show ?thesis
    by (auto simp: add_file_def fm1_eq enter_file_def intro!: fm_inv_update_dir split: sum.splits if_splits file_body.splits)
qed

lemma keeps_sessions [keeps_intros]:
  "keeps fsm_inv (register_put_session u g p mf)" "keeps fsm_inv (register_get_session u g p)"
  "keeps fsm_inv (modify (remove_session k))"
  "(\<And>s. session_id (f s) = session_id s) \<Longrightarrow> keeps fsm_inv (modify (update_session k f))"
  by (auto simp: keeps_iff register_session_eq remove_session_inv update_session_inv
      new_put_session_def new_get_session_def intro!: enter_session_inv)

lemma keeps_find_session [keeps_intros]:
  "keeps fsm_inv (\<lambda>sm. case find_put_session_at u g p sm of (found, sm') \<Rightarrow> (Inr found, sm'))"
  "keeps fsm_inv (\<lambda>sm. case find_get_session_at u g p sm of (found, sm') \<Rightarrow> (Inr found, sm'))"
  unfolding keeps_def case_prod_beta by (simp_all add: find_session_inv)

section \<open>Groups and nodes\<close>

lemma keeps_on_group [keeps_intros]:
  assumes m: "keeps group_inv m" and frames: "unchanged m_group_id m" "unchanged m_group_name m" "unchanged m_node_id m"
  shows "keeps core_ok (on_group k m)"
  unfolding keeps_def
proof (intro allI impI)
  fix c assume c: "core_ok c"
  have gm: "gm_inv (c_groups (snd (on_group k m c)))"
    using on_group_gm_inv [OF _ m frames(1,2)] c by (simp add: core_ok_def core_inv_def)
  show "core_ok (snd (on_group k m c))"
  proof (cases "find_group (c_groups c) k")
    case None
    with c show ?thesis by (simp add: on_group_def)
  next
    case (Some g)
    obtain r g' where run: "m g = (r, g')" by fastforce
    have node: "m_node_id g' = m_node_id g" by (rule unchangedD_eq [OF frames(3) run])
    let ?es = "m_group_list (c_groups c)"
    have same: "(j, h) \<in> set ?es \<Longrightarrow> j = k \<Longrightarrow> h = g" for j h
      using Some core_ok_parts(2) [OF c] om_ok_map_of [of ?es j h] by (auto simp: gm_inv_def find_group_def)
    have on: "map (\<lambda>e. m_node_id (snd e)) (om_update k (\<lambda>_. g') ?es) = map (\<lambda>e. m_node_id (snd e)) ?es"
      using same node by (auto simp: om_update_def)
    have count: "length (filter (\<lambda>e. m_node_id (snd e) = n) es) = length (filter (\<lambda>x. x = n) (map (\<lambda>e. m_node_id (snd e)) es))"
      for n and es :: "(int \<times> sharing_group) list"
      by (induction es) auto
    have placed: "(\<forall>e \<in> set es. m_node_id (snd e) < n) \<longleftrightarrow> (\<forall>x \<in> set (map (\<lambda>e. m_node_id (snd e)) es). x < n)"
      for n and es :: "(int \<times> sharing_group) list" by simp
    have c': "snd (on_group k m c) = c\<lparr>c_groups := (c_groups c)\<lparr>m_group_list := om_update k (\<lambda>_. g') ?es\<rparr>\<rparr>"
      by (simp add: on_group_def Some run)
    have "load_ok (snd (on_group k m c))" and "groups_placed (snd (on_group k m c))"
      using c unfolding core_ok_def load_ok_def groups_on_def groups_placed_def
      by (simp_all add: c' count placed on del: set_map)
    then show ?thesis using c gm by (simp add: core_ok_def core_inv_def c')
  qed
qed

lemma role_frames' [unchanged_intros]:
  "unchanged m_group_id (kick_out_user u)" "unchanged m_group_id (assign_as_manager u)"
  "unchanged m_group_id (assign_as_member u)"
  "unchanged m_group_name (kick_out_user u)" "unchanged m_group_name (assign_as_manager u)"
  "unchanged m_group_name (assign_as_member u)"
  "unchanged m_node_id (kick_out_user u)" "unchanged m_node_id (assign_as_manager u)"
  "unchanged m_node_id (assign_as_member u)"
  by (simp_all add: unchanged_def role_defs)

lemma join_frames [unchanged_intros]:
  "unchanged m_group_id (modify (join_group u))" "unchanged m_group_name (modify (join_group u))"
  "unchanged m_node_id (modify (join_group u))"
  by (simp_all add: unchanged_def join_group_def)

lemma keeps_join_group [keeps_intros]: "keeps group_inv (modify (join_group u))"
  by (simp add: keeps_def join_group_inv)

lemma keeps_register_group [keeps_intros]: "keeps core_ok (register_group u name)"
  unfolding keeps_iff
proof (intro allI impI)
  fix c r c' assume c: "core_ok c" and reg: "register_group u name c = (r, c')"
  have inv: "core_inv c" using c by (simp add: core_ok_def)
  from inv reg show "core_ok c'"
  proof (cases rule: register_group_cases)
    case no_node
    have "fm_inv (snd (register_file DIRECTORY name 0 (c_files c)))"
      by (rule register_file_inv [OF core_ok_parts(3) [OF c] surjective_pairing])
    with c show ?thesis by (simp add: no_node(4) core_ok_def core_inv_def load_ok_def groups_placed_def)
  next
    case (new n)
    note props = group_entered_inv [OF inv new(3,1), of u]
    have "n_node_id n < nm_next_id (c_nodes c)"
      using node_registry.has_below [of "c_nodes c" "n_node_id n"] new(3) core_ok_parts(4) [OF c]
      by (simp add: has_node_def)
    moreover have "om_ok (m_group_list (c_groups c))" "map_of (m_group_list (c_groups c)) (gm_next_id (c_groups c)) = None"
      using core_ok_parts(2) [OF c] by (auto simp: gm_inv_def ids_below_fresh)
    ultimately have "groups_placed c'"
      using c by (auto simp: new(5) group_entered_def Let_def groups_placed_def core_ok_def set_om_insert
          new_group_def add_node_use_def)
    with c show ?thesis by (simp add: new(5) core_ok_def props)
  qed (use c in simp)
qed

lemma keeps_remove_group [keeps_intros]: "keeps core_ok (remove_group u k)"
  unfolding keeps_iff
proof (intro allI impI)
  fix c r c' assume c: "core_ok c" and rem: "remove_group u k c = (r, c')"
  have inv: "core_inv c" using c by (simp add: core_ok_def)
  from inv rem show "core_ok c'"
  proof (cases rule: remove_group_cases)
    case (removed g n)
    have "groups_placed c'"
      using c by (auto simp: removed(5) groups_placed_def core_ok_def add_node_use_def set_om_erase)
    with c group_removed_inv [OF inv removed(1,3,5)] show ?thesis by (simp add: core_ok_def)
  qed (use c in auto)
qed

text \<open>The worker's part of registering a node: no group lives on it yet.\<close>

lemma core_ok_add_node:
  assumes c: "core_ok c"
  shows "core_ok (c\<lparr>c_nodes := snd (add_node ip port sid (c_nodes c))\<rparr>)"
proof -
  have nm: "nm_inv (c_nodes c)" by (rule core_ok_parts(4) [OF c])
  let ?k = "nm_next_id (c_nodes c)"
  have fresh: "om_ok (m_node_list (c_nodes c))" "map_of (m_node_list (c_nodes c)) ?k = None"
    using nm by (auto simp: nm_inv_def ids_below_fresh)
  have "groups_on (c_groups c) ?k = 0"
    using c by (auto simp: groups_on_def core_ok_def groups_placed_def filter_empty_conv)
  then have "load_ok (c\<lparr>c_nodes := snd (add_node ip port sid (c_nodes c))\<rparr>)"
    using c by (auto simp: load_ok_def core_ok_def add_node_ok [OF nm] find_node_def
        map_of_om_insert_fresh [OF fresh] new_node_def)
  moreover have "groups_placed (c\<lparr>c_nodes := snd (add_node ip port sid (c_nodes c))\<rparr>)"
    using c by (auto simp: groups_placed_def core_ok_def add_node_ok [OF nm])
  ultimately show ?thesis
    using c add_node_inv [OF nm surjective_pairing] by (simp add: core_ok_def core_inv_def)
qed

lemma core_ok_set_service:
  assumes c: "core_ok c"
  shows "core_ok (c\<lparr>c_nodes := (c_nodes c)\<lparr>m_node_list := om_update k (\<lambda>n. n\<lparr>n_service_id := sid\<rparr>) (m_node_list (c_nodes c))\<rparr>\<rparr>)"
proof -
  have "nm_inv ((c_nodes c)\<lparr>m_node_list := om_update k (\<lambda>n. n\<lparr>n_service_id := sid\<rparr>) (m_node_list (c_nodes c))\<rparr>)"
    by (rule nm_inv_update [OF core_ok_parts(4) [OF c]]) simp
  then show ?thesis
    using c by (auto simp: core_ok_def core_inv_def load_ok_def groups_placed_def find_node_update split: if_splits)
qed

end
