(* ===== verification/Handlers.thy ===== *)
theory Handlers
  imports Worker Core_Invariant
begin

text \<open>
  The one phase transactions of the resource server, \<open>resource_server/transaction.cpp\<close>: one
  function per request, from a connection and a package, over the worker's world with the
  managers of theory \<open>Sharing_Groups\<close> as its program state. A handler parses the request,
  looks up the user who is logged in on the connection, checks what the user may do, calls
  the managers and sends the response; an exception on the way is the worker's to answer.
\<close>

section \<open>The server's functions and transactions\<close>

datatype rs_fun =
    On_ping | On_register_user | On_login_user | On_remove_user | On_find_user
  | On_register_group | On_remove_group | On_find_group | On_join_group
  | On_assign_as_manager | On_assign_as_member | On_kick_out_user | On_create_path | On_list_file
  | Put_file_session_factory | Put_file_factory | Get_file_session_factory | Get_file_factory
  | Remove_path_factory
  | Put_file_session_on_active | Put_file_on_active | Get_file_session_on_active | Get_file_on_active
  | Remove_path_on_active
  | Kick_out_offline_users                       \<comment> \<open>the timer of \<open>UserManager\<close>\<close>
  | Store_data                                   \<comment> \<open>the timer of \<open>SerializationManager\<close>\<close>
  | Node_registered string "16 word" int         \<comment> \<open>the worker's part of \<open>register_node\<close>\<close>
  | Node_service_set int int                     \<comment> \<open>the worker's part of \<open>deserialize\<close>\<close>

text \<open>The members of the five transaction classes: \<open>m_session_id\<close>.\<close>

datatype rs_data =
    Put_file_session_trans int
  | Put_file_trans int
  | Get_file_session_trans int
  | Get_file_trans int
  | Remove_path_trans

type_synonym 'c rs_world = "('c, rs_fun, rs_data, core) world"
type_synonym 'c handler = "int \<Rightarrow> 'c package \<Rightarrow> ('c rs_world, unit) exec"

text \<open>What the server is built from and the model leaves open.\<close>

record 'c server =
  srv_codec :: "'c codec"
  srv_alloc :: "size_t \<Rightarrow> bool"
  srv_poco :: poco

section \<open>The members of the requests\<close>

definition as_ReqPing :: "message \<Rightarrow> (int \<times> int) res" where
  "as_ReqPing m = (case m of ReqPing a b \<Rightarrow> Inr (a, b) | _ \<Rightarrow> Inl Undefined)"
definition as_ReqRegisterUser :: "message \<Rightarrow> (string \<times> string) res" where
  "as_ReqRegisterUser m = (case m of ReqRegisterUser a b \<Rightarrow> Inr (a, b) | _ \<Rightarrow> Inl Undefined)"
definition as_ReqLoginUser :: "message \<Rightarrow> (int \<times> string) res" where
  "as_ReqLoginUser m = (case m of ReqLoginUser a b \<Rightarrow> Inr (a, b) | _ \<Rightarrow> Inl Undefined)"
definition as_ReqRemoveUser :: "message \<Rightarrow> int res" where
  "as_ReqRemoveUser m = (case m of ReqRemoveUser a \<Rightarrow> Inr a | _ \<Rightarrow> Inl Undefined)"
definition as_ReqFindUser :: "message \<Rightarrow> (int \<times> string) res" where
  "as_ReqFindUser m = (case m of ReqFindUser a b \<Rightarrow> Inr (a, b) | _ \<Rightarrow> Inl Undefined)"
definition as_ReqRegisterGroup :: "message \<Rightarrow> string res" where
  "as_ReqRegisterGroup m = (case m of ReqRegisterGroup a \<Rightarrow> Inr a | _ \<Rightarrow> Inl Undefined)"
definition as_ReqRemoveGroup :: "message \<Rightarrow> int res" where
  "as_ReqRemoveGroup m = (case m of ReqRemoveGroup a \<Rightarrow> Inr a | _ \<Rightarrow> Inl Undefined)"
definition as_ReqFindGroup :: "message \<Rightarrow> (int \<times> string) res" where
  "as_ReqFindGroup m = (case m of ReqFindGroup a b \<Rightarrow> Inr (a, b) | _ \<Rightarrow> Inl Undefined)"
definition as_ReqJoinGroup :: "message \<Rightarrow> int res" where
  "as_ReqJoinGroup m = (case m of ReqJoinGroup a \<Rightarrow> Inr a | _ \<Rightarrow> Inl Undefined)"
definition as_ReqAssignAsManager :: "message \<Rightarrow> (int \<times> int) res" where
  "as_ReqAssignAsManager m = (case m of ReqAssignAsManager a b \<Rightarrow> Inr (a, b) | _ \<Rightarrow> Inl Undefined)"
definition as_ReqAssignAsMember :: "message \<Rightarrow> (int \<times> int) res" where
  "as_ReqAssignAsMember m = (case m of ReqAssignAsMember a b \<Rightarrow> Inr (a, b) | _ \<Rightarrow> Inl Undefined)"
definition as_ReqKickOutUser :: "message \<Rightarrow> (int \<times> int) res" where
  "as_ReqKickOutUser m = (case m of ReqKickOutUser a b \<Rightarrow> Inr (a, b) | _ \<Rightarrow> Inl Undefined)"
definition as_ReqCreatePath :: "message \<Rightarrow> (int \<times> string) res" where
  "as_ReqCreatePath m = (case m of ReqCreatePath a b \<Rightarrow> Inr (a, b) | _ \<Rightarrow> Inl Undefined)"
definition as_ReqListFile :: "message \<Rightarrow> (int \<times> string) res" where
  "as_ReqListFile m = (case m of ReqListFile a b \<Rightarrow> Inr (a, b) | _ \<Rightarrow> Inl Undefined)"

section \<open>What the handlers share\<close>

definition request :: "'c server \<Rightarrow> string \<Rightarrow> (message \<Rightarrow> 'm res) \<Rightarrow> 'c package \<Rightarrow> ('c rs_world, 'm) exec" where
  "request S name members package = getsE (\<lambda>_. parse_to_protocol (srv_codec S) name members package)"

definition respond :: "'c server \<Rightarrow> int \<Rightarrow> 'c package \<Rightarrow> message \<Rightarrow> ('c rs_world, unit) exec" where
  "respond S conn_id package response = send_back (srv_codec S) (srv_alloc S) conn_id response package"

definition current_user :: "int \<Rightarrow> ('c rs_world, user) exec" where
  "current_user conn_id = getsE (\<lambda>w. get_login_user (c_users (w_app w)) conn_id)"

definition group_of :: "int \<Rightarrow> ('c rs_world, sharing_group) exec" where
  "group_of group_id = getsE (\<lambda>w. get_group (c_groups (w_app w)) group_id)"

text \<open>The conversion of a string argument to a \<open>FilePath\<close> parameter.\<close>

definition to_path :: "'c server \<Rightarrow> string \<Rightarrow> ('c rs_world, string) exec" where
  "to_path S path = getsE (\<lambda>_. make_path (srv_poco S) path)"

definition convert_user :: "user \<Rightarrow> proto_user" where
  "convert_user u = \<lparr>pu_user_id = u_user_id u, pu_user_name = u_user_name u, pu_group_list = u_group_list u\<rparr>"

definition convert_file :: "sharing_file \<Rightarrow> proto_file" where
  "convert_file f = \<lparr>pf_filename = sf_file_name f,
     pf_type = (if sf_file_type f = DIRECTORY then PROTO_DIRECTORY else PROTO_GENERAL_FILE)\<rparr>"

text \<open>\<open>root_dir_id\<close> of the message stays unset.\<close>

definition convert_group :: "sharing_group \<Rightarrow> proto_group" where
  "convert_group g = \<lparr>pg_group_id = m_group_id g, pg_group_name = m_group_name g, pg_owner_id = m_owner_id g,
     pg_root_dir_id = 0, pg_manager_list = m_manager_list g, pg_member_list = m_member_list g\<rparr>"

section \<open>Users\<close>

definition on_register_user :: "'c server \<Rightarrow> 'c handler" where
  "on_register_user S conn_id package =
     bindE (request S ''ReqRegisterUser'' as_ReqRegisterUser package) (\<lambda>(username, password).
     bindE (on_app (on_users (register_user username password False))) (\<lambda>user.
     respond S conn_id package (RspRegisterUser None (Some (convert_user user)))))"

definition on_login_user :: "'c server \<Rightarrow> 'c handler" where
  "on_login_user S conn_id package =
     bindE (request S ''ReqLoginUser'' as_ReqLoginUser package) (\<lambda>(user_id, password).
     bindE (on_app (on_users (\<lambda>um. case login_user user_id password conn_id um of (pass, um') \<Rightarrow> (Inr pass, um')))) (\<lambda>pass.
     bindE (throw_if (\<not> pass) (Handler ERR_USER_LOGIN_FAILURE)) (\<lambda>_.
     respond S conn_id package (RspLoginUser None))))"

definition on_remove_user :: "'c server \<Rightarrow> 'c handler" where
  "on_remove_user S conn_id package =
     bindE (request S ''ReqRemoveUser'' as_ReqRemoveUser package) (\<lambda>user_id.
     bindE (current_user conn_id) (\<lambda>user.
     bindE (gets (\<lambda>w. is_root_user (c_users (w_app w)) (u_user_id user))) (\<lambda>root.
     bindE (throw_if (\<not> root) (Handler ERR_USER_NOT_PERMISSION)) (\<lambda>_.
     bindE (on_app (on_users (modify (remove_user user_id)))) (\<lambda>_.
     respond S conn_id package (RspRemoveUser None))))))"

definition on_find_user :: "'c server \<Rightarrow> 'c handler" where
  "on_find_user S conn_id package =
     bindE (request S ''ReqFindUser'' as_ReqFindUser package) (\<lambda>(user_id, username).
     bindE (current_user conn_id) (\<lambda>_.
     bindE (gets (\<lambda>w. if user_id \<noteq> 0 then find_user (c_users (w_app w)) user_id
                      else find_user_by_name (c_users (w_app w)) username)) (\<lambda>target_user.
     case target_user of
       None \<Rightarrow> throw (Resource ERR_USER_NOT_EXIST)
     | Some u \<Rightarrow> respond S conn_id package (RspFindUser None (Some (convert_user u))))))"

definition on_ping :: "'c server \<Rightarrow> 'c handler" where
  "on_ping S conn_id package =
     bindE (request S ''ReqPing'' as_ReqPing package) (\<lambda>(second, microsecond).
     bindE (current_user conn_id) (\<lambda>user.
     bindE (gets (\<lambda>w. seconds (w_now w))) (\<lambda>now.
     bindE (on_app (on_users (heartbeat now (u_user_id user)))) (\<lambda>_.
     respond S conn_id package (RspPing None second microsecond)))))"

section \<open>Groups\<close>

definition on_register_group :: "'c server \<Rightarrow> 'c handler" where
  "on_register_group S conn_id package =
     bindE (request S ''ReqRegisterGroup'' as_ReqRegisterGroup package) (\<lambda>group_name.
     bindE (current_user conn_id) (\<lambda>user.
     bindE (on_app (register_group (u_user_id user) group_name)) (\<lambda>grp.
     respond S conn_id package (RspRegisterGroup None (m_group_id grp)))))"

definition on_remove_group :: "'c server \<Rightarrow> 'c handler" where
  "on_remove_group S conn_id package =
     bindE (request S ''ReqRemoveGroup'' as_ReqRemoveGroup package) (\<lambda>group_id.
     bindE (current_user conn_id) (\<lambda>user.
     bindE (on_app (remove_group (u_user_id user) group_id)) (\<lambda>_.
     respond S conn_id package (RspRemoveGroup False))))"

definition on_find_group :: "'c server \<Rightarrow> 'c handler" where
  "on_find_group S conn_id package =
     bindE (request S ''ReqFindGroup'' as_ReqFindGroup package) (\<lambda>(group_id, group_name).
     bindE (current_user conn_id) (\<lambda>_.
     bindE (gets (\<lambda>w. if group_id \<noteq> 0 then find_group (c_groups (w_app w)) group_id
                      else find_group_by_name (c_groups (w_app w)) group_name)) (\<lambda>grp.
     case grp of
       None \<Rightarrow> throw (Resource ERR_GROUP_NOT_EXIST)
     | Some g \<Rightarrow> respond S conn_id package (RspFindGroup None (Some (convert_group g))))))"

definition on_join_group :: "'c server \<Rightarrow> 'c handler" where
  "on_join_group S conn_id package =
     bindE (request S ''ReqJoinGroup'' as_ReqJoinGroup package) (\<lambda>group_id.
     bindE (current_user conn_id) (\<lambda>user.
     bindE (group_of group_id) (\<lambda>grp.
     bindE (on_app (on_group group_id (modify (join_group (u_user_id user))))) (\<lambda>_.
     respond S conn_id package (RspJoinGroup None)))))"

definition need_manager :: "user \<Rightarrow> sharing_group \<Rightarrow> ('c rs_world, unit) exec" where
  "need_manager user grp =
     throw_if (\<not> is_manager grp (u_user_id user)) (Resource ERR_GROUP_NOT_PERMIT_NEED_MANAGER)"

definition need_member :: "user \<Rightarrow> sharing_group \<Rightarrow> ('c rs_world, unit) exec" where
  "need_member user grp =
     throw_if (\<not> is_member grp (u_user_id user)) (Resource ERR_GROUP_NOT_PERMIT_NEED_MEMBER)"

definition on_assign_as_manager :: "'c server \<Rightarrow> 'c handler" where
  "on_assign_as_manager S conn_id package =
     bindE (request S ''ReqAssignAsManager'' as_ReqAssignAsManager package) (\<lambda>(group_id, user_id).
     bindE (current_user conn_id) (\<lambda>user.
     bindE (group_of group_id) (\<lambda>grp.
     bindE (need_manager user grp) (\<lambda>_.
     bindE (on_app (on_group group_id (assign_as_manager user_id))) (\<lambda>_.
     respond S conn_id package (RspAssignAsManager None))))))"

definition on_assign_as_member :: "'c server \<Rightarrow> 'c handler" where
  "on_assign_as_member S conn_id package =
     bindE (request S ''ReqAssignAsMember'' as_ReqAssignAsMember package) (\<lambda>(group_id, user_id).
     bindE (current_user conn_id) (\<lambda>user.
     bindE (group_of group_id) (\<lambda>grp.
     bindE (need_manager user grp) (\<lambda>_.
     bindE (on_app (on_group group_id (assign_as_member user_id))) (\<lambda>_.
     respond S conn_id package (RspAssignAsMember None))))))"

definition on_kick_out_user :: "'c server \<Rightarrow> 'c handler" where
  "on_kick_out_user S conn_id package =
     bindE (request S ''ReqKickOutUser'' as_ReqKickOutUser package) (\<lambda>(group_id, user_id).
     bindE (current_user conn_id) (\<lambda>user.
     bindE (group_of group_id) (\<lambda>grp.
     bindE (if user_id \<noteq> u_user_id user then need_manager user grp else ret ()) (\<lambda>_.
     bindE (on_app (on_group group_id (kick_out_user user_id))) (\<lambda>_.
     respond S conn_id package (RspKickOutUser None))))))"

section \<open>Paths\<close>

definition on_create_path :: "'c server \<Rightarrow> 'c handler" where
  "on_create_path S conn_id package =
     bindE (request S ''ReqCreatePath'' as_ReqCreatePath package) (\<lambda>(group_id, path).
     bindE (current_user conn_id) (\<lambda>user.
     bindE (group_of group_id) (\<lambda>grp.
     bindE (need_manager user grp) (\<lambda>_.
     bindE (to_path S path) (\<lambda>path.
     bindE (on_app (on_files (create_path (srv_poco S) grp path))) (\<lambda>_.
     respond S conn_id package (RspCreatePath None)))))))"

fun list_files :: "file_manager \<Rightarrow> int list \<Rightarrow> proto_file list res" where
  "list_files fm [] = Inr []"
| "list_files fm (cur_file_id # ids) = (case get_file fm cur_file_id of
     Inl e \<Rightarrow> Inl e
   | Inr f \<Rightarrow> map_sum id (\<lambda>fs. convert_file f # fs) (list_files fm ids))"

definition on_list_file :: "'c server \<Rightarrow> 'c handler" where
  "on_list_file S conn_id package =
     bindE (request S ''ReqListFile'' as_ReqListFile package) (\<lambda>(group_id, file_path).
     bindE (current_user conn_id) (\<lambda>user.
     bindE (group_of group_id) (\<lambda>grp.
     bindE (need_member user grp) (\<lambda>_.
     bindE (to_path S file_path) (\<lambda>path.
     bindE (getsE (\<lambda>w. get_file_id (srv_poco S) grp path (c_files (w_app w)))) (\<lambda>file_id.
     bindE (getsE (\<lambda>w. get_file (c_files (w_app w)) file_id)) (\<lambda>file.
     bindE (throw_if (sf_file_type file \<noteq> DIRECTORY) (Resource ERR_GROUP_NOT_DIRECTORY)) (\<lambda>_.
     bindE (getsE (\<lambda>w. case sf_body file of
              Sharing_directory ids \<Rightarrow> list_files (c_files (w_app w)) ids | _ \<Rightarrow> Inl Bad_cast)) (\<lambda>files.
     respond S conn_id package (RspListFile None files))))))))))"

section \<open>The handlers are calm and keep the managers' invariant\<close>

definition server_ok :: "('c, 'f, 'd, core) world \<Rightarrow> bool" where
  "server_ok w \<longleftrightarrow> core_ok (w_app w)"

lemma keeps_server_on_app [keeps_intros]: "keeps core_ok m \<Longrightarrow> keeps server_ok (on_app m)"
  unfolding server_ok_def by (rule keeps_zoom) simp_all

lemma keeps_server_unchanged: "unchanged w_app m \<Longrightarrow> keeps server_ok m"
  unfolding server_ok_def by (rule keeps_unchanged)

lemmas handler_parts = request_def respond_def current_user_def group_of_def to_path_def need_manager_def need_member_def

lemma keeps_parts [keeps_intros]:
  "keeps server_ok (request S name f p)" "keeps server_ok (respond S conn p m)" "keeps server_ok (current_user conn)"
  "keeps server_ok (group_of k)" "keeps server_ok (to_path S path)" "keeps server_ok (need_manager u g)"
  "keeps server_ok (need_member u g)"
  by (simp_all add: handler_parts keeps_intros keeps_server_unchanged unchanged_intros)

lemma calm_parts [calm_intros]:
  "calm me (request S name f p)" "sizes_ok (srv_codec S) \<Longrightarrow> calm me (respond S conn p m)"
  "calm me (current_user conn)" "calm me (group_of k)" "calm me (to_path S path)" "calm me (need_manager u g)"
  "calm me (need_member u g)"
  by (simp_all add: handler_parts calm_intros)

text \<open>The table of \<open>main\<close> leads to these.\<close>

fun rs_handler :: "'c server \<Rightarrow> rs_fun \<Rightarrow> 'c handler" where
  "rs_handler S On_ping = on_ping S"
| "rs_handler S On_register_user = on_register_user S"
| "rs_handler S On_login_user = on_login_user S"
| "rs_handler S On_remove_user = on_remove_user S"
| "rs_handler S On_find_user = on_find_user S"
| "rs_handler S On_register_group = on_register_group S"
| "rs_handler S On_remove_group = on_remove_group S"
| "rs_handler S On_find_group = on_find_group S"
| "rs_handler S On_join_group = on_join_group S"
| "rs_handler S On_assign_as_manager = on_assign_as_manager S"
| "rs_handler S On_assign_as_member = on_assign_as_member S"
| "rs_handler S On_kick_out_user = on_kick_out_user S"
| "rs_handler S On_create_path = on_create_path S"
| "rs_handler S On_list_file = on_list_file S"
| "rs_handler S _ = (\<lambda>conn_id package. fail Undefined)"

lemmas handler_defs = on_ping_def on_register_user_def on_login_user_def on_remove_user_def on_find_user_def
  on_register_group_def on_remove_group_def on_find_group_def on_join_group_def on_assign_as_manager_def
  on_assign_as_member_def on_kick_out_user_def on_create_path_def on_list_file_def

lemma calm_handlers: "sizes_ok (srv_codec S) \<Longrightarrow> calm me (rs_handler S f conn p)"
  by (cases f) (simp_all add: handler_defs calm_intros)

lemma keeps_handlers: "keeps server_ok (rs_handler S f conn p)"
  by (cases f) (simp_all add: handler_defs keeps_intros unchanged_intros)

end
