(* ===== verification/File_Transactions.thy ===== *)
theory File_Transactions
  imports Handlers
begin

text \<open>
  The multiply phase transactions of the resource server, \<open>resource_server/transaction.cpp\<close>:
  uploading, downloading and removing files. A file transaction checks what the user may do,
  asks the storage node that holds the file, waits for its answer, and passes it on. The
  members of the five classes are functions of the transaction's id; the object itself is
  the entry of theory \<open>Transactions\<close> with \<open>m_session_id\<close> in its \<open>t_data\<close>.
\<close>

section \<open>The members of the messages\<close>

definition as_ReqPutFileSession :: "message \<Rightarrow> (int \<times> string \<times> int) res" where
  "as_ReqPutFileSession m = (case m of ReqPutFileSession a b c \<Rightarrow> Inr (a, b, c) | _ \<Rightarrow> Inl Undefined)"
definition as_RspNodePutFileSession :: "message \<Rightarrow> (error_info option \<times> int) res" where
  "as_RspNodePutFileSession m = (case m of RspNodePutFileSession a b \<Rightarrow> Inr (a, b) | _ \<Rightarrow> Inl Undefined)"
definition as_ReqPutFile :: "message \<Rightarrow> (int \<times> int \<times> bytes) res" where
  "as_ReqPutFile m = (case m of ReqPutFile a b c \<Rightarrow> Inr (a, b, c) | _ \<Rightarrow> Inl Undefined)"
definition as_RspPutFile :: "message \<Rightarrow> (error_info option \<times> int \<times> int) res" where
  "as_RspPutFile m = (case m of RspPutFile a b c \<Rightarrow> Inr (a, b, c) | _ \<Rightarrow> Inl Undefined)"
definition as_ReqGetFileSession :: "message \<Rightarrow> (int \<times> string) res" where
  "as_ReqGetFileSession m = (case m of ReqGetFileSession a b \<Rightarrow> Inr (a, b) | _ \<Rightarrow> Inl Undefined)"
definition as_RspNodeGetFileSession :: "message \<Rightarrow> (error_info option \<times> int \<times> int) res" where
  "as_RspNodeGetFileSession m = (case m of RspNodeGetFileSession a b c \<Rightarrow> Inr (a, b, c) | _ \<Rightarrow> Inl Undefined)"
definition as_ReqGetFile :: "message \<Rightarrow> (int \<times> int) res" where
  "as_ReqGetFile m = (case m of ReqGetFile a b \<Rightarrow> Inr (a, b) | _ \<Rightarrow> Inl Undefined)"
definition as_RspGetFile :: "message \<Rightarrow> (error_info option \<times> int \<times> int \<times> bytes) res" where
  "as_RspGetFile m = (case m of RspGetFile a b c d \<Rightarrow> Inr (a, b, c, d) | _ \<Rightarrow> Inl Undefined)"
definition as_ReqRemovePath :: "message \<Rightarrow> (int \<times> string \<times> bool) res" where
  "as_ReqRemovePath m = (case m of ReqRemovePath a b c \<Rightarrow> Inr (a, b, c) | _ \<Rightarrow> Inl Undefined)"

section \<open>What the transactions share\<close>

text \<open>\<open>typeid(*this)\<close> against the class of a member function pointer.\<close>

fun rs_same_class :: "rs_data \<Rightarrow> rs_fun \<Rightarrow> bool" where
  "rs_same_class (Put_file_session_trans _) f \<longleftrightarrow> f = Put_file_session_on_active"
| "rs_same_class (Put_file_trans _) f \<longleftrightarrow> f = Put_file_on_active"
| "rs_same_class (Get_file_session_trans _) f \<longleftrightarrow> f = Get_file_session_on_active"
| "rs_same_class (Get_file_trans _) f \<longleftrightarrow> f = Get_file_on_active"
| "rs_same_class Remove_path_trans f \<longleftrightarrow> f = Remove_path_on_active"

fun rs_factory :: "rs_fun \<Rightarrow> rs_data" where
  "rs_factory Put_file_session_factory = Put_file_session_trans 0"
| "rs_factory Put_file_factory = Put_file_trans 0"
| "rs_factory Get_file_session_factory = Get_file_session_trans 0"
| "rs_factory Get_file_factory = Get_file_trans 0"
| "rs_factory _ = Remove_path_trans"

fun data_session_id :: "rs_data \<Rightarrow> int" where
  "data_session_id (Put_file_session_trans k) = k"
| "data_session_id (Put_file_trans k) = k"
| "data_session_id (Get_file_session_trans k) = k"
| "data_session_id (Get_file_trans k) = k"
| "data_session_id Remove_path_trans = 0"

text \<open>Reading and writing \<open>m_session_id\<close>, and \<open>first_connection_id()\<close>.\<close>

definition this_session_id :: "int \<Rightarrow> ('c rs_world, int) exec" where
  "this_session_id trans_id = bindE (this_trans trans_id) (\<lambda>t. ret (data_session_id (t_data t)))"

definition set_data :: "int \<Rightarrow> rs_data \<Rightarrow> ('c rs_world, unit) exec" where
  "set_data trans_id d = write_trans trans_id (\<lambda>t. t\<lparr>t_data := d\<rparr>)"

definition need_user :: "user \<Rightarrow> int \<Rightarrow> ('c rs_world, unit) exec" where
  "need_user user session_user_id =
     throw_if (session_user_id \<noteq> u_user_id user) (Resource ERR_FILE_SESSION_NOT_REGISTER_USER)"

definition path_exists :: "'c server \<Rightarrow> sharing_group \<Rightarrow> string \<Rightarrow> ('c rs_world, bool) exec" where
  "path_exists S grp path = getsE (\<lambda>w. exist_path (srv_poco S) grp path (c_files (w_app w)))"

text \<open>
  \<open>service_send_protocol\<close> to the service of a node and \<open>service_wait_next_phase\<close> for its answer.
\<close>

definition ask_node ::
  "'c server \<Rightarrow> int \<Rightarrow> int \<Rightarrow> message \<Rightarrow> string \<Rightarrow> rs_fun \<Rightarrow> ('c rs_world, unit) exec" where
  "ask_node S trans_id node_id node_request response_name on_active =
     bindE (getsE (\<lambda>w. get_node (c_nodes (w_app w)) node_id)) (\<lambda>storage_node.
     bindE (service_send_protocol (srv_codec S) (srv_alloc S) (n_service_id storage_node) node_request trans_id) (\<lambda>_.
     service_wait_next_phase rs_same_class trans_id (n_service_id storage_node) response_name on_active))"

definition answer :: "'c server \<Rightarrow> int \<Rightarrow> message \<Rightarrow> ('c rs_world, unit) exec" where
  "answer S trans_id response = send_back_message (srv_codec S) (srv_alloc S) trans_id response"

text \<open>
  The general file at a path, and the storage file behind it. A \<open>LIGHTS_ASSERT\<close> stands before
  the second cast.
\<close>

definition general_file_at :: "'c server \<Rightarrow> sharing_group \<Rightarrow> string \<Rightarrow> ('c rs_world, sharing_file) exec" where
  "general_file_at S grp path =
     bindE (path_exists S grp path) (\<lambda>exist.
     bindE (throw_if (\<not> exist) (Handler ERR_PATH_NOT_EXIST)) (\<lambda>_.
     bindE (getsE (\<lambda>w. get_file_id (srv_poco S) grp path (c_files (w_app w)))) (\<lambda>file_id.
     bindE (getsE (\<lambda>w. get_file (c_files (w_app w)) file_id)) (\<lambda>sharing_file.
     bindE (throw_if (sf_file_type sharing_file \<noteq> GENERAL_FILE) (Handler ERR_PATH_NOT_GENERAL_FILE)) (\<lambda>_.
     ret sharing_file)))))"

definition node_of_file :: "sharing_file \<Rightarrow> ('c rs_world, int) exec" where
  "node_of_file sharing_file = (case sf_body sharing_file of
     Sharing_general_file storage_file_id \<Rightarrow>
       bindE (getsE (\<lambda>w. get_file (c_files (w_app w)) storage_file_id)) (\<lambda>storage_sharing_file.
       if sf_file_type storage_sharing_file \<noteq> STORAGE_FILE then fail Aborted
       else (case sf_body storage_sharing_file of
           Sharing_storage_file node_id use_counting \<Rightarrow> ret node_id
         | _ \<Rightarrow> fail Bad_cast))
   | _ \<Rightarrow> fail Bad_cast)"

section \<open>Uploading\<close>

text \<open>The part of \<open>on_init\<close> where there is no session yet.\<close>

definition register_upload ::
  "'c server \<Rightarrow> user \<Rightarrow> sharing_group \<Rightarrow> int \<Rightarrow> string \<Rightarrow> int \<Rightarrow> ('c rs_world, put_session) exec" where
  "register_upload S user grp group_id file_path max_fragment =
     bindE (to_path S file_path) (\<lambda>path.
     bindE (to_path S (directory_path path)) (\<lambda>dir.
     bindE (path_exists S grp dir) (\<lambda>dir_exist.
     bindE (throw_if (\<not> dir_exist) (Handler ERR_PATH_NOT_EXIST)) (\<lambda>_.
     bindE (path_exists S grp path) (\<lambda>exist.
     bindE (throw_if exist (Handler ERR_PATH_ALREADY_EXIST)) (\<lambda>_.
     bindE (on_app (on_files (register_file STORAGE_FILE (filename path) (m_node_id grp)))) (\<lambda>storage_file.
     bindE (on_app (on_files (register_file GENERAL_FILE (filename path) (sf_file_id storage_file)))) (\<lambda>general_file.
     bindE (to_path S (directory_path path)) (\<lambda>dir.
     bindE (on_app (on_files (add_file (srv_poco S) grp dir (sf_file_id general_file)))) (\<lambda>_.
     on_app (on_sessions (register_put_session (u_user_id user) group_id file_path max_fragment))))))))))))"

definition put_file_session_on_init :: "'c server \<Rightarrow> int \<Rightarrow> 'c handler" where
  "put_file_session_on_init S trans_id conn_id package =
     bindE (current_user conn_id) (\<lambda>user.
     bindE (request S ''ReqPutFileSession'' as_ReqPutFileSession package) (\<lambda>(group_id, file_path, max_fragment).
     bindE (group_of group_id) (\<lambda>grp.
     bindE (need_manager user grp) (\<lambda>_.
     bindE (on_app (on_sessions (\<lambda>sm.
              case find_put_session_at (u_user_id user) group_id file_path sm of (found, sm') \<Rightarrow> (Inr found, sm')))) (\<lambda>found.
     bindE (case found of
         Some session \<Rightarrow>
           bindE (throw_if (max_fragment \<noteq> ps_max_fragment session)
             (Resource ERR_FILE_SESSION_CANNOT_CHANGE_MAX_FRAGMENT)) (\<lambda>_. ret session)
       | None \<Rightarrow> register_upload S user grp group_id file_path max_fragment) (\<lambda>session.
     bindE (set_data trans_id (Put_file_session_trans (ps_session_id session))) (\<lambda>_.
     bindE (to_path S (ps_file_path session)) (\<lambda>path.
     ask_node S trans_id (m_node_id grp) (ReqNodePutFileSession (filename path) (ps_max_fragment session))
       ''RspNodePutFileSession'' Put_file_session_on_active))))))))"

definition put_file_session_on_active :: "'c server \<Rightarrow> int \<Rightarrow> 'c handler" where
  "put_file_session_on_active S trans_id conn_id package =
     bindE (request S ''RspNodePutFileSession'' as_RspNodePutFileSession package) (\<lambda>(error, node_session_id).
     bindE (this_session_id trans_id) (\<lambda>k.
     case error of
       Some error_info \<Rightarrow>
         bindE (on_app (on_sessions (modify (remove_session k)))) (\<lambda>_.
         answer S trans_id (RspPutFileSession (Some error_info) 0 0))
     | None \<Rightarrow>
         bindE (gets (\<lambda>w. find_put_session (c_sessions (w_app w)) k)) (\<lambda>found. case found of
           None \<Rightarrow> fail Undefined
         | Some session \<Rightarrow>
             bindE (on_app (on_sessions (modify (update_session k
                (on_put_session (\<lambda>s. s\<lparr>ps_node_session_id := node_session_id\<rparr>)))))) (\<lambda>_.
             answer S trans_id (RspPutFileSession None k (ps_next_fragment session))))))"

definition put_file_on_init :: "'c server \<Rightarrow> int \<Rightarrow> 'c handler" where
  "put_file_on_init S trans_id conn_id package =
     bindE (current_user conn_id) (\<lambda>user.
     bindE (request S ''ReqPutFile'' as_ReqPutFile package) (\<lambda>(session_id, fragment_index, fragment_content).
     bindE (getsE (\<lambda>w. get_put_session (c_sessions (w_app w)) session_id)) (\<lambda>session.
     bindE (need_user user (ps_user_id session)) (\<lambda>_.
     bindE (throw_if (fragment_index \<noteq> ps_next_fragment session) (Resource ERR_FILE_SESSION_INVALID_FRAGMENT)) (\<lambda>_.
     bindE (on_app (on_sessions (modify (update_session session_id
        (on_put_session (\<lambda>s. s\<lparr>ps_next_fragment := ps_next_fragment s + 1\<rparr>)))))) (\<lambda>_.
     bindE (set_data trans_id (Put_file_trans (ps_session_id session))) (\<lambda>_.
     bindE (group_of (ps_group_id session)) (\<lambda>grp.
     ask_node S trans_id (m_node_id grp) (ReqPutFile (ps_node_session_id session) fragment_index fragment_content)
       ''RspPutFile'' Put_file_on_active))))))))"

definition put_file_on_active :: "'c server \<Rightarrow> int \<Rightarrow> 'c handler" where
  "put_file_on_active S trans_id conn_id package =
     bindE (this_trans trans_id) (\<lambda>t.
     bindE (current_user (t_first_conn_id t)) (\<lambda>_.
     bindE (request S ''RspPutFile'' as_RspPutFile package) (\<lambda>(error, _, fragment_index).
     bindE (this_session_id trans_id) (\<lambda>k.
     answer S trans_id (RspPutFile error k fragment_index)))))"

section \<open>Downloading\<close>

definition get_file_session_on_init :: "'c server \<Rightarrow> int \<Rightarrow> 'c handler" where
  "get_file_session_on_init S trans_id conn_id package =
     bindE (current_user conn_id) (\<lambda>user.
     bindE (request S ''ReqGetFileSession'' as_ReqGetFileSession package) (\<lambda>(group_id, file_path).
     bindE (group_of group_id) (\<lambda>grp.
     bindE (need_member user grp) (\<lambda>_.
     bindE (to_path S file_path) (\<lambda>path.
     bindE (general_file_at S grp path) (\<lambda>sharing_file.
     bindE (node_of_file sharing_file) (\<lambda>node_id.
     bindE (on_app (on_sessions (\<lambda>sm.
              case find_get_session_at (u_user_id user) group_id file_path sm of (found, sm') \<Rightarrow> (Inr found, sm')))) (\<lambda>found.
     bindE (case found of
         Some previous_session \<Rightarrow> ret previous_session
       | None \<Rightarrow> on_app (on_sessions (register_get_session (u_user_id user) group_id file_path))) (\<lambda>session.
     bindE (set_data trans_id (Get_file_session_trans (gs_session_id session))) (\<lambda>_.
     ask_node S trans_id node_id (ReqNodeGetFileSession (filename path))
       ''RspNodeGetFileSession'' Get_file_session_on_active))))))))))"

definition get_file_session_on_active :: "'c server \<Rightarrow> int \<Rightarrow> 'c handler" where
  "get_file_session_on_active S trans_id conn_id package =
     bindE (request S ''RspNodeGetFileSession'' as_RspNodeGetFileSession package)
       (\<lambda>(error, node_session_id, max_fragment).
     bindE (this_session_id trans_id) (\<lambda>k.
     case error of
       Some error_info \<Rightarrow>
         bindE (on_app (on_sessions (modify (remove_session k)))) (\<lambda>_.
         answer S trans_id (RspGetFileSession (Some error_info) 0 0))
     | None \<Rightarrow>
         bindE (gets (\<lambda>w. find_get_session (c_sessions (w_app w)) k)) (\<lambda>found. case found of
           None \<Rightarrow> fail Undefined
         | Some session \<Rightarrow>
             bindE (on_app (on_sessions (modify (update_session k
                (on_get_session (\<lambda>s. s\<lparr>gs_node_session_id := node_session_id\<rparr>)))))) (\<lambda>_.
             answer S trans_id (RspGetFileSession None k max_fragment)))))"

definition get_file_on_init :: "'c server \<Rightarrow> int \<Rightarrow> 'c handler" where
  "get_file_on_init S trans_id conn_id package =
     bindE (current_user conn_id) (\<lambda>user.
     bindE (request S ''ReqGetFile'' as_ReqGetFile package) (\<lambda>(session_id, fragment_index).
     bindE (getsE (\<lambda>w. get_get_session (c_sessions (w_app w)) session_id)) (\<lambda>session.
     bindE (need_user user (gs_user_id session)) (\<lambda>_.
     bindE (group_of (gs_group_id session)) (\<lambda>grp.
     bindE (to_path S (gs_file_path session)) (\<lambda>path.
     bindE (general_file_at S grp path) (\<lambda>sharing_file.
     bindE (set_data trans_id (Get_file_trans (gs_session_id session))) (\<lambda>_.
     bindE (node_of_file sharing_file) (\<lambda>node_id.
     ask_node S trans_id node_id (ReqGetFile (gs_node_session_id session) fragment_index)
       ''RspGetFile'' Get_file_on_active)))))))))"

definition get_file_on_active :: "'c server \<Rightarrow> int \<Rightarrow> 'c handler" where
  "get_file_on_active S trans_id conn_id package =
     bindE (this_trans trans_id) (\<lambda>t.
     bindE (current_user (t_first_conn_id t)) (\<lambda>_.
     bindE (request S ''RspGetFile'' as_RspGetFile package) (\<lambda>(error, _, fragment_index, fragment_content).
     bindE (this_session_id trans_id) (\<lambda>k.
     answer S trans_id (RspGetFile error k fragment_index fragment_content)))))"

section \<open>Removing\<close>

definition remove_path_on_init :: "'c server \<Rightarrow> int \<Rightarrow> 'c handler" where
  "remove_path_on_init S trans_id conn_id package =
     bindE (current_user conn_id) (\<lambda>user.
     bindE (request S ''ReqRemovePath'' as_ReqRemovePath package) (\<lambda>(group_id, path, force_remove_all).
     bindE (group_of group_id) (\<lambda>grp.
     bindE (need_manager user grp) (\<lambda>_.
     bindE (to_path S path) (\<lambda>path.
     on_app (on_files (remove_path (srv_poco S) grp path)))))))"

section \<open>The virtual functions\<close>

text \<open>\<open>on_error\<close> of the two session classes removes the session first.\<close>

definition session_on_error :: "'c server \<Rightarrow> int \<Rightarrow> int \<Rightarrow> error_info \<Rightarrow> ('c rs_world, unit) exec" where
  "session_on_error S trans_id conn_id error_info =
     bindE (this_session_id trans_id) (\<lambda>k.
     bindE (on_app (on_sessions (modify (remove_session k)))) (\<lambda>_.
     multi_on_error (srv_codec S) (srv_alloc S) trans_id error_info))"

definition rs_on_init :: "'c server \<Rightarrow> int \<Rightarrow> 'c handler" where
  "rs_on_init S trans_id conn_id package =
     bindE (this_trans trans_id) (\<lambda>t. case t_data t of
       Put_file_session_trans _ \<Rightarrow> put_file_session_on_init S trans_id conn_id package
     | Put_file_trans _ \<Rightarrow> put_file_on_init S trans_id conn_id package
     | Get_file_session_trans _ \<Rightarrow> get_file_session_on_init S trans_id conn_id package
     | Get_file_trans _ \<Rightarrow> get_file_on_init S trans_id conn_id package
     | Remove_path_trans \<Rightarrow> remove_path_on_init S trans_id conn_id package)"

definition rs_on_error :: "'c server \<Rightarrow> int \<Rightarrow> int \<Rightarrow> error_info \<Rightarrow> ('c rs_world, unit) exec" where
  "rs_on_error S trans_id conn_id error_info =
     bindE (this_trans trans_id) (\<lambda>t. case t_data t of
       Put_file_session_trans _ \<Rightarrow> session_on_error S trans_id conn_id error_info
     | Get_file_session_trans _ \<Rightarrow> session_on_error S trans_id conn_id error_info
     | _ \<Rightarrow> multi_on_error (srv_codec S) (srv_alloc S) trans_id error_info)"

fun rs_callback :: "'c server \<Rightarrow> rs_fun \<Rightarrow> int \<Rightarrow> 'c handler" where
  "rs_callback S Put_file_session_on_active = put_file_session_on_active S"
| "rs_callback S Put_file_on_active = put_file_on_active S"
| "rs_callback S Get_file_session_on_active = get_file_session_on_active S"
| "rs_callback S Get_file_on_active = get_file_on_active S"
| "rs_callback S Remove_path_on_active = (\<lambda>trans_id conn_id package. ret ())"
| "rs_callback S _ = (\<lambda>trans_id conn_id package. fail Undefined)"

section \<open>The transactions are calm and keep the managers' invariant\<close>

lemmas trans_parts = this_session_id_def set_data_def need_user_def path_exists_def ask_node_def answer_def

lemma calm_trans_parts [calm_intros]:
  "calm me (this_session_id k)" "calm me (need_user u v)" "calm me (path_exists S g path)"
  "sizes_ok (srv_codec S) \<Longrightarrow> calm k (ask_node S k n m name f)" "sizes_ok (srv_codec S) \<Longrightarrow> calm me (answer S k m)"
  "calm me (general_file_at S g path)" "calm me (node_of_file sf)"
  by (simp_all add: trans_parts general_file_at_def node_of_file_def calm_intros split: file_body.split)

lemma calm_set_data [calm_intros]: "calm k (set_data k d)"
  unfolding set_data_def by (rule calm_write_trans) simp_all

lemma trans_parts_app [unchanged_intros]:
  "unchanged w_app (this_session_id k)" "unchanged w_app (set_data k d)" "unchanged w_app (need_user u v)"
  "unchanged w_app (path_exists S g path)" "unchanged w_app (ask_node S k n m name f)"
  "unchanged w_app (answer S k m)" "unchanged w_app (general_file_at S g path)" "unchanged w_app (node_of_file sf)"
  by (simp_all add: trans_parts general_file_at_def node_of_file_def unchanged_intros split: file_body.split)

lemmas keeps_trans_parts [keeps_intros] = trans_parts_app [THEN keeps_server_unchanged]

lemmas trans_defs = put_file_session_on_init_def put_file_session_on_active_def put_file_on_init_def
  put_file_on_active_def get_file_session_on_init_def get_file_session_on_active_def get_file_on_init_def
  get_file_on_active_def remove_path_on_init_def session_on_error_def

lemma calm_register_upload [calm_intros]: "calm me (register_upload S user grp k path mf)"
  by (simp add: register_upload_def calm_intros)

lemma calm_rs_on_init: "sizes_ok (srv_codec S) \<Longrightarrow> calm k (rs_on_init S k conn p)"
  unfolding rs_on_init_def
  by (intro calm_intros) (simp add: trans_defs calm_intros split: rs_data.split)

lemma calm_rs_callback: "sizes_ok (srv_codec S) \<Longrightarrow> calm k (rs_callback S f k conn p)"
  by (cases f) (simp_all add: trans_defs calm_intros)

lemma calm_rs_on_error: "sizes_ok (srv_codec S) \<Longrightarrow> calm k (rs_on_error S k conn e)"
  unfolding rs_on_error_def
  by (intro calm_intros) (simp add: trans_defs calm_intros split: rs_data.split)

text \<open>
  Of the steps of \<open>register_upload\<close> only the last two depend on each other: the file that is
  added is the one registered before.
\<close>

lemma keeps_bindE_val:
  assumes "keeps P m" and "\<And>s a t. P s \<Longrightarrow> m s = (Inr a, t) \<Longrightarrow> P t \<Longrightarrow> P (snd (f a t))"
  shows "keeps P (bindE m f)"
  unfolding keeps_def
proof (intro allI impI)
  fix s assume s: "P s"
  obtain r t where m: "m s = (r, t)" by fastforce
  have "P t" by (rule keepsD_eq [OF assms(1) s m])
  with assms(2) [OF s, of _ t] m show "P (snd (bindE m f s))" by (cases r) (simp_all add: bindE_def)
qed

lemma keeps_add_registered:
  fixes S :: "'c server"
  shows "keeps server_ok (bindE (on_app (on_files (register_file GENERAL_FILE name arg))) (\<lambda>f.
     bindE (to_path S d) (\<lambda>dir. bindE (on_app (on_files (add_file P g dir (sf_file_id f)))) (\<lambda>_.
       on_app (on_sessions (register_put_session u k path mf))))))"
proof (rule keeps_bindE_val)
  fix s t :: "'c rs_world" and f
  assume s: "server_ok s" and t: "server_ok t"
    and run: "on_app (on_files (register_file GENERAL_FILE name arg)) s = (Inr f, t)"
  have fm: "fm_inv (c_files (w_app s))" using s by (simp add: server_ok_def core_ok_parts)
  have reg: "register_file GENERAL_FILE name arg (c_files (w_app s)) = (Inr f, c_files (w_app t))"
    using run by (auto simp: zoom_def split: prod.splits)
  show "server_ok (snd (bindE (to_path S d) (\<lambda>dir. bindE (on_app (on_files (add_file P g dir (sf_file_id f)))) (\<lambda>_.
       on_app (on_sessions (register_put_session u k path mf)))) t))"
  proof (cases "make_path (srv_poco S) d")
    case (Inr dir)
    obtain r fm2 where add: "add_file P g dir (sf_file_id f) (c_files (w_app t)) = (r, fm2)" by fastforce
    let ?u = "t\<lparr>w_app := (w_app t)\<lparr>c_files := fm2\<rparr>\<rparr>"
    have "server_ok ?u"
      using t add_newest_file_inv [OF fm reg add]
      by (simp add: server_ok_def core_ok_def core_inv_def load_ok_def groups_placed_def)
    then have "server_ok (snd (on_app (on_sessions (register_put_session u k path mf)) ?u))"
      by (intro keepsD [OF keeps_server_on_app]) (simp_all add: keeps_intros)
    with \<open>server_ok ?u\<close> Inr add show ?thesis
      by (simp add: to_path_def bindE_getsE) (auto simp: bindE_def zoom_def split: prod.split sum.split)
  qed (use t in \<open>simp add: to_path_def bindE_getsE\<close>)
qed (intro keeps_intros)

lemma keeps_register_upload [keeps_intros]: "keeps server_ok (register_upload S user grp k path mf)"
  unfolding register_upload_def
  by (intro keeps_bindE keeps_add_registered) (simp_all add: keeps_intros)

lemma session_id_writes [simp]:
  "(\<And>s. ps_session_id (f s) = ps_session_id s) \<Longrightarrow> session_id (on_put_session f x) = session_id x"
  "(\<And>s. gs_session_id (g s) = gs_session_id s) \<Longrightarrow> session_id (on_get_session g x) = session_id x"
  by (cases x; simp)+

lemma keeps_rs_on_init: "keeps server_ok (rs_on_init S k conn p)"
  unfolding rs_on_init_def
  by (intro keeps_intros) (simp_all add: trans_defs keeps_intros keeps_server_unchanged unchanged_intros split: rs_data.split)

lemma keeps_rs_callback: "keeps server_ok (rs_callback S f k conn p)"
  by (cases f) (simp_all add: trans_defs keeps_intros keeps_server_unchanged unchanged_intros)

lemma keeps_rs_on_error: "keeps server_ok (rs_on_error S k conn e)"
  unfolding rs_on_error_def
  by (intro keeps_intros) (simp_all add: trans_defs keeps_intros keeps_server_unchanged unchanged_intros split: rs_data.split)

end
