(* ===== verification/Resource_Server.thy ===== *)
theory Resource_Server
  imports File_Transactions
begin

text \<open>
  The resource server as a program of the worker: the table of transactions and the set-up of
  \<open>resource_server/main.cpp\<close>, and what theories \<open>Handlers\<close> and \<open>File_Transactions\<close> run as
  functions of the server. The properties here span its components.
\<close>

section \<open>The program\<close>

text \<open>
  Storing the data writes a file and reads the managers only: theory \<open>Serialization\<close> has what it
  writes, and nothing that the worker runs on changes.
\<close>

fun rs_call :: "'c server \<Rightarrow> rs_fun \<Rightarrow> ('c rs_world, unit) exec" where
  "rs_call S Kick_out_offline_users =
     bindE (gets (\<lambda>w. seconds (w_now w))) (\<lambda>now. on_app (on_users (kick_out_offline_users now)))"
| "rs_call S Store_data = ret ()"
| "rs_call S (Node_registered ip port service_id) =
     on_app (on_nodes (modify (\<lambda>nm. snd (add_node ip port service_id nm))))"
| "rs_call S (Node_service_set node_id service_id) =
     bindE (getsE (\<lambda>w. get_node (c_nodes (w_app w)) node_id)) (\<lambda>_.
     on_app (on_nodes (modify (\<lambda>nm. nm\<lparr>m_node_list :=
       om_update node_id (\<lambda>n. n\<lparr>n_service_id := service_id\<rparr>) (m_node_list nm)\<rparr>))))"
| "rs_call S _ = fail Undefined"

definition rs_program :: "'c server \<Rightarrow> ('c, rs_fun, rs_data, core) program" where
  "rs_program S = \<lparr>pr_codec = srv_codec S, pr_alloc = srv_alloc S, pr_handler = rs_handler S,
     pr_factory = rs_factory, pr_on_init = rs_on_init S, pr_callback = rs_callback S,
     pr_on_error = rs_on_error S, pr_call = rs_call S\<rparr>"

section \<open>The set-up\<close>

text \<open>\<open>ReqRemoveGroup\<close> is not among them.\<close>

definition register_transactions :: "((int, rs_fun transaction) omap, unit) exec" where
  "register_transactions =
     bindE (register_one_phase_transaction ''ReqPing'' On_ping) (\<lambda>_.
     bindE (register_one_phase_transaction ''ReqRegisterUser'' On_register_user) (\<lambda>_.
     bindE (register_one_phase_transaction ''ReqLoginUser'' On_login_user) (\<lambda>_.
     bindE (register_one_phase_transaction ''ReqRemoveUser'' On_remove_user) (\<lambda>_.
     bindE (register_one_phase_transaction ''ReqFindUser'' On_find_user) (\<lambda>_.
     bindE (register_one_phase_transaction ''ReqRegisterGroup'' On_register_group) (\<lambda>_.
     bindE (register_one_phase_transaction ''ReqFindGroup'' On_find_group) (\<lambda>_.
     bindE (register_one_phase_transaction ''ReqJoinGroup'' On_join_group) (\<lambda>_.
     bindE (register_one_phase_transaction ''ReqAssignAsManager'' On_assign_as_manager) (\<lambda>_.
     bindE (register_one_phase_transaction ''ReqAssignAsMember'' On_assign_as_member) (\<lambda>_.
     bindE (register_one_phase_transaction ''ReqKickOutUser'' On_kick_out_user) (\<lambda>_.
     bindE (register_one_phase_transaction ''ReqCreatePath'' On_create_path) (\<lambda>_.
     bindE (register_one_phase_transaction ''ReqListFile'' On_list_file) (\<lambda>_.
     bindE (register_multiply_phase_transaction ''ReqPutFileSession'' Put_file_session_factory) (\<lambda>_.
     bindE (register_multiply_phase_transaction ''ReqPutFile'' Put_file_factory) (\<lambda>_.
     bindE (register_multiply_phase_transaction ''ReqGetFileSession'' Get_file_session_factory) (\<lambda>_.
     bindE (register_multiply_phase_transaction ''ReqGetFile'' Get_file_factory) (\<lambda>_.
     register_multiply_phase_transaction ''ReqRemovePath'' Remove_path_factory)))))))))))))))))"

definition setup_root :: "string \<Rightarrow> string \<Rightarrow> string \<Rightarrow> (core, unit) exec" where
  "setup_root root_user_name root_user_pwd root_group_name =
     bindE (gets (\<lambda>c. find_user_by_name (c_users c) root_user_name)) (\<lambda>found.
     bindE (case found of
         Some root \<Rightarrow> ret root
       | None \<Rightarrow> on_users (register_user root_user_name root_user_pwd True)) (\<lambda>root.
     bindE (gets (\<lambda>c. find_group_by_name (c_groups c) root_group_name)) (\<lambda>grp.
     if grp = None then bindE (register_group (u_user_id root) root_group_name) (\<lambda>_. ret ()) else ret ())))"

definition STORE_DATA_PER_SEC :: int where "STORE_DATA_PER_SEC = 5"
definition CHECK_OFFLINE_USERS_PER_SEC :: int where "CHECK_OFFLINE_USERS_PER_SEC = 60"

text \<open>
  The state in which the worker starts, with the timers of \<open>SerializationManager\<close>, which \<open>main\<close>
  uses first, and of \<open>UserManager\<close>.
\<close>

definition start_timers :: "precise_time \<Rightarrow> rs_fun timer_action timer_manager" where
  "start_timers now =
     snd (register_frequent_timer ''kick_out_offline_users'' (pt_seconds CHECK_OFFLINE_USERS_PER_SEC)
       (Timer_call Kick_out_offline_users) (pt_seconds 0) now
     (snd (register_frequent_timer ''SerializationManager'' (pt_seconds STORE_DATA_PER_SEC)
       (Timer_call Store_data) (pt_seconds 0) now empty_timer_manager)))"

definition rs_start :: "core \<Rightarrow> precise_time \<Rightarrow> 'c rs_world" where
  "rs_start a now = (empty_world a)
     \<lparr>w_trans_list := snd (register_transactions []), w_now := now,
      w_timers := start_timers now\<rparr>"

text \<open>What \<open>register_transactions\<close> leaves in the table: command, class of the request, kind, function.\<close>

definition rs_table :: "(int \<times> string \<times> transaction_type \<times> rs_fun) list" where
  "rs_table = [
     (1001, ''Ping'', ONE_PHASE_TRANSACTION, On_ping),
     (1003, ''RegisterUser'', ONE_PHASE_TRANSACTION, On_register_user),
     (1005, ''LoginUser'', ONE_PHASE_TRANSACTION, On_login_user),
     (1007, ''RemoveUser'', ONE_PHASE_TRANSACTION, On_remove_user),
     (1009, ''FindUser'', ONE_PHASE_TRANSACTION, On_find_user),
     (1011, ''RegisterGroup'', ONE_PHASE_TRANSACTION, On_register_group),
     (1015, ''FindGroup'', ONE_PHASE_TRANSACTION, On_find_group),
     (1017, ''JoinGroup'', ONE_PHASE_TRANSACTION, On_join_group),
     (1019, ''AssignAsManager'', ONE_PHASE_TRANSACTION, On_assign_as_manager),
     (1021, ''AssignAsMember'', ONE_PHASE_TRANSACTION, On_assign_as_member),
     (1023, ''KickOutUser'', ONE_PHASE_TRANSACTION, On_kick_out_user),
     (1025, ''ListFile'', ONE_PHASE_TRANSACTION, On_list_file),
     (1027, ''PutFileSession'', MULTIPLY_PHASE_TRANSACTION, Put_file_session_factory),
     (1031, ''PutFile'', MULTIPLY_PHASE_TRANSACTION, Put_file_factory),
     (1033, ''GetFileSession'', MULTIPLY_PHASE_TRANSACTION, Get_file_session_factory),
     (1037, ''GetFile'', MULTIPLY_PHASE_TRANSACTION, Get_file_factory),
     (1039, ''CreatePath'', ONE_PHASE_TRANSACTION, On_create_path),
     (1041, ''RemovePath'', MULTIPLY_PHASE_TRANSACTION, Remove_path_factory)]"

definition rs_entry :: "transaction_type \<Rightarrow> rs_fun \<Rightarrow> rs_fun transaction" where
  "rs_entry t f = \<lparr>tr_type = t, tr_handler = f, tr_error_handler = (t = ONE_PHASE_TRANSACTION)\<rparr>"

lemma register_transactions_run:
  "register_transactions [] = (Inr (), map (\<lambda>(c, n, t, f). (c, rs_entry t f)) rs_table)"
  by (simp add: register_transactions_def register_one_phase_transaction_def register_multiply_phase_transaction_def
     bindE_def get_command_def find_command_iff [THEN iffD2] default_command_name_map_def register_transaction_def
     rs_table_def rs_entry_def)

lemma rs_table_names:
  "\<forall>(c, n, t, f) \<in> set rs_table. c \<noteq> 0 \<and> (c, ''Req'' @ n) \<in> set default_command_name_map \<and>
     (\<exists>k. (k, ''Rsp'' @ n) \<in> set default_command_name_map)"
  by (simp add: rs_table_def default_command_name_map_def)

lemma rs_commands_answerable: "c \<in> fst ` set rs_table \<Longrightarrow> answerable c"
proof -
  assume "c \<in> fst ` set rs_table"
  then obtain n k where "c \<noteq> 0" "find_name c = Some (''Req'' @ n)" "find_command (''Rsp'' @ n) = Some k"
    using rs_table_names by (fastforce simp: find_name_iff find_command_iff)
  then show ?thesis by (simp add: answerable_def send_command_def send_name_def get_name_def get_command_def)
qed

section \<open>The server meets the worker's contracts\<close>

text \<open>What an error answer needs: memory for its package, and sizes that are those of messages.\<close>

locale server_env =
  fixes S :: "'c server"
  assumes sizes: "sizes_ok (srv_codec S)" and memory: "srv_alloc S n"
begin

lemma rs_on_error_returns:
  assumes inv: "world_inv w" and c: "trigger_command (w_multi w) k = Some c" "answerable c"
  shows "fst (rs_on_error S k conn e w) = Inr ()"
proof -
  obtain t where t: "find_multi (w_multi w) k = Some t" "ts_command (t_first_trigger_source t) = c"
    using c(1) by (auto simp: trigger_command_def)
  have plain: "fst (multi_on_error (srv_codec S) (srv_alloc S) k e v) = Inr ()"
    if "world_inv v" "w_multi v = w_multi w" for v
    by (rule multi_on_error_returns [OF that(1) sizes memory _ c(2)]) (simp add: that(2) c(1))
  have "world_inv (w\<lparr>w_app := a\<rparr>)" for a using inv by (simp add: world_inv_def)
  then show ?thesis
    using t plain [of w] inv
    by (cases "t_data t") (simp_all add: rs_on_error_def session_on_error_def this_session_id_def this_trans_def
        bindE_getsE bindE_def zoom_def plain)
qed

end

lemma calm_rs_call: "calm 0 (rs_call S f)"
  by (cases f) (simp_all add: calm_intros)

sublocale server_env \<subseteq> rs: calm_program "rs_program S"
  by unfold_locales
    (simp_all add: rs_program_def sizes calm_handlers calm_rs_on_init calm_rs_callback calm_rs_on_error
      calm_rs_call rs_on_error_returns)

lemma keeps_rs_call: "keeps server_ok (rs_call S f)"
proof (cases f)
  case (Node_registered ip port sid)
  have "keeps core_ok (on_nodes (modify (\<lambda>nm. snd (add_node ip port sid nm))))"
    by (simp add: keeps_def zoom_def core_ok_add_node)
  then show ?thesis by (simp add: Node_registered keeps_intros)
next
  case (Node_service_set k sid)
  have "keeps core_ok (on_nodes (modify (\<lambda>nm. nm\<lparr>m_node_list :=
       om_update k (\<lambda>n. n\<lparr>n_service_id := sid\<rparr>) (m_node_list nm)\<rparr>)))"
    by (simp add: keeps_def zoom_def core_ok_set_service)
  then show ?thesis by (simp add: Node_service_set keeps_intros)
qed (simp_all add: keeps_intros)

interpretation rs_app: app_invariant "rs_program S" core_ok for S
  by unfold_locales
    (simp_all add: rs_program_def server_ok_def [abs_def, symmetric] keeps_handlers keeps_rs_on_init
      keeps_rs_callback keeps_rs_on_error keeps_rs_call)

text \<open>A server whose contents are the messages themselves, and POCO's functions by their description.\<close>

definition message_server :: "message server" where
  "message_server = \<lparr>srv_codec = message_codec, srv_alloc = (\<lambda>_. True), srv_poco = std_poco None\<rparr>"

interpretation message_env: server_env message_server
  by unfold_locales (simp_all add: message_server_def sizes_ok_message)

section \<open>The state in which the worker starts\<close>

lemma worker_inv_start:
  assumes "pt_norm now"
  shows "worker_inv (rs_start a now)"
proof -
  have "tmr_inv (w_timers (rs_start a now))"
    by (simp add: rs_start_def start_timers_def register_frequent_timer_def register_timer_inv tmr_inv_empty assms pt_norm_seconds)
  moreover have "fst ` set (w_trans_list (rs_start a now)) = fst ` set rs_table"
    by (force simp: rs_start_def register_transactions_run)
  ultimately show ?thesis
    using assms world_inv_empty [of a] rs_commands_answerable
    by (auto simp: worker_inv_def world_inv_def settled_def rs_start_def empty_world_def empty_multi_manager_def
        find_multi_def)
qed

context server_env begin

lemma started_no_transaction_left:
  assumes "pt_norm now" and "(worker_step (rs_program S))\<^sup>*\<^sup>* (rs_start a now) w" and "find_multi (w_multi w) k = Some t"
  shows "t_is_waiting t \<and> has_wait_timer (w_timers w) k"
  by (rule rs.no_transaction_left [OF assms(2) worker_inv_start [OF assms(1)] assms(3)])

end

section \<open>Who may change what\<close>

lemma zoom_app [simp]: "w_app (snd (on_app m w)) = snd (m (w_app w))"
  by (simp add: zoom_def split: prod.split)

lemma respond_app [simp]: "w_app (snd (respond S conn p m w)) = w_app w"
  by (simp add: respond_def unchangedD unchanged_intros)

lemma unchanged_on_app: "unchanged f m \<Longrightarrow> unchanged (\<lambda>w. f (w_app w)) (on_app m)"
  by (simp add: unchanged_def)

lemma core_frames:
  "unchanged c_groups (on_users m1)" "unchanged c_groups (on_files m2)" "unchanged c_groups (on_sessions m3)"
  "unchanged c_files (on_users m1)" "unchanged c_files (on_sessions m3)" "unchanged c_files (on_group k m4)"
  unfolding unchanged_def zoom_def on_group_def by (simp_all split: prod.split option.split)

lemma remove_group_files: "unchanged c_files (remove_group u k)"
  by (simp add: remove_group_def unchanged_intros unchanged_modify)

lemmas apart_apps [unchanged_intros] = core_frames [THEN unchanged_on_app] remove_group_files [THEN unchanged_on_app]

lemma unchanged_comp: "unchanged f m \<Longrightarrow> unchanged (\<lambda>w. g (f w)) m"
  by (simp add: unchanged_def)

lemma parts_app [unchanged_intros]:
  "unchanged w_app (request S name f p)" "unchanged w_app (respond S conn p m)" "unchanged w_app (current_user conn)"
  "unchanged w_app (group_of k)" "unchanged w_app (to_path S path)" "unchanged w_app (need_manager u g)"
  "unchanged w_app (need_member u g)"
  by (simp_all add: handler_parts unchanged_intros)

lemmas parts_frames = parts_app [THEN unchanged_comp]

text \<open>A handler that needs a manager.\<close>

lemma manager_action:
  assumes "bindE (current_user conn) (\<lambda>user. bindE (group_of k) (\<lambda>grp. bindE (need_manager user grp) (\<lambda>_. m user grp))) w = (r, w')"
  obtains "w' = w"
    | u g where "get_login_user (c_users (w_app w)) conn = Inr u" and "find_group (c_groups (w_app w)) k = Some g"
      and "is_manager g (u_user_id u)" and "m u g w = (r, w')"
  using assms
  by (auto simp: current_user_def group_of_def need_manager_def bindE_getsE bindE_throw_if get_group_def
      split: sum.splits option.splits if_splits)

lemma find_group_on_group:
  "find_group (c_groups (snd (on_group j m c))) k =
    (if k = j then map_option (\<lambda>g. snd (m g)) (find_group (c_groups c) j) else find_group (c_groups c) k)"
  by (auto simp: on_group_def find_group_def map_of_om_update split: option.split prod.split)

lemma bindE_app:
  assumes "\<And>a. unchanged w_app (f a)"
  shows "w_app (snd (bindE m f w)) = w_app (snd (m w))"
proof -
  obtain q u where m: "m w = (q, u)" by fastforce
  show ?thesis using unchangedD [OF assms] by (cases q) (simp_all add: bindE_def m)
qed

lemma on_app_respond: "w_app (snd (bindE (on_app m) (\<lambda>a. respond S conn p (f a)) w)) = snd (m (w_app w))"
  by (simp add: bindE_app unchanged_intros)

end
