(* ===== verification/Access_Control.thy ===== *)
theory Access_Control
  imports Resource_Server
begin

text \<open>
  Who may change what: properties of the requests to the resource server across its handlers
  and file transactions.
\<close>

lemma group_frames:
  "unchanged (\<lambda>w. c_groups (w_app w)) (on_ping S conn p)"
  "unchanged (\<lambda>w. c_groups (w_app w)) (on_register_user S conn p)"
  "unchanged (\<lambda>w. c_groups (w_app w)) (on_login_user S conn p)"
  "unchanged (\<lambda>w. c_groups (w_app w)) (on_remove_user S conn p)"
  "unchanged (\<lambda>w. c_groups (w_app w)) (on_find_user S conn p)"
  "unchanged (\<lambda>w. c_groups (w_app w)) (on_find_group S conn p)"
  "unchanged (\<lambda>w. c_groups (w_app w)) (on_create_path S conn p)"
  "unchanged (\<lambda>w. c_groups (w_app w)) (on_list_file S conn p)"
  by (simp_all add: handler_defs parts_frames unchanged_intros)

lemma request_cases:
  assumes "bindE (request S name members p) f w = (r, w')"
  obtains (refused) "w' = w" | (parsed) m where "parse_to_protocol (srv_codec S) name members p = Inr m" and "f m w = (r, w')"
  using assms by (auto simp: request_def bindE_getsE split: sum.splits)

text \<open>The part of a handler behind its parse, for the handlers that change one group.\<close>

lemma on_group_respond:
  assumes "bindE (on_app (on_group j m)) (\<lambda>_. respond S conn p a) w = (r, w')"
    and "find_group (c_groups (w_app w)) k = Some g"
  shows "find_group (c_groups (w_app w')) k = Some (if k = j then snd (m g) else g)"
  using on_app_respond [of "on_group j m" S conn p "\<lambda>_. a" w] assms by (cases "k = j") (simp_all add: find_group_on_group)

lemma user_app_respond:
  assumes "bindE (current_user conn) (\<lambda>user. bindE (on_app (m user)) (\<lambda>b. respond S conn p (a b))) w = (r, w')"
  obtains (refused) "w' = w" | (called) u where "get_login_user (c_users (w_app w)) conn = Inr u" and "w_app w' = snd (m u (w_app w))"
proof (cases "get_login_user (c_users (w_app w)) conn")
  case (Inr u)
  with assms have "bindE (on_app (m u)) (\<lambda>b. respond S conn p (a b)) w = (r, w')"
    by (simp add: current_user_def bindE_getsE)
  with on_app_respond [of "m u" S conn p a w] Inr show ?thesis by (intro called) simp_all
qed (use assms refused in \<open>simp add: current_user_def bindE_getsE\<close>)

lemma manager_on_group:
  assumes run: "bindE (request S name members p) (\<lambda>(j, v). bindE (current_user conn) (\<lambda>user. bindE (group_of j) (\<lambda>grp.
      bindE (need_manager user grp) (\<lambda>_. bindE (on_app (on_group j (m v))) (\<lambda>_. respond S conn p a))))) w = (r, w')"
    and g: "find_group (c_groups (w_app w)) k = Some g"
    and no_manager: "\<And>u. get_login_user (c_users (w_app w)) conn = Inr u \<Longrightarrow> \<not> is_manager g (u_user_id u)"
  shows "find_group (c_groups (w_app w')) k = Some g"
  using run
proof (cases rule: request_cases)
  case (parsed jv)
  obtain j v where jv: "jv = (j, v)" by fastforce
  from parsed(2) [unfolded jv prod.case] show ?thesis
  proof (cases rule: manager_action)
    case (2 u h)
    from on_group_respond [OF 2(4) g] 2(1-3) g no_manager show ?thesis by (cases "k = j") auto
  qed (use g in simp)
qed (use g in simp)

text \<open>The four requests that need no manager.\<close>

lemma register_group_frame:
  assumes c: "core_inv (w_app w)" and g: "find_group (c_groups (w_app w)) k = Some g"
    and run: "on_register_group S conn p w = (r, w')"
  shows "find_group (c_groups (w_app w')) k = Some g"
  using run [unfolded on_register_group_def]
proof (cases rule: request_cases)
  case (parsed name)
  from parsed(2) show ?thesis
  proof (cases rule: user_app_respond)
    case (called u)
    obtain q c' where reg: "register_group (u_user_id u) name (w_app w) = (q, c')" by fastforce
    have "k < gm_next_id (c_groups (w_app w))"
      using c g by (auto simp: core_inv_def gm_inv_def find_group_def intro: ids_below_lookup)
    with g have "find_group (c_groups c') k = Some g"
      by (cases rule: register_group_cases [OF c reg]) (simp_all add: group_entered_inv(4) [OF c])
    then show ?thesis using called(2) reg by simp
  qed (use g in simp)
qed (use g in simp)

lemma remove_group_frame:
  assumes c: "core_inv (w_app w)" and g: "find_group (c_groups (w_app w)) k = Some g"
    and no_manager: "\<And>u. get_login_user (c_users (w_app w)) conn = Inr u \<Longrightarrow> \<not> is_manager g (u_user_id u)"
    and run: "on_remove_group S conn p w = (r, w')"
  shows "find_group (c_groups (w_app w')) k = Some g"
  using run [unfolded on_remove_group_def]
proof (cases rule: request_cases)
  case (parsed j)
  from parsed(2) show ?thesis
  proof (cases rule: user_app_respond)
    case (called u)
    obtain q c' where rem: "remove_group (u_user_id u) j (w_app w) = (q, c')" by fastforce
    have "is_manager g (m_owner_id g)"
      using c g by (auto simp: core_inv_def gm_inv_def group_inv_def find_group_def dest!: map_of_SomeD)
    then have "m_owner_id g \<noteq> u_user_id u" using no_manager called(1) by auto
    with g have "find_group (c_groups c') k = Some g"
      by (cases rule: remove_group_cases [OF c rem]) (auto simp: find_group_def)
    then show ?thesis using called(2) rem by simp
  qed (use g in simp)
qed (use g in simp)

lemma join_group_effect:
  assumes g: "find_group (c_groups (w_app w)) k = Some g" and run: "on_join_group S conn p w = (r, w')"
  shows "find_group (c_groups (w_app w')) k = Some g \<or> (\<exists>u. get_login_user (c_users (w_app w)) conn = Inr u \<and>
    find_group (c_groups (w_app w')) k = Some (join_group (u_user_id u) g))"
  using run [unfolded on_join_group_def]
proof (cases rule: request_cases)
  case (parsed j)
  show ?thesis
  proof (cases "get_login_user (c_users (w_app w)) conn")
    case (Inr u)
    with parsed(2) have "w' = w \<or> bindE (on_app (on_group j (modify (join_group (u_user_id u)))))
        (\<lambda>_. respond S conn p (RspJoinGroup None)) w = (r, w')"
      by (auto simp: current_user_def group_of_def bindE_getsE split: sum.splits)
    with on_group_respond [OF _ g] Inr g show ?thesis by fastforce
  qed (use parsed(2) g in \<open>simp add: current_user_def bindE_getsE\<close>)
qed (use g in simp)

lemma kick_out_effect:
  assumes g: "find_group (c_groups (w_app w)) k = Some g"
    and no_manager: "\<And>u. get_login_user (c_users (w_app w)) conn = Inr u \<Longrightarrow> \<not> is_manager g (u_user_id u)"
    and run: "on_kick_out_user S conn p w = (r, w')"
  shows "find_group (c_groups (w_app w')) k = Some g \<or> (\<exists>u. get_login_user (c_users (w_app w)) conn = Inr u \<and>
    find_group (c_groups (w_app w')) k = Some (snd (kick_out_user (u_user_id u) g)))"
  using run [unfolded on_kick_out_user_def]
proof (cases rule: request_cases)
  case (parsed jv)
  obtain j v where jv: "jv = (j, v)" by fastforce
  show ?thesis
  proof (cases "get_login_user (c_users (w_app w)) conn")
    case (Inr u)
    with parsed(2) jv have "w' = w \<or> bindE (on_app (on_group j (kick_out_user v))) (\<lambda>_. respond S conn p (RspKickOutUser None)) w = (r, w') \<and>
        (v = u_user_id u \<or> (\<exists>h. find_group (c_groups (w_app w)) j = Some h \<and> is_manager h (u_user_id u)))"
      by (auto simp: current_user_def group_of_def need_manager_def bindE_getsE bindE_throw_if get_group_def
          split: sum.splits option.splits if_splits)
    then show ?thesis
    proof (elim disjE conjE)
      assume "bindE (on_app (on_group j (kick_out_user v))) (\<lambda>_. respond S conn p (RspKickOutUser None)) w = (r, w')"
      note eff = on_group_respond [OF this g]
      { assume "v = u_user_id u" with eff Inr show ?thesis by (cases "k = j") auto }
      assume "\<exists>h. find_group (c_groups (w_app w)) j = Some h \<and> is_manager h (u_user_id u)"
      with no_manager [OF Inr] g have "k \<noteq> j" by auto
      with eff show ?thesis by simp
    qed (use g in simp)
  qed (use parsed(2) g jv in \<open>simp add: current_user_def bindE_getsE\<close>)
qed (use g in simp)

section \<open>Properties\<close>

text \<open>
  C3. A group's roles are its managers' to change. A request from somebody who is not logged in,
  or is not a manager of a group, leaves the group as it was, with two exceptions: he can
  join it, and he can leave it. Neither registering nor removing other groups touches it.
\<close>

theorem roles_changed_by_manager:
  assumes ok: "server_ok w" and run: "rs_handler S f conn p w = (r, w')"
    and g: "find_group (c_groups (w_app w)) k = Some g"
    and no_manager: "\<And>u. get_login_user (c_users (w_app w)) conn = Inr u \<Longrightarrow> \<not> is_manager g (u_user_id u)"
  shows "find_group (c_groups (w_app w')) k = Some g \<or>
    (\<exists>u. get_login_user (c_users (w_app w)) conn = Inr u \<and>
       (find_group (c_groups (w_app w')) k = Some (join_group (u_user_id u) g) \<or>
        find_group (c_groups (w_app w')) k = Some (snd (kick_out_user (u_user_id u) g))))"
proof -
  have c: "core_inv (w_app w)" using ok by (simp add: server_ok_def core_ok_def)
  consider "unchanged (\<lambda>w. c_groups (w_app w)) (rs_handler S f conn p)"
    | "f = On_register_group" | "f = On_remove_group" | "f = On_join_group"
    | "f = On_assign_as_manager" | "f = On_assign_as_member" | "f = On_kick_out_user"
    by (cases f) (simp_all add: group_frames unchanged_fail)
  then show ?thesis
  proof cases
    case 1
    from unchangedD_eq [OF this run] g show ?thesis by simp
  next
    case 2
    with register_group_frame [OF c g] run show ?thesis by simp
  next
    case 3
    with remove_group_frame [OF c g no_manager] run show ?thesis by simp
  next
    case 4
    with join_group_effect [OF g] run show ?thesis by fastforce
  next
    case 5
    with manager_on_group [OF run [unfolded 5 rs_handler.simps on_assign_as_manager_def] g no_manager] show ?thesis by simp
  next
    case 6
    with manager_on_group [OF run [unfolded 6 rs_handler.simps on_assign_as_member_def] g no_manager] show ?thesis by simp
  next
    case 7
    with kick_out_effect [OF g no_manager] run show ?thesis by fastforce
  qed
qed

text \<open>Connection 7 is the root user's, who has no role in group 1; nobody is on connection 9.\<close>

definition access_world :: "message rs_world" where
  "access_world = rs_start example_core (pt_seconds 0)"

definition message_package :: "message \<Rightarrow> message package" where
  "message_package m = (new_package 0 1)\<lparr>p_content := Some m\<rparr>"

lemma access_world_ok: "server_ok access_world"
proof -
  have "groups_placed example_core"
    by (simp add: groups_placed_def example_core_def example_group_def new_group_def)
  then show ?thesis
    using example_core_ok by (simp add: server_ok_def core_ok_def access_world_def rs_start_def empty_world_def)
qed

lemma access_world_lookups:
  "find_group (c_groups (w_app access_world)) 1 = Some example_group"
  "get_login_user (c_users (w_app access_world)) 9 = Inl (Thrown (Resource ERR_USER_NOT_LOGIN))"
  "get_login_user (c_users (w_app access_world)) 7 = Inr u \<longleftrightarrow> find_user example_users 1 = Some u"
  "find_user example_users 1 = Some u \<Longrightarrow> u_user_id u = 1" "\<not> is_manager example_group 1"
  by (auto simp: access_world_def rs_start_def empty_world_def example_core_def find_group_def get_login_user_def
      find_login_user_def example_users_def find_user_def example_group_def new_group_def is_manager_def)

theorem roles_changed_by_manager_witness:
  "find_group (c_groups (w_app (snd (rs_handler message_server On_assign_as_manager 7
     (message_package (ReqAssignAsManager 1 6)) access_world)))) 1 \<in>
   {Some example_group, Some (join_group 1 example_group), Some (snd (kick_out_user 1 example_group))}"
  using roles_changed_by_manager [OF access_world_ok surjective_pairing access_world_lookups(1), of 7] access_world_lookups
  by fastforce

section \<open>Who is logged in\<close>

lemma as_members:
  "msg_name m = ''ReqPing'' \<Longrightarrow> \<not> isl (as_ReqPing m)"
  "msg_name m = ''ReqRemoveUser'' \<Longrightarrow> \<not> isl (as_ReqRemoveUser m)"
  "msg_name m = ''ReqFindUser'' \<Longrightarrow> \<not> isl (as_ReqFindUser m)"
  "msg_name m = ''ReqRegisterGroup'' \<Longrightarrow> \<not> isl (as_ReqRegisterGroup m)"
  "msg_name m = ''ReqFindGroup'' \<Longrightarrow> \<not> isl (as_ReqFindGroup m)"
  "msg_name m = ''ReqJoinGroup'' \<Longrightarrow> \<not> isl (as_ReqJoinGroup m)"
  "msg_name m = ''ReqAssignAsManager'' \<Longrightarrow> \<not> isl (as_ReqAssignAsManager m)"
  "msg_name m = ''ReqAssignAsMember'' \<Longrightarrow> \<not> isl (as_ReqAssignAsMember m)"
  "msg_name m = ''ReqKickOutUser'' \<Longrightarrow> \<not> isl (as_ReqKickOutUser m)"
  "msg_name m = ''ReqCreatePath'' \<Longrightarrow> \<not> isl (as_ReqCreatePath m)"
  "msg_name m = ''ReqListFile'' \<Longrightarrow> \<not> isl (as_ReqListFile m)"
  by (cases m; simp add: as_ReqPing_def as_ReqRemoveUser_def as_ReqFindUser_def as_ReqRegisterGroup_def
      as_ReqFindGroup_def as_ReqJoinGroup_def as_ReqAssignAsManager_def as_ReqAssignAsMember_def
      as_ReqKickOutUser_def as_ReqCreatePath_def as_ReqListFile_def)+

lemma request_unauthorised:
  assumes codec: "codec_ok (srv_codec S)" and c: "p_content p = Some c"
    and as_name: "\<And>m. msg_name m = name \<Longrightarrow> \<not> isl (members m)"
    and f: "\<And>a. f a w = (Inl e, w)"
  shows "bindE (request S name members p) f w =
    (Inl (if of_content (srv_codec S) name c = None then Thrown (Foundation ERR_NETWORK_PACKAGE_CANNOT_PARSE_TO_PROTOCOL) else e), w)"
proof (cases "of_content (srv_codec S) name c")
  case (Some m)
  with codec have "msg_name m = name" by (auto simp: codec_ok_def)
  from as_name [OF this] obtain a where "members m = Inr a" by (cases "members m") simp_all
  with Some c f show ?thesis by (simp add: request_def bindE_getsE parse_to_protocol_def)
qed (simp add: request_def bindE_getsE parse_to_protocol_def c)

lemma not_logged_in:
  assumes "get_login_user (c_users (w_app w)) conn = Inl e"
  shows "bindE (current_user conn) g w = (Inl e, w)"
    and "(case a of (x, y) \<Rightarrow> bindE (current_user conn) (h x y)) w = (Inl e, w)"
  using assms by (simp_all add: current_user_def bindE_getsE split: prod.split)

text \<open>
  C4. Nothing without a login. On a connection nobody is logged in on, every request that the
  table holds for one phase transactions, but registering and logging in, ends in
  \<open>ERR_USER_NOT_LOGIN\<close> - or in the parse error, since the handlers parse first - and changes
  nothing at all. The file transactions look for the login first, so they end in
  \<open>ERR_USER_NOT_LOGIN\<close> whatever the package holds.
\<close>

theorem login_required:
  assumes out: "get_login_user (c_users (w_app w)) conn = Inl e"
    and codec: "codec_ok (srv_codec S)" and c: "p_content p = Some content"
  shows "((cmd, n, ONE_PHASE_TRANSACTION, f) \<in> set rs_table \<longrightarrow> f \<noteq> On_register_user \<and> f \<noteq> On_login_user \<longrightarrow>
      rs_handler S f conn p w = (Inl (if of_content (srv_codec S) (''Req'' @ n) content = None
        then Thrown (Foundation ERR_NETWORK_PACKAGE_CANNOT_PARSE_TO_PROTOCOL)
        else Thrown (Resource ERR_USER_NOT_LOGIN)), w)) \<and>
    (find_multi (w_multi w) k \<noteq> None \<longrightarrow> rs_on_init S k conn p w = (Inl (Thrown (Resource ERR_USER_NOT_LOGIN)), w))"
proof (intro conjI impI)
  have e: "e = Thrown (Resource ERR_USER_NOT_LOGIN)"
    using out by (auto simp: get_login_user_def split: option.splits)
  note stop = not_logged_in [OF out [unfolded e]]
  note unauthorised = request_unauthorised [OF codec c, where e = "Thrown (Resource ERR_USER_NOT_LOGIN)"]
  assume "(cmd, n, ONE_PHASE_TRANSACTION, f) \<in> set rs_table" and "f \<noteq> On_register_user \<and> f \<noteq> On_login_user"
  then show "rs_handler S f conn p w = (Inl (if of_content (srv_codec S) (''Req'' @ n) content = None
        then Thrown (Foundation ERR_NETWORK_PACKAGE_CANNOT_PARSE_TO_PROTOCOL)
        else Thrown (Resource ERR_USER_NOT_LOGIN)), w)"
    by (auto simp: rs_table_def handler_defs stop unauthorised as_members)
next
  assume "find_multi (w_multi w) k \<noteq> None"
  then obtain t where t: "find_multi (w_multi w) k = Some t" by blast
  show "rs_on_init S k conn p w = (Inl (Thrown (Resource ERR_USER_NOT_LOGIN)), w)"
    using t out by (cases "t_data t")
      (simp_all add: rs_on_init_def this_trans_def bindE_getsE trans_defs current_user_def get_login_user_def split: option.splits)
qed

theorem login_required_witness:
  "rs_handler message_server On_create_path 9 (message_package (ReqCreatePath 1 ''d'')) access_world =
     (Inl (Thrown (Resource ERR_USER_NOT_LOGIN)), access_world)"
proof -
  have "codec_ok (srv_codec message_server)" "p_content (message_package m) = Some m" for m
    by (simp_all add: message_server_def codec_ok_message message_package_def)
  from login_required [OF access_world_lookups(2) this, of 1039 "''CreatePath''" On_create_path]
  show ?thesis by (simp add: rs_table_def message_server_def message_codec_def)
qed

section \<open>Who may change the files\<close>

definition manages :: "user_manager \<Rightarrow> group_manager \<Rightarrow> int \<Rightarrow> bool" where
  "manages um gm conn \<longleftrightarrow> (\<exists>u j g. get_login_user um conn = Inr u \<and> find_group gm j = Some g \<and> is_manager g (u_user_id u))"

lemma managed_handler:
  assumes "bindE (request S name members p) (\<lambda>(j, v). bindE (current_user conn) (\<lambda>user. bindE (group_of j) (\<lambda>grp.
      bindE (need_manager user grp) (\<lambda>_. m j v user grp)))) w = (r, w')"
  shows "w' = w \<or> manages (c_users (w_app w)) (c_groups (w_app w)) conn"
  using assms
proof (cases rule: request_cases)
  case (parsed jv)
  obtain j v where "jv = (j, v)" by fastforce
  from parsed(2) [unfolded this prod.case] show ?thesis
    by (cases rule: manager_action) (auto simp: manages_def)
qed simp

lemma managed_trans:
  assumes "bindE (current_user conn) (\<lambda>user. bindE (request S name members p) (\<lambda>(j, a, b). bindE (group_of j) (\<lambda>grp.
      bindE (need_manager user grp) (m user j a b grp)))) w = (r, w')"
  shows "w' = w \<or> manages (c_users (w_app w)) (c_groups (w_app w)) conn"
proof (cases "get_login_user (c_users (w_app w)) conn")
  case (Inr u)
  with assms have "bindE (request S name members p) (\<lambda>(j, a, b). bindE (group_of j) (\<lambda>grp.
      bindE (need_manager u grp) (m u j a b grp))) w = (r, w')" by (simp add: current_user_def bindE_getsE)
  then show ?thesis
  proof (cases rule: request_cases)
    case (parsed jv)
    with Inr show ?thesis
      by (cases jv) (auto simp: manages_def group_of_def need_manager_def bindE_getsE bindE_throw_if get_group_def
          split: sum.splits option.splits if_splits)
  qed simp
qed (use assms in \<open>simp add: not_logged_in\<close>)

lemma file_frames:
  "unchanged (\<lambda>w. c_files (w_app w)) (on_ping S conn p)"
  "unchanged (\<lambda>w. c_files (w_app w)) (on_register_user S conn p)"
  "unchanged (\<lambda>w. c_files (w_app w)) (on_login_user S conn p)"
  "unchanged (\<lambda>w. c_files (w_app w)) (on_remove_user S conn p)"
  "unchanged (\<lambda>w. c_files (w_app w)) (on_find_user S conn p)"
  "unchanged (\<lambda>w. c_files (w_app w)) (on_remove_group S conn p)"
  "unchanged (\<lambda>w. c_files (w_app w)) (on_find_group S conn p)"
  "unchanged (\<lambda>w. c_files (w_app w)) (on_join_group S conn p)"
  "unchanged (\<lambda>w. c_files (w_app w)) (on_assign_as_manager S conn p)"
  "unchanged (\<lambda>w. c_files (w_app w)) (on_assign_as_member S conn p)"
  "unchanged (\<lambda>w. c_files (w_app w)) (on_kick_out_user S conn p)"
  "unchanged (\<lambda>w. c_files (w_app w)) (on_list_file S conn p)"
  by (simp_all add: handler_defs parts_frames unchanged_intros)

lemmas trans_frames = parts_frames trans_parts_app [THEN unchanged_comp] waiting_app [THEN unchanged_comp]

lemma trans_file_frames:
  "unchanged (\<lambda>w. c_files (w_app w)) (put_file_on_init S k conn p)"
  "unchanged (\<lambda>w. c_files (w_app w)) (get_file_session_on_init S k conn p)"
  "unchanged (\<lambda>w. c_files (w_app w)) (get_file_on_init S k conn p)"
  "unchanged (\<lambda>w. c_files (w_app w)) (rs_callback S f k conn p)"
  by (simp_all add: trans_defs trans_frames unchanged_intros, cases f,
      simp_all add: trans_defs trans_frames unchanged_intros)

text \<open>
  C5. The files are the managers' to change. A request, a file transaction's start or a
  storage node's answer changes the files of the server only if it is the registration of a
  group, which adds the group's root directory, or the sender is logged in and manages a group.
\<close>

theorem files_changed_by_manager:
  assumes run: "rs_handler S f conn p w = (r, w') \<and> f \<noteq> On_register_group \<or> rs_on_init S k conn p w = (r, w') \<or>
      rs_callback S f k conn p w = (r, w')"
    and changed: "c_files (w_app w') \<noteq> c_files (w_app w)"
  shows "\<exists>u j g. get_login_user (c_users (w_app w)) conn = Inr u \<and> find_group (c_groups (w_app w)) j = Some g \<and>
    is_manager g (u_user_id u)"
proof -
  consider (frame) m where "unchanged (\<lambda>w. c_files (w_app w)) m" "m w = (r, w')"
    | (create) "on_create_path S conn p w = (r, w')"
    | (put) "put_file_session_on_init S k conn p w = (r, w')" | (remove) "remove_path_on_init S k conn p w = (r, w')"
    using run
  proof (elim disjE conjE)
    assume h: "rs_handler S f conn p w = (r, w')" "f \<noteq> On_register_group"
    show ?thesis
    proof (cases "f = On_create_path")
      case False
      with h(2) have "unchanged (\<lambda>w. c_files (w_app w)) (rs_handler S f conn p)"
        by (cases f) (simp_all add: file_frames unchanged_fail)
      with h(1) show ?thesis by (intro frame)
    qed (use h create in simp)
  next
    assume init: "rs_on_init S k conn p w = (r, w')"
    show ?thesis
    proof (cases "find_multi (w_multi w) k")
      case (Some t)
      with init put remove frame [OF trans_file_frames(1)] frame [OF trans_file_frames(2)] frame [OF trans_file_frames(3)]
      show ?thesis
        by (cases "t_data t") (simp_all add: rs_on_init_def this_trans_def bindE_getsE)
    qed (use init frame [OF unchanged_fail [of _ Undefined]] in \<open>simp add: rs_on_init_def this_trans_def bindE_getsE\<close>)
  qed (rule frame [OF trans_file_frames(4)])
  then have "w' = w \<or> manages (c_users (w_app w)) (c_groups (w_app w)) conn"
  proof cases
    case (frame m)
    with changed unchangedD_eq [OF frame] show ?thesis by simp
  next
    case create
    then show ?thesis unfolding on_create_path_def by (rule managed_handler)
  next
    case put
    show ?thesis by (rule managed_trans [OF put [unfolded put_file_session_on_init_def]])
  next
    case remove
    show ?thesis by (rule managed_trans [OF remove [unfolded remove_path_on_init_def]])
  qed
  with changed show ?thesis by (auto simp: manages_def)
qed

theorem files_changed_by_manager_witness:
  "c_files (w_app (snd (rs_handler message_server On_create_path 7 (message_package (ReqCreatePath 1 ''x'')) access_world))) =
     c_files (w_app access_world)"
proof (rule ccontr)
  assume "\<not> ?thesis"
  with files_changed_by_manager [OF disjI1 [OF conjI [OF surjective_pairing]]]
  obtain u j g where u: "get_login_user (c_users (w_app access_world)) 7 = Inr u"
    and g: "find_group (c_groups (w_app access_world)) j = Some g" "is_manager g (u_user_id u)"
    by blast
  from g(1) have "g = example_group"
    by (auto simp: access_world_def rs_start_def empty_world_def example_core_def find_group_def split: if_splits)
  with u g(2) access_world_lookups(3-5) show False by auto
qed

end
