(* ===== verification/Transfers.thy ===== *)
theory Transfers
  imports Access_Control
begin

text \<open>
  What a client sees of the file transactions: the order of an upload's fragments, the end of
  an upload whose node does not answer, and the removal of a path.
\<close>

lemma find_put_session_update:
  "find_put_session (update_session k (on_put_session f) sm) j =
    (if j = k then map_option f (find_put_session sm k) else find_put_session sm j)"
  by (auto simp: find_put_session_def update_session_def map_of_om_update split: option.split session.split)

lemma find_get_session_update:
  "find_get_session (update_session k (on_put_session f) sm) j = find_get_session sm j"
  by (auto simp: find_get_session_def update_session_def map_of_om_update split: option.split session.split)

lemma bindE_this:
  assumes "find_multi (w_multi w) k = Some t"
  shows "bindE (this_trans k) f w = f t w" and "bindE (this_session_id k) g w = g (data_session_id (t_data t)) w"
  using assms by (simp_all add: this_session_id_def this_trans_def bindE_def)

lemma bindE_write_sessions:
  "bindE (on_app (on_sessions (modify f))) g w =
    g () (w\<lparr>w_app := (w_app w)\<lparr>c_sessions := f (c_sessions (w_app w))\<rparr>\<rparr>)"
  by (simp add: bindE_def zoom_def)

text \<open>The state in which the code of a new multiply phase transaction starts to run.\<close>

definition begun :: "'d \<Rightarrow> int \<Rightarrow> 'c package \<Rightarrow> ('f, 'd) multi_manager \<Rightarrow> ('f, 'd) multi_manager" where
  "begun d conn p mt = mt\<lparr>mt_next_id := mt_next_id mt + 1, mt_trans_list := om_insert (mt_next_id mt)
     ((new_multi_trans (mt_next_id mt) d)\<lparr>t_first_conn_id := conn, t_first_trigger_source := get_trigger_source (p_header p)\<rparr>)
     (mt_trans_list mt)\<rparr>"

lemma begin_multi:
  assumes inv: "world_inv w"
  shows "bindE (on_multi (register_multi d)) (\<lambda>t. bindE (pre_on_init (t_id t) conn p) (\<lambda>_. f (t_id t))) w =
      f (mt_next_id (w_multi w)) (w\<lparr>w_multi := begun d conn p (w_multi w)\<rparr>)"
    and "find_multi (begun d conn p (w_multi w)) k = (if k = mt_next_id (w_multi w)
      then Some ((new_multi_trans k d)\<lparr>t_first_conn_id := conn, t_first_trigger_source := get_trigger_source (p_header p)\<rparr>)
      else find_multi (w_multi w) k)"
    and "find_multi (w_multi w) (mt_next_id (w_multi w)) = None"
proof -
  have fresh: "om_ok (mt_trans_list (w_multi w))" "map_of (mt_trans_list (w_multi w)) (mt_next_id (w_multi w)) = None"
    using inv by (auto simp: world_inv_def mt_inv_def ids_below_fresh)
  then show "bindE (on_multi (register_multi d)) (\<lambda>t. bindE (pre_on_init (t_id t) conn p) (\<lambda>_. f (t_id t))) w =
      f (mt_next_id (w_multi w)) (w\<lparr>w_multi := begun d conn p (w_multi w)\<rparr>)"
    by (simp add: register_multi_def bindE_def zoom_def pre_on_init_def write_trans_apply find_multi_def
        map_of_om_insert_fresh new_multi_trans_def begun_def update_multi_def om_update_insert_fresh [OF fresh] Let_def)
  show "find_multi (begun d conn p (w_multi w)) k = (if k = mt_next_id (w_multi w)
      then Some ((new_multi_trans k d)\<lparr>t_first_conn_id := conn, t_first_trigger_source := get_trigger_source (p_header p)\<rparr>)
      else find_multi (w_multi w) k)"
    by (simp add: begun_def find_multi_def map_of_om_insert_fresh [OF fresh])
  show "find_multi (w_multi w) (mt_next_id (w_multi w)) = None" using fresh by (simp add: find_multi_def)
qed

lemma world_inv_begun:
  assumes inv: "world_inv w"
  shows "world_inv (w\<lparr>w_multi := begun d conn p (w_multi w)\<rparr>)"
proof -
  have "om_ok (mt_trans_list (w_multi w))" "map_of (mt_trans_list (w_multi w)) (mt_next_id (w_multi w)) = None"
    using inv by (auto simp: world_inv_def mt_inv_def ids_below_fresh)
  with inv show ?thesis
    by (auto simp: world_inv_def mt_inv_def begun_def set_om_insert ids_below_insert new_multi_trans_def)
qed

section \<open>Asking a storage node\<close>

text \<open>The world after a transaction's request has left for a service and the transaction waits.\<close>

definition awaiting :: "int \<Rightarrow> int \<Rightarrow> rs_fun \<Rightarrow> int \<Rightarrow> 'c package \<Rightarrow> 'c rs_world \<Rightarrow> 'c rs_world" where
  "awaiting svc cmd f k q w =
     (let w' = sent 0 svc q k w
      in w'\<lparr>w_multi := update_multi k (\<lambda>t. t\<lparr>t_wait_conn_id := 0, t_wait_service_id := svc, t_wait_cmd := cmd,
             t_current_phase := t_current_phase t + 1, t_on_active := Some f, t_is_waiting := True\<rparr>) (w_multi w'),
           w_timers := snd (register_timer ''wait_next_phase'' (pt_seconds DEFAULT_TIMEOUT) (Wait_timeout k) CALL_ONCE
             (pt_seconds 0) (w_now w) (w_timers w))\<rparr>)"

lemma ask_node_sent:
  assumes inv: "world_inv w" and n: "find_node (c_nodes (w_app w)) j = Some n"
    and t: "find_multi (w_multi w) k = Some t" "rs_same_class (t_data t) f"
    and codec: "srv_alloc S (HEADER_LEN + aes_cipher_length (word_of_int (size_of (srv_codec S) m)))"
      "size_ok (srv_codec S) m" "size_of (srv_codec S) m \<le> 65518" "to_content (srv_codec S) m = Some content"
    and cmds: "send_command m 0 = Inr c" "get_command name = Inr cmd"
  shows "ask_node S k j m name f w = (Inr (), awaiting (n_service_id n) cmd f k
    (outgoing (pm_next_id (w_packages w)) (size_of (srv_codec S) m) c 0 content) w)"
proof -
  let ?q = "outgoing (pm_next_id (w_packages w)) (size_of (srv_codec S) m) c 0 content"
  let ?w = "sent 0 (n_service_id n) ?q k w"
  have "find_multi (w_multi ?w) k = Some t" using t by (auto simp: sent_def find_multi_def)
  moreover have "service_send_protocol (srv_codec S) (srv_alloc S) (n_service_id n) m k w = (Inr (), ?w)"
    unfolding service_send_protocol_def by (rule send_protocol_sent) (use assms in simp_all)
  ultimately show ?thesis
    using n t(2) cmds(2)
    by (simp add: ask_node_def bindE_getsE get_node_def service_wait_next_phase_def wait_next_phase_def bindE_this
        bindE_def [of "service_send_protocol C A x y z" for C A x y z] bindE_def [of "write_trans x y" for x y]
        write_trans_apply add_timer_def awaiting_def Let_def sent_def)
qed

lemma awaiting_world:
  assumes inv: "world_inv w" and t: "find_multi (w_multi w) k = Some t" and q: "p_id q = pm_next_id (w_packages w)"
  shows "find_multi (w_multi (awaiting svc cmd f k q w)) k = Some (t\<lparr>t_wait_conn_id := 0, t_wait_service_id := svc,
      t_wait_cmd := cmd, t_current_phase := t_current_phase t + 1, t_on_active := Some f, t_is_waiting := True\<rparr>)"
    and "find_bound_transaction (w_multi (awaiting svc cmd f k q w)) (p_id q) =
      find_multi (w_multi (awaiting svc cmd f k q w)) k"
    and "find_package (w_packages (awaiting svc cmd f k q w)) = (find_package (w_packages w))(p_id q \<mapsto> q)"
    and "q_out (w_queues (awaiting svc cmd f k q w)) = q_out (w_queues w) @
      [NETWORK_TYPE \<lparr>nm_conn_id = 0, nm_service_id = svc, nm_package_id = p_id q\<rparr>]"
    and "q_in (w_queues (awaiting svc cmd f k q w)) = q_in (w_queues w)"
    and "w_app (awaiting svc cmd f k q w) = w_app w"
    and "has_wait_timer (w_timers (awaiting svc cmd f k q w)) k"
proof -
  have k: "k \<noteq> 0" using find_multi_pos [OF inv t] by simp
  show "find_multi (w_multi (awaiting svc cmd f k q w)) k = Some (t\<lparr>t_wait_conn_id := 0, t_wait_service_id := svc,
      t_wait_cmd := cmd, t_current_phase := t_current_phase t + 1, t_on_active := Some f, t_is_waiting := True\<rparr>)"
    using t by (simp add: awaiting_def Let_def sent_def find_multi_update) (auto simp: find_multi_def)
  have "om_ok (m_bind_list (w_multi w))" "map_of (m_bind_list (w_multi w)) (p_id q) = None"
    using inv by (auto simp: world_inv_def mt_inv_def q map_of_eq_None_iff)
  then show "find_bound_transaction (w_multi (awaiting svc cmd f k q w)) (p_id q) =
      find_multi (w_multi (awaiting svc cmd f k q w)) k"
    using k by (simp add: find_bound_transaction_def awaiting_def Let_def sent_def q map_of_om_insert_fresh)
  have "pm_inv (w_packages w)" using inv by (simp add: world_inv_def)
  from sent_packages(2) [OF this q refl]
  show "find_package (w_packages (awaiting svc cmd f k q w)) = (find_package (w_packages w))(p_id q \<mapsto> q)"
    by (simp add: awaiting_def Let_def sent_def q)
  show "has_wait_timer (w_timers (awaiting svc cmd f k q w)) k"
    by (simp add: awaiting_def Let_def has_wait_timer_def register_timer_def mset_heap_push flip: set_mset_mset)
qed (simp_all add: awaiting_def Let_def sent_def queue_push_def q)

text \<open>A transaction whose \<open>on_init\<close> ends in waiting stays as \<open>on_init\<close> left it.\<close>

lemma start_waiting:
  assumes inv: "world_inv w"
    and tr: "find_transaction (w_trans_list w) (h_command (p_header p)) =
      Some \<lparr>tr_type = MULTIPLY_PHASE_TRANSACTION, tr_handler = f, tr_error_handler = e\<rparr>"
    and init: "rs_on_init S (mt_next_id (w_multi w)) conn p (w\<lparr>w_multi := begun (rs_factory f) conn p (w_multi w)\<rparr>) = (Inr (), w')"
    and t: "find_multi (w_multi w') (mt_next_id (w_multi w)) = Some t" "t_is_waiting t"
  shows "start_transaction (rs_program S) conn p w = (Inr (), w')"
proof -
  let ?k = "mt_next_id (w_multi w)" and ?w = "w\<lparr>w_multi := begun (rs_factory f) conn p (w_multi w)\<rparr>"
  have call: "call_transaction (Some (rs_on_error S ?k conn)) (rs_on_init S ?k conn p) ?w = (Inr True, w')"
    using init by (simp add: call_transaction_def safe_call_def bindE_def)
  have "start_transaction (rs_program S) conn p w =
      bindE (call_transaction (Some (rs_on_error S ?k conn)) (rs_on_init S ?k conn p)) (\<lambda>_. end_unless_waiting ?k) ?w"
    using tr begin_multi(1) [OF inv, where f = "\<lambda>k. bindE (call_transaction (Some (rs_on_error S k conn)) (rs_on_init S k conn p)) (\<lambda>_. end_unless_waiting k)"]
    by (simp add: start_transaction_def rs_program_def)
  then show ?thesis
    using t by (simp add: bindE_def [of "call_transaction h m" for h m] call end_unless_waiting_def bindE_this)
qed

section \<open>Properties\<close>

text \<open>
  C6. Fragments arrive in order. A fragment of an upload is refused, without any change, when
  the session does not exist, is another user's, or expects another fragment. Otherwise the
  session expects the next fragment from now on - whatever becomes of this one: the counter goes
  up before the group and the node are looked up and before the node has answered, so a
  fragment that is lost cannot be sent again. No other session and no other manager changes.
\<close>

theorem put_file_order:
  assumes user: "get_login_user (c_users (w_app w)) conn = Inr u"
    and req: "parse_to_protocol (srv_codec S) ''ReqPutFile'' as_ReqPutFile p = Inr (sid, i, content)"
    and run: "put_file_on_init S k conn p w = (r, w')"
  shows "case find_put_session (c_sessions (w_app w)) sid of
      None \<Rightarrow> r = Inl (Thrown (Resource ERR_FILE_SESSION_NOT_EXIST)) \<and> w' = w
    | Some s \<Rightarrow>
        if ps_user_id s \<noteq> u_user_id u then r = Inl (Thrown (Resource ERR_FILE_SESSION_NOT_REGISTER_USER)) \<and> w' = w
        else if i \<noteq> ps_next_fragment s then r = Inl (Thrown (Resource ERR_FILE_SESSION_INVALID_FRAGMENT)) \<and> w' = w
        else find_put_session (c_sessions (w_app w')) sid = Some (s\<lparr>ps_next_fragment := i + 1\<rparr>) \<and>
          (\<forall>j. j \<noteq> sid \<longrightarrow> find_put_session (c_sessions (w_app w')) j = find_put_session (c_sessions (w_app w)) j) \<and>
          find_get_session (c_sessions (w_app w')) = find_get_session (c_sessions (w_app w)) \<and>
          w_app w' = (w_app w)\<lparr>c_sessions := c_sessions (w_app w')\<rparr>"
proof (cases "find_put_session (c_sessions (w_app w)) sid")
  case None
  with user req run show ?thesis
    by (simp add: put_file_on_init_def current_user_def request_def bindE_getsE get_put_session_def)
next
  case (Some s)
  note run = run [unfolded put_file_on_init_def current_user_def request_def bindE_getsE]
  show ?thesis
  proof (cases "ps_user_id s = u_user_id u \<and> i = ps_next_fragment s")
    case False
    with Some user req run show ?thesis
      by (auto simp: bindE_getsE get_put_session_def need_user_def bindE_throw_if split: if_splits)
  next
    case True
    let ?sm = "update_session sid (on_put_session (\<lambda>s. s\<lparr>ps_next_fragment := ps_next_fragment s + 1\<rparr>)) (c_sessions (w_app w))"
    let ?w = "w\<lparr>w_app := (w_app w)\<lparr>c_sessions := ?sm\<rparr>\<rparr>"
    have "\<exists>m. m ?w = (r, w') \<and> unchanged w_app m"
      using Some user req run True
      by (intro exI [of _ "bindE (set_data k (Put_file_trans (ps_session_id s))) (\<lambda>_.
          bindE (group_of (ps_group_id s)) (\<lambda>grp. ask_node S k (m_node_id grp)
            (ReqPutFile (ps_node_session_id s) i content) ''RspPutFile'' Put_file_on_active))"])
        (simp add: bindE_getsE get_put_session_def need_user_def bindE_throw_if
          bindE_write_sessions unchanged_intros)
    then have "w_app w' = (w_app w)\<lparr>c_sessions := ?sm\<rparr>" using unchangedD_eq by fastforce
    with Some True show ?thesis by (auto simp: find_put_session_update find_get_session_update fun_eq_iff)
  qed
qed

definition upload_world :: "message rs_world" where
  "upload_world = access_world\<lparr>w_app := example_core\<lparr>c_sessions :=
     snd (register_put_session 1 1 ''a'' 3 empty_session_manager)\<rparr>\<rparr>"

theorem put_file_order_witness:
  "put_file_on_init message_server 1 7 (message_package (ReqPutFile 1 1 [])) upload_world =
     (Inl (Thrown (Resource ERR_FILE_SESSION_INVALID_FRAGMENT)), upload_world)"
proof -
  obtain u where u: "get_login_user (c_users (w_app upload_world)) 7 = Inr u" "u_user_id u = 1"
    by (simp add: upload_world_def example_core_def get_login_user_def find_login_user_def example_users_def find_user_def)
  have "find_put_session (c_sessions (w_app upload_world)) 1 = Some (new_put_session 1 1 1 ''a'' 3)"
    by (simp add: upload_world_def register_put_session_def empty_session_manager_def new_put_session_def
        find_put_session_def on_register_session_def Let_def)
  moreover have "parse_to_protocol (srv_codec message_server) ''ReqPutFile'' as_ReqPutFile
      (message_package (ReqPutFile 1 1 [])) = Inr (1, 1, [])"
    by (simp add: parse_to_protocol_def message_server_def message_codec_def message_package_def as_ReqPutFile_def)
  ultimately show ?thesis
    using put_file_order [OF u(1) _ surjective_pairing, of message_server "message_package (ReqPutFile 1 1 [])" 1 1 "[]" 1] u(2)
    by (auto simp: new_put_session_def prod_eq_iff)
qed

lemma fragment_started:
  assumes inv: "world_inv w"
    and tr: "find_transaction (w_trans_list w) (h_command (p_header p)) =
      Some \<lparr>tr_type = MULTIPLY_PHASE_TRANSACTION, tr_handler = Put_file_factory, tr_error_handler = False\<rparr>"
    and user: "get_login_user (c_users (w_app w)) conn = Inr u"
    and req: "parse_to_protocol (srv_codec S) ''ReqPutFile'' as_ReqPutFile p = Inr (sid, i, content)"
    and s: "find_put_session (c_sessions (w_app w)) sid = Some s" "ps_user_id s = u_user_id u" "ps_next_fragment s = i"
    and g: "find_group (c_groups (w_app w)) (ps_group_id s) = Some g"
    and n: "find_node (c_nodes (w_app w)) (m_node_id g) = Some n"
    and memory: "\<And>l. srv_alloc S l" and codec: "size_ok (srv_codec S) (ReqPutFile (ps_node_session_id s) i content)"
      "size_of (srv_codec S) (ReqPutFile (ps_node_session_id s) i content) \<le> 65518"
      "to_content (srv_codec S) (ReqPutFile (ps_node_session_id s) i content) = Some bytes"
  obtains v t q where "start_transaction (rs_program S) conn p w =
      (Inr (), awaiting (n_service_id n) 1032 Put_file_on_active (mt_next_id (w_multi w)) q v)"
    and "world_inv v" and "find_multi (w_multi v) (mt_next_id (w_multi w)) = Some t"
    and "t_first_conn_id t = conn" "t_first_trigger_source t = get_trigger_source (p_header p)"
    and "q = outgoing (pm_next_id (w_packages v))
      (size_of (srv_codec S) (ReqPutFile (ps_node_session_id s) i content)) 1031 0 bytes"
    and "w_packages v = w_packages w" "w_queues v = w_queues w" "w_timers v = w_timers w" "w_now v = w_now w"
proof -
  let ?k = "mt_next_id (w_multi w)" and ?m = "ReqPutFile (ps_node_session_id s) i content"
  let ?w = "w\<lparr>w_multi := begun (Put_file_trans 0) conn p (w_multi w)\<rparr>"
  let ?a = "(w_app w)\<lparr>c_sessions := update_session sid (on_put_session (\<lambda>s. s\<lparr>ps_next_fragment := ps_next_fragment s + 1\<rparr>))
    (c_sessions (w_app w))\<rparr>"
  let ?v = "?w\<lparr>w_app := ?a, w_multi := update_multi ?k (\<lambda>t. t\<lparr>t_data := Put_file_trans (ps_session_id s)\<rparr>) (w_multi ?w)\<rparr>"
  note begun = begin_multi(2) [OF inv, where d = "Put_file_trans 0" and conn = conn and p = p]
  let ?t = "(new_multi_trans ?k (Put_file_trans (ps_session_id s)))
    \<lparr>t_first_conn_id := conn, t_first_trigger_source := get_trigger_source (p_header p)\<rparr>"
  let ?q = "outgoing (pm_next_id (w_packages ?v)) (size_of (srv_codec S) ?m) 1031 0 bytes"
  have v: "world_inv ?v"
    using world_inv_update [OF world_inv_begun [OF inv], of "\<lambda>t. t\<lparr>t_data := Put_file_trans (ps_session_id s)\<rparr>" ?k]
    by (simp add: world_inv_def)
  have t: "find_multi (w_multi ?v) ?k = Some ?t"
    by (simp add: find_multi_update begun) (simp add: new_multi_trans_def)
  have cmds: "send_command ?m 0 = Inr 1031" "get_command ''RspPutFile'' = Inr 1032"
    by (simp_all add: send_command_def send_name_def get_command_def find_command_iff [THEN iffD2] default_command_name_map_def)
  have "ask_node S ?k (m_node_id g) ?m ''RspPutFile'' Put_file_on_active ?v =
      (Inr (), awaiting (n_service_id n) 1032 Put_file_on_active ?k ?q ?v)"
    by (rule ask_node_sent [OF v _ t]) (use n memory codec cmds in \<open>simp_all add: new_multi_trans_def\<close>)
  then have "rs_on_init S ?k conn p ?w = (Inr (), awaiting (n_service_id n) 1032 Put_file_on_active ?k ?q ?v)"
    using user req s g
    by (simp add: rs_on_init_def this_trans_def bindE_getsE begun new_multi_trans_def put_file_on_init_def
        current_user_def request_def need_user_def get_put_session_def bindE_throw_if group_of_def get_group_def
        bindE_write_sessions bindE_def [of "write_trans x y" for x y] set_data_def write_trans_apply)
  from start_waiting [OF inv tr, unfolded rs_factory.simps, OF this awaiting_world(1) [OF v t]]
  have "start_transaction (rs_program S) conn p w = (Inr (), awaiting (n_service_id n) 1032 Put_file_on_active ?k ?q ?v)"
    by simp
  from that [OF this v t] show ?thesis by simp
qed

text \<open>
  Removing a path is never answered. When a manager asks to remove a path and that succeeds,
  the path's file goes and the transaction ends, but nothing is sent: the client that waits for
  \<open>RspRemovePath\<close> hears nothing. Whether \<open>force_remove_all\<close> was set makes no difference.
\<close>

theorem remove_path_silent:
  assumes inv: "world_inv w"
    and tr: "find_transaction (w_trans_list w) (h_command (p_header p)) =
      Some \<lparr>tr_type = MULTIPLY_PHASE_TRANSACTION, tr_handler = Remove_path_factory, tr_error_handler = False\<rparr>"
    and user: "get_login_user (c_users (w_app w)) conn = Inr u"
    and req: "parse_to_protocol (srv_codec S) ''ReqRemovePath'' as_ReqRemovePath p = Inr (j, path, force_remove_all)"
    and g: "find_group (c_groups (w_app w)) j = Some g" "is_manager g (u_user_id u)"
    and path: "make_path (srv_poco S) path = Inr path'"
    and removed: "remove_path (srv_poco S) g path' (c_files (w_app w)) = (Inr (), fm)"
  shows "\<exists>w'. start_transaction (rs_program S) conn p w = (Inr (), w') \<and> w_app w' = (w_app w)\<lparr>c_files := fm\<rparr> \<and>
    w_queues w' = w_queues w \<and> w_packages w' = w_packages w \<and> w_timers w' = w_timers w \<and>
    find_multi (w_multi w') = find_multi (w_multi w)"
proof -
  let ?k = "mt_next_id (w_multi w)"
  note begun = begin_multi(1,2) [OF inv, where d = Remove_path_trans and conn = conn and p = p]
  let ?w = "w\<lparr>w_multi := begun Remove_path_trans conn p (w_multi w)\<rparr>"
  have "rs_on_init S ?k conn p ?w = (Inr (), ?w\<lparr>w_app := (w_app w)\<lparr>c_files := fm\<rparr>\<rparr>)"
    using user req g path removed
    by (simp add: rs_on_init_def this_trans_def bindE_getsE begun(2) new_multi_trans_def remove_path_on_init_def
        current_user_def request_def group_of_def get_group_def need_manager_def bindE_throw_if to_path_def zoom_def)
  then have call: "call_transaction (Some (rs_on_error S ?k conn)) (rs_on_init S ?k conn p) ?w =
      (Inr True, ?w\<lparr>w_app := (w_app w)\<lparr>c_files := fm\<rparr>\<rparr>)"
    by (simp add: call_transaction_def safe_call_def bindE_def)
  have "start_transaction (rs_program S) conn p w =
      bindE (call_transaction (Some (rs_on_error S ?k conn)) (rs_on_init S ?k conn p)) (\<lambda>_. end_unless_waiting ?k) ?w"
    using tr begun(1) [where f = "\<lambda>k. bindE (call_transaction (Some (rs_on_error S k conn)) (rs_on_init S k conn p)) (\<lambda>_. end_unless_waiting k)"]
    by (simp add: start_transaction_def rs_program_def)
  then have "start_transaction (rs_program S) conn p w =
      (Inr (), ?w\<lparr>w_app := (w_app w)\<lparr>c_files := fm\<rparr>, w_multi := remove_multi ?k (w_multi ?w)\<rparr>)"
    by (simp add: bindE_def [of "call_transaction h m" for h m] call end_unless_waiting_def this_trans_def bindE_getsE begun(2)
        new_multi_trans_def zoom_def)
  moreover have "find_multi (remove_multi ?k (w_multi ?w)) = find_multi (w_multi w)"
    by (simp add: fun_eq_iff find_multi_remove begun(2) begin_multi(3) [OF inv])
  ultimately show ?thesis by simp
qed

text \<open>User 5, the owner of group 1, is logged in on connection 7.\<close>

definition owner_world :: "message rs_world" where
  "owner_world = access_world\<lparr>w_app := example_core\<lparr>c_users :=
     \<lparr>m_user_list = [(5, new_user 5 ''eve'' ''x'')], m_root_user_list = {}, m_login_user_list = [(7, 5)], um_next_id = 6\<rparr>\<rparr>\<rparr>"

lemma access_world_inv: "worker_inv access_world"
  unfolding access_world_def by (rule worker_inv_start) (rule pt_norm_seconds)

lemma owner_world_inv: "world_inv owner_world"
  using access_world_inv by (simp add: owner_world_def worker_inv_def world_inv_def)

lemma owner_world_lookups:
  "get_login_user (c_users (w_app owner_world)) 7 = Inr (new_user 5 ''eve'' ''x'')"
  "find_group (c_groups (w_app owner_world)) 1 = Some example_group" "c_files (w_app owner_world) = example_tree"
  "c_sessions (w_app owner_world) = empty_session_manager" "w_trans_list owner_world = snd (register_transactions [])"
  "is_manager example_group 5"
  by (simp_all add: owner_world_def access_world_def rs_start_def empty_world_def example_core_def find_group_def
      get_login_user_def find_login_user_def find_user_def example_group_def new_group_def is_manager_def)

definition request_package :: "int \<Rightarrow> message \<Rightarrow> message package" where
  "request_package cmd m = (message_package m)\<lparr>p_header := \<lparr>h_version = 2, h_command = cmd, h_content_length = 0,
     h_self_package_id = 4, h_trigger_package_id = 0\<rparr>\<rparr>"

lemma request_package_simps [simp]:
  "h_command (p_header (request_package cmd m)) = cmd"
  "parse_to_protocol (srv_codec message_server) n f (request_package cmd m) =
    (if msg_name m = n then f m else Inl (Thrown (Foundation ERR_NETWORK_PACKAGE_CANNOT_PARSE_TO_PROTOCOL)))"
  by (simp_all add: request_package_def message_package_def parse_to_protocol_def message_server_def message_codec_def)

theorem remove_path_silent_witness:
  "\<exists>w'. start_transaction (rs_program message_server) 7 (request_package 1041 (ReqRemovePath 1 ''d/e'' False)) owner_world =
       (Inr (), w') \<and> w_queues w' = w_queues owner_world \<and> find_file (c_files (w_app w')) 3 = None"
proof -
  let ?p = "request_package 1041 (ReqRemovePath 1 ''d/e'' False)"
  have tr: "find_transaction (w_trans_list owner_world) (h_command (p_header ?p)) =
      Some \<lparr>tr_type = MULTIPLY_PHASE_TRANSACTION, tr_handler = Remove_path_factory, tr_error_handler = False\<rparr>"
    by (simp add: owner_world_lookups register_transactions_run find_transaction_def rs_table_def rs_entry_def)
  have parse: "parse_to_protocol (srv_codec message_server) ''ReqRemovePath'' as_ReqRemovePath ?p = Inr (1, ''d/e'', False)"
    by (simp add: as_ReqRemovePath_def)
  have path: "make_path (srv_poco message_server) ''d/e'' = Inr ''d/e''"
    using make_path_plain [OF poco_ok_std, of "[''d'', ''e'']" None] by (simp add: message_server_def plain_components_def component_def is_white_def SEPARATOR_def)
  obtain fm where removed: "remove_path (srv_poco message_server) example_group ''d/e'' example_tree = (Inr (), fm)"
      and gone: "find_file fm 3 = None"
    by (simp add: message_server_def remove_path_def remove_walk.simps get_file_def find_file_def example_tree_def
        example_group_def new_group_def dir_find_file_def INVALID_ID_def remove_file.simps
        update_dir_def om_update_def om_erase_def on_dir.simps example_split Let_def)
  have "is_manager example_group (u_user_id (new_user 5 ''eve'' ''x''))"
    by (simp add: new_user_def owner_world_lookups(6))
  from remove_path_silent [OF owner_world_inv tr owner_world_lookups(1) parse owner_world_lookups(2) this path
      removed [folded owner_world_lookups(3)]] gone
  show ?thesis by fastforce
qed

text \<open>
  C7. A fragment goes to its node. The expected fragment of an upload, from the session's user,
  leaves in one package to the service of the group's node: a \<open>ReqPutFile\<close> with the session id
  that the node gave. The transaction is bound to the package, waits for \<open>RspPutFile\<close> of that
  service, answers to the client's connection and request, and has a timer. Nothing else is sent.
\<close>

theorem fragment_forwarded:
  fixes S :: "'c server" and w :: "'c rs_world"
  assumes inv: "world_inv w"
    and tr: "find_transaction (w_trans_list w) (h_command (p_header p)) =
      Some \<lparr>tr_type = MULTIPLY_PHASE_TRANSACTION, tr_handler = Put_file_factory, tr_error_handler = False\<rparr>"
    and user: "get_login_user (c_users (w_app w)) conn = Inr u"
    and req: "parse_to_protocol (srv_codec S) ''ReqPutFile'' as_ReqPutFile p = Inr (sid, i, content)"
    and s: "find_put_session (c_sessions (w_app w)) sid = Some s" "ps_user_id s = u_user_id u" "ps_next_fragment s = i"
    and g: "find_group (c_groups (w_app w)) (ps_group_id s) = Some g"
    and n: "find_node (c_nodes (w_app w)) (m_node_id g) = Some n"
    and memory: "\<And>l. srv_alloc S l" and codec_ok: "codec_ok (srv_codec S)"
    and codec: "size_ok (srv_codec S) (ReqPutFile (ps_node_session_id s) i content)"
      "size_of (srv_codec S) (ReqPutFile (ps_node_session_id s) i content) \<le> 65518"
      "to_content (srv_codec S) (ReqPutFile (ps_node_session_id s) i content) = Some bytes"
  shows "\<exists>w' q t. start_transaction (rs_program S) conn p w = (Inr (), w') \<and>
    q_out (w_queues w') = q_out (w_queues w) @
      [NETWORK_TYPE \<lparr>nm_conn_id = 0, nm_service_id = n_service_id n, nm_package_id = p_id q\<rparr>] \<and>
    find_package (w_packages w') = (find_package (w_packages w))(p_id q \<mapsto> q) \<and>
    h_command (p_header q) = 1031 \<and> h_trigger_package_id (p_header q) = 0 \<and>
    parse_to_protocol (srv_codec S) ''ReqPutFile'' as_ReqPutFile q = Inr (ps_node_session_id s, i, content) \<and>
    find_bound_transaction (w_multi w') (p_id q) = Some t \<and> t_is_waiting t \<and>
    (\<forall>c v m. fits_waiting c v m t \<longleftrightarrow> v = n_service_id n \<and> m = 1032) \<and>
    t_first_conn_id t = conn \<and> t_first_trigger_source t = get_trigger_source (p_header p) \<and>
    has_wait_timer (w_timers w') (mt_next_id (w_multi w))"
proof (rule fragment_started [OF inv tr user req s g n memory codec])
  fix v :: "'c rs_world" and t q
  let ?k = "mt_next_id (w_multi w)"
  let ?w = "awaiting (n_service_id n) 1032 Put_file_on_active ?k q v"
  assume run: "start_transaction (rs_program S) conn p w = (Inr (), ?w)"
    and v: "world_inv v" "find_multi (w_multi v) ?k = Some t"
    and t: "t_first_conn_id t = conn" "t_first_trigger_source t = get_trigger_source (p_header p)"
    and q: "q = outgoing (pm_next_id (w_packages v))
      (size_of (srv_codec S) (ReqPutFile (ps_node_session_id s) i content)) 1031 0 bytes"
    and same: "w_packages v = w_packages w" "w_queues v = w_queues w"
  have "p_id q = pm_next_id (w_packages v)" by (simp add: q)
  note world = awaiting_world [OF v this, of "n_service_id n" 1032 Put_file_on_active]
  have "parse_to_protocol (srv_codec S) ''ReqPutFile'' as_ReqPutFile q = Inr (ps_node_session_id s, i, content)"
    using codec_ok codec(3) by (force simp: parse_to_protocol_def q codec_ok_def as_ReqPutFile_def)
  moreover have "h_command (p_header q) = 1031" "h_trigger_package_id (p_header q) = 0" by (simp_all add: q)
  ultimately show ?thesis
    using world by (intro exI [of _ ?w] exI [of _ q] exI [of _ "the (find_multi (w_multi ?w) ?k)"])
      (simp add: run same t fits_waiting_def)
qed

lemma upload_world_lookups:
  obtains u s n where "get_login_user (c_users (w_app upload_world)) 7 = Inr u"
    and "find_put_session (c_sessions (w_app upload_world)) 1 = Some s" "ps_user_id s = u_user_id u"
      "ps_next_fragment s = 0" "ps_group_id s = 1" "ps_node_session_id s = 0"
    and "find_group (c_groups (w_app upload_world)) 1 = Some example_group"
    and "find_node (c_nodes (w_app upload_world)) (m_node_id example_group) = Some n"
  by (simp add: upload_world_def example_core_def get_login_user_def find_login_user_def example_users_def find_user_def
      register_put_session_def empty_session_manager_def new_put_session_def find_put_session_def
      on_register_session_def find_group_def example_group_def new_group_def find_node_def example_nodes_def Let_def)

lemma message_server_simps:
  "srv_alloc message_server l" "codec_ok (srv_codec message_server)" "size_ok (srv_codec message_server) m"
  "size_of (srv_codec message_server) m \<le> 65518" "to_content (srv_codec message_server) m = Some m"
  by (simp_all add: message_server_def codec_ok_message) (simp_all add: size_ok_def message_codec_def)

lemma upload_world_inv: "world_inv upload_world"
  using access_world_inv by (simp add: upload_world_def worker_inv_def world_inv_def)

theorem fragment_forwarded_witness:
  "\<exists>w' q. start_transaction (rs_program message_server) 7 (request_package 1031 (ReqPutFile 1 0 [1, 2])) upload_world = (Inr (), w') \<and>
     find_package (w_packages w') (p_id q) = Some q \<and>
     parse_to_protocol (srv_codec message_server) ''ReqPutFile'' as_ReqPutFile q = Inr (0, 0, [1, 2])"
proof -
  let ?p = "request_package 1031 (ReqPutFile 1 0 [1, 2])"
  obtain u s n where lookups: "get_login_user (c_users (w_app upload_world)) 7 = Inr u"
      "find_put_session (c_sessions (w_app upload_world)) 1 = Some s" "ps_user_id s = u_user_id u"
      "ps_next_fragment s = 0" "ps_group_id s = 1" "ps_node_session_id s = 0"
      "find_group (c_groups (w_app upload_world)) 1 = Some example_group"
      "find_node (c_nodes (w_app upload_world)) (m_node_id example_group) = Some n"
    by (rule upload_world_lookups)
  have tr: "find_transaction (w_trans_list upload_world) (h_command (p_header ?p)) =
      Some \<lparr>tr_type = MULTIPLY_PHASE_TRANSACTION, tr_handler = Put_file_factory, tr_error_handler = False\<rparr>"
    by (simp add: upload_world_def access_world_def rs_start_def register_transactions_run find_transaction_def
        rs_table_def rs_entry_def)
  have req: "parse_to_protocol (srv_codec message_server) ''ReqPutFile'' as_ReqPutFile ?p = Inr (1, 0, [1, 2])"
    by (simp add: as_ReqPutFile_def)
  have g: "find_group (c_groups (w_app upload_world)) (ps_group_id s) = Some example_group" using lookups by simp
  show ?thesis
    by (rule exE [OF fragment_forwarded [OF upload_world_inv tr lookups(1) req lookups(2,3,4) g lookups(8) message_server_simps]])
      (elim exE conjE, intro exI conjI, assumption, simp_all add: lookups(6))
qed

section \<open>A run of the server\<close>

text \<open>
  The server of \<open>upload_world\<close> starts at 5 s; then the network thread hands over the first
  fragment of the upload, and the worker takes one turn.
\<close>

definition fragment_received :: "message rs_world" where
  "fragment_received =
     (let s = rs_start (w_app upload_world) (pt_seconds 5)
      in s\<lparr>w_packages := update_package 1
             (\<lambda>p. p\<lparr>p_header := p_header (request_package 1031 (ReqPutFile 1 0 [])), p_content := Some (ReqPutFile 1 0 [])\<rparr>)
             (enter_package 0 (w_packages s)),
           w_queues := queue_push IN_QUEUE (NETWORK_TYPE \<lparr>nm_conn_id = 7, nm_service_id = 0, nm_package_id = 1\<rparr>)
             (w_queues s)\<rparr>)"

lemma fragment_received_step:
  "worker_step (rs_program message_server) (rs_start (w_app upload_world) (pt_seconds 5)) fragment_received"
proof -
  let ?s = "rs_start (w_app upload_world) (pt_seconds 5) :: message rs_world"
  have s: "w_packages ?s = empty_package_manager" by (simp add: rs_start_def empty_world_def)
  have "register_package (pr_alloc (rs_program message_server)) 0 (w_packages ?s) =
      (Inr (new_package 0 1), enter_package 0 (w_packages ?s))"
    by (simp add: register_package_def rs_program_def message_server_def s empty_package_manager_def new_package_def
        enter_package_def aes_cipher_length_def Let_def)
  from worker_step.receive [OF this, where h = "p_header (request_package 1031 (ReqPutFile 1 0 []))" and
      content = "ReqPutFile 1 0 []" and conn = 7 and svc = 0]
  show ?thesis by (simp add: fragment_received_def new_package_def Let_def)
qed

lemma fragment_turn:
  obtains w where "worker_step (rs_program message_server) fragment_received w" and "find_multi (w_multi w) 1 \<noteq> None"
proof -
  let ?P = "rs_program message_server"
  let ?p = "(request_package 1031 (ReqPutFile 1 0 []))\<lparr>p_id := 1\<rparr>"
  define w where "w = fragment_received\<lparr>w_queues := empty_queues\<rparr>"
  have pop: "queue_pop IN_QUEUE (w_queues fragment_received) =
        (Inr (NETWORK_TYPE \<lparr>nm_conn_id = 7, nm_service_id = 0, nm_package_id = 1\<rparr>), empty_queues)"
      "\<not> queue_empty IN_QUEUE (w_queues fragment_received)"
    by (simp_all add: fragment_received_def rs_start_def empty_world_def queue_pop_def queue_push_def queue_empty_def
        empty_queues_def Let_def)
  have parts: "w_multi w = empty_multi_manager" "w_app w = w_app upload_world" "w_queues w = empty_queues"
      "w_trans_list w = snd (register_transactions [])" "w_now w = pt_seconds 5"
      "w_timers w = w_timers (rs_start (w_app upload_world) (pt_seconds 5) :: message rs_world)"
    by (simp_all add: w_def fragment_received_def rs_start_def empty_world_def Let_def)
  have found: "find_package (w_packages w) 1 = Some ?p" "pm_next_id (w_packages w) = 2"
    by (simp_all add: w_def fragment_received_def rs_start_def empty_world_def Let_def find_package_def
        update_package_def enter_package_def empty_package_manager_def om_update_def new_package_def
        request_package_def message_package_def)
  have "worker_inv fragment_received"
    by (rule message_env.rs.reachable_inv [OF r_into_rtranclp [of "worker_step ?P", OF fragment_received_step] worker_inv_start]) simp
  then have inv: "world_inv w" by (simp add: w_def worker_inv_def world_inv_def)
  obtain u s n where lookups: "get_login_user (c_users (w_app upload_world)) 7 = Inr u"
      "find_put_session (c_sessions (w_app upload_world)) 1 = Some s" "ps_user_id s = u_user_id u"
      "ps_next_fragment s = 0" "ps_group_id s = 1" "ps_node_session_id s = 0"
      "find_group (c_groups (w_app upload_world)) 1 = Some example_group"
      "find_node (c_nodes (w_app upload_world)) (m_node_id example_group) = Some n"
    by (rule upload_world_lookups)
  have tr: "find_transaction (w_trans_list w) (h_command (p_header ?p)) =
      Some \<lparr>tr_type = MULTIPLY_PHASE_TRANSACTION, tr_handler = Put_file_factory, tr_error_handler = False\<rparr>"
    by (simp add: parts register_transactions_run find_transaction_def rs_table_def rs_entry_def request_package_def)
  have req: "parse_to_protocol (srv_codec message_server) ''ReqPutFile'' as_ReqPutFile ?p = Inr (1, 0, [])"
    by (simp add: parse_to_protocol_def message_server_def message_codec_def request_package_def message_package_def as_ReqPutFile_def)
  have g: "find_group (c_groups (w_app upload_world)) (ps_group_id s) = Some example_group" using lookups by simp
  have k: "mt_next_id (w_multi w) = 1" by (simp add: parts empty_multi_manager_def)
  note app = parts(2) [symmetric]
  obtain v t q where run: "start_transaction ?P 7 ?p w =
      (Inr (), awaiting (n_service_id n) 1032 Put_file_on_active 1 q v)"
    and v: "world_inv v" "find_multi (w_multi v) 1 = Some t" "w_timers v = w_timers w" "w_now v = w_now w"
    by (rule fragment_started [OF inv tr lookups(1) [unfolded app] req lookups(2) [unfolded app] lookups(3,4)
        g [unfolded app] lookups(8) [unfolded app] message_server_simps(1,3,4,5), unfolded k])
  define x where "x = (awaiting (n_service_id n) 1032 Put_file_on_active 1 q v)
    \<lparr>w_packages := remove_package 1 (w_packages (awaiting (n_service_id n) 1032 Put_file_on_active 1 q v))\<rparr>"
  have "trigger_transaction ?P 7 0 1 w = (Inr (), x)"
    using found run by (simp add: trigger_transaction_def bindE_def zoom_def request_package_def x_def)
  moreover have "due_timer (w_now x) (w_timers x) = None"
    by (simp add: x_def awaiting_def sent_def v parts Let_def rs_start_def start_timers_def empty_world_def register_frequent_timer_def
        register_timer_def empty_timer_manager_def due_timer_def timer_compare_def pt_less_def pt_greater_def NANOSECONDS_OF_SECOND_def pt_add_def pt_seconds_def
        DEFAULT_TIMEOUT_def STORE_DATA_PER_SEC_def CHECK_OFFLINE_USERS_PER_SEC_def)
  ultimately have "worker_turn ?P fragment_received = (Inr (), x)"
    using pop by (simp add: worker_turn_def process_expiry_timer_def bindE_def zoom_def w_def)
  moreover have "find_multi (w_multi x) 1 \<noteq> None" using v by (auto simp: x_def awaiting_def Let_def sent_def find_multi_update)
      (simp add: find_multi_def)
  ultimately show ?thesis using that worker_step.turn by blast
qed
lemma remove_session_find:
  "find_put_session (remove_session k sm) j = (if j = k then None else find_put_session sm j)"
  "find_get_session (remove_session k sm) j = (if j = k then None else find_get_session sm j)"
  by (auto simp: find_put_session_def find_get_session_def remove_session_lookup)

abbreviation "timeout_info \<equiv> to_error_info (Foundation ERR_TRANSACTION_TIMEOUT)"

text \<open>
  A storage node that does not answer. When the timer of a session request expires while the
  transaction still waits, the session is removed, under both kinds of lookup, and no other;
  the transaction is gone, and the client gets one package that answers its request: an
  \<open>RspError\<close> with \<open>ERR_TRANSACTION_TIMEOUT\<close>, under the command of the request's response.
\<close>

theorem session_timeout_answered:
  fixes S :: "'c server" and w :: "'c rs_world"
  assumes inv: "world_inv w" and t: "find_multi (w_multi w) k = Some t"
      "t_data t \<in> {Put_file_session_trans sid, Get_file_session_trans sid}"
    and codec: "codec_ok (srv_codec S)" "\<And>l. srv_alloc S l" "size_ok (srv_codec S) (RspError (Some timeout_info))"
      "size_of (srv_codec S) (RspError (Some timeout_info)) \<le> 65518" "to_content (srv_codec S) (RspError (Some timeout_info)) = Some content"
    and cmd: "send_command (RspError (Some timeout_info)) (ts_command (t_first_trigger_source t)) = Inr c"
    and run: "on_wait_timeout (rs_program S) k w = (r, w')"
  shows "r = Inr () \<and> (\<forall>j. find_multi (w_multi w') j = (if j = k then None else find_multi (w_multi w) j)) \<and>
    (\<forall>j. find_put_session (c_sessions (w_app w')) j = (if j = sid then None else find_put_session (c_sessions (w_app w)) j)) \<and>
    (\<forall>j. find_get_session (c_sessions (w_app w')) j = (if j = sid then None else find_get_session (c_sessions (w_app w)) j)) \<and>
    (\<exists>q. q_out (w_queues w') = q_out (w_queues w) @
        [NETWORK_TYPE \<lparr>nm_conn_id = t_first_conn_id t, nm_service_id = 0, nm_package_id = p_id q\<rparr>] \<and>
      find_package (w_packages w') (p_id q) = Some q \<and> h_command (p_header q) = c \<and>
      h_trigger_package_id (p_header q) = ts_package_id (t_first_trigger_source t) \<and>
      parse_to_protocol (srv_codec S) ''RspError'' Inr q = Inr (RspError (Some timeout_info)))"
proof -
  let ?e = timeout_info
  let ?m = "RspError (Some ?e)"
  let ?w1 = "w\<lparr>w_multi := update_multi k (\<lambda>t. t\<lparr>t_is_waiting := False\<rparr>) (w_multi w)\<rparr>"
  let ?w2 = "?w1\<lparr>w_app := (w_app w)\<lparr>c_sessions := remove_session sid (c_sessions (w_app w))\<rparr>\<rparr>"
  define q where "q = outgoing (pm_next_id (w_packages w)) (size_of (srv_codec S) ?m) c (ts_package_id (t_first_trigger_source t)) content"
  have inv2: "world_inv ?w2" using world_inv_update [OF inv, of "\<lambda>t. t\<lparr>t_is_waiting := False\<rparr>" k] by (simp add: world_inv_def)
  have t1: "find_multi (w_multi ?w2) k = Some (t\<lparr>t_is_waiting := False\<rparr>)" using t(1) by (simp add: find_multi_update)
  have "on_transaction_error (srv_codec S) (srv_alloc S) (t_first_conn_id t) (t_first_trigger_source t) ?e ?w2 =
      (Inr (), sent (t_first_conn_id t) 0 q 0 ?w2)"
    using send_protocol_sent [OF inv2 codec(3,4,2) cmd codec(5)]
    by (simp add: on_transaction_error_def send_back_protocol_def q_def)
  then have "rs_on_error S k (t_wait_conn_id t) ?e ?w1 = (Inr (), sent (t_first_conn_id t) 0 q 0 ?w2)"
    using t1 t(2)
    by (auto simp: rs_on_error_def bindE_this session_on_error_def bindE_write_sessions multi_on_error_def)
  then have w': "r = Inr ()" "w' = (sent (t_first_conn_id t) 0 q 0 ?w2)\<lparr>w_multi := remove_multi k (w_multi ?w2)\<rparr>"
    using run t(1) t1
    by (simp_all add: on_wait_timeout_def clear_waiting_state_def write_trans_apply bindE_def [of "write_trans k f" for f]
        bindE_def [of "rs_on_error S k c v" for c v] rs_program_def end_unless_waiting_def this_trans_def bindE_getsE sent_def zoom_def)
  have pm: "pm_inv (w_packages w)" using inv by (simp add: world_inv_def)
  have "find_package (w_packages w') (p_id q) = Some q"
    using sent_packages(2) [OF pm, of q, OF _ refl] by (simp add: w'(2) q_def sent_def)
  moreover have "parse_to_protocol (srv_codec S) ''RspError'' Inr q = Inr ?m"
    using codec(1,5) by (force simp: parse_to_protocol_def q_def codec_ok_def)
  moreover have "find_multi (w_multi w') j = (if j = k then None else find_multi (w_multi w) j)" for j
    by (simp add: w'(2) find_multi_remove find_multi_update)
  ultimately show ?thesis
    using w'(1) by (intro conjI exI [of _ q] allI) (simp_all add: w'(2) sent_def queue_push_def q_def remove_session_find)
qed

definition stuck_world :: "message rs_world" where
  "stuck_world = owner_world
     \<lparr>w_app := (w_app owner_world)\<lparr>c_sessions := snd (register_put_session 5 1 ''a'' 3 empty_session_manager)\<rparr>,
      w_multi := \<lparr>mt_next_id = 2, mt_trans_list = [(1, (new_multi_trans 1 (Put_file_session_trans 1))
        \<lparr>t_first_conn_id := 7, t_first_trigger_source := \<lparr>ts_command = 1027, ts_package_id = 4\<rparr>, t_is_waiting := True\<rparr>)],
        m_bind_list = []\<rparr>\<rparr>"

theorem session_timeout_answered_witness:
  "find_put_session (c_sessions (w_app (snd (on_wait_timeout (rs_program message_server) 1 stuck_world)))) 1 = None \<and>
   q_out (w_queues (snd (on_wait_timeout (rs_program message_server) 1 stuck_world))) \<noteq> q_out (w_queues stuck_world)"
proof -
  have inv: "world_inv stuck_world"
    using owner_world_inv by (simp add: stuck_world_def world_inv_def mt_inv_def ids_below_def new_multi_trans_def)
  obtain t where t: "find_multi (w_multi stuck_world) 1 = Some t"
      "t_data t \<in> {Put_file_session_trans 1, Get_file_session_trans 1}" "ts_command (t_first_trigger_source t) = 1027"
    by (simp add: stuck_world_def find_multi_def new_multi_trans_def)
  have cmd: "send_command (RspError (Some timeout_info)) (ts_command (t_first_trigger_source t)) = Inr 1028"
    by (simp add: t send_command_def send_name_def get_command_def get_name_def find_name_def
        find_command_iff [THEN iffD2] default_command_name_map_def)
  have codec: "codec_ok (srv_codec message_server)" "srv_alloc message_server l" "size_ok (srv_codec message_server) m"
      "size_of (srv_codec message_server) m \<le> 65518" "to_content (srv_codec message_server) m = Some m" for l m
    by (simp_all add: message_server_def codec_ok_message) (simp_all add: size_ok_def message_codec_def)
  note spec = session_timeout_answered [OF inv t(1,2) codec cmd surjective_pairing]
  then show ?thesis by auto
qed

end
