(* ===== verification/Storage_Node.thy ===== *)
theory Storage_Node
  imports Worker Complex_Main
begin

text \<open>
  The storage node, \<open>storage_node/core.cpp\<close> and \<open>storage_node/transaction.cpp\<close>: the sessions
  under which the fragments of a file are stored and read, the files, and the four request
  handlers as a program of the worker.

  The disk is a map from paths to contents. A \<open>lights::FileStream\<close> is what C's \<open>FILE\<close>
  remembers of a file opened for update: its position, and whether the last operation was a
  write or a read, since one must not follow the other directly. A write reaches the content at
  once; other streams look at a file only when no session of its name exists, and the last
  write of a session flushes. Writes do not fail, and nobody else touches the directory.
\<close>

section \<open>Streams\<close>

datatype stream_mode = Free | Wrote | Has_read

record file_stream =
  st_position :: nat
  st_mode :: stream_mode

record file_session =
  fs_session_id :: int
  fs_filename :: string
  fs_max_fragment :: int

record storage =
  sn_session_list :: "(int, file_session) omap"
  sn_next_id :: int
  m_sharing_path :: string
  m_file_cache :: "string \<rightharpoonup> file_stream"
  sn_disk :: "string \<rightharpoonup> bytes"

definition empty_storage :: "(string \<rightharpoonup> bytes) \<Rightarrow> storage" where
  "empty_storage disk = \<lparr>sn_session_list = [], sn_next_id = 1, m_sharing_path = [],
     m_file_cache = Map.empty, sn_disk = disk\<rparr>"

definition file_content :: "storage \<Rightarrow> string \<Rightarrow> bytes" where
  "file_content s path = (case sn_disk s path of None \<Rightarrow> [] | Some c \<Rightarrow> c)"

text \<open>A write at a position past the end fills the gap with zeros.\<close>

definition overwrite :: "nat \<Rightarrow> bytes \<Rightarrow> bytes \<Rightarrow> bytes" where
  "overwrite pos bs c = (if bs = [] then c
     else take pos c @ replicate (pos - length c) 0 @ bs @ drop (pos + length bs) c)"

text \<open>The operations of \<open>FileStream\<close> on the stream that the cache holds for a path. A seek to a
  negative offset fails and leaves the stream as it is; the code does not look at the result.\<close>

definition update_stream :: "string \<Rightarrow> (file_stream \<Rightarrow> file_stream) \<Rightarrow> storage \<Rightarrow> storage" where
  "update_stream path f s = s\<lparr>m_file_cache := (m_file_cache s)(path := map_option f (m_file_cache s path))\<rparr>"

definition stream_seek :: "string \<Rightarrow> int \<Rightarrow> (storage, unit) exec" where
  "stream_seek path off = modify (update_stream path
     (\<lambda>st. if off < 0 then st else st\<lparr>st_position := nat off, st_mode := Free\<rparr>))"

definition stream_write :: "string \<Rightarrow> bytes \<Rightarrow> (storage, unit) exec" where
  "stream_write path bs = (\<lambda>s. case m_file_cache s path of
     None \<Rightarrow> (Inl Undefined, s)
   | Some st \<Rightarrow>
       if bs = [] then (Inr (), s)
       else if st_mode st = Has_read then (Inl Undefined, s)
       else (Inr (), update_stream path
              (\<lambda>st. st\<lparr>st_position := st_position st + length bs, st_mode := Wrote\<rparr>)
              (s\<lparr>sn_disk := (sn_disk s)(path \<mapsto> overwrite (st_position st) bs (file_content s path))\<rparr>)))"

definition stream_read :: "string \<Rightarrow> nat \<Rightarrow> (storage, bytes) exec" where
  "stream_read path n = (\<lambda>s. case m_file_cache s path of
     None \<Rightarrow> (Inl Undefined, s)
   | Some st \<Rightarrow>
       if st_mode st = Wrote then (Inl Undefined, s)
       else (let bs = take n (drop (st_position st) (file_content s path))
             in (Inr bs, update_stream path (\<lambda>st. st\<lparr>st_position := st_position st + length bs,
                   st_mode := (if length bs < n then Free else Has_read)\<rparr>) s)))"

definition stream_flush :: "string \<Rightarrow> (storage, unit) exec" where
  "stream_flush path = modify (update_stream path
     (\<lambda>st. if st_mode st = Wrote then st\<lparr>st_mode := Free\<rparr> else st))"

section \<open>SharingFileManager\<close>

definition set_sharing_path :: "string \<Rightarrow> storage \<Rightarrow> storage" where
  "set_sharing_path sharing_path s = s\<lparr>m_sharing_path := sharing_path\<rparr>"

definition get_absolute_path :: "storage \<Rightarrow> string \<Rightarrow> string" where
  "get_absolute_path s path = m_sharing_path s @ ''/'' @ path"

text \<open>
  \<open>openable\<close>: whether the system lets the node open a path for writing. The mode \<open>wb+\<close>
  makes an empty file, whether there was one or not.
\<close>

definition get_file_stream :: "(string \<Rightarrow> bool) \<Rightarrow> string \<Rightarrow> (storage, unit) exec" where
  "get_file_stream openable path = (\<lambda>s. case m_file_cache s path of
     Some st \<Rightarrow> (Inr (), s)
   | None \<Rightarrow> if openable path
       then (Inr (), s\<lparr>sn_disk := (sn_disk s)(path \<mapsto> []),
                       m_file_cache := (m_file_cache s)(path \<mapsto> \<lparr>st_position = 0, st_mode = Free\<rparr>)\<rparr>)
       else (Inl Open_file_error, s))"

definition sn_put_file :: "(string \<Rightarrow> bool) \<Rightarrow> string \<Rightarrow> bytes \<Rightarrow> int \<Rightarrow> bool \<Rightarrow> (storage, unit) exec" where
  "sn_put_file openable filename content start_pos is_flush =
     bindE (gets (\<lambda>s. get_absolute_path s filename)) (\<lambda>path.
     bindE (get_file_stream openable path) (\<lambda>_.
     bindE (stream_seek path start_pos) (\<lambda>_.
     bindE (stream_write path content) (\<lambda>_.
     if is_flush then stream_flush path else ret ()))))"

definition sn_get_file :: "(string \<Rightarrow> bool) \<Rightarrow> string \<Rightarrow> nat \<Rightarrow> int \<Rightarrow> (storage, bytes) exec" where
  "sn_get_file openable filename len start_pos =
     bindE (gets (\<lambda>s. get_absolute_path s filename)) (\<lambda>path.
     bindE (gets (\<lambda>s. sn_disk s path \<noteq> None)) (\<lambda>file_exists.
     bindE (throw_if (\<not> file_exists) (Storage NODE_ERR_FILE_NOT_EXIST)) (\<lambda>_.
     bindE (get_file_stream openable path) (\<lambda>_.
     bindE (stream_seek path start_pos) (\<lambda>_.
     stream_read path len)))))"

text \<open>
  \<open>list_file\<close> with the names that the directory iterator still has before it: the loop adds
  the name under the iterator and does not move it.
\<close>

partial_function (option) list_file :: "string list \<Rightarrow> string list \<Rightarrow> string list option" where
  "list_file itr file_list = (case itr of [] \<Rightarrow> Some file_list | name # _ \<Rightarrow> list_file itr (file_list @ [name]))"

section \<open>Arithmetic\<close>

text \<open>A product of two \<open>int\<close>s; overflow is undefined.\<close>

definition int_mult :: "int \<Rightarrow> int \<Rightarrow> int res" where
  "int_mult a b = (if - (2 ^ 31) \<le> a * b \<and> a * b < 2 ^ 31 then Inr (a * b) else Inl Undefined)"

text \<open>
  Single precision: a number is rounded to 24 binary digits, half to even. The numbers here are
  integers below \<open>2 ^ 64\<close> and quotients of such, far from the ends of the exponents' range.
\<close>

fun ilog2 :: "nat \<Rightarrow> nat" where
  "ilog2 n = (if n \<le> 1 then 0 else Suc (ilog2 (n div 2)))"

declare ilog2.simps [simp del]

definition rat_log2 :: "rat \<Rightarrow> int" where
  "rat_log2 x = (if 1 \<le> x then int (ilog2 (nat \<lfloor>x\<rfloor>))
     else (let n = ilog2 (nat \<lceil>1 / x\<rceil>) in if 2 ^ n < 1 / x then - int n - 1 else - int n))"

definition round_even :: "rat \<Rightarrow> int" where
  "round_even x = (let f = \<lfloor>x\<rfloor>; r = x - of_int f
     in if r < 1 / 2 then f else if 1 / 2 < r then f + 1 else if even f then f else f + 1)"

definition float32 :: "rat \<Rightarrow> rat" where
  "float32 x = (if x = 0 then 0
     else let k = rat_log2 \<bar>x\<bar> - 23; m = of_int (round_even (\<bar>x\<bar> * 2 powi (- k))) * 2 powi k
          in if x < 0 then - m else m)"

text \<open>\<open>static_cast<int>(std::ceil(file_size / fragment_content_len))\<close>.\<close>

definition fragment_count :: "nat \<Rightarrow> int \<Rightarrow> int res" where
  "fragment_count file_size fragment_content_len =
     (if fragment_content_len = 0 then Inl Undefined
      else (let n = \<lceil>float32 (float32 (of_nat file_size) / float32 (of_int fragment_content_len))\<rceil>
            in if - (2 ^ 31) \<le> n \<and> n < 2 ^ 31 then Inr n else Inl Undefined))"

section \<open>FileSessionManager\<close>

definition sn_find_session :: "storage \<Rightarrow> int \<Rightarrow> file_session option" where
  "sn_find_session s session_id = map_of (sn_session_list s) session_id"

definition sn_find_session_at :: "storage \<Rightarrow> string \<Rightarrow> file_session option" where
  "sn_find_session_at s filename = om_find_if (\<lambda>x. fs_filename x = filename) (sn_session_list s)"

definition sn_get_session :: "storage \<Rightarrow> int \<Rightarrow> file_session res" where
  "sn_get_session s session_id = (case sn_find_session s session_id of
     None \<Rightarrow> Inl (Thrown (Storage NODE_ERR_FILE_SESSION_NOT_EXIST)) | Some x \<Rightarrow> Inr x)"

definition sn_register_session :: "string \<Rightarrow> (storage, file_session) exec" where
  "sn_register_session filename = (\<lambda>s.
     if sn_find_session_at s filename \<noteq> None
     then (Inl (Thrown (Storage NODE_ERR_FILE_SESSION_ALREADY_EXIST)), s)
     else
       let new_session = \<lparr>fs_session_id = sn_next_id s, fs_filename = filename, fs_max_fragment = 0\<rparr>;
           s1 = s\<lparr>sn_next_id := sn_next_id s + 1\<rparr>
       in if map_of (sn_session_list s1) (fs_session_id new_session) \<noteq> None
          then (Inl (Thrown (Storage NODE_ERR_FILE_SESSION_ALREADY_EXIST)), s1)
          else (Inr new_session, s1\<lparr>sn_session_list :=
                 om_insert (fs_session_id new_session) new_session (sn_session_list s1)\<rparr>))"

text \<open>\<open>session.max_fragment = max_fragment\<close>, and the reference that is returned.\<close>

definition set_max_fragment :: "file_session \<Rightarrow> int \<Rightarrow> (storage, file_session) exec" where
  "set_max_fragment session n =
     bindE (modify (\<lambda>s. s\<lparr>sn_session_list :=
       om_update (fs_session_id session) (\<lambda>x. x\<lparr>fs_max_fragment := n\<rparr>) (sn_session_list s)\<rparr>)) (\<lambda>_.
     ret (session\<lparr>fs_max_fragment := n\<rparr>))"

definition sn_register_put_session :: "string \<Rightarrow> int \<Rightarrow> (storage, file_session) exec" where
  "sn_register_put_session filename max_fragment =
     bindE (sn_register_session filename) (\<lambda>session. set_max_fragment session max_fragment)"

definition sn_register_get_session :: "string \<Rightarrow> int \<Rightarrow> (storage, file_session) exec" where
  "sn_register_get_session filename fragment_content_len =
     bindE (sn_register_session filename) (\<lambda>session.
     bindE (getsE (\<lambda>s. case sn_disk s (get_absolute_path s filename) of
              None \<Rightarrow> Inl Open_file_error
            | Some c \<Rightarrow> fragment_count (length c) fragment_content_len)) (\<lambda>max_fragment.
     set_max_fragment session max_fragment))"

definition sn_remove_session :: "int \<Rightarrow> storage \<Rightarrow> storage" where
  "sn_remove_session session_id s = s\<lparr>sn_session_list := om_erase session_id (sn_session_list s)\<rparr>"

section \<open>The work of the handlers\<close>

definition open_put_session :: "string \<Rightarrow> int \<Rightarrow> (storage, file_session) exec" where
  "open_put_session file_path max_fragment =
     bindE (gets (\<lambda>s. sn_find_session_at s file_path)) (\<lambda>found. case found of
       Some session \<Rightarrow>
         bindE (throw_if (max_fragment \<noteq> fs_max_fragment session)
           (Storage NODE_ERR_FILE_SESSION_CANNOT_CHANGE_MAX_FRAGMENT)) (\<lambda>_. ret session)
     | None \<Rightarrow> sn_register_put_session file_path max_fragment)"

definition open_get_session :: "string \<Rightarrow> (storage, file_session) exec" where
  "open_get_session file_path =
     bindE (gets (\<lambda>s. sn_find_session_at s file_path)) (\<lambda>found. case found of
       Some session \<Rightarrow> ret session
     | None \<Rightarrow> sn_register_get_session file_path MAX_FRAGMENT_CONTENT_LEN)"

text \<open>The last fragment, by its index, ends the session.\<close>

definition end_after_last :: "file_session \<Rightarrow> int \<Rightarrow> (storage, unit) exec" where
  "end_after_last session fragment_index =
     (if fragment_index + 1 = fs_max_fragment session
      then modify (sn_remove_session (fs_session_id session)) else ret ())"

definition put_fragment :: "(string \<Rightarrow> bool) \<Rightarrow> int \<Rightarrow> int \<Rightarrow> bytes \<Rightarrow> (storage, unit) exec" where
  "put_fragment openable session_id fragment_index fragment_content =
     bindE (getsE (\<lambda>s. sn_get_session s session_id)) (\<lambda>session.
     bindE (throw_if (fragment_index \<ge> fs_max_fragment session)
       (Storage NODE_ERR_FILE_SESSION_INVALID_FRAGMENT)) (\<lambda>_.
     bindE (getsE (\<lambda>_. int_mult fragment_index MAX_FRAGMENT_CONTENT_LEN)) (\<lambda>start_pos.
     bindE (sn_put_file openable (fs_filename session) fragment_content start_pos
       (fragment_index + 1 = fs_max_fragment session)) (\<lambda>_.
     end_after_last session fragment_index))))"

definition get_fragment :: "(string \<Rightarrow> bool) \<Rightarrow> int \<Rightarrow> int \<Rightarrow> (storage, bytes) exec" where
  "get_fragment openable session_id fragment_index =
     bindE (getsE (\<lambda>s. sn_get_session s session_id)) (\<lambda>session.
     bindE (throw_if (fragment_index \<ge> fs_max_fragment session)
       (Storage NODE_ERR_FILE_SESSION_INVALID_FRAGMENT)) (\<lambda>_.
     bindE (getsE (\<lambda>_. int_mult fragment_index MAX_FRAGMENT_CONTENT_LEN)) (\<lambda>start_pos.
     bindE (sn_get_file openable (fs_filename session) (nat MAX_FRAGMENT_CONTENT_LEN) start_pos) (\<lambda>content.
     bindE (end_after_last session fragment_index) (\<lambda>_. ret content)))))"

section \<open>Rounding\<close>

lemma ilog2_bounds: "0 < n \<Longrightarrow> 2 ^ ilog2 n \<le> n \<and> n < 2 ^ Suc (ilog2 n)"
proof (induction n rule: ilog2.induct)
  case (1 n)
  show ?case
  proof (cases "n \<le> 1")
    case True
    with 1(2) have "n = 1" by simp
    then show ?thesis by (simp add: ilog2.simps)
  next
    case False
    with 1 have "2 ^ ilog2 (n div 2) \<le> n div 2 \<and> n div 2 < 2 ^ Suc (ilog2 (n div 2))" by simp
    with False show ?thesis by (subst (1 2) ilog2.simps) auto
  qed
qed

lemma ilog2_less: "0 < n \<Longrightarrow> n < 2 ^ k \<Longrightarrow> ilog2 n < k"
  using ilog2_bounds [of n] power_less_imp_less_exp [of "2::nat" "ilog2 n" k] by linarith

lemma round_even_error: "\<bar>of_int (round_even x) - x\<bar> \<le> 1 / 2"
  unfolding round_even_def Let_def by (auto simp: abs_if) linarith+

lemma round_even_int [simp]: "round_even (of_int n) = n"
  by (simp add: round_even_def)

lemma rat_log2_less:
  assumes "0 < x" "x < 2 ^ k" "0 < k"
  shows "rat_log2 x < int k"
proof (cases "1 \<le> x")
  case True
  have "nat \<lfloor>x\<rfloor> < 2 ^ k" using assms(2) True
    by (metis floor_less_iff nat_less_iff of_int_numeral of_int_power zero_le_floor zero_le_one order.trans of_nat_numeral of_nat_power)
  moreover have "0 < nat \<lfloor>x\<rfloor>" using True by simp
  ultimately show ?thesis using True ilog2_less by (simp add: rat_log2_def)
next
  case False
  then show ?thesis using assms(3) by (auto simp: rat_log2_def Let_def)
qed

lemma float32_error:
  assumes "0 < x" "x < 2 ^ k" "0 < k"
  shows "\<bar>float32 x - x\<bar> \<le> 2 powi (int k - 25)"
proof -
  let ?e = "rat_log2 x - 23"
  let ?u = "(2::rat) powi ?e" and ?y = "x * 2 powi (- ?e)"
  have u: "0 < ?u" by simp
  have inv: "2 powi (- ?e) * ?u = 1" by (simp flip: power_int_add)
  have "float32 x - x = (of_int (round_even ?y) - ?y) * ?u"
    using assms(1) inv by (simp add: float32_def Let_def left_diff_distrib mult.assoc)
  then have "\<bar>float32 x - x\<bar> = \<bar>of_int (round_even ?y) - ?y\<bar> * ?u" using u by (simp add: abs_mult)
  also have "\<dots> \<le> 1 / 2 * ?u" using round_even_error [of ?y] u by (intro mult_right_mono) simp_all
  also have "1 / 2 * ?u = 2 powi (?e - 1)" by (simp add: power_int_diff)
  also have "\<dots> \<le> 2 powi (int k - 25)"
    using rat_log2_less [OF assms] by (intro power_int_increasing) simp_all
  finally show ?thesis .
qed

lemma float32_int:
  assumes "0 \<le> n" and "n < 2 ^ 24"
  shows "float32 (of_int n) = of_int n"
proof (cases "n = 0")
  case False
  with assms have n: "0 < n" by simp
  define j where "j = nat (23 - rat_log2 (of_int n))"
  have "(of_int n :: rat) < 2 ^ 24" using assms(2) by (metis of_int_less_iff of_int_numeral of_int_power)
  then have "rat_log2 (of_int n) < int 24" using n by (intro rat_log2_less) simp_all
  then have j: "23 - rat_log2 (of_int n) = int j" "rat_log2 (of_int n) - 23 = - int j" by (simp_all add: j_def)
  have "of_int n * 2 powi (int j) = (of_int (n * 2 ^ j) :: rat)" by (simp add: power_int_def)
  then have "round_even (of_int n * 2 powi int j) = n * 2 ^ j" by (metis round_even_int)
  moreover have "2 ^ j * (1 / 2) ^ j = (1 :: rat)" by (simp flip: power_mult_distrib)
  ultimately show ?thesis using n
    by (simp add: float32_def j Let_def power_int_minus power_int_def)
qed (simp add: float32_def)

text \<open>A quotient below 512 is rounded by less than the distance of a proper quotient by 50000 to an integer.\<close>

lemma ceiling_float32_quotient:
  assumes "n < 2 ^ 24"
  shows "\<lceil>float32 (of_nat n / 50000)\<rceil> = \<lceil>of_nat n / (50000 :: rat)\<rceil>"
proof (cases "n mod 50000 = 0")
  case True
  then obtain m where n: "n = 50000 * m" by (auto simp: mod_eq_0_iff_dvd)
  then have "of_nat n / 50000 = (of_int (int m) :: rat)" by simp
  moreover have "int m < 2 ^ 24" using assms n by simp
  ultimately show ?thesis using float32_int [of "int m"] by simp
next
  case False
  let ?x = "of_nat n / 50000 :: rat" and ?m = "n div 50000"
  have "n = 50000 * ?m + n mod 50000" by simp
  then have x: "?x = of_nat ?m + of_nat (n mod 50000) / 50000"
    by (metis (no_types, opaque_lifting) add_divide_distrib nonzero_mult_div_cancel_left of_nat_add of_nat_mult of_nat_numeral zero_neq_numeral)
  have r: "1 \<le> n mod 50000" "n mod 50000 \<le> 49999" using False mod_less_divisor [of 50000 n] by linarith+
  then have "(1 :: rat) \<le> of_nat (n mod 50000)" "(of_nat (n mod 50000) :: rat) \<le> 49999"
    using of_nat_mono [OF r(1), where 'a = rat] of_nat_mono [OF r(2), where 'a = rat] by simp_all
  then have near: "of_nat ?m + 1 / 50000 \<le> ?x" "?x \<le> of_nat ?m + 49999 / 50000"
    unfolding x by (simp_all add: field_simps)
  have "(of_nat n :: rat) < 2 ^ 24" using assms by (metis of_nat_less_iff of_nat_numeral of_nat_power)
  then have "?x < 2 ^ 9" by (simp add: divide_less_eq)
  moreover have "0 < ?x" using near(1) of_nat_0_le_iff [of ?m, where 'a = rat] by linarith
  ultimately have "\<bar>float32 ?x - ?x\<bar> \<le> 2 powi (int 9 - 25)" by (intro float32_error) simp_all
  then have "\<bar>float32 ?x - ?x\<bar> \<le> 1 / 65536" by (simp add: power_int_def power_divide)
  then have "of_nat ?m < float32 ?x" "float32 ?x < of_nat ?m + 1" using near by linarith+
  then have "\<lceil>float32 ?x\<rceil> = int ?m + 1" by (simp add: ceiling_eq_iff)
  moreover have "\<lceil>?x\<rceil> = int ?m + 1" using near by (simp add: ceiling_eq_iff)
  ultimately show ?thesis by simp
qed

lemma fragment_count_exact:
  assumes "n < 2 ^ 24"
  shows "fragment_count n MAX_FRAGMENT_CONTENT_LEN = Inr (int ((n + 49999) div 50000))"
proof -
  have "float32 (of_nat n) = of_nat n" "float32 50000 = 50000"
    using float32_int [of "int n"] float32_int [of 50000] assms by simp_all
  moreover have "\<lceil>of_nat n / (50000 :: rat)\<rceil> = int ((n + 49999) div 50000)"
  proof -
    have "\<lceil>of_int (int n) / (of_int 50000 :: rat)\<rceil> = - (- int n div 50000)" by (rule ceiling_divide_eq_div)
    also have "\<dots> = int ((n + 49999) div 50000)" by simp
    finally show ?thesis by simp
  qed
  ultimately show ?thesis
    using ceiling_float32_quotient [OF assms] assms by (simp add: fragment_count_def MAX_FRAGMENT_CONTENT_LEN_def)
qed

section \<open>A file as an array of fragments\<close>

text \<open>The fragment \<open>j\<close> of a content, and what storing a fragment does to the array of fragments.\<close>

definition frag :: "bytes \<Rightarrow> nat \<Rightarrow> bytes" where
  "frag c j = take 50000 (drop (j * 50000) c)"

definition fill :: "bytes \<Rightarrow> bytes" where
  "fill bs = bs @ replicate (50000 - length bs) 0"

definition store :: "nat \<Rightarrow> bytes \<Rightarrow> (nat \<Rightarrow> bytes) \<Rightarrow> nat \<Rightarrow> bytes" where
  "store i bs a j = (if bs = [] then a j else if j < i then fill (a j)
     else if j = i then bs @ drop (length bs) (a j) else a j)"

lemma take_drop_filled:
  fixes n a m :: nat
  assumes "a + n \<le> m"
  shows "take n (drop a (take m c @ replicate (m - length c) z)) =
    take n (drop a c) @ replicate (n - length (take n (drop a c))) z"
proof (rule nth_equalityI)
  show "length (take n (drop a (take m c @ replicate (m - length c) z))) =
      length (take n (drop a c) @ replicate (n - length (take n (drop a c))) z)"
    using assms by auto
  fix i assume "i < length (take n (drop a (take m c @ replicate (m - length c) z)))"
  then have "i < n" using assms by auto
  with assms show "take n (drop a (take m c @ replicate (m - length c) z)) ! i =
      (take n (drop a c) @ replicate (n - length (take n (drop a c))) z) ! i"
    by (auto simp: nth_append)
qed

lemma drop_overwritten:
  assumes "m + length bs \<le> a"
  shows "drop a (take m c @ replicate (m - length c) z @ bs @ drop (m + length bs) c) = drop a c"
proof -
  define h where "h = take m c @ replicate (m - length c) z @ bs"
  have "length h = m + length bs" by (simp add: h_def)
  then have "drop a (h @ drop (m + length bs) c) = drop a c" using assms by simp
  then show ?thesis by (simp add: h_def)
qed

lemma frag_overwrite:
  assumes len: "length bs \<le> 50000"
  shows "frag (overwrite (i * 50000) bs c) = store i bs (frag c)"
proof (cases "bs = []")
  case False
  let ?P = "i * 50000" and ?head = "take (i * 50000) c @ replicate (i * 50000 - length c) 0"
  have head: "length ?head = ?P" by simp
  have "frag (overwrite ?P bs c) j = store i bs (frag c) j" for j
  proof (cases j i rule: linorder_cases)
    case less
    then have le: "j * 50000 + 50000 \<le> ?P" by (metis add.commute mult_Suc mult_le_mono1 Suc_leI)
    then have "frag (overwrite ?P bs c) j = take 50000 (drop (j * 50000) ?head)"
      using False head by (simp add: frag_def overwrite_def)
    also have "\<dots> = fill (frag c j)"
      unfolding fill_def frag_def by (rule take_drop_filled [OF le])
    finally show ?thesis using False less by (simp add: store_def)
  next
    case equal
    have "frag (overwrite ?P bs c) i = take 50000 (bs @ drop (?P + length bs) c)"
      using False by (simp add: frag_def overwrite_def)
    then show ?thesis using len False equal by (simp add: store_def frag_def drop_take add.commute)
  next
    case greater
    then have "?P + 50000 \<le> j * 50000" by (metis add.commute mult_Suc mult_le_mono1 Suc_leI)
    then have "drop (j * 50000) (overwrite ?P bs c) = drop (j * 50000) c"
      using False len drop_overwritten [of ?P bs "j * 50000" c 0] by (simp only: overwrite_def if_False)
    then show ?thesis using greater by (simp add: frag_def store_def)
  qed
  then show ?thesis by blast
qed (simp add: overwrite_def store_def fun_eq_iff)

lemma overwrite_end: "overwrite (length a) bs (a @ c) = a @ bs @ drop (length bs) c"
  by (simp add: overwrite_def)

section \<open>The invariant\<close>

definition sn_inv :: "storage \<Rightarrow> bool" where
  "sn_inv s \<longleftrightarrow> ids_below (sn_session_list s) (sn_next_id s) \<and>
     (\<forall>e \<in> set (sn_session_list s). fs_session_id (snd e) = fst e) \<and>
     distinct (map (\<lambda>e. fs_filename (snd e)) (sn_session_list s)) \<and>
     (\<forall>p. m_file_cache s p \<noteq> None \<longrightarrow> sn_disk s p \<noteq> None)"

text \<open>What the stream for a path works on: the file, if it is open, or a new file.\<close>

definition opened :: "storage \<Rightarrow> string \<Rightarrow> bytes" where
  "opened s path = (if m_file_cache s path = None then [] else file_content s path)"

text \<open>\<open>same_sessions s t\<close>: nothing but the disk and the streams differs.\<close>

definition same_sessions :: "storage \<Rightarrow> storage \<Rightarrow> bool" where
  "same_sessions s t \<longleftrightarrow> sn_session_list t = sn_session_list s \<and> sn_next_id t = sn_next_id s \<and>
     m_sharing_path t = m_sharing_path s"

lemma open_seek:
  assumes "m_file_cache s path \<noteq> None \<or> openable path" and "0 \<le> off" and "sn_inv s"
  obtains s' where "bindE (get_file_stream openable path) (\<lambda>_. stream_seek path off) s = (Inr (), s')"
    and "m_file_cache s' = (m_file_cache s)(path \<mapsto> \<lparr>st_position = nat off, st_mode = Free\<rparr>)"
    and "sn_disk s' = (sn_disk s)(path \<mapsto> opened s path)" and "same_sessions s s'"
proof (cases "m_file_cache s path")
  case None
  show ?thesis
    by (rule that [of "snd (bindE (get_file_stream openable path) (\<lambda>_. stream_seek path off) s)"])
      (use None assms in \<open>simp_all add: get_file_stream_def stream_seek_def bindE_def update_stream_def opened_def
        same_sessions_def\<close>)
next
  case (Some st)
  then obtain c where "sn_disk s path = Some c" using assms(3) by (auto simp: sn_inv_def)
  then have c: "opened s path = c" "(sn_disk s)(path \<mapsto> c) = sn_disk s"
    and st: "st\<lparr>st_position := n, st_mode := m\<rparr> = \<lparr>st_position = n, st_mode = m\<rparr>" for n m
    by (simp_all add: opened_def file_content_def Some map_upd_triv)
  show ?thesis
    by (rule that [of "snd (bindE (get_file_stream openable path) (\<lambda>_. stream_seek path off) s)"])
      (use Some assms c st in \<open>simp_all add: get_file_stream_def stream_seek_def bindE_def update_stream_def same_sessions_def fun_eq_iff\<close>)
qed

lemma put_file_run:
  assumes "m_file_cache s (get_absolute_path s name) \<noteq> None \<or> openable (get_absolute_path s name)"
    and "0 \<le> off" and "sn_inv s"
  obtains s' where "sn_put_file openable name bs off fl s = (Inr (), s')"
    and "m_file_cache s' (get_absolute_path s name) \<noteq> None"
    and "\<forall>p. p \<noteq> get_absolute_path s name \<longrightarrow> m_file_cache s' p = m_file_cache s p"
    and "sn_disk s' = (sn_disk s)(get_absolute_path s name \<mapsto>
       overwrite (nat off) bs (opened s (get_absolute_path s name)))" and "same_sessions s s'"
proof -
  let ?p = "get_absolute_path s name"
  obtain s1 where s1: "bindE (get_file_stream openable ?p) (\<lambda>_. stream_seek ?p off) s = (Inr (), s1)"
    "m_file_cache s1 = (m_file_cache s)(?p \<mapsto> \<lparr>st_position = nat off, st_mode = Free\<rparr>)"
    "sn_disk s1 = (sn_disk s)(?p \<mapsto> opened s ?p)" "same_sessions s s1"
    by (rule open_seek [where openable = openable and path = ?p, OF assms])
  have run: "sn_put_file openable name bs off fl s =
      bindE (stream_write ?p bs) (\<lambda>_. if fl then stream_flush ?p else ret ()) s1"
    using s1(1) by (auto simp: sn_put_file_def bindE_Inr elim: bindE_InrE)
  show ?thesis
    by (rule that [of "snd (sn_put_file openable name bs off fl s)"])
      (use s1 in \<open>auto simp: run stream_write_def bindE_def stream_flush_def update_stream_def overwrite_def
        file_content_def same_sessions_def\<close>)
qed

lemma get_file_run:
  assumes "m_file_cache s (get_absolute_path s name) \<noteq> None \<or> openable (get_absolute_path s name)"
    and "0 \<le> off" and "sn_inv s" and "sn_disk s (get_absolute_path s name) \<noteq> None"
  obtains s' where "sn_get_file openable name len off s =
      (Inr (take len (drop (nat off) (opened s (get_absolute_path s name)))), s')"
    and "m_file_cache s' (get_absolute_path s name) \<noteq> None"
    and "\<forall>p. p \<noteq> get_absolute_path s name \<longrightarrow> m_file_cache s' p = m_file_cache s p"
    and "sn_disk s' = (sn_disk s)(get_absolute_path s name \<mapsto> opened s (get_absolute_path s name))"
    and "same_sessions s s'"
proof -
  let ?p = "get_absolute_path s name"
  obtain s1 where s1: "bindE (get_file_stream openable ?p) (\<lambda>_. stream_seek ?p off) s = (Inr (), s1)"
    "m_file_cache s1 = (m_file_cache s)(?p \<mapsto> \<lparr>st_position = nat off, st_mode = Free\<rparr>)"
    "sn_disk s1 = (sn_disk s)(?p \<mapsto> opened s ?p)" "same_sessions s s1"
    by (rule open_seek [where openable = openable and path = ?p, OF assms(1-3)])
  have run: "sn_get_file openable name len off s = stream_read ?p len s1"
    using s1(1) assms(4) by (auto simp: sn_get_file_def bindE_throw_if bindE_Inr elim: bindE_InrE)
  show ?thesis
    by (rule that [of "snd (sn_get_file openable name len off s)"])
      (use s1 in \<open>auto simp: run stream_read_def Let_def update_stream_def file_content_def same_sessions_def\<close>)
qed

end
