(* ===== verification/Storage_Files.thy ===== *)
theory Storage_Files
  imports Storage_Node
begin

text \<open>
  What a storage node promises of the files: a stored file is an array of fragments, storing
  and reading are the operations of that array, and a file that was uploaded in order comes
  back as it was - with the limits that the float arithmetic of the download's session and the
  mode in which the files are opened put on it.
\<close>

section \<open>Sessions\<close>

lemma sn_inv_empty: "sn_inv (empty_storage disk)"
  by (simp add: sn_inv_def empty_storage_def)

lemma find_at_iff:
  assumes "sn_inv s"
  shows "sn_find_session_at s name = Some x \<longleftrightarrow> sn_find_session s (fs_session_id x) = Some x \<and> fs_filename x = name"
proof
  assume "sn_find_session_at s name = Some x"
  then obtain k where "(k, x) \<in> set (sn_session_list s)" "fs_filename x = name"
    unfolding sn_find_session_at_def by (rule om_find_if_SomeE)
  with assms show "sn_find_session s (fs_session_id x) = Some x \<and> fs_filename x = name"
    by (force simp: sn_inv_def sn_find_session_def om_ok_distinct intro!: map_of_is_SomeI)
next
  assume x: "sn_find_session s (fs_session_id x) = Some x \<and> fs_filename x = name"
  then have mem: "(fs_session_id x, x) \<in> set (sn_session_list s)" by (simp add: sn_find_session_def map_of_SomeD)
  have inj: "inj_on (\<lambda>e. fs_filename (snd e)) (set (sn_session_list s))"
    using assms by (simp add: sn_inv_def distinct_map)
  have unique: "y = x" if "(k, y) \<in> set (sn_session_list s)" "fs_filename y = name" for k y
    using inj_onD [OF inj, of "(k, y)" "(fs_session_id x, x)"] that mem x by simp
  show "sn_find_session_at s name = Some x"
    unfolding sn_find_session_at_def by (rule om_find_if_eqI [OF mem]) (use x unique in simp_all)
qed

lemma find_at_None:
  assumes "sn_inv s"
  shows "sn_find_session_at s name = None \<longleftrightarrow> (\<forall>k x. sn_find_session s k = Some x \<longrightarrow> fs_filename x \<noteq> name)"
proof -
  have "distinct (map fst (sn_session_list s))" 
    using assms by (intro om_ok_distinct ids_below_ok [of _ "sn_next_id s"]) (simp add: sn_inv_def)
  then show ?thesis
    unfolding sn_find_session_at_def om_find_if_None sn_find_session_def by (simp add: map_of_eq_Some_iff) blast
qed

lemma find_session_id: "sn_inv s \<Longrightarrow> sn_find_session s k = Some x \<Longrightarrow> fs_session_id x = k"
  unfolding sn_inv_def sn_find_session_def by (fastforce dest: map_of_SomeD)

text \<open>The state after a session was entered, with the number of fragments \<open>n\<close>.\<close>

definition session_entered :: "string \<Rightarrow> int \<Rightarrow> storage \<Rightarrow> storage" where
  "session_entered name n s = s\<lparr>sn_next_id := sn_next_id s + 1, sn_session_list := om_insert (sn_next_id s)
     \<lparr>fs_session_id = sn_next_id s, fs_filename = name, fs_max_fragment = n\<rparr> (sn_session_list s)\<rparr>"

lemma register_session_run:
  assumes "sn_inv s" and "sn_find_session_at s name = None"
  shows "sn_register_session name s =
    (Inr \<lparr>fs_session_id = sn_next_id s, fs_filename = name, fs_max_fragment = 0\<rparr>, session_entered name 0 s)"
  using assms by (simp add: sn_register_session_def session_entered_def sn_inv_def ids_below_fresh Let_def)

lemma set_max_fragment_entered:
  assumes "sn_inv s"
  shows "set_max_fragment \<lparr>fs_session_id = sn_next_id s, fs_filename = name, fs_max_fragment = m\<rparr> n (session_entered name m s) =
    (Inr \<lparr>fs_session_id = sn_next_id s, fs_filename = name, fs_max_fragment = n\<rparr>, session_entered name n s)"
proof -
  have "om_ok (sn_session_list s)" "map_of (sn_session_list s) (sn_next_id s) = None"
    using assms by (auto simp: sn_inv_def ids_below_fresh)
  from om_update_insert_fresh [OF this] show ?thesis
    by (simp add: set_max_fragment_def bindE_def session_entered_def)
qed

lemma session_entered_world:
  assumes inv: "sn_inv s" and "sn_find_session_at s name = None"
  shows "sn_inv (session_entered name n s)"
    and "sn_find_session (session_entered name n s) =
      (sn_find_session s)(sn_next_id s \<mapsto> \<lparr>fs_session_id = sn_next_id s, fs_filename = name, fs_max_fragment = n\<rparr>)"
proof -
  have list: "om_insert (sn_next_id s) x (sn_session_list s) = sn_session_list s @ [(sn_next_id s, x)]" for x
    using inv by (simp add: sn_inv_def ids_below_insert_eq)
  have "name \<notin> (\<lambda>e. fs_filename (snd e)) ` set (sn_session_list s)"
    using assms(2) by (auto simp: sn_find_session_at_def om_find_if_None)
  then show "sn_inv (session_entered name n s)"
    using inv ids_below_insert [of "sn_session_list s" "sn_next_id s"] by (auto simp: sn_inv_def session_entered_def list)
  show "sn_find_session (session_entered name n s) =
      (sn_find_session s)(sn_next_id s \<mapsto> \<lparr>fs_session_id = sn_next_id s, fs_filename = name, fs_max_fragment = n\<rparr>)"
    using inv by (auto simp: fun_eq_iff sn_find_session_def session_entered_def list sn_inv_def map_add_def ids_below_fresh
      split: option.split)
qed

lemma sn_inv_remove: "sn_inv s \<Longrightarrow> sn_inv (sn_remove_session k s)"
  by (auto simp: sn_inv_def sn_remove_session_def ids_below_erase set_om_erase)
    (simp add: om_erase_def distinct_map_filter)

lemma find_session_remove:
  "sn_find_session (sn_remove_session k s) = (sn_find_session s)(k := None)"
  by (simp add: fun_eq_iff sn_find_session_def sn_remove_session_def)

lemma same_sessions_find: "same_sessions s t \<Longrightarrow> sn_find_session t = sn_find_session s"
  by (simp add: same_sessions_def fun_eq_iff sn_find_session_def)

lemma same_sessions_inv:
  "same_sessions s t \<Longrightarrow> sn_inv s \<Longrightarrow> (\<And>p. m_file_cache t p \<noteq> None \<Longrightarrow> sn_disk t p \<noteq> None) \<Longrightarrow> sn_inv t"
  by (simp add: same_sessions_def sn_inv_def)

section \<open>Storing a fragment\<close>

lemma end_after_last_run:
  "end_after_last x i s = (Inr (), if i + 1 = fs_max_fragment x then sn_remove_session (fs_session_id x) s else s)"
  by (simp add: end_after_last_def)

lemma put_fragment_run:
  assumes inv: "sn_inv s" and x: "sn_find_session s k = Some x"
    and i: "0 \<le> i" "i < fs_max_fragment x" "i * 50000 < 2 ^ 31"
    and path: "path = get_absolute_path s (fs_filename x)" and "m_file_cache s path \<noteq> None \<or> openable path"
  obtains s' where "put_fragment openable k i bs s = (Inr (), s')" and "sn_inv s'"
    and "file_content s' path = overwrite (nat i * 50000) bs (opened s path)"
    and "m_file_cache s' path \<noteq> None" and "m_sharing_path s' = m_sharing_path s"
    and "\<forall>p. p \<noteq> path \<longrightarrow> sn_disk s' p = sn_disk s p \<and> m_file_cache s' p = m_file_cache s p"
    and "sn_find_session s' = (if i + 1 = fs_max_fragment x then (sn_find_session s)(k := None) else sn_find_session s)"
proof -
  have off: "int_mult i MAX_FRAGMENT_CONTENT_LEN = Inr (i * 50000)" "nat (i * 50000) = nat i * 50000"
    using i by (simp_all add: int_mult_def MAX_FRAGMENT_CONTENT_LEN_def nat_mult_distrib)
  have "0 \<le> i * 50000" using i by simp
  obtain t where t: "sn_put_file openable (fs_filename x) bs (i * 50000) (i + 1 = fs_max_fragment x) s = (Inr (), t)"
    "m_file_cache t path \<noteq> None" "\<forall>p. p \<noteq> path \<longrightarrow> m_file_cache t p = m_file_cache s p"
    "sn_disk t = (sn_disk s)(path \<mapsto> overwrite (nat (i * 50000)) bs (opened s path))" "same_sessions s t"
    by (rule put_file_run [where openable = openable and bs = bs and s = s and off = "i * 50000" and
      name = "fs_filename x" and fl = "i + 1 = fs_max_fragment x", 
      OF assms(7) [unfolded path] \<open>0 \<le> i * 50000\<close> inv, folded path])
  have k: "fs_session_id x = k" using find_session_id [OF inv x] .
  have inv_t: "sn_inv t" using t inv by (intro same_sessions_inv [OF t(5) inv]) (auto simp: sn_inv_def)
  let ?s = "if i + 1 = fs_max_fragment x then sn_remove_session k t else t"
  show ?thesis
  proof (rule that [of ?s])
    show "put_fragment openable k i bs s = (Inr (), ?s)"
      using x i t(1) off by (simp add: put_fragment_def bindE_getsE sn_get_session_def bindE_throw_if bindE_Inr end_after_last_run k)
    show "sn_inv ?s" using inv_t sn_inv_remove by simp
    show "sn_find_session ?s = (if i + 1 = fs_max_fragment x then (sn_find_session s)(k := None) else sn_find_session s)"
      by (simp add: find_session_remove same_sessions_find [OF t(5)])
  qed (use t off in \<open>auto simp: sn_remove_session_def file_content_def same_sessions_def\<close>)
qed

lemma get_fragment_run:
  assumes inv: "sn_inv s" and x: "sn_find_session s k = Some x"
    and i: "0 \<le> i" "i < fs_max_fragment x" "i * 50000 < 2 ^ 31"
    and path: "path = get_absolute_path s (fs_filename x)" and "m_file_cache s path \<noteq> None \<or> openable path"
    and disk: "sn_disk s path \<noteq> None"
  obtains s' where "get_fragment openable k i s = (Inr (frag (opened s path) (nat i)), s')" and "sn_inv s'"
    and "file_content s' path = opened s path" and "m_file_cache s' path \<noteq> None"
    and "m_sharing_path s' = m_sharing_path s" and "sn_disk s' path \<noteq> None"
    and "\<forall>p. p \<noteq> path \<longrightarrow> sn_disk s' p = sn_disk s p \<and> m_file_cache s' p = m_file_cache s p"
    and "sn_find_session s' = (if i + 1 = fs_max_fragment x then (sn_find_session s)(k := None) else sn_find_session s)"
proof -
  have off: "int_mult i MAX_FRAGMENT_CONTENT_LEN = Inr (i * 50000)" "nat (i * 50000) = nat i * 50000"
    "nat MAX_FRAGMENT_CONTENT_LEN = 50000"
    using i by (simp_all add: int_mult_def MAX_FRAGMENT_CONTENT_LEN_def nat_mult_distrib)
  have "0 \<le> i * 50000" using i by simp
  obtain t where t: "sn_get_file openable (fs_filename x) 50000 (i * 50000) s =
      (Inr (take 50000 (drop (nat (i * 50000)) (opened s path))), t)"
    "m_file_cache t path \<noteq> None" "\<forall>p. p \<noteq> path \<longrightarrow> m_file_cache t p = m_file_cache s p"
    "sn_disk t = (sn_disk s)(path \<mapsto> opened s path)" "same_sessions s t"
    by (rule get_file_run [where openable = openable and len = 50000 and s = s and off = "i * 50000" and
      name = "fs_filename x", OF assms(7) [unfolded path] \<open>0 \<le> i * 50000\<close> inv disk [unfolded path], folded path])
  have k: "fs_session_id x = k" using find_session_id [OF inv x] .
  have inv_t: "sn_inv t" using t inv by (intro same_sessions_inv [OF t(5) inv]) (auto simp: sn_inv_def)
  let ?s = "if i + 1 = fs_max_fragment x then sn_remove_session k t else t"
  show ?thesis
  proof (rule that [of ?s])
    show "get_fragment openable k i s = (Inr (frag (opened s path) (nat i)), ?s)"
      using x i t(1) off by (simp add: get_fragment_def bindE_getsE sn_get_session_def bindE_throw_if bindE_Inr
          end_after_last_run k frag_def)
    show "sn_inv ?s" using inv_t sn_inv_remove by simp
    show "sn_find_session ?s = (if i + 1 = fs_max_fragment x then (sn_find_session s)(k := None) else sn_find_session s)"
      by (simp add: find_session_remove same_sessions_find [OF t(5)])
  qed (use t off in \<open>auto simp: sn_remove_session_def file_content_def same_sessions_def\<close>)
qed

section \<open>Whole files\<close>

text \<open>Requests for the fragments from \<open>i\<close> on, in order.\<close>

fun store_all :: "(string \<Rightarrow> bool) \<Rightarrow> int \<Rightarrow> int \<Rightarrow> bytes list \<Rightarrow> (storage, unit) exec" where
  "store_all openable k i [] = ret ()"
| "store_all openable k i (f # fs) = bindE (put_fragment openable k i f) (\<lambda>_. store_all openable k (i + 1) fs)"

fun fetch_all :: "(string \<Rightarrow> bool) \<Rightarrow> int \<Rightarrow> int \<Rightarrow> nat \<Rightarrow> (storage, bytes list) exec" where
  "fetch_all openable k i 0 = ret []"
| "fetch_all openable k i (Suc n) =
     bindE (get_fragment openable k i) (\<lambda>f. bindE (fetch_all openable k (i + 1) n) (\<lambda>fs. ret (f # fs)))"

lemma store_all_run:
  assumes "sn_inv s" and "sn_find_session s k = Some x" and "path = get_absolute_path s (fs_filename x)"
    and "m_file_cache s path \<noteq> None \<or> openable path"
    and "fs \<noteq> []" and "\<forall>f \<in> set (butlast fs). length f = 50000"
    and "int i + int (length fs) = fs_max_fragment x" and "fs_max_fragment x * 50000 \<le> 2 ^ 31"
    and "opened s path = a @ old" and "length a = i * 50000"
  shows "\<exists>s'. store_all openable k (int i) fs s = (Inr (), s') \<and> sn_inv s' \<and>
    file_content s' path = a @ concat fs @ drop (length (concat fs)) old \<and> m_file_cache s' path \<noteq> None \<and>
    m_sharing_path s' = m_sharing_path s \<and> sn_find_session s' = (sn_find_session s)(k := None) \<and>
    (\<forall>p. p \<noteq> path \<longrightarrow> sn_disk s' p = sn_disk s p)"
  using assms
proof (induction fs arbitrary: s i a old)
  case (Cons f fs)
  have i: "0 \<le> int i" "int i < fs_max_fragment x" "int i * 50000 < 2 ^ 31" using Cons.prems by simp_all
  obtain t where t: "put_fragment openable k (int i) f s = (Inr (), t)" "sn_inv t"
    "file_content t path = overwrite (nat (int i) * 50000) f (opened s path)" "m_file_cache t path \<noteq> None"
    "m_sharing_path t = m_sharing_path s"
    "\<forall>p. p \<noteq> path \<longrightarrow> sn_disk t p = sn_disk s p \<and> m_file_cache t p = m_file_cache s p"
    "sn_find_session t = (if int i + 1 = fs_max_fragment x then (sn_find_session s)(k := None) else sn_find_session s)"
    by (rule put_fragment_run [where openable = openable and bs = f, OF Cons.prems(1,2) i Cons.prems(3,4)])
  have content: "file_content t path = a @ f @ drop (length f) old"
    using overwrite_end [of a f old] Cons.prems(9,10) t(3) by simp
  show ?case
  proof (cases "fs = []")
    case True
    with t content Cons.prems(7) show ?thesis by (auto simp: bindE_Inr)
  next
    case False
    then have len: "length f = 50000" "\<forall>g \<in> set (butlast fs). length g = 50000" using Cons.prems(6) by simp_all
    have x: "sn_find_session t k = Some x" "sn_find_session t = sn_find_session s"
      using t(7) False Cons.prems(2,7) by (cases fs; simp)+
    have path: "path = get_absolute_path t (fs_filename x)"
      using Cons.prems(3) t(5) by (simp add: get_absolute_path_def)
    have opened: "opened t path = (a @ f) @ drop (length f) old" using t(4) content by (auto simp: opened_def)
    have "\<exists>s'. store_all openable k (int (Suc i)) fs t = (Inr (), s') \<and> sn_inv s' \<and>
      file_content s' path = (a @ f) @ concat fs @ drop (length (concat fs)) (drop (length f) old) \<and> m_file_cache s' path \<noteq> None \<and>
      m_sharing_path s' = m_sharing_path t \<and> sn_find_session s' = (sn_find_session t)(k := None) \<and>
      (\<forall>p. p \<noteq> path \<longrightarrow> sn_disk s' p = sn_disk t p)"
      by (rule Cons.IH [OF t(2) x(1) path _ False len(2) _ Cons.prems(8) opened])
        (use t(4) Cons.prems(7,10) len in simp_all)
    then obtain s' where "store_all openable k (int (Suc i)) fs t = (Inr (), s')" "sn_inv s'"
      "file_content s' path = (a @ f) @ concat fs @ drop (length (concat fs)) (drop (length f) old)"
      "m_file_cache s' path \<noteq> None" "m_sharing_path s' = m_sharing_path t"
      "sn_find_session s' = (sn_find_session t)(k := None)" "\<forall>p. p \<noteq> path \<longrightarrow> sn_disk s' p = sn_disk t p"
      by blast
    then show ?thesis
      using t(1,5,6) x(2) by (intro exI [of _ s']) (auto simp: bindE_Inr add.commute)
  qed
qed simp

lemma fetch_all_run:
  assumes "sn_inv s" and "sn_find_session s k = Some x" and "path = get_absolute_path s (fs_filename x)"
    and "m_file_cache s path \<noteq> None" and "sn_disk s path \<noteq> None"
    and "0 < n" and "int i + int n = fs_max_fragment x" and "fs_max_fragment x * 50000 \<le> 2 ^ 31"
  shows "\<exists>s'. fetch_all openable k (int i) n s = (Inr (map (frag (file_content s path)) [i ..< i + n]), s') \<and>
    sn_inv s' \<and> file_content s' path = file_content s path \<and> sn_find_session s' = (sn_find_session s)(k := None)"
  using assms
proof (induction n arbitrary: s i)
  case (Suc n)
  have i: "0 \<le> int i" "int i < fs_max_fragment x" "int i * 50000 < 2 ^ 31" using Suc.prems by simp_all
  have opened: "opened s path = file_content s path" using Suc.prems(4) by (auto simp: opened_def)
  have cached: "m_file_cache s path \<noteq> None \<or> openable path" using Suc.prems(4) by simp
  obtain t where t: "get_fragment openable k (int i) s = (Inr (frag (opened s path) (nat (int i))), t)" "sn_inv t"
    "file_content t path = opened s path" "m_file_cache t path \<noteq> None" "m_sharing_path t = m_sharing_path s"
    "sn_disk t path \<noteq> None"
    "\<forall>p. p \<noteq> path \<longrightarrow> sn_disk t p = sn_disk s p \<and> m_file_cache t p = m_file_cache s p"
    "sn_find_session t = (if int i + 1 = fs_max_fragment x then (sn_find_session s)(k := None) else sn_find_session s)"
    by (rule get_fragment_run [where openable = openable, OF Suc.prems(1,2) i Suc.prems(3) cached Suc.prems(5)])
  show ?case
  proof (cases "n = 0")
    case True
    with t opened Suc.prems(7) show ?thesis by (auto simp: bindE_Inr)
  next
    case False
    have x: "sn_find_session t k = Some x" "sn_find_session t = sn_find_session s"
      using t(8) False Suc.prems(2,7) by auto
    have path: "path = get_absolute_path t (fs_filename x)"
      using Suc.prems(3) t(5) by (simp add: get_absolute_path_def)
    obtain s' where s': "fetch_all openable k (int (Suc i)) n t =
        (Inr (map (frag (file_content t path)) [Suc i ..< Suc i + n]), s')" "sn_inv s'"
        "file_content s' path = file_content t path" "sn_find_session s' = (sn_find_session t)(k := None)"
    proof -
      have "\<exists>s'. fetch_all openable k (int (Suc i)) n t =
          (Inr (map (frag (file_content t path)) [Suc i ..< Suc i + n]), s') \<and> sn_inv s' \<and>
          file_content s' path = file_content t path \<and> sn_find_session s' = (sn_find_session t)(k := None)"
        by (rule Suc.IH [OF t(2) x(1) path t(4,6)]) (use False Suc.prems(7,8) in simp_all)
      then show thesis using that by blast
    qed
    have "[i ..< i + Suc n] = i # [Suc i ..< Suc i + n]" by (simp add: upt_conv_Cons)
    then show ?thesis
      using s' t(1,3) x(2) opened by (simp add: bindE_Inr add.commute fun_upd_def del: upt_Suc)
  qed
qed simp

text \<open>A list of fragments: all but the last are full, the last is not empty.\<close>

definition fragmented :: "bytes list \<Rightarrow> bool" where
  "fragmented fs \<longleftrightarrow> fs \<noteq> [] \<and> (\<forall>f \<in> set (butlast fs). length f = 50000) \<and> last fs \<noteq> [] \<and> length (last fs) \<le> 50000"

lemma fragmented_Cons: "fragmented (f # fs) \<Longrightarrow> fs \<noteq> [] \<Longrightarrow> length f = 50000 \<and> fragmented fs"
  by (simp add: fragmented_def)

lemma frag_concat: "fragmented fs \<Longrightarrow> j < length fs \<Longrightarrow> frag (concat fs) j = fs ! j"
proof (induction fs arbitrary: j)
  case (Cons f fs)
  show ?case
  proof (cases "fs = []")
    case True
    with Cons.prems show ?thesis by (simp add: frag_def fragmented_def)
  next
    case False
    with fragmented_Cons [OF Cons.prems(1)] have f: "length f = 50000" "fragmented fs" by simp_all
    then show ?thesis using Cons.IH Cons.prems(2) by (cases j) (simp_all add: frag_def)
  qed
qed simp

lemma length_fragmented:
  "fragmented fs \<Longrightarrow> (length fs - 1) * 50000 < length (concat fs) \<and> length (concat fs) \<le> length fs * 50000"
proof (induction fs)
  case (Cons f fs)
  show ?case
  proof (cases "fs = []")
    case True
    with Cons.prems show ?thesis by (simp add: fragmented_def)
  next
    case False
    with fragmented_Cons [OF Cons.prems(1)] have f: "length f = 50000" "fragmented fs" by simp_all
    then show ?thesis using Cons.IH False by (cases fs) simp_all
  qed
qed (simp add: fragmented_def)

lemma fragmented_count: "fragmented fs \<Longrightarrow> (length (concat fs) + 49999) div 50000 = length fs"
proof -
  assume "fragmented fs"
  then have "length fs \<noteq> 0" "(length fs - 1) * 50000 < length (concat fs)" "length (concat fs) \<le> length fs * 50000"
    using length_fragmented by (auto simp: fragmented_def)
  then show ?thesis by (simp add: div_nat_eqI)
qed

lemma open_put_run:
  assumes "sn_inv s" and "sn_find_session_at s name = None"
  shows "open_put_session name n s =
    (Inr \<lparr>fs_session_id = sn_next_id s, fs_filename = name, fs_max_fragment = n\<rparr>, session_entered name n s)"
  using assms by (simp add: open_put_session_def sn_register_put_session_def bindE_Inr [where m = "sn_register_session name", OF register_session_run]
      set_max_fragment_entered)

lemma open_get_run:
  assumes inv: "sn_inv s" and none: "sn_find_session_at s name = None"
    and "sn_disk s (get_absolute_path s name) = Some c" and "length c < 2 ^ 24"
  shows "open_get_session name s =
    (Inr \<lparr>fs_session_id = sn_next_id s, fs_filename = name, fs_max_fragment = int ((length c + 49999) div 50000)\<rparr>,
     session_entered name (int ((length c + 49999) div 50000)) s)"
proof -
  have "sn_disk (session_entered name 0 s) (get_absolute_path (session_entered name 0 s) name) = Some c"
    using assms(3) by (simp add: session_entered_def get_absolute_path_def)
  then show ?thesis
    using fragment_count_exact [OF assms(4)] none
    by (simp add: open_get_session_def sn_register_get_session_def bindE_Inr [where m = "sn_register_session name", OF register_session_run [OF inv none]]
        bindE_getsE set_max_fragment_entered [OF inv])
qed

lemma session_entered_files [simp]:
  "get_absolute_path (session_entered name n s) = get_absolute_path s" "file_content (session_entered name n s) = file_content s"
  "opened (session_entered name n s) = opened s" "m_file_cache (session_entered name n s) = m_file_cache s"
  "sn_disk (session_entered name n s) = sn_disk s"
  by (simp_all add: fun_eq_iff session_entered_def get_absolute_path_def file_content_def opened_def)

lemma upload_run:
  assumes inv: "sn_inv s" and none: "sn_find_session_at s name = None" and path: "path = get_absolute_path s name"
    and "m_file_cache s path \<noteq> None \<or> openable path"
    and fs: "fs \<noteq> []" "\<forall>f \<in> set (butlast fs). length f = 50000" "int (length fs) * 50000 \<le> 2 ^ 31"
  obtains x s1 s2 where "open_put_session name (int (length fs)) s = (Inr x, s1)"
    and "store_all openable (fs_session_id x) 0 fs s1 = (Inr (), s2)"
    and "sn_inv s2" "m_file_cache s2 path \<noteq> None" "get_absolute_path s2 = get_absolute_path s"
    and "file_content s2 path = concat fs @ drop (length (concat fs)) (opened s path)"
    and "\<forall>p. p \<noteq> path \<longrightarrow> sn_disk s2 p = sn_disk s p"
    and "sn_find_session s2 = sn_find_session s"
proof -
  let ?x = "\<lparr>fs_session_id = sn_next_id s, fs_filename = name, fs_max_fragment = int (length fs)\<rparr>"
  let ?s = "session_entered name (int (length fs)) s"
  note entered = session_entered_world [OF inv none, of "int (length fs)"]
  have x: "sn_find_session ?s (sn_next_id s) = Some ?x" by (simp add: entered)
  have "\<exists>s'. store_all openable (sn_next_id s) (int 0) fs ?s = (Inr (), s') \<and> sn_inv s' \<and>
    file_content s' path = [] @ concat fs @ drop (length (concat fs)) (opened s path) \<and> m_file_cache s' path \<noteq> None \<and>
    m_sharing_path s' = m_sharing_path ?s \<and> sn_find_session s' = (sn_find_session ?s)(sn_next_id s := None) \<and>
    (\<forall>p. p \<noteq> path \<longrightarrow> sn_disk s' p = sn_disk ?s p)"
    by (rule store_all_run [OF entered(1) x]) (use assms in simp_all)
  moreover have "sn_find_session s (sn_next_id s) = None"
    using inv by (simp add: sn_inv_def sn_find_session_def ids_below_fresh)
  ultimately show ?thesis
    using that [OF open_put_run [OF inv none, of "int (length fs)"]] entered(2)
    by (auto simp: fun_upd_idem get_absolute_path_def fun_eq_iff session_entered_def [of name "int (length fs)" s])
qed

section \<open>Properties\<close>

text \<open>
  C36. A stored file is an array of fragments. Storing fragment \<open>i\<close> of a session, from 0 on and of at
  most 50000 bytes - in any order, any number of times - refines the update of that array at \<open>i\<close>: a fragment replaces the
  front of the old one, and the ones before it that are not full are filled with zeros. Other
  files and sessions stay; the fragment with the last index ends the session. A fragment
  without a session or past the session's number is refused without a change, and an index whose
  offset does not fit an \<open>int\<close> is undefined behaviour.
\<close>

theorem put_fragment_refines:
  assumes inv: "sn_inv s" and run: "put_fragment openable k i bs s = (r, s')" and i: "0 \<le> i" "length bs \<le> 50000"
    and stream: "\<And>x. sn_find_session s k = Some x \<Longrightarrow> m_file_cache s (get_absolute_path s (fs_filename x)) \<noteq> None \<or>
      openable (get_absolute_path s (fs_filename x))"
  shows "sn_inv s' \<and> (case sn_find_session s k of
      None \<Rightarrow> r = Inl (Thrown (Storage NODE_ERR_FILE_SESSION_NOT_EXIST)) \<and> s' = s
    | Some x \<Rightarrow> let path = get_absolute_path s (fs_filename x) in
        if i \<ge> fs_max_fragment x then r = Inl (Thrown (Storage NODE_ERR_FILE_SESSION_INVALID_FRAGMENT)) \<and> s' = s
        else if i * 50000 \<ge> 2 ^ 31 then r = Inl Undefined \<and> s' = s
        else r = Inr () \<and> frag (file_content s' path) = store (nat i) bs (frag (opened s path)) \<and>
          (\<forall>p. p \<noteq> path \<longrightarrow> sn_disk s' p = sn_disk s p) \<and>
          sn_find_session s' = (if i + 1 = fs_max_fragment x then (sn_find_session s)(k := None) else sn_find_session s))"
proof (cases "sn_find_session s k")
  case None
  then show ?thesis using run inv by (simp add: put_fragment_def bindE_getsE sn_get_session_def)
next
  case (Some x)
  show ?thesis
  proof (cases "i < fs_max_fragment x \<and> i * 50000 < 2 ^ 31")
    case True
    then have i': "i < fs_max_fragment x" "i * 50000 < 2 ^ 31" by simp_all
    obtain t where "put_fragment openable k i bs s = (Inr (), t)" "sn_inv t"
      "file_content t (get_absolute_path s (fs_filename x)) =
        overwrite (nat i * 50000) bs (opened s (get_absolute_path s (fs_filename x)))"
      "\<forall>p. p \<noteq> get_absolute_path s (fs_filename x) \<longrightarrow> sn_disk t p = sn_disk s p \<and> m_file_cache t p = m_file_cache s p"
      "sn_find_session t = (if i + 1 = fs_max_fragment x then (sn_find_session s)(k := None) else sn_find_session s)"
      using put_fragment_run [where openable = openable and bs = bs, OF inv Some i(1) i' refl stream [OF Some]] by blast
    then show ?thesis using run Some True frag_overwrite [OF i(2)] by (auto simp: Let_def)
  next
    case False
    then show ?thesis
      using run Some inv i(1)
      by (auto simp: put_fragment_def bindE_getsE sn_get_session_def bindE_throw_if int_mult_def
          MAX_FRAGMENT_CONTENT_LEN_def Let_def split: if_splits)
  qed
qed

definition example_storage :: storage where
  "example_storage = session_entered ''a'' 2 (empty_storage Map.empty)"

lemma find_at_empty: "sn_find_session_at (empty_storage disk) name = None"
  by (simp add: sn_find_session_at_def empty_storage_def om_find_if_def)

lemma example_storage_inv: "sn_inv example_storage"
  unfolding example_storage_def by (rule session_entered_world [OF sn_inv_empty find_at_empty])

lemma example_storage_session:
  "sn_find_session example_storage 1 = Some \<lparr>fs_session_id = 1, fs_filename = ''a'', fs_max_fragment = 2\<rparr>"
  by (simp add: example_storage_def session_entered_def empty_storage_def sn_find_session_def)

theorem put_fragment_refines_witness:
  "frag (file_content (snd (put_fragment (\<lambda>_. True) 1 1 [7] example_storage)) ''/a'') 1 = [7]"
proof -
  have path: "get_absolute_path example_storage ''a'' = ''/a''"
    by (simp add: get_absolute_path_def example_storage_def session_entered_def empty_storage_def)
  have "opened example_storage ''/a'' = []" by (simp add: opened_def example_storage_def empty_storage_def session_entered_def)
  with put_fragment_refines [OF example_storage_inv surjective_pairing, where openable = "\<lambda>_. True" and k = 1 and i = 1 and bs = "[7]"]
  show ?thesis by (simp add: example_storage_session path Let_def store_def frag_def)
qed

text \<open>
  C37. A file comes back as it was. When all fragments of a file below 16 MB are stored in order
  and no longer file of the name is open, the download's session has as many fragments, and
  reading them in order gives back each of them. After it no session of the name is left.
\<close>

theorem file_roundtrip:
  assumes inv: "sn_inv s" and none: "sn_find_session_at s name = None" and path: "path = get_absolute_path s name"
    and stream: "m_file_cache s path \<noteq> None \<or> openable path"
    and fs: "fragmented fs" "length (concat fs) < 2 ^ 24" and old: "length (opened s path) \<le> length (concat fs)"
  shows "\<exists>x y s1 s2 s3 s4. open_put_session name (int (length fs)) s = (Inr x, s1) \<and>
    store_all openable (fs_session_id x) 0 fs s1 = (Inr (), s2) \<and>
    open_get_session name s2 = (Inr y, s3) \<and> fs_max_fragment y = int (length fs) \<and>
    fetch_all openable (fs_session_id y) 0 (length fs) s3 = (Inr fs, s4) \<and> sn_find_session_at s4 name = None"
proof -
  have len: "fs \<noteq> []" "\<forall>f \<in> set (butlast fs). length f = 50000" using fs(1) by (simp_all add: fragmented_def)
  have count: "int (length fs) * 50000 \<le> 2 ^ 31"
    using length_fragmented [OF fs(1)] fs(2) len(1) by (cases fs) auto
  obtain x s1 s2 where up: "open_put_session name (int (length fs)) s = (Inr x, s1)"
    "store_all openable (fs_session_id x) 0 fs s1 = (Inr (), s2)"
    "sn_inv s2" "m_file_cache s2 path \<noteq> None" "get_absolute_path s2 = get_absolute_path s"
    "file_content s2 path = concat fs @ drop (length (concat fs)) (opened s path)"
    "sn_find_session s2 = sn_find_session s"
    using upload_run [where openable = openable, OF inv none path stream len count] by metis
  have none2: "sn_find_session_at s2 name = None" using none by (simp add: find_at_None inv up(3,7))
  have content: "file_content s2 path = concat fs" using up(6) old by simp
  then have disk: "sn_disk s2 path = Some (concat fs)"
    using up(3,4) by (auto simp: sn_inv_def file_content_def split: option.splits)
  let ?n = "int (length fs)"
  let ?y = "\<lparr>fs_session_id = sn_next_id s2, fs_filename = name, fs_max_fragment = ?n\<rparr>"
  let ?s = "session_entered name ?n s2"
  have get: "open_get_session name s2 = (Inr ?y, ?s)"
    using open_get_run [OF up(3) none2, of "concat fs"] disk fs(2) path up(5) fragmented_count [OF fs(1)] by simp
  note entered = session_entered_world [OF up(3) none2, of ?n]
  have y: "sn_find_session ?s (sn_next_id s2) = Some ?y" by (simp add: entered)
  have "\<exists>s'. fetch_all openable (sn_next_id s2) (int 0) (length fs) ?s =
      (Inr (map (frag (file_content ?s path)) [0 ..< 0 + length fs]), s') \<and>
    sn_inv s' \<and> file_content s' path = file_content ?s path \<and>
    sn_find_session s' = (sn_find_session ?s)(sn_next_id s2 := None)"
    by (rule fetch_all_run [OF entered(1) y]) (use len count up disk path in simp_all)
  moreover have "map (frag (concat fs)) [0 ..< length fs] = fs"
    using frag_concat [OF fs(1)] by (intro nth_equalityI) simp_all
  ultimately obtain s4 where down: "fetch_all openable (sn_next_id s2) 0 (length fs) ?s = (Inr fs, s4)" "sn_inv s4"
      "sn_find_session s4 = (sn_find_session ?s)(sn_next_id s2 := None)"
    using content by auto
  have "sn_find_session s2 (sn_next_id s2) = None" using up(3) by (simp add: sn_inv_def sn_find_session_def ids_below_fresh)
  then have "sn_find_session s4 = sn_find_session s2" by (simp add: down(3) entered(2) fun_upd_idem)
  then have "sn_find_session_at s4 name = None" using none2 by (simp add: find_at_None up(3) down(2))
  with up(1,2) get down(1) show ?thesis by force
qed

theorem file_roundtrip_witness:
  "\<exists>x y s1 s2 s3 s4. open_put_session ''a'' 1 (empty_storage Map.empty) = (Inr x, s1) \<and>
    store_all (\<lambda>_. True) (fs_session_id x) 0 [[1, 2, 3]] s1 = (Inr (), s2) \<and>
    open_get_session ''a'' s2 = (Inr y, s3) \<and> fs_max_fragment y = 1 \<and>
    fetch_all (\<lambda>_. True) (fs_session_id y) 0 1 s3 = (Inr [[1, 2, 3]], s4) \<and> sn_find_session_at s4 ''a'' = None"
  using file_roundtrip [OF sn_inv_empty [of Map.empty] find_at_empty refl,
    where openable = "\<lambda>_. True" and fs = "[[1, 2, 3]]" and name = "''a''"]
  by (simp add: fragmented_def opened_def empty_storage_def)

text \<open>
  A shorter upload keeps the tail of the old file. A file that the node has open is not
  truncated when a new upload of its name begins: behind the new fragments the old content goes
  on, and becomes part of every later download. Other files stay.
\<close>

theorem upload_keeps_tail:
  assumes inv: "sn_inv s" and none: "sn_find_session_at s name = None" and path: "path = get_absolute_path s name"
    and cached: "m_file_cache s path \<noteq> None"
    and fs: "fs \<noteq> []" "\<forall>f \<in> set (butlast fs). length f = 50000" "int (length fs) * 50000 \<le> 2 ^ 31"
  shows "\<exists>x s1 s2. open_put_session name (int (length fs)) s = (Inr x, s1) \<and>
    store_all openable (fs_session_id x) 0 fs s1 = (Inr (), s2) \<and>
    file_content s2 path = concat fs @ drop (length (concat fs)) (file_content s path) \<and>
    (\<forall>p. p \<noteq> path \<longrightarrow> sn_disk s2 p = sn_disk s p)"
proof -
  have "m_file_cache s path \<noteq> None \<or> openable path" using cached by simp
  moreover have "opened s path = file_content s path" using cached by (auto simp: opened_def)
  ultimately show ?thesis
    using upload_run [where openable = openable, OF inv none path _ fs] by metis
qed

theorem upload_keeps_tail_witness:
  "\<exists>x s1 s2. open_put_session ''a'' 1 (empty_storage [''/a'' \<mapsto> [1, 2, 3]]\<lparr>m_file_cache := [''/a'' \<mapsto> \<lparr>st_position = 0, st_mode = Free\<rparr>]\<rparr>) = (Inr x, s1) \<and>
    store_all (\<lambda>_. False) (fs_session_id x) 0 [[9]] s1 = (Inr (), s2) \<and> file_content s2 ''/a'' = [9, 2, 3]"
proof -
  let ?s = "empty_storage [''/a'' \<mapsto> [1, 2, 3]]\<lparr>m_file_cache := [''/a'' \<mapsto> \<lparr>st_position = 0, st_mode = Free\<rparr>]\<rparr>"
  have "sn_inv ?s" "sn_find_session_at ?s ''a'' = None" "''/a'' = get_absolute_path ?s ''a''"
    by (simp_all add: sn_inv_def empty_storage_def sn_find_session_at_def om_find_if_def get_absolute_path_def)
  from upload_keeps_tail [OF this, where openable = "\<lambda>_. False" and fs = "[[9]]"] show ?thesis
    by (fastforce simp: file_content_def empty_storage_def)
qed

text \<open>
  A restarted node empties what it reads. The first read of a file that the node has not
  opened since its start opens it with the mode \<open>wb+\<close>, which truncates it: every fragment comes
  back empty, without an error, and the file on the disk is empty from then on.
\<close>

theorem restart_empties_file:
  assumes inv: "sn_inv s" and x: "sn_find_session s k = Some x" and i: "0 \<le> i" "i < fs_max_fragment x" "i * 50000 < 2 ^ 31"
    and path: "path = get_absolute_path s (fs_filename x)" and closed: "m_file_cache s path = None" "openable path"
    and disk: "sn_disk s path = Some c" and run: "get_fragment openable k i s = (r, s')"
  shows "r = Inr [] \<and> sn_disk s' path = Some [] \<and> (\<forall>p. p \<noteq> path \<longrightarrow> sn_disk s' p = sn_disk s p)"
proof -
  have stream: "m_file_cache s path \<noteq> None \<or> openable path" and "sn_disk s path \<noteq> None" using closed disk by simp_all
  note get = get_fragment_run [where openable = openable, OF inv x i path this]
  have opened: "opened s path = []" using closed by (simp add: opened_def)
  show ?thesis
  proof (rule get)
    fix t assume t: "get_fragment openable k i s = (Inr (frag (opened s path) (nat i)), t)"
      "file_content t path = opened s path" "sn_disk t path \<noteq> None"
      "\<forall>p. p \<noteq> path \<longrightarrow> sn_disk t p = sn_disk s p \<and> m_file_cache t p = m_file_cache s p"
    then show ?thesis using run opened by (auto simp: frag_def file_content_def)
  qed
qed

theorem restart_empties_file_witness:
  "sn_disk (snd (get_fragment (\<lambda>_. True) 1 0 (example_storage\<lparr>sn_disk := [''/a'' \<mapsto> [1, 2, 3]]\<rparr>))) ''/a'' = Some []"
proof -
  let ?s = "example_storage\<lparr>sn_disk := [''/a'' \<mapsto> [1, 2, 3]]\<rparr>"
  have inv: "sn_inv ?s" using example_storage_inv by (simp add: sn_inv_def example_storage_def session_entered_def empty_storage_def)
  have x: "sn_find_session ?s 1 = Some \<lparr>fs_session_id = 1, fs_filename = ''a'', fs_max_fragment = 2\<rparr>"
    using example_storage_session by (simp add: sn_find_session_def)
  have path: "''/a'' = get_absolute_path ?s (fs_filename \<lparr>fs_session_id = 1, fs_filename = ''a'', fs_max_fragment = 2\<rparr>)"
    by (simp add: get_absolute_path_def example_storage_def session_entered_def empty_storage_def)
  have cache: "m_file_cache ?s ''/a'' = None" by (simp add: example_storage_def session_entered_def empty_storage_def)
  from restart_empties_file [OF inv x, of 0, OF _ _ _ path cache _ _ surjective_pairing]
  show ?thesis by simp
qed

lemma float32_large: "float32 25600001 = 25600000"
proof -
  have "ilog2 25600001 = 24" by (simp add: ilog2.simps)
  then have "rat_log2 25600001 = 24" by (simp add: rat_log2_def)
  moreover have "(25600001 :: rat) * 2 powi (- 1) = 12800000 + 1 / 2" by (simp add: power_int_def)
  moreover have "\<lfloor>12800000 + 1 / 2 :: rat\<rfloor> = 12800000" by (simp add: floor_eq_iff)
  then have "round_even (12800000 + 1 / 2) = 12800000" by (simp add: round_even_def Let_def)
  ultimately show ?thesis by (simp add: float32_def)
qed

text \<open>
  C38. How many fragments a download has. Below 16 MB the float arithmetic gives the number of
  fragments that hold the file. Above, it need not: a file of 512 full fragments and one byte
  is served with 512 fragments, so that its last byte is never read.
\<close>

theorem fragment_count_bounds:
  "(n < 2 ^ 24 \<longrightarrow> fragment_count n MAX_FRAGMENT_CONTENT_LEN = Inr (int ((n + 49999) div 50000))) \<and>
   fragment_count 25600001 MAX_FRAGMENT_CONTENT_LEN = Inr 512 \<and> (25600001 + 49999) div 50000 = (513 :: nat)"
proof -
  have "float32 50000 = 50000" "float32 512 = 512"
    using float32_int [of 50000] float32_int [of 512] by simp_all
  then have "fragment_count 25600001 MAX_FRAGMENT_CONTENT_LEN = Inr 512"
    by (simp add: fragment_count_def MAX_FRAGMENT_CONTENT_LEN_def float32_large)
  then show ?thesis using fragment_count_exact by simp
qed

theorem fragment_count_bounds_witness: "fragment_count 100001 MAX_FRAGMENT_CONTENT_LEN = Inr 3"
  using fragment_count_bounds [of 100001] by simp

end
