(* ===== verification/Storage_Program.thy ===== *)
theory Storage_Program
  imports Storage_Files
begin

text \<open>
  The storage node as a program of the worker: the four handlers of
  \<open>storage_node/transaction.cpp\<close> around the work of theory \<open>Storage_Node\<close>, the table of
  \<open>storage_node/main.cpp\<close>, and what the worker's contracts give for the node. The node has one
  phase transactions only.
\<close>

section \<open>Handlers\<close>

datatype sn_fun = Sn_put_file_session | Sn_put_file | Sn_get_file_session | Sn_get_file

type_synonym 'c sn_world = "('c, sn_fun, unit, storage) world"

record 'c node_env =
  sn_codec :: "'c codec"
  sn_alloc :: "size_t \<Rightarrow> bool"
  sn_openable :: "string \<Rightarrow> bool"

definition as_node_put_session :: "message \<Rightarrow> (string \<times> int) res" where
  "as_node_put_session m = (case m of ReqNodePutFileSession a b \<Rightarrow> Inr (a, b) | _ \<Rightarrow> Inl Undefined)"
definition as_node_put :: "message \<Rightarrow> (int \<times> int \<times> bytes) res" where
  "as_node_put m = (case m of ReqPutFile a b c \<Rightarrow> Inr (a, b, c) | _ \<Rightarrow> Inl Undefined)"
definition as_node_get_session :: "message \<Rightarrow> string res" where
  "as_node_get_session m = (case m of ReqNodeGetFileSession a \<Rightarrow> Inr a | _ \<Rightarrow> Inl Undefined)"
definition as_node_get :: "message \<Rightarrow> (int \<times> int) res" where
  "as_node_get m = (case m of ReqGetFile a b \<Rightarrow> Inr (a, b) | _ \<Rightarrow> Inl Undefined)"

definition sn_on_put_file_session :: "'c node_env \<Rightarrow> int \<Rightarrow> 'c package \<Rightarrow> ('c sn_world, unit) exec" where
  "sn_on_put_file_session N conn_id package =
     bindE (getsE (\<lambda>_. parse_to_protocol (sn_codec N) ''ReqNodePutFileSession'' as_node_put_session package))
       (\<lambda>(file_path, max_fragment).
     bindE (on_app (open_put_session file_path max_fragment)) (\<lambda>session.
     send_back (sn_codec N) (sn_alloc N) conn_id (RspNodePutFileSession None (fs_session_id session)) package))"

definition sn_on_put_file :: "'c node_env \<Rightarrow> int \<Rightarrow> 'c package \<Rightarrow> ('c sn_world, unit) exec" where
  "sn_on_put_file N conn_id package =
     bindE (getsE (\<lambda>_. parse_to_protocol (sn_codec N) ''ReqPutFile'' as_node_put package))
       (\<lambda>(session_id, fragment_index, fragment_content).
     bindE (on_app (put_fragment (sn_openable N) session_id fragment_index fragment_content)) (\<lambda>_.
     send_back (sn_codec N) (sn_alloc N) conn_id (RspPutFile None session_id fragment_index) package))"

definition sn_on_get_file_session :: "'c node_env \<Rightarrow> int \<Rightarrow> 'c package \<Rightarrow> ('c sn_world, unit) exec" where
  "sn_on_get_file_session N conn_id package =
     bindE (getsE (\<lambda>_. parse_to_protocol (sn_codec N) ''ReqNodeGetFileSession'' as_node_get_session package)) (\<lambda>file_path.
     bindE (on_app (open_get_session file_path)) (\<lambda>session.
     send_back (sn_codec N) (sn_alloc N) conn_id
       (RspNodeGetFileSession None (fs_session_id session) (fs_max_fragment session)) package))"

text \<open>\<open>session_id\<close> of the response stays unset.\<close>

definition sn_on_get_file :: "'c node_env \<Rightarrow> int \<Rightarrow> 'c package \<Rightarrow> ('c sn_world, unit) exec" where
  "sn_on_get_file N conn_id package =
     bindE (getsE (\<lambda>_. parse_to_protocol (sn_codec N) ''ReqGetFile'' as_node_get package)) (\<lambda>(session_id, fragment_index).
     bindE (on_app (get_fragment (sn_openable N) session_id fragment_index)) (\<lambda>content.
     send_back (sn_codec N) (sn_alloc N) conn_id (RspGetFile None 0 fragment_index content) package))"

section \<open>The program\<close>

fun sn_handler :: "'c node_env \<Rightarrow> sn_fun \<Rightarrow> int \<Rightarrow> 'c package \<Rightarrow> ('c sn_world, unit) exec" where
  "sn_handler N Sn_put_file_session = sn_on_put_file_session N"
| "sn_handler N Sn_put_file = sn_on_put_file N"
| "sn_handler N Sn_get_file_session = sn_on_get_file_session N"
| "sn_handler N Sn_get_file = sn_on_get_file N"

definition sn_register_transactions :: "((int, sn_fun transaction) omap, unit) exec" where
  "sn_register_transactions =
     bindE (register_one_phase_transaction ''ReqNodePutFileSession'' Sn_put_file_session) (\<lambda>_.
     bindE (register_one_phase_transaction ''ReqPutFile'' Sn_put_file) (\<lambda>_.
     bindE (register_one_phase_transaction ''ReqNodeGetFileSession'' Sn_get_file_session) (\<lambda>_.
     register_one_phase_transaction ''ReqGetFile'' Sn_get_file)))"

definition sn_program :: "'c node_env \<Rightarrow> ('c, sn_fun, unit, storage) program" where
  "sn_program N = \<lparr>pr_codec = sn_codec N, pr_alloc = sn_alloc N, pr_handler = sn_handler N, pr_factory = (\<lambda>_. ()),
     pr_on_init = (\<lambda>k conn p. fail Undefined), pr_callback = (\<lambda>f k conn p. fail Undefined),
     pr_on_error = (\<lambda>k conn e. multi_on_error (sn_codec N) (sn_alloc N) k e), pr_call = (\<lambda>f. fail Undefined)\<rparr>"

definition sn_start :: "string \<Rightarrow> (string \<rightharpoonup> bytes) \<Rightarrow> precise_time \<Rightarrow> 'c sn_world" where
  "sn_start sharing_path disk now = (empty_world (set_sharing_path sharing_path (empty_storage disk)))
     \<lparr>w_trans_list := snd (sn_register_transactions []), w_now := now\<rparr>"

lemma sn_register_transactions_run:
  "sn_register_transactions [] = (Inr (), map (\<lambda>(c, f). (c, \<lparr>tr_type = ONE_PHASE_TRANSACTION, tr_handler = f, tr_error_handler = True\<rparr>))
     [(1029, Sn_put_file_session), (1031, Sn_put_file), (1035, Sn_get_file_session), (1037, Sn_get_file)])"
  by (simp add: sn_register_transactions_def register_one_phase_transaction_def bindE_def get_command_def
      find_command_iff [THEN iffD2] default_command_name_map_def register_transaction_def)

section \<open>The node meets the worker's contracts\<close>

lemmas sn_handler_defs = sn_on_put_file_session_def sn_on_put_file_def sn_on_get_file_session_def sn_on_get_file_def

locale storage_env =
  fixes N :: "'c node_env"
  assumes sizes: "sizes_ok (sn_codec N)" and memory: "sn_alloc N n"

sublocale storage_env \<subseteq> sn: calm_program "sn_program N"
proof
  show "calm 0 (pr_handler (sn_program N) f conn p)" for f conn p
    by (cases f) (simp_all add: sn_program_def sn_handler_defs calm_intros sizes)
  show "world_inv w \<Longrightarrow> trigger_command (w_multi w) k = Some c \<Longrightarrow> answerable c \<Longrightarrow>
      fst (pr_on_error (sn_program N) k conn e w) = Inr ()" for w k c conn e
    by (simp add: sn_program_def multi_on_error_returns sizes memory)
qed (simp_all add: sn_program_def calm_intros sizes)

lemma keeps_streams [keeps_intros]:
  "keeps sn_inv (get_file_stream openable p)" "keeps sn_inv (stream_seek p off)" "keeps sn_inv (stream_write p bs)"
  "keeps sn_inv (stream_read p n)" "keeps sn_inv (stream_flush p)"
  by (auto simp: keeps_def sn_inv_def get_file_stream_def stream_seek_def stream_write_def stream_read_def
      stream_flush_def update_stream_def Let_def split: option.split)

lemma keeps_register_session [keeps_intros]: "keeps sn_inv (sn_register_session name)"
proof -
  have "sn_inv (snd (sn_register_session name s))" if "sn_inv s" for s
  proof (cases "sn_find_session_at s name")
    case None
    then show ?thesis using register_session_run [OF that None] session_entered_world(1) [OF that None] by simp
  next
    case (Some x)
    with that show ?thesis by (simp add: sn_register_session_def)
  qed
  then show ?thesis by (simp add: keeps_def)
qed

lemma keeps_set_max_fragment [keeps_intros]: "keeps sn_inv (set_max_fragment x n)"
proof -
  let ?f = "\<lambda>m. om_update (fs_session_id x) (\<lambda>x. x\<lparr>fs_max_fragment := n\<rparr>) m"
  have names: "map (\<lambda>e. fs_filename (snd e)) (?f m) = map (\<lambda>e. fs_filename (snd e)) m" for m
    by (auto simp: om_update_def)
  have "sn_inv (s\<lparr>sn_session_list := ?f (sn_session_list s)\<rparr>)" if "sn_inv s" for s
    using that by (auto simp: sn_inv_def ids_below_update set_om_update names)
  then show ?thesis unfolding set_max_fragment_def by (intro keeps_intros keeps_modify)
qed

lemma keeps_end [keeps_intros]: "keeps sn_inv (end_after_last x i)"
  by (simp add: keeps_def end_after_last_run sn_inv_remove)

lemma keeps_storage [keeps_intros]:
  "keeps sn_inv (open_put_session name n)" "keeps sn_inv (open_get_session name)"
  "keeps sn_inv (put_fragment openable k i bs)" "keeps sn_inv (get_fragment openable k i)"
  by (auto simp: open_put_session_def open_get_session_def sn_register_put_session_def sn_register_get_session_def
      put_fragment_def get_fragment_def sn_put_file_def sn_get_file_def intro!: keeps_intros)

interpretation sn_app: app_invariant "sn_program N" sn_inv for N
proof
  have app: "keeps (\<lambda>w. sn_inv (w_app w)) (on_app m)" if "keeps sn_inv m" for m :: "(storage, 'x) exec"
    using that by (intro keeps_zoom [where Q = sn_inv]) simp_all
  show "keeps (\<lambda>w. sn_inv (w_app w)) (pr_handler (sn_program N) f conn p)" for f conn p
    by (cases f) (auto simp: sn_program_def sn_handler_defs intro!: app_keeps_intros keeps_storage keeps_zoom [where Q = sn_inv])
qed (auto simp: sn_program_def intro!: app_keeps_intros)

definition message_node :: "message node_env" where
  "message_node = \<lparr>sn_codec = message_codec, sn_alloc = (\<lambda>_. True), sn_openable = (\<lambda>_. True)\<rparr>"

interpretation message_node_env: storage_env message_node
  by unfold_locales (simp_all add: message_node_def sizes_ok_message)

lemma sn_worker_inv_start:
  assumes "pt_norm now"
  shows "worker_inv (sn_start sharing_path disk now)"
proof -
  have "answerable c" if "c \<in> {1029, 1031, 1035, 1037}" for c
    using that by (auto simp: answerable_def send_command_def send_name_def get_name_def get_command_def
        find_name_iff [THEN iffD2] find_command_iff [THEN iffD2] default_command_name_map_def)
  then show ?thesis
    using assms world_inv_empty [of "set_sharing_path sharing_path (empty_storage disk)"]
    by (simp add: worker_inv_def world_inv_def settled_def sn_start_def empty_world_def empty_multi_manager_def
        find_multi_def sn_register_transactions_run tmr_inv_empty)
qed

lemma sn_sessions_reachable:
  assumes "(worker_step (sn_program N))\<^sup>*\<^sup>* (sn_start sharing_path disk now) w"
  shows "sn_inv (w_app w)"
proof (rule sn_app.reachable_app [OF assms])
  have "sn_inv (set_sharing_path sharing_path (empty_storage disk))"
    by (simp add: set_sharing_path_def sn_inv_def empty_storage_def)
  then show "sn_inv (w_app (sn_start sharing_path disk now))" by (simp add: sn_start_def empty_world_def)
qed

section \<open>Sessions are never confused\<close>

definition sn_register_id :: "string \<Rightarrow> (storage, int) exec" where
  "sn_register_id name = bindE (sn_register_session name) (\<lambda>x. ret (fs_session_id x))"

lemma sn_register_id_run:
  assumes "sn_inv s"
  shows "sn_register_id name s = (if sn_find_session_at s name = None then (Inr (sn_next_id s), session_entered name 0 s)
    else (Inl (Thrown (Storage NODE_ERR_FILE_SESSION_ALREADY_EXIST)), s))"
  using assms register_session_run [of s name]
  by (auto simp: sn_register_id_def bindE_def sn_register_session_def)

interpretation sn_reg: registry "\<lambda>s k. sn_find_session s k \<noteq> None" sn_next_id sn_inv sn_register_id sn_remove_session
proof
  fix s t :: storage and k j :: int and a r
  assume inv: "sn_inv s"
  show "sn_find_session s k \<noteq> None \<Longrightarrow> k < sn_next_id s"
    using inv by (auto simp: sn_inv_def sn_find_session_def dest: ids_below_lookup)
  show "sn_inv (sn_remove_session k s)" by (rule sn_inv_remove [OF inv])
  show "sn_next_id (sn_remove_session k s) = sn_next_id s" by (simp add: sn_remove_session_def)
  show "sn_find_session (sn_remove_session k s) j \<noteq> None \<Longrightarrow> sn_find_session s j \<noteq> None \<and> j \<noteq> k"
    by (simp add: find_session_remove split: if_splits)
  assume run: "sn_register_id a s = (r, t)"
  have fresh: "sn_find_session s (sn_next_id s) = None" using inv by (simp add: sn_inv_def sn_find_session_def ids_below_fresh)
  consider "t = s" "\<exists>e. r = Inl e" | "sn_find_session_at s a = None" "t = session_entered a 0 s" "r = Inr (sn_next_id s)"
    using run sn_register_id_run [OF inv, of a] by (auto split: if_splits)
  note cases = this
  show "sn_inv t" using inv session_entered_world(1) [OF inv] cases by metis
  show "sn_next_id s \<le> sn_next_id t" by (cases rule: cases) (simp_all add: session_entered_def)
  show "sn_find_session t j \<noteq> None \<Longrightarrow> sn_find_session s j \<noteq> None \<or> sn_next_id s \<le> j"
    by (cases rule: cases) (auto simp: session_entered_world(2) [OF inv] split: if_splits)
  show "sn_find_session s j \<noteq> None \<Longrightarrow> sn_find_session t j \<noteq> None"
    by (cases rule: cases) (auto simp: session_entered_world(2) [OF inv])
next
  fix s t :: storage and k :: int and a
  assume inv: "sn_inv s" and run: "sn_register_id a s = (Inr k, t)"
  then have "sn_find_session_at s a = None" "t = session_entered a 0 s" "k = sn_next_id s"
    using sn_register_id_run [OF inv, of a] by (auto split: if_splits)
  then show "k = sn_next_id s \<and> sn_next_id t = k + 1 \<and> sn_find_session t k \<noteq> None"
    using session_entered_world(2) [OF inv] by (simp add: session_entered_def)
qed

section \<open>Properties\<close>

text \<open>
  C39. Asking for a missing file stops the node. The download's session opens the file for
  reading; when there is none, \<open>FileStream\<close> throws an \<open>OpenFileError\<close>, which \<open>safe_call\<close> catches
  only to run into the assertion of \<open>get_error_info\<close>: the turn of the worker does not end, no
  answer is sent - and the session, with no fragments, is already entered.
\<close>

theorem missing_download_stops_node:
  assumes inv: "sn_inv (w_app w)" and none: "sn_find_session_at (w_app w) name = None"
    and missing: "sn_disk (w_app w) (get_absolute_path (w_app w) name) = None"
    and p: "find_package (w_packages w) k = Some p" "h_trigger_package_id (p_header p) = 0"
    and tr: "find_transaction (w_trans_list w) (h_command (p_header p)) =
      Some \<lparr>tr_type = ONE_PHASE_TRANSACTION, tr_handler = Sn_get_file_session, tr_error_handler = True\<rparr>"
    and req: "parse_to_protocol (sn_codec N) ''ReqNodeGetFileSession'' as_node_get_session p = Inr name"
  shows "trigger_transaction (sn_program N) conn svc k w =
    (Inl Open_file_error, w\<lparr>w_app := session_entered name 0 (w_app w)\<rparr>)"
proof -
  have "sn_disk (session_entered name 0 (w_app w)) (get_absolute_path (session_entered name 0 (w_app w)) name) = None"
    using missing by simp
  then have "open_get_session name (w_app w) = (Inl Open_file_error, session_entered name 0 (w_app w))"
    using none by (simp add: open_get_session_def sn_register_get_session_def bindE_getsE
        bindE_Inr [where m = "sn_register_session name", OF register_session_run [OF inv none]])
  then have "sn_on_get_file_session N conn p w = (Inl Open_file_error, w\<lparr>w_app := session_entered name 0 (w_app w)\<rparr>)"
    using req by (simp add: sn_on_get_file_session_def bindE_getsE zoom_def bindE_def)
  then have "start_transaction (sn_program N) conn p w = (Inl Open_file_error, w\<lparr>w_app := session_entered name 0 (w_app w)\<rparr>)"
    using tr by (simp add: start_transaction_def sn_program_def call_transaction_def safe_call_def bindE_def)
  then show ?thesis using p by (simp add: trigger_transaction_def bindE_def)
qed

text \<open>A node that has just started on an empty directory, and a request for a file.\<close>

definition asked_node :: "message sn_world" where
  "asked_node = (sn_start ''/d'' Map.empty (pt_seconds 0))\<lparr>w_packages := \<lparr>m_package_list =
     [(1, (new_package 0 1)\<lparr>p_header := \<lparr>h_version = 2, h_command = 1035, h_content_length = 0,
        h_self_package_id = 9, h_trigger_package_id = 0\<rparr>, p_content := Some (ReqNodeGetFileSession ''f'')\<rparr>)],
     pm_next_id = 2\<rparr>\<rparr>"

lemma asked_node_app: "w_app asked_node = set_sharing_path ''/d'' (empty_storage Map.empty)"
  by (simp add: asked_node_def sn_start_def empty_world_def)

theorem missing_download_stops_node_witness:
  "fst (worker_turn (sn_program message_node)
     (asked_node\<lparr>w_queues := queue_push IN_QUEUE (NETWORK_TYPE \<lparr>nm_conn_id = 3, nm_service_id = 0, nm_package_id = 1\<rparr>) empty_queues\<rparr>)) =
   Inl Open_file_error"
proof -
  have inv: "sn_inv (w_app asked_node)" "sn_find_session_at (w_app asked_node) ''f'' = None"
      "sn_disk (w_app asked_node) (get_absolute_path (w_app asked_node) ''f'') = None"
    by (simp_all add: asked_node_app set_sharing_path_def sn_inv_def empty_storage_def sn_find_session_at_def om_find_if_def)
  obtain p where p: "find_package (w_packages asked_node) 1 = Some p" "h_trigger_package_id (p_header p) = 0"
      "h_command (p_header p) = 1035" "p_content p = Some (ReqNodeGetFileSession ''f'')"
    by (simp add: asked_node_def find_package_def)
  have tr: "find_transaction (w_trans_list asked_node) (h_command (p_header p)) =
      Some \<lparr>tr_type = ONE_PHASE_TRANSACTION, tr_handler = Sn_get_file_session, tr_error_handler = True\<rparr>"
    by (simp add: p asked_node_def sn_start_def sn_register_transactions_run find_transaction_def)
  have req: "parse_to_protocol (sn_codec message_node) ''ReqNodeGetFileSession'' as_node_get_session p = Inr ''f''"
    by (simp add: parse_to_protocol_def message_node_def message_codec_def p as_node_get_session_def)
  have "fst (trigger_transaction (sn_program message_node) 3 0 1 (asked_node\<lparr>w_queues := empty_queues\<rparr>)) = Inl Open_file_error"
    using missing_download_stops_node [of "asked_node\<lparr>w_queues := empty_queues\<rparr>" "''f''" 1 p message_node 3 0] inv p tr req by simp
  then obtain t where "trigger_transaction (sn_program message_node) 3 0 1 (asked_node\<lparr>w_queues := empty_queues\<rparr>) =
      (Inl Open_file_error, t)"
    by (metis prod.collapse)
  then show ?thesis
    by (simp add: worker_turn_def queue_empty_def queue_pop_def queue_push_def empty_queues_def bindE_def zoom_def)
qed

end
