(* ===== verification/Serialization.thy ===== *)
theory Serialization
  imports Core_Invariant
begin

text \<open>
  Storing and restoring the resource server's managers, the \<open>serialize\<close> and \<open>deserialize\<close>
  members in \<open>resource_server/core.cpp\<close>. The JSON values of the POCO library and their text are
  parameters: an object is built from its members in the order in which they are set, and
  \<open>json_ok\<close> states what the documentation says of reading a value back. A read of a missing
  member, or of one of another type, is an exception.
\<close>

section \<open>JSON values\<close>

record ('j, 'f) json =
  js_int :: "int \<Rightarrow> 'j"
  js_string :: "string \<Rightarrow> 'j"
  js_array :: "'j list \<Rightarrow> 'j"
  js_object :: "(string \<times> 'j) list \<Rightarrow> 'j"
  js_is_object :: "'j \<Rightarrow> bool"
  js_get :: "'j \<Rightarrow> string \<Rightarrow> 'j option"
  js_to_int :: "'j \<Rightarrow> int res"
  js_to_string :: "'j \<Rightarrow> string res"
  js_to_list :: "'j \<Rightarrow> 'j list res"
  js_stringify :: "'j \<Rightarrow> 'f"
  js_parse :: "'f option \<Rightarrow> 'j option res"   \<comment> \<open>\<open>None\<close>: no file; an empty result\<close>

definition json_ok :: "('j, 'f) json \<Rightarrow> bool" where
  "json_ok J \<longleftrightarrow> (\<forall>n. js_to_int J (js_int J n) = Inr n) \<and> (\<forall>s. js_to_string J (js_string J s) = Inr s) \<and>
     (\<forall>xs. js_to_list J (js_array J xs) = Inr xs) \<and> (\<forall>ms. js_is_object J (js_object J ms)) \<and>
     (\<forall>ms n. js_get J (js_object J ms) n = map_of (rev ms) n)"

text \<open>\<open>getValue<T>\<close>, \<open>getArray\<close>, and \<open>get\<close> followed by \<open>extract<Object::Ptr>\<close>.\<close>

definition get_value :: "('j, 'f) json \<Rightarrow> ('j \<Rightarrow> 'a res) \<Rightarrow> 'j \<Rightarrow> string \<Rightarrow> ('s, 'a) exec" where
  "get_value J conv obj name = getsE (\<lambda>_. case js_get J obj name of None \<Rightarrow> Inl Std_exception | Some v \<Rightarrow> conv v)"

definition extract_object :: "('j, 'f) json \<Rightarrow> 'j \<Rightarrow> 'j res" where
  "extract_object J v = (if js_is_object J v then Inr v else Inl Std_exception)"

definition to_port :: "('j, 'f) json \<Rightarrow> 'j \<Rightarrow> 16 word res" where
  "to_port J v = (case js_to_int J v of Inl e \<Rightarrow> Inl e
     | Inr n \<Rightarrow> if 0 \<le> n \<and> n < 65536 then Inr (word_of_int n) else Inl Std_exception)"

text \<open>\<open>DESERIALIZE_ARRAY\<close> of \<open>int\<close>s, which adds to the vector of a new object.\<close>

fun to_ints :: "('j, 'f) json \<Rightarrow> 'j list \<Rightarrow> int list res" where
  "to_ints J [] = Inr []"
| "to_ints J (x # xs) = (case js_to_int J x of Inl e \<Rightarrow> Inl e | Inr n \<Rightarrow> map_sum id ((#) n) (to_ints J xs))"

definition to_int_array :: "('j, 'f) json \<Rightarrow> 'j \<Rightarrow> int list res" where
  "to_int_array J v = (case js_to_list J v of Inl e \<Rightarrow> Inl e | Inr xs \<Rightarrow> to_ints J xs)"

definition int_array :: "('j, 'f) json \<Rightarrow> int list \<Rightarrow> 'j" where
  "int_array J ns = js_array J (map (js_int J) ns)"

text \<open>\<open>SERIALIZE_MAP_CUSTOMER\<close> and \<open>DESERIALIZE_MAP_CUSTOMER\<close>, and their variants for pointers.\<close>

definition serialize_map :: "('j, 'f) json \<Rightarrow> ('v \<Rightarrow> 'j) \<Rightarrow> (int, 'v) omap \<Rightarrow> 'j" where
  "serialize_map J serialize m = js_array J (map (\<lambda>(k, v). serialize v) m)"

fun deserialize_map :: "('j \<Rightarrow> ((int, 'v) omap, int \<times> 'v) exec) \<Rightarrow> 'j list \<Rightarrow> ((int, 'v) omap, unit) exec" where
  "deserialize_map item [] = ret ()"
| "deserialize_map item (x # xs) =
     bindE (item x) (\<lambda>(k, v). bindE (modify (om_insert k v)) (\<lambda>_. deserialize_map item xs))"

section \<open>Users\<close>

definition serialize_user :: "('j, 'f) json \<Rightarrow> user \<Rightarrow> 'j" where
  "serialize_user J u = js_object J [(''user_id'', js_int J (u_user_id u)),
     (''user_name'', js_string J (u_user_name u)), (''password'', js_string J (u_password u))]"

text \<open>
  \<open>User() = default\<close> leaves \<open>conn_id\<close> and \<open>last_hearbeat\<close> unset: \<open>junk\<close> is what they hold, by
  the id of the user.
\<close>

definition deserialize_user :: "('j, 'f) json \<Rightarrow> (int \<Rightarrow> int \<times> int) \<Rightarrow> 'j \<Rightarrow> ('s, int \<times> user) exec" where
  "deserialize_user J junk item =
     bindE (getsE (\<lambda>_. extract_object J item)) (\<lambda>obj.
     bindE (get_value J (js_to_int J) obj ''user_id'') (\<lambda>user_id.
     bindE (get_value J (js_to_string J) obj ''user_name'') (\<lambda>user_name.
     bindE (get_value J (js_to_string J) obj ''password'') (\<lambda>password.
     ret (user_id, \<lparr>u_user_id = user_id, u_user_name = user_name, u_password = password, u_group_list = [],
       u_conn_id = fst (junk user_id), u_last_hearbeat = snd (junk user_id)\<rparr>)))))"

definition serialize_users :: "('j, 'f) json \<Rightarrow> user_manager \<Rightarrow> 'j" where
  "serialize_users J um = js_object J [(''m_next_id'', js_int J (um_next_id um)),
     (''m_user_list'', serialize_map J (serialize_user J) (m_user_list um))]"

definition deserialize_users :: "('j, 'f) json \<Rightarrow> (int \<Rightarrow> int \<times> int) \<Rightarrow> 'j \<Rightarrow> (user_manager, unit) exec" where
  "deserialize_users J junk obj =
     bindE (get_value J (js_to_int J) obj ''m_next_id'') (\<lambda>n.
     bindE (modify (\<lambda>um. um\<lparr>um_next_id := n\<rparr>)) (\<lambda>_.
     bindE (get_value J (js_to_list J) obj ''m_user_list'') (\<lambda>items.
     zoom m_user_list (\<lambda>m um. um\<lparr>m_user_list := m\<rparr>) (deserialize_map (deserialize_user J junk) items))))"

section \<open>Groups\<close>

definition serialize_group :: "('j, 'f) json \<Rightarrow> sharing_group \<Rightarrow> 'j" where
  "serialize_group J g = js_object J [(''m_group_id'', js_int J (m_group_id g)),
     (''m_group_name'', js_string J (m_group_name g)), (''m_owner_id'', js_int J (m_owner_id g)),
     (''m_root_dir_id'', js_int J (m_root_dir_id g)), (''m_node_id'', js_int J (m_node_id g)),
     (''m_manager_list'', int_array J (m_manager_list g)), (''m_member_list'', int_array J (m_member_list g))]"

definition deserialize_group :: "('j, 'f) json \<Rightarrow> 'j \<Rightarrow> ('s, int \<times> sharing_group) exec" where
  "deserialize_group J item =
     bindE (getsE (\<lambda>_. extract_object J item)) (\<lambda>obj.
     bindE (get_value J (js_to_int J) obj ''m_group_id'') (\<lambda>group_id.
     bindE (get_value J (js_to_string J) obj ''m_group_name'') (\<lambda>group_name.
     bindE (get_value J (js_to_int J) obj ''m_owner_id'') (\<lambda>owner_id.
     bindE (get_value J (js_to_int J) obj ''m_root_dir_id'') (\<lambda>root_dir_id.
     bindE (get_value J (js_to_int J) obj ''m_node_id'') (\<lambda>node_id.
     bindE (get_value J (to_int_array J) obj ''m_manager_list'') (\<lambda>manager_list.
     bindE (get_value J (to_int_array J) obj ''m_member_list'') (\<lambda>member_list.
     ret (group_id, \<lparr>m_group_id = group_id, m_group_name = group_name, m_owner_id = owner_id,
       m_root_dir_id = root_dir_id, m_node_id = node_id, m_manager_list = manager_list,
       m_member_list = member_list\<rparr>)))))))))"

definition serialize_groups :: "('j, 'f) json \<Rightarrow> group_manager \<Rightarrow> 'j" where
  "serialize_groups J gm = js_object J [(''m_next_id'', js_int J (gm_next_id gm)),
     (''m_group_list'', serialize_map J (serialize_group J) (m_group_list gm))]"

definition deserialize_groups :: "('j, 'f) json \<Rightarrow> 'j \<Rightarrow> (group_manager, unit) exec" where
  "deserialize_groups J obj =
     bindE (get_value J (js_to_int J) obj ''m_next_id'') (\<lambda>n.
     bindE (modify (\<lambda>gm. gm\<lparr>gm_next_id := n\<rparr>)) (\<lambda>_.
     bindE (get_value J (js_to_list J) obj ''m_group_list'') (\<lambda>items.
     zoom m_group_list (\<lambda>m gm. gm\<lparr>m_group_list := m\<rparr>) (deserialize_map (deserialize_group J) items))))"

section \<open>Files\<close>

fun file_type_int :: "file_type \<Rightarrow> int" where
  "file_type_int DIRECTORY = 0" | "file_type_int GENERAL_FILE = 1" | "file_type_int STORAGE_FILE = 2"

definition serialize_base :: "('j, 'f) json \<Rightarrow> sharing_file \<Rightarrow> 'j" where
  "serialize_base J f = js_object J [(''file_id'', js_int J (sf_file_id f)),
     (''file_type'', js_int J (file_type_int (sf_file_type f))), (''file_name'', js_string J (sf_file_name f))]"

definition serialize_file :: "('j, 'f) json \<Rightarrow> sharing_file \<Rightarrow> 'j" where
  "serialize_file J f = (case sf_body f of
     Sharing_general_file storage_file_id \<Rightarrow>
       js_object J [(''SharingFile'', serialize_base J f), (''storage_file_id'', js_int J storage_file_id)]
   | Sharing_storage_file node_id use_counting \<Rightarrow>
       js_object J [(''SharingFile'', serialize_base J f), (''node_id'', js_int J node_id),
         (''use_counting'', js_int J use_counting)]
   | Sharing_directory file_list \<Rightarrow>
       js_object J [(''SharingFile'', serialize_base J f), (''file_list'', int_array J file_list)])"

text \<open>\<open>get\<close>: the class of the new object; any other number is a null pointer.\<close>

definition file_class :: "int \<Rightarrow> file_type res" where
  "file_class n = (if n = 0 then Inr DIRECTORY else if n = 1 then Inr GENERAL_FILE
     else if n = 2 then Inr STORAGE_FILE else Inl Undefined)"

fun deserialize_body :: "('j, 'f) json \<Rightarrow> file_type \<Rightarrow> 'j \<Rightarrow> ('s, file_body) exec" where
  "deserialize_body J GENERAL_FILE obj =
     bindE (get_value J (js_to_int J) obj ''storage_file_id'') (\<lambda>k. ret (Sharing_general_file k))"
| "deserialize_body J STORAGE_FILE obj =
     bindE (get_value J (js_to_int J) obj ''node_id'') (\<lambda>node_id.
     bindE (get_value J (js_to_int J) obj ''use_counting'') (\<lambda>use_counting.
     ret (Sharing_storage_file node_id use_counting)))"
| "deserialize_body J DIRECTORY obj =
     bindE (get_value J (to_int_array J) obj ''file_list'') (\<lambda>ids. ret (Sharing_directory ids))"

definition deserialize_file :: "('j, 'f) json \<Rightarrow> 'j \<Rightarrow> ('s, int \<times> sharing_file) exec" where
  "deserialize_file J item =
     bindE (getsE (\<lambda>_. extract_object J item)) (\<lambda>obj.
     bindE (get_value J (extract_object J) obj ''SharingFile'') (\<lambda>base.
     bindE (get_value J (js_to_int J) base ''file_type'') (\<lambda>in_type.
     bindE (getsE (\<lambda>_. file_class in_type)) (\<lambda>file_type.
     bindE (get_value J (js_to_int J) base ''file_id'') (\<lambda>file_id.
     bindE (get_value J (js_to_string J) base ''file_name'') (\<lambda>file_name.
     bindE (deserialize_body J file_type obj) (\<lambda>body.
     ret (file_id, \<lparr>sf_file_id = file_id, sf_file_type = file_type, sf_file_name = file_name, sf_body = body\<rparr>))))))))"

definition serialize_files :: "('j, 'f) json \<Rightarrow> file_manager \<Rightarrow> 'j" where
  "serialize_files J fm = js_object J [(''m_next_id'', js_int J (fm_next_id fm)),
     (''m_file_list'', serialize_map J (serialize_file J) (m_file_list fm))]"

definition deserialize_files :: "('j, 'f) json \<Rightarrow> 'j \<Rightarrow> (file_manager, unit) exec" where
  "deserialize_files J obj =
     bindE (get_value J (js_to_int J) obj ''m_next_id'') (\<lambda>n.
     bindE (modify (\<lambda>fm. fm\<lparr>fm_next_id := n\<rparr>)) (\<lambda>_.
     bindE (get_value J (js_to_list J) obj ''m_file_list'') (\<lambda>items.
     zoom m_file_list (\<lambda>m fm. fm\<lparr>m_file_list := m\<rparr>) (deserialize_map (deserialize_file J) items))))"

section \<open>Storage nodes\<close>

text \<open>\<open>node_id\<close> is written and read twice.\<close>

definition serialize_node :: "('j, 'f) json \<Rightarrow> storage_node \<Rightarrow> 'j" where
  "serialize_node J n = js_object J [(''node_id'', js_int J (n_node_id n)), (''ip'', js_string J (n_ip n)),
     (''port'', js_int J (uint (n_port n))), (''node_id'', js_int J (n_node_id n)),
     (''use_counting'', js_int J (n_use_counting n))]"

definition deserialize_node :: "('j, 'f) json \<Rightarrow> 'j \<Rightarrow> ('s, int \<times> storage_node) exec" where
  "deserialize_node J item =
     bindE (getsE (\<lambda>_. extract_object J item)) (\<lambda>obj.
     bindE (get_value J (js_to_int J) obj ''node_id'') (\<lambda>_.
     bindE (get_value J (js_to_string J) obj ''ip'') (\<lambda>ip.
     bindE (get_value J (to_port J) obj ''port'') (\<lambda>port.
     bindE (get_value J (js_to_int J) obj ''node_id'') (\<lambda>node_id.
     bindE (get_value J (js_to_int J) obj ''use_counting'') (\<lambda>use_counting.
     ret (node_id, \<lparr>n_node_id = node_id, n_ip = ip, n_port = port, n_service_id = 0,
       n_use_counting = use_counting\<rparr>)))))))"

definition serialize_nodes :: "('j, 'f) json \<Rightarrow> node_manager \<Rightarrow> 'j" where
  "serialize_nodes J nm = js_object J [(''m_next_id'', js_int J (nm_next_id nm)),
     (''m_node_list'', serialize_map J (serialize_node J) (m_node_list nm))]"

text \<open>The loop after the macros, which delegates the registration of a service for each node.\<close>

definition node_calls :: "node_manager \<Rightarrow> node_call list" where
  "node_calls nm = map (\<lambda>(k, n). Register_service_again (n_ip n) (n_port n) k) (m_node_list nm)"

definition deserialize_nodes :: "('j, 'f) json \<Rightarrow> 'j \<Rightarrow> (node_manager, node_call list) exec" where
  "deserialize_nodes J obj =
     bindE (get_value J (js_to_int J) obj ''m_next_id'') (\<lambda>n.
     bindE (modify (\<lambda>nm. nm\<lparr>nm_next_id := n\<rparr>)) (\<lambda>_.
     bindE (get_value J (js_to_list J) obj ''m_node_list'') (\<lambda>items.
     bindE (zoom m_node_list (\<lambda>m nm. nm\<lparr>m_node_list := m\<rparr>) (deserialize_map (deserialize_node J) items)) (\<lambda>_.
     gets node_calls))))"

section \<open>SerializationManager\<close>

text \<open>The registered pairs of functions, by the manager they belong to; and the state of a start.\<close>

datatype serial_op = Users_op | Groups_op | Files_op | Nodes_op

record restoring =
  re_core :: core
  re_calls :: "node_call list"

definition register_serialization :: "string \<Rightarrow> serial_op \<Rightarrow> (string, serial_op) omap \<Rightarrow> (string, serial_op) omap" where
  "register_serialization name op m = om_insert name op m"

definition remove_serialization :: "string \<Rightarrow> (string, serial_op) omap \<Rightarrow> (string, serial_op) omap" where
  "remove_serialization name m = om_erase name m"

definition rs_serializations :: "(string, serial_op) omap" where
  "rs_serializations = register_serialization ''StorageNodeManager'' Nodes_op
     (register_serialization ''SharingFileManager'' Files_op
     (register_serialization ''SharingGroupManager'' Groups_op
     (register_serialization ''UserManager'' Users_op [])))"

fun serialize_op :: "('j, 'f) json \<Rightarrow> core \<Rightarrow> serial_op \<Rightarrow> 'j" where
  "serialize_op J c Users_op = serialize_users J (c_users c)"
| "serialize_op J c Groups_op = serialize_groups J (c_groups c)"
| "serialize_op J c Files_op = serialize_files J (c_files c)"
| "serialize_op J c Nodes_op = serialize_nodes J (c_nodes c)"

abbreviation on_core where "on_core \<equiv> zoom re_core (\<lambda>x r. r\<lparr>re_core := x\<rparr>)"

fun deserialize_op :: "('j, 'f) json \<Rightarrow> (int \<Rightarrow> int \<times> int) \<Rightarrow> serial_op \<Rightarrow> 'j \<Rightarrow> (restoring, unit) exec" where
  "deserialize_op J junk Users_op obj = on_core (on_users (deserialize_users J junk obj))"
| "deserialize_op J junk Groups_op obj = on_core (on_groups (deserialize_groups J obj))"
| "deserialize_op J junk Files_op obj = on_core (on_files (deserialize_files J obj))"
| "deserialize_op J junk Nodes_op obj =
     bindE (on_core (on_nodes (deserialize_nodes J obj))) (\<lambda>calls.
     modify (\<lambda>r. r\<lparr>re_calls := re_calls r @ calls\<rparr>))"

definition stored_value :: "('j, 'f) json \<Rightarrow> (string, serial_op) omap \<Rightarrow> core \<Rightarrow> 'j" where
  "stored_value J ops c = js_object J (map (\<lambda>(name, op). (name, serialize_op J c op)) ops)"

text \<open>\<open>good\<close>: whether the data file can be opened for writing.\<close>

definition serialize_all :: "('j, 'f) json \<Rightarrow> (string, serial_op) omap \<Rightarrow> bool \<Rightarrow> core \<Rightarrow> 'f option \<Rightarrow> 'f option" where
  "serialize_all J ops good c file = (if good then Some (js_stringify J (stored_value J ops c)) else file)"

fun deserialize_each :: "('j, 'f) json \<Rightarrow> (int \<Rightarrow> int \<times> int) \<Rightarrow> 'j \<Rightarrow> (string, serial_op) omap \<Rightarrow> (restoring, unit) exec" where
  "deserialize_each J junk obj [] = ret ()"
| "deserialize_each J junk obj ((name, op) # ops) =
     bindE (case js_get J obj name of
         None \<Rightarrow> ret ()
       | Some data \<Rightarrow> bindE (getsE (\<lambda>_. extract_object J data)) (deserialize_op J junk op)) (\<lambda>_.
     deserialize_each J junk obj ops)"

definition deserialize_all ::
  "('j, 'f) json \<Rightarrow> (int \<Rightarrow> int \<times> int) \<Rightarrow> (string, serial_op) omap \<Rightarrow> 'f option \<Rightarrow> (restoring, unit) exec" where
  "deserialize_all J junk ops file =
     bindE (getsE (\<lambda>_. js_parse J file)) (\<lambda>result. case result of
       None \<Rightarrow> ret ()
     | Some v \<Rightarrow> bindE (getsE (\<lambda>_. extract_object J v)) (\<lambda>obj. deserialize_each J junk obj ops))"

section \<open>What comes back\<close>

lemma bindE_get_value:
  "js_get J obj name = Some v \<Longrightarrow> conv v = Inr a \<Longrightarrow> bindE (get_value J conv obj name) f s = f a s"
  by (simp add: get_value_def bindE_getsE)

lemma to_ints_ok: "json_ok J \<Longrightarrow> to_int_array J (int_array J ns) = Inr ns"
proof -
  assume J: "json_ok J"
  then have "to_ints J (map (js_int J) ns) = Inr ns" by (induction ns) (simp_all add: json_ok_def)
  with J show ?thesis by (simp add: to_int_array_def int_array_def json_ok_def)
qed

lemma to_port_ok: "json_ok J \<Longrightarrow> to_port J (js_int J (uint (p :: 16 word))) = Inr p"
  using uint_lt2p [of p] by (simp add: to_port_def json_ok_def)

lemma map_of_rev2: "map_of (rev xs @ [(k, v)]) n = (case map_of (rev xs) n of None \<Rightarrow> if n = k then Some v else None | Some w \<Rightarrow> Some w)"
  by (simp add: map_add_def split: option.split)

lemma json_simps:
  assumes "json_ok J"
  shows "js_to_int J (js_int J n) = Inr n" "js_to_string J (js_string J s) = Inr s" "js_to_list J (js_array J xs) = Inr xs"
    and "js_get J (js_object J ms) name = map_of (rev ms) name"
    and "extract_object J (js_object J ms) = Inr (js_object J ms)"
    and "to_int_array J (int_array J ns) = Inr ns" "to_port J (js_int J (uint p)) = Inr p"
  using assms to_ints_ok [OF assms] to_port_ok [OF assms] by (simp_all add: json_ok_def extract_object_def)

lemma deserialize_map_run:
  assumes "om_ok m" and "\<And>k v t. (k, v) \<in> set m \<Longrightarrow> item (serialize v) t = (Inr (k, f v), t)"
    and "\<forall>a \<in> fst ` set acc. \<forall>b \<in> fst ` set m. a < b"
  shows "deserialize_map item (map (\<lambda>(k, v). serialize v) m) acc = (Inr (), acc @ map (\<lambda>(k, v). (k, f v)) m)"
  using assms
proof (induction m arbitrary: acc)
  case (Cons e m)
  obtain k v where e: "e = (k, v)" by fastforce
  have ins: "om_insert k (f v) acc = acc @ [(k, f v)]"
    using Cons.prems(3) by (intro om_insert_greatest) (auto simp: e)
  have "\<forall>b \<in> fst ` set m. k < b" using Cons.prems(1) by (auto simp: om_ok_def e)
  then have "deserialize_map item (map (\<lambda>(k, v). serialize v) m) (acc @ [(k, f v)]) =
      (Inr (), (acc @ [(k, f v)]) @ map (\<lambda>(k, v). (k, f v)) m)"
    using Cons.prems by (intro Cons.IH) (auto simp: om_ok_def)
  moreover have "item (serialize v) acc = (Inr (k, f v), acc)" using Cons.prems(2) by (simp add: e)
  ultimately show ?case by (simp add: e bindE_def ins)
qed simp

definition forget_user :: "(int \<Rightarrow> int \<times> int) \<Rightarrow> user \<Rightarrow> user" where
  "forget_user junk u = u\<lparr>u_group_list := [], u_conn_id := fst (junk (u_user_id u)),
     u_last_hearbeat := snd (junk (u_user_id u))\<rparr>"

definition forget_service :: "storage_node \<Rightarrow> storage_node" where
  "forget_service n = n\<lparr>n_service_id := 0\<rparr>"

definition restarted :: "(int \<Rightarrow> int \<times> int) \<Rightarrow> core \<Rightarrow> core" where
  "restarted junk c =
     \<lparr>c_users = \<lparr>m_user_list = map (\<lambda>(k, u). (k, forget_user junk u)) (m_user_list (c_users c)),
        m_root_user_list = {}, m_login_user_list = [], um_next_id = um_next_id (c_users c)\<rparr>,
      c_groups = c_groups c, c_files = c_files c,
      c_nodes = (c_nodes c)\<lparr>m_node_list := map (\<lambda>(k, n). (k, forget_service n)) (m_node_list (c_nodes c))\<rparr>,
      c_sessions = empty_session_manager\<rparr>"

definition empty_core :: core where
  "empty_core = \<lparr>c_users = empty_user_manager, c_groups = empty_group_manager, c_files = empty_file_manager,
     c_nodes = empty_node_manager, c_sessions = empty_session_manager\<rparr>"

lemma user_back:
  assumes J: "json_ok J"
  shows "deserialize_user J junk (serialize_user J u) s = (Inr (u_user_id u, forget_user junk u), s)"
  by (simp add: deserialize_user_def serialize_user_def get_value_def bindE_getsE json_simps [OF J] forget_user_def)

lemma group_back:
  assumes J: "json_ok J"
  shows "deserialize_group J (serialize_group J g) s = (Inr (m_group_id g, g), s)"
  by (simp add: deserialize_group_def serialize_group_def get_value_def bindE_getsE json_simps [OF J])

lemma node_back:
  assumes J: "json_ok J"
  shows "deserialize_node J (serialize_node J n) s = (Inr (n_node_id n, forget_service n), s)"
  by (simp add: deserialize_node_def serialize_node_def get_value_def bindE_getsE json_simps [OF J] forget_service_def)

lemma file_back:
  assumes J: "json_ok J" and "body_type (sf_body f) = sf_file_type f"
  shows "deserialize_file J (serialize_file J f) s = (Inr (sf_file_id f, f), s)"
  using assms(2)
  by (cases "sf_body f"; cases "sf_file_type f")
    (simp_all add: deserialize_file_def serialize_file_def serialize_base_def file_class_def get_value_def bindE_getsE
      json_simps [OF J] bindE_def)

lemma users_back:
  assumes J: "json_ok J" and um: "um_inv um"
  shows "deserialize_users J junk (serialize_users J um) empty_user_manager =
    (Inr (), \<lparr>m_user_list = map (\<lambda>(k, u). (k, forget_user junk u)) (m_user_list um), m_root_user_list = {},
       m_login_user_list = [], um_next_id = um_next_id um\<rparr>)"
proof -
  have "deserialize_map (deserialize_user J junk) (map (\<lambda>(k, u). serialize_user J u) (m_user_list um)) [] =
      (Inr (), [] @ map (\<lambda>(k, u). (k, forget_user junk u)) (m_user_list um))"
    using um by (intro deserialize_map_run) (auto simp: um_inv_def user_back [OF J])
  then show ?thesis
    by (simp add: deserialize_users_def serialize_users_def get_value_def bindE_getsE json_simps [OF J] serialize_map_def
        empty_user_manager_def zoom_def)
qed

lemma groups_back:
  assumes J: "json_ok J" and gm: "gm_inv gm"
  shows "deserialize_groups J (serialize_groups J gm) empty_group_manager = (Inr (), gm)"
proof -
  have "deserialize_map (deserialize_group J) (map (\<lambda>(k, g). serialize_group J g) (m_group_list gm)) [] =
      (Inr (), [] @ map (\<lambda>(k, g). (k, g)) (m_group_list gm))"
    using gm by (intro deserialize_map_run) (auto simp: gm_inv_def group_back [OF J])
  then show ?thesis
    by (simp add: deserialize_groups_def serialize_groups_def get_value_def bindE_getsE json_simps [OF J] serialize_map_def
        empty_group_manager_def zoom_def case_prod_eta)
qed

lemma files_back:
  assumes J: "json_ok J" and fm: "fm_inv fm"
  shows "deserialize_files J (serialize_files J fm) empty_file_manager = (Inr (), fm)"
proof -
  have "body_type (sf_body f) = sf_file_type f \<and> sf_file_id f = k" if "(k, f) \<in> set (m_file_list fm)" for k f
    using fm that by (force simp: fm_inv_def file_ok_def)
  then have "deserialize_map (deserialize_file J) (map (\<lambda>(k, f). serialize_file J f) (m_file_list fm)) [] =
      (Inr (), [] @ map (\<lambda>(k, f). (k, f)) (m_file_list fm))"
    using fm by (intro deserialize_map_run) (auto simp: file_back [OF J])
  then show ?thesis
    by (simp add: deserialize_files_def serialize_files_def get_value_def bindE_getsE json_simps [OF J] serialize_map_def
        empty_file_manager_def zoom_def case_prod_eta)
qed

lemma nodes_back:
  assumes J: "json_ok J" and nm: "nm_inv nm"
  shows "deserialize_nodes J (serialize_nodes J nm) empty_node_manager =
    (Inr (node_calls nm), nm\<lparr>m_node_list := map (\<lambda>(k, n). (k, forget_service n)) (m_node_list nm)\<rparr>)"
proof -
  have "deserialize_map (deserialize_node J) (map (\<lambda>(k, n). serialize_node J n) (m_node_list nm)) [] =
      (Inr (), [] @ map (\<lambda>(k, n). (k, forget_service n)) (m_node_list nm))"
    using nm by (intro deserialize_map_run) (auto simp: nm_inv_def node_back [OF J])
  then show ?thesis
    by (simp add: deserialize_nodes_def serialize_nodes_def get_value_def bindE_getsE json_simps [OF J] serialize_map_def
        empty_node_manager_def zoom_def bindE_def node_calls_def forget_service_def comp_def case_prod_unfold)
qed

lemma rs_serializations_eq:
  "rs_serializations = [(''SharingFileManager'', Files_op), (''SharingGroupManager'', Groups_op),
     (''StorageNodeManager'', Nodes_op), (''UserManager'', Users_op)]"
  by (simp add: rs_serializations_def register_serialization_def less_char_def)

lemma restarted_ok:
  assumes c: "core_ok c"
  shows "core_ok (restarted junk c)"
proof -
  let ?users = "c_users (restarted junk c)" and ?nodes = "c_nodes (restarted junk c)"
  have "um_inv ?users"
    using core_ok_parts(1) [OF c]
    by (auto simp: um_inv_def restarted_def ids_below_def om_ok_def forget_user_def comp_def case_prod_unfold image_image)
  moreover have "nm_inv ?nodes"
    using core_ok_parts(4) [OF c]
    by (auto simp: nm_inv_def restarted_def ids_below_def om_ok_def forget_service_def comp_def case_prod_unfold image_image)
  moreover have "find_node ?nodes k = map_option forget_service (find_node (c_nodes c) k)" for k
    by (simp add: find_node_def restarted_def map_of_map)
  then have "load_ok (restarted junk c)"
    using c by (auto simp: core_ok_def load_ok_def) (simp add: restarted_def forget_service_def)
  ultimately show ?thesis
    using c fsm_inv_empty by (simp add: core_ok_def core_inv_def groups_placed_def) (simp add: restarted_def)
qed

section \<open>Properties\<close>

text \<open>
  C40. What survives a restart. Stored to the data file and read back into fresh managers, the
  groups, the files and the nodes come back as they were - without the nodes' services, whose
  registration is delegated for each node - and the users with their names and passwords. The
  logins and the file sessions are gone, and so is the set of root users: after a restart
  nobody is a root user. The managers' invariants hold again.
\<close>

theorem restart_roundtrip:
  assumes J: "json_ok J" and c: "core_ok c"
    and parse: "js_parse J (Some (js_stringify J (stored_value J rs_serializations c))) =
      Inr (Some (stored_value J rs_serializations c))"
  shows "deserialize_all J junk rs_serializations (serialize_all J rs_serializations True c file)
      \<lparr>re_core = empty_core, re_calls = []\<rparr> =
    (Inr (), \<lparr>re_core = restarted junk c, re_calls = node_calls (c_nodes c)\<rparr>) \<and>
    core_ok (restarted junk c) \<and> (\<forall>u. \<not> is_root_user (c_users (restarted junk c)) u)"
proof -
  note returns = users_back [OF J core_ok_parts(1) [OF c]] groups_back [OF J core_ok_parts(2) [OF c]]
    files_back [OF J core_ok_parts(3) [OF c]] nodes_back [OF J core_ok_parts(4) [OF c]]
  have obj: "extract_object J (serialize_op J c op) = Inr (serialize_op J c op)" for op
    by (cases op) (simp_all add: serialize_users_def serialize_groups_def serialize_files_def serialize_nodes_def json_simps [OF J])
  define V where "V = stored_value J rs_serializations c"
  have members: "js_get J V ''SharingFileManager'' = Some (serialize_files J (c_files c))"
      "js_get J V ''SharingGroupManager'' = Some (serialize_groups J (c_groups c))"
      "js_get J V ''StorageNodeManager'' = Some (serialize_nodes J (c_nodes c))"
      "js_get J V ''UserManager'' = Some (serialize_users J (c_users c))"
    by (simp_all add: V_def stored_value_def json_simps [OF J] rs_serializations_eq)
  have "extract_object J V = Inr V" by (simp add: V_def stored_value_def json_simps [OF J])
  then have "deserialize_all J junk rs_serializations (serialize_all J rs_serializations True c file)
      \<lparr>re_core = empty_core, re_calls = []\<rparr> =
    deserialize_each J junk V rs_serializations \<lparr>re_core = empty_core, re_calls = []\<rparr>"
    using parse by (simp add: deserialize_all_def serialize_all_def bindE_getsE V_def)
  also have "\<dots> = (Inr (), \<lparr>re_core = restarted junk c, re_calls = node_calls (c_nodes c)\<rparr>)"
    using obj [of Files_op] obj [of Groups_op] obj [of Nodes_op] obj [of Users_op]
    by (simp add: members rs_serializations_eq bindE_getsE bindE_def zoom_def empty_core_def returns restarted_def)
  finally show ?thesis using restarted_ok [OF c] by (simp add: restarted_def is_root_user_def)
qed

text \<open>Values as a datatype, whose text is the value itself.\<close>

datatype json_value = Num int | Str string | Arr "json_value list" | Obj "(string \<times> json_value) list"

definition value_json :: "(json_value, json_value) json" where
  "value_json = \<lparr>js_int = Num, js_string = Str, js_array = Arr, js_object = Obj,
     js_is_object = (\<lambda>v. case v of Obj _ \<Rightarrow> True | _ \<Rightarrow> False),
     js_get = (\<lambda>v name. case v of Obj ms \<Rightarrow> map_of (rev ms) name | _ \<Rightarrow> None),
     js_to_int = (\<lambda>v. case v of Num n \<Rightarrow> Inr n | _ \<Rightarrow> Inl Std_exception),
     js_to_string = (\<lambda>v. case v of Str s \<Rightarrow> Inr s | _ \<Rightarrow> Inl Std_exception),
     js_to_list = (\<lambda>v. case v of Arr xs \<Rightarrow> Inr xs | _ \<Rightarrow> Inl Std_exception),
     js_stringify = id, js_parse = (\<lambda>f. case f of None \<Rightarrow> Inl Std_exception | Some v \<Rightarrow> Inr (Some v))\<rparr>"

lemma value_json_ok: "json_ok value_json"
  by (simp add: json_ok_def value_json_def)

theorem restart_roundtrip_witness:
  "c_groups (re_core (snd (deserialize_all value_json (\<lambda>_. (0, 0)) rs_serializations
     (serialize_all value_json rs_serializations True example_core None) \<lparr>re_core = empty_core, re_calls = []\<rparr>))) =
   c_groups example_core \<and> is_root_user (c_users example_core) 1 \<and>
   \<not> is_root_user (c_users (restarted (\<lambda>_. (0, 0)) example_core)) 1"
proof -
  have "groups_placed example_core"
    by (simp add: groups_placed_def example_core_def example_group_def new_group_def)
  then have c: "core_ok example_core" using example_core_ok by (simp add: core_ok_def)
  have "js_parse value_json (Some (js_stringify value_json v)) = Inr (Some v)" for v by (simp add: value_json_def)
  from restart_roundtrip [OF value_json_ok c this, of "\<lambda>_. (0, 0)" None]
  have "deserialize_all value_json (\<lambda>_. (0, 0)) rs_serializations
      (serialize_all value_json rs_serializations True example_core None) \<lparr>re_core = empty_core, re_calls = []\<rparr> =
      (Inr (), \<lparr>re_core = restarted (\<lambda>_. (0, 0)) example_core, re_calls = node_calls (c_nodes example_core)\<rparr>)"
    "\<not> is_root_user (c_users (restarted (\<lambda>_. (0, 0)) example_core)) 1"
    by blast+
  moreover have "is_root_user (c_users example_core) 1"
    by (simp add: is_root_user_def example_core_def example_users_def)
  ultimately show ?thesis by (simp add: restarted_def)
qed

end
