(* ===== verification/Block_Cipher.thy ===== *)
theory Block_Cipher
  imports Protocol
begin

text \<open>
  The wrappers of \<open>crypto/aes.{h,cpp}\<close> and \<open>crypto/des.{h,cpp}\<close> around the block ciphers of
  Crypto++: how a text is cut into blocks, padded, written into the space that the caller
  gives, and shrunk again. The permutation of one block under a key is Crypto++'s, so the
  functions take it as an argument: \<open>enc\<close> and \<open>dec\<close> are \<open>ProcessBlock\<close> of an encryptor or a
  decryptor whose key is set.
\<close>

section \<open>Keys\<close>

text \<open>\<open>AesKey::reset\<close> with the value \<open>old\<close> that the key had, and \<open>DesKey\<close>, whose value is not trimmed.\<close>

definition aes_key_reset :: "bytes \<Rightarrow> bytes \<Rightarrow> nat \<Rightarrow> bytes" where
  "aes_key_reset old val bits =
     (let m_value = take bits (old @ replicate bits 0); len = min (length m_value) (length val)
      in take len val @ drop len m_value)"

definition des_key :: "bytes \<Rightarrow> bytes" where
  "des_key val = val @ drop (length val) (replicate 8 0)"

section \<open>Blocks\<close>

text \<open>\<open>f\<close> on the first \<open>n\<close> blocks of \<open>b\<close> bytes.\<close>

fun crypt_blocks :: "nat \<Rightarrow> (bytes \<Rightarrow> bytes) \<Rightarrow> nat \<Rightarrow> bytes \<Rightarrow> bytes" where
  "crypt_blocks b f 0 bs = bs"
| "crypt_blocks b f (Suc n) bs = f (take b bs) @ crypt_blocks b f n (drop b bs)"

text \<open>A loop over \<open>n\<close> blocks from one array into another; an array that is too short is left.\<close>

definition crypt_loop :: "nat \<Rightarrow> (bytes \<Rightarrow> bytes) \<Rightarrow> nat \<Rightarrow> bytes \<Rightarrow> bytes \<Rightarrow> bytes res" where
  "crypt_loop b f n src dst = (if n * b \<le> length src \<and> n * b \<le> length dst
     then Inr (take (n * b) (crypt_blocks b f n src) @ drop (n * b) dst) else Inl Undefined)"

definition pad_length :: "nat \<Rightarrow> nat \<Rightarrow> nat" where
  "pad_length b n = (let over = n mod b in if over = 0 then 0 else b - over)"

text \<open>\<open>block.fill('\0')\<close> and the copy of the last bytes.\<close>

definition last_block :: "nat \<Rightarrow> bytes \<Rightarrow> bytes" where
  "last_block b plain = (let over = length plain mod b in drop (length plain - over) plain @ replicate (b - over) 0)"

section \<open>AES\<close>

text \<open>On success the result is what \<open>cipher\<close> holds after the call.\<close>

definition aes_encrypt :: "(bytes \<Rightarrow> bytes) \<Rightarrow> bytes \<Rightarrow> bytes \<Rightarrow> bytes res" where
  "aes_encrypt enc plain cipher =
     (let over = length plain mod 16 in
      if length cipher < length plain + pad_length 16 (length plain)
      then Inl (Thrown (Foundation ERR_CRYPTO_CIPHER_SPACE_NOT_ENOUGH))
      else case crypt_loop 16 enc ((length cipher - over) div 16) plain cipher of
          Inl e \<Rightarrow> Inl e
        | Inr c \<Rightarrow> Inr (if over \<noteq> 0 then take (length cipher - 16) c @ enc (last_block 16 plain) else c))"

definition aes_decrypt :: "(bytes \<Rightarrow> bytes) \<Rightarrow> bytes \<Rightarrow> bytes \<Rightarrow> bytes res" where
  "aes_decrypt dec cipher plain =
     (if length plain < length cipher then Inl (Thrown (Foundation ERR_CRYPTO_PLAIN_SPACE_NOT_ENOUGH))
      else crypt_loop 16 dec (length plain div 16) cipher plain)"

definition aes_encrypt_string :: "(bytes \<Rightarrow> bytes) \<Rightarrow> bytes \<Rightarrow> bytes res" where
  "aes_encrypt_string enc plain =
     aes_encrypt enc plain (replicate (length plain + pad_length 16 (length plain)) 0)"

text \<open>
  The loop that counts the zeros at the end, from \<open>unuse_len = k\<close>: for a string shorter than the
  count, \<open>plain[plain.length() - k]\<close> is outside it. The length after shrinking, \<open>plain.length() -
  unuse_len + 1\<close>, is right even where the difference wraps.
\<close>

function unuse_len :: "nat \<Rightarrow> nat \<Rightarrow> bytes \<Rightarrow> nat res" where
  "unuse_len b k plain =
     (if k > b then Inr k else if k > length plain then Inl Undefined
      else if plain ! (length plain - k) \<noteq> 0 then Inr k else unuse_len b (k + 1) plain)"
  by pat_completeness auto

termination by (relation "measure (\<lambda>(b, k, plain). b + 1 - k)") auto

declare unuse_len.simps [simp del]

definition shrink_string :: "nat \<Rightarrow> bytes \<Rightarrow> bytes res" where
  "shrink_string b plain = (case unuse_len b 1 plain of
     Inl e \<Rightarrow> Inl e | Inr k \<Rightarrow> Inr (take (length plain + 1 - k) plain))"

definition aes_decrypt_string :: "(bytes \<Rightarrow> bytes) \<Rightarrow> bool \<Rightarrow> bytes \<Rightarrow> bytes res" where
  "aes_decrypt_string dec shrink cipher = (case aes_decrypt dec cipher (replicate (length cipher) 0) of
     Inl e \<Rightarrow> Inl e | Inr plain \<Rightarrow> if shrink then shrink_string 16 plain else Inr plain)"

section \<open>Streams\<close>

text \<open>
  \<open>read\<close> takes up to a block; the stream turns bad when it gets less. A loop of \<open>encrypt\<close>
  returns what it writes. Blocks are not empty.
\<close>

function encrypt_loop :: "nat \<Rightarrow> (bytes \<Rightarrow> bytes) \<Rightarrow> bytes \<Rightarrow> bytes" where
  "encrypt_loop b enc inp =
     (let plain = take b inp;
          out = (if plain = [] then [] else enc (plain @ replicate (b - length plain) 0))
      in out @ (if length plain = b \<and> 0 < b then encrypt_loop b enc (drop b inp) else []))"
  by pat_completeness auto

termination by (relation "measure (\<lambda>(b, enc, inp). length inp)") auto

declare encrypt_loop.simps [simp del]

text \<open>\<open>real_len\<close> of the last block, from the length \<open>n\<close>.\<close>

fun real_len :: "nat \<Rightarrow> bytes \<Rightarrow> nat" where
  "real_len 0 plain = 0"
| "real_len (Suc n) plain = (if plain ! n \<noteq> 0 then Suc n else real_len n plain)"

text \<open>
  The loop of \<open>decrypt\<close> with the block that it decrypted last, if there is one; the last block
  is written only when the next read has failed. What was written before a throw stays.
\<close>

function decrypt_loop :: "nat \<Rightarrow> (bytes \<Rightarrow> bytes) \<Rightarrow> bool \<Rightarrow> bytes option \<Rightarrow> bytes \<Rightarrow> unit res \<times> bytes" where
  "decrypt_loop b dec shrink previous inp =
     (let cipher = take b inp; good = (length cipher = b \<and> 0 < b);
          out = (case previous of None \<Rightarrow> []
            | Some plain \<Rightarrow> if good then plain else take (if shrink then real_len b plain else b) plain)
      in if good then case decrypt_loop b dec shrink (Some (dec cipher)) (drop b inp) of (r, rest) \<Rightarrow> (r, out @ rest)
         else if cipher \<noteq> [] then (Inl (Thrown (Foundation ERR_CRYPTO_INCOMPLETE_DATA)), out)
         else (Inr (), out))"
  by pat_completeness auto

termination by (relation "measure (\<lambda>(b, dec, shrink, previous, inp). length inp)") auto

declare decrypt_loop.simps [simp del]

definition aes_encrypt_stream :: "(bytes \<Rightarrow> bytes) \<Rightarrow> bytes \<Rightarrow> bytes" where
  "aes_encrypt_stream enc inp = encrypt_loop 16 enc inp"

definition aes_decrypt_stream :: "(bytes \<Rightarrow> bytes) \<Rightarrow> bool \<Rightarrow> bytes \<Rightarrow> unit res \<times> bytes" where
  "aes_decrypt_stream dec shrink inp = decrypt_loop 16 dec shrink None inp"

section \<open>Files\<close>

text \<open>
  The streams of the files: a missing input fails; an output that can be opened is emptied,
  before either stream is looked at.
\<close>

definition open_out :: "(string \<Rightarrow> bool) \<Rightarrow> string \<Rightarrow> (string \<rightharpoonup> bytes) \<Rightarrow> (string \<rightharpoonup> bytes)" where
  "open_out openable name disk = (if openable name then disk(name \<mapsto> []) else disk)"

definition open_in_out :: "(string \<Rightarrow> bool) \<Rightarrow> string \<Rightarrow> string \<Rightarrow> (string \<rightharpoonup> bytes, bytes) exec" where
  "open_in_out openable in_filename out_filename = (\<lambda>disk.
     let disk' = open_out openable out_filename disk
     in if disk in_filename = None then (Inl (Thrown (Foundation ERR_CRYPTO_CANNOT_OPEN_FILE)), disk')
        else if \<not> openable out_filename then (Inl (Thrown (Foundation ERR_CRYPTO_CANNOT_OPEN_FILE)), disk')
        else (Inr (the (disk' in_filename)), disk'))"

definition aes_encrypt_file ::
  "(bytes \<Rightarrow> bytes) \<Rightarrow> (string \<Rightarrow> bool) \<Rightarrow> string \<Rightarrow> string \<Rightarrow> (string \<rightharpoonup> bytes, unit) exec" where
  "aes_encrypt_file enc openable in_filename out_filename =
     bindE (open_in_out openable in_filename out_filename) (\<lambda>inp.
     modify (\<lambda>disk. disk(out_filename \<mapsto> aes_encrypt_stream enc inp)))"

text \<open>\<open>shrink\<close> is false by default.\<close>

definition aes_decrypt_file ::
  "(bytes \<Rightarrow> bytes) \<Rightarrow> (string \<Rightarrow> bool) \<Rightarrow> string \<Rightarrow> string \<Rightarrow> (string \<rightharpoonup> bytes, unit) exec" where
  "aes_decrypt_file dec openable in_filename out_filename =
     bindE (open_in_out openable in_filename out_filename) (\<lambda>inp.
     bindE (throw_if (length inp mod 16 \<noteq> 0) (Foundation ERR_CRYPTO_INCOMPLETE_DATA)) (\<lambda>_.
     (\<lambda>disk. case aes_decrypt_stream dec False inp of (r, out) \<Rightarrow> (r, disk(out_filename \<mapsto> out)))))"

section \<open>DES\<close>

definition des_encrypt :: "(bytes \<Rightarrow> bytes) \<Rightarrow> bytes \<Rightarrow> bytes res" where
  "des_encrypt enc plain =
     (let over = length plain mod 8; cipher = replicate (length plain + pad_length 8 (length plain)) 0
      in case crypt_loop 8 enc ((length cipher - over) div 8) plain cipher of
          Inl e \<Rightarrow> Inl e
        | Inr c \<Rightarrow> Inr (if over \<noteq> 0 then take (length cipher - 8) c @ enc (last_block 8 plain) else c))"

definition des_decrypt :: "(bytes \<Rightarrow> bytes) \<Rightarrow> bool \<Rightarrow> bytes \<Rightarrow> bytes res" where
  "des_decrypt dec shrink cipher =
     (case crypt_loop 8 dec (length cipher div 8) cipher (replicate (length cipher) 0) of
        Inl e \<Rightarrow> Inl e | Inr plain \<Rightarrow> if shrink then shrink_string 8 plain else Inr plain)"

definition des_encrypt_stream :: "(bytes \<Rightarrow> bytes) \<Rightarrow> bytes \<Rightarrow> bytes" where
  "des_encrypt_stream enc inp = encrypt_loop 8 enc inp"

text \<open>It always shrinks.\<close>

definition des_decrypt_stream :: "(bytes \<Rightarrow> bytes) \<Rightarrow> bytes \<Rightarrow> unit res \<times> bytes" where
  "des_decrypt_stream dec inp = decrypt_loop 8 dec True None inp"

definition des_encrypt_file ::
  "(bytes \<Rightarrow> bytes) \<Rightarrow> (string \<Rightarrow> bool) \<Rightarrow> string \<Rightarrow> string \<Rightarrow> (string \<rightharpoonup> bytes, unit) exec" where
  "des_encrypt_file enc openable in_filename out_filename =
     bindE (open_in_out openable in_filename out_filename) (\<lambda>inp.
     modify (\<lambda>disk. disk(out_filename \<mapsto> des_encrypt_stream enc inp)))"

definition des_decrypt_file ::
  "(bytes \<Rightarrow> bytes) \<Rightarrow> (string \<Rightarrow> bool) \<Rightarrow> string \<Rightarrow> string \<Rightarrow> (string \<rightharpoonup> bytes, unit) exec" where
  "des_decrypt_file dec openable in_filename out_filename =
     bindE (open_in_out openable in_filename out_filename) (\<lambda>inp.
     bindE (throw_if (length inp mod 8 \<noteq> 0) (Foundation ERR_CRYPTO_INCOMPLETE_DATA)) (\<lambda>_.
     (\<lambda>disk. case des_decrypt_stream dec inp of (r, out) \<Rightarrow> (r, disk(out_filename \<mapsto> out)))))"

section \<open>What comes back\<close>

text \<open>\<open>cipher_ok\<close>: decrypting a block undoes its encryption, and both keep the length of a block.\<close>

definition cipher_ok :: "nat \<Rightarrow> (bytes \<Rightarrow> bytes) \<Rightarrow> (bytes \<Rightarrow> bytes) \<Rightarrow> bool" where
  "cipher_ok b enc dec \<longleftrightarrow> 0 < b \<and>
     (\<forall>bs. length bs = b \<longrightarrow> length (enc bs) = b \<and> length (dec bs) = b \<and> dec (enc bs) = bs)"

definition padded :: "nat \<Rightarrow> bytes \<Rightarrow> bytes" where
  "padded b bs = bs @ replicate (pad_length b (length bs)) 0"

lemma length_crypt_blocks:
  assumes "\<And>bs. length bs = b \<Longrightarrow> length (f bs) = b" and "n * b \<le> length bs"
  shows "length (crypt_blocks b f n bs) = length bs"
  using assms(2) by (induction n arbitrary: bs) (simp_all add: assms(1))

lemma crypt_blocks_append:
  "n * b \<le> length xs \<Longrightarrow> crypt_blocks b f n (xs @ ys) = crypt_blocks b f n xs @ ys"
  by (induction n arbitrary: xs) simp_all

lemma crypt_blocks_add:
  assumes "\<And>bs. length bs = b \<Longrightarrow> length (f bs) = b" and "n * b \<le> length bs"
  shows "crypt_blocks b f (n + m) bs = take (n * b) (crypt_blocks b f n bs) @ crypt_blocks b f m (drop (n * b) bs)"
  using assms(2)
proof (induction n arbitrary: bs)
  case (Suc n)
  then have "length (f (take b bs)) = b" by (simp add: assms(1))
  with Suc show ?case by (simp add: add.commute)
qed simp

lemma crypt_blocks_inverse:
  assumes "cipher_ok b enc dec" and "n * b \<le> length bs"
  shows "crypt_blocks b dec n (crypt_blocks b enc n bs) = bs"
  using assms(2)
proof (induction n arbitrary: bs)
  case (Suc n)
  then have "length (enc (take b bs)) = b" "dec (enc (take b bs)) = take b bs"
    using assms(1) by (simp_all add: cipher_ok_def)
  with Suc show ?case by simp
qed simp

lemma pad_length_dvd:
  assumes "0 < b"
  shows "b dvd n + pad_length b n"
proof (cases "n mod b = 0")
  case True
  then show ?thesis by (simp add: pad_length_def mod_eq_0_iff_dvd)
next
  case False
  have "n mod b < b" and "n = n div b * b + n mod b" using assms by simp_all
  then have "n + (b - n mod b) = n div b * b + b" by linarith
  with False show ?thesis by (simp add: pad_length_def)
qed

lemma length_padded: "0 < b \<Longrightarrow> b dvd length (padded b bs)"
  by (simp add: padded_def pad_length_dvd)

lemma padded_length: "length plain + pad_length b (length plain) = length (padded b plain)"
  by (simp add: padded_def)

lemma padded_step:
  assumes "b \<le> length bs"
  shows "padded b bs = take b bs @ padded b (drop b bs)"
proof -
  have "length bs mod b = (length bs - b) mod b" using assms by (simp add: le_mod_geq)
  then have "pad_length b (length bs) = pad_length b (length (drop b bs))" by (simp add: pad_length_def)
  then show ?thesis by (simp add: padded_def)
qed

text \<open>The loop over a stream encrypts the blocks of the padded text.\<close>

lemma encrypt_loop_blocks:
  "0 < b \<Longrightarrow> encrypt_loop b enc bs = crypt_blocks b enc (length (padded b bs) div b) (padded b bs)"
proof (induction b enc bs rule: encrypt_loop.induct)
  case (1 b enc bs)
  show ?case
  proof (cases "length bs < b")
    case short: True
    show ?thesis
    proof (cases "bs = []")
      case True
      with 1(2) show ?thesis by (subst encrypt_loop.simps) (simp add: padded_def pad_length_def)
    next
      case False
      with short have "padded b bs = bs @ replicate (b - length bs) 0" by (simp add: padded_def pad_length_def Let_def)
      moreover from this short False have "length (padded b bs) div b = Suc 0" by simp
      ultimately show ?thesis using short False by (subst encrypt_loop.simps) simp
    qed
  next
    case False
    then have b: "length (take b bs) = b" "take b bs \<noteq> []" using 1(2) by auto
    have IH: "encrypt_loop b enc (drop b bs) = crypt_blocks b enc (length (padded b (drop b bs)) div b) (padded b (drop b bs))"
      using 1(1) [OF refl refl] b(1) 1(2) by blast
    have p: "padded b bs = take b bs @ padded b (drop b bs)" using False by (intro padded_step) simp
    then have "length (padded b bs) div b = Suc (length (padded b (drop b bs)) div b)" using b(1) 1(2) by (simp add: div_add_self1)
    with p IH b 1(2) show ?thesis by (subst encrypt_loop.simps) simp
  qed
qed

text \<open>So does the loop over a string with its last block apart.\<close>

lemma crypt_string_blocks:
  assumes ok: "cipher_ok b enc dec" and n: "n = (length (padded b plain) - length plain mod b) div b"
  obtains c where "crypt_loop b enc n plain (replicate (length (padded b plain)) 0) = Inr c"
    and "(if length plain mod b \<noteq> 0 then take (length (padded b plain) - b) c @ enc (last_block b plain) else c) =
           crypt_blocks b enc (length (padded b plain) div b) (padded b plain)"
proof -
  have b: "0 < b" and keep: "\<And>bs. length bs = b \<Longrightarrow> length (enc bs) = b" using ok by (simp_all add: cipher_ok_def)
  define q r where "q = length plain div b" and "r = length plain mod b"
  have len: "length plain = q * b + r" and r: "r < b" using b by (simp_all add: q_def r_def)
  have total: "length (padded b plain) = (if r = 0 then q * b else q * b + b)"
    using r by (simp add: padded_def pad_length_def Let_def flip: r_def) (simp add: len)
  have "n = q"
  proof (cases "r = 0")
    case False
    have "length (padded b plain) - r = (b - r) + q * b" using False r by (simp add: total)
    then have "n = ((b - r) + q * b) div b" by (simp only: n r_def)
    also have "\<dots> = q + (b - r) div b" using b by (intro div_mult_self1) simp
    finally show ?thesis using False r by simp
  qed (simp add: n total b flip: r_def)
  let ?c = "take (q * b) (crypt_blocks b enc q plain) @ drop (q * b) (replicate (length (padded b plain)) 0)"
  have run: "crypt_loop b enc n plain (replicate (length (padded b plain)) 0) = Inr ?c"
    by (simp add: crypt_loop_def \<open>n = q\<close> len total)
  have kept: "length (crypt_blocks b enc q plain) = length plain" by (rule length_crypt_blocks [OF keep]) (simp_all add: len)
  have "(if r \<noteq> 0 then take (length (padded b plain) - b) ?c @ enc (last_block b plain) else ?c) =
    crypt_blocks b enc (length (padded b plain) div b) (padded b plain)"
  proof (cases "r = 0")
    case True
    then show ?thesis using b total kept len by (simp add: padded_def pad_length_def flip: r_def)
  next
    case nz: False
    then have blocks: "length (padded b plain) div b = q + Suc 0" using b by (simp add: total)
    have "drop (q * b) (padded b plain) = last_block b plain"
      using nz by (simp add: padded_def last_block_def pad_length_def Let_def flip: r_def) (simp add: len)
    moreover have "length (last_block b plain) = b" using r by (simp add: last_block_def Let_def flip: r_def) (simp add: len)
    moreover have "take (q * b) (crypt_blocks b enc q (padded b plain)) = take (q * b) (crypt_blocks b enc q plain)"
      using kept len by (simp add: padded_def crypt_blocks_append)
    ultimately show ?thesis
      unfolding blocks using nz kept len total by (subst crypt_blocks_add [OF keep]) simp_all
  qed
  with run that show ?thesis unfolding r_def by blast
qed

text \<open>Strings and streams, encrypted.\<close>

lemma encrypted_string:
  assumes "cipher_ok 16 enc dec"
  shows "aes_encrypt_string enc plain = Inr (encrypt_loop 16 enc plain)"
proof -
  obtain c where "crypt_loop 16 enc ((length (padded 16 plain) - length plain mod 16) div 16) plain
      (replicate (length (padded 16 plain)) 0) = Inr c"
    and "(if length plain mod 16 \<noteq> 0 then take (length (padded 16 plain) - 16) c @ enc (last_block 16 plain) else c) =
           crypt_blocks 16 enc (length (padded 16 plain) div 16) (padded 16 plain)"
    by (rule crypt_string_blocks [where plain = plain, OF assms refl])
  then show ?thesis
    by (simp add: aes_encrypt_string_def aes_encrypt_def Let_def encrypt_loop_blocks padded_length split: if_splits)
qed

lemma encrypted_string_des:
  assumes "cipher_ok 8 enc dec"
  shows "des_encrypt enc plain = Inr (encrypt_loop 8 enc plain)"
proof -
  obtain c where "crypt_loop 8 enc ((length (padded 8 plain) - length plain mod 8) div 8) plain
      (replicate (length (padded 8 plain)) 0) = Inr c"
    and "(if length plain mod 8 \<noteq> 0 then take (length (padded 8 plain) - 8) c @ enc (last_block 8 plain) else c) =
           crypt_blocks 8 enc (length (padded 8 plain) div 8) (padded 8 plain)"
    by (rule crypt_string_blocks [where plain = plain, OF assms refl])
  then show ?thesis
    by (simp add: des_encrypt_def Let_def encrypt_loop_blocks padded_length split: if_splits)
qed

text \<open>The zeros at the end of the last block, counted from the front and from the back.\<close>

lemma unuse_len_real_len:
  assumes "b \<le> length plain" and "k \<le> b + 1" and "0 < k"
  shows "unuse_len b k plain = Inr (b + 1 - real_len (b + 1 - k) (drop (length plain - b) plain))"
  using assms
proof (induction "b + 1 - k" arbitrary: k)
  case 0
  then show ?case by (subst unuse_len.simps) simp
next
  case (Suc m)
  then have m: "b + 1 - k = Suc (b - k)" "k \<le> b" by simp_all
  have nth: "drop (length plain - b) plain ! (b - k) = plain ! (length plain - k)" using Suc.prems m by simp
  show ?case
  proof (cases "plain ! (length plain - k) = 0")
    case True
    have "unuse_len b (k + 1) plain = Inr (b + 1 - real_len (b + 1 - (k + 1)) (drop (length plain - b) plain))"
      by (rule Suc.hyps(1)) (use Suc.hyps(2) Suc.prems m in simp_all)
    with True m nth Suc.prems show ?thesis by (subst unuse_len.simps) simp
  next
    case False
    with m nth Suc.prems show ?thesis by (subst unuse_len.simps) simp
  qed
qed

lemma real_len_le: "real_len n plain \<le> n"
  by (induction n) auto

definition without_zeros :: "nat \<Rightarrow> bytes \<Rightarrow> bytes" where
  "without_zeros b plain = take (length plain - b + real_len b (drop (length plain - b) plain)) plain"

lemma shrink_string_run:
  assumes "b \<le> length plain" and "0 < b"
  shows "shrink_string b plain = Inr (without_zeros b plain)"
proof -
  let ?r = "real_len b (drop (length plain - b) plain)"
  have "?r \<le> b" by (rule real_len_le)
  then have "length plain + 1 - (b + 1 - ?r) = length plain - b + ?r" using assms by linarith
  then show ?thesis using unuse_len_real_len [of b plain 1] assms
    by (simp add: shrink_string_def without_zeros_def)
qed

lemma without_zeros_append:
  assumes "b \<le> length bs"
  shows "without_zeros b (as @ bs) = as @ without_zeros b bs"
proof -
  have "length as + length bs - b = length as + (length bs - b)" using assms by simp
  then show ?thesis by (simp add: without_zeros_def add.assoc)
qed

text \<open>The loop over a stream of whole blocks writes what it decrypts, but for the zeros at the end.\<close>

lemma decrypt_loop_blocks:
  "cipher_ok b enc dec \<Longrightarrow> b dvd length inp \<Longrightarrow> (\<forall>p. previous = Some p \<longrightarrow> length p = b) \<Longrightarrow>
    decrypt_loop b dec shrink previous inp = (Inr (),
      let whole = (case previous of None \<Rightarrow> [] | Some p \<Rightarrow> p) @ crypt_blocks b dec (length inp div b) inp
      in if shrink \<and> whole \<noteq> [] then without_zeros b whole else whole)"
proof (induction b dec shrink previous inp rule: decrypt_loop.induct)
  case (1 b dec shrink previous inp)
  have b: "0 < b" and keep: "\<And>bs. length bs = b \<Longrightarrow> length (dec bs) = b"
    using 1(2) by (simp_all add: cipher_ok_def)
  show ?case
  proof (cases "inp = []")
    case True
    with b 1(4) show ?thesis
      by (subst decrypt_loop.simps) (auto simp: without_zeros_def Let_def split: option.splits)
  next
    case False
    from 1(3) obtain m where m: "length inp = b * m" by (rule dvdE)
    with False obtain k where "m = Suc k" by (cases m) auto
    with m b have len: "length (take b inp) = b" "length inp div b = Suc (length (drop b inp) div b)" "b dvd length (drop b inp)"
      by simp_all
    let ?d = "dec (take b inp)"
    let ?w = "?d @ crypt_blocks b dec (length (drop b inp) div b) (drop b inp)"
    have d: "length ?d = b" by (rule keep) (rule len(1))
    then have dne: "?d \<noteq> []" using b by auto
    have IH: "decrypt_loop b dec shrink (Some ?d) (drop b inp) = (Inr (), if shrink \<and> ?w \<noteq> [] then without_zeros b ?w else ?w)"
      using 1(1) [OF refl refl refl _ 1(2) len(3)] d dne len(1) b by (simp add: Let_def)
    have w: "b \<le> length ?w" "?w \<noteq> []" using d b by auto
    show ?thesis
      using IH len d b w by (subst decrypt_loop.simps) (simp add: Let_def without_zeros_append split: option.split)
  qed
qed

lemma aes_decrypt_blocks:
  assumes "16 dvd length cipher"
  shows "aes_decrypt dec cipher (replicate (length cipher) 0) = Inr (take (length cipher) (crypt_blocks 16 dec (length cipher div 16) cipher))"
  using assms by (simp add: aes_decrypt_def crypt_loop_def)

lemma length_encrypt_loop:
  assumes "cipher_ok b enc dec"
  shows "length (encrypt_loop b enc plain) = length (padded b plain)"
proof -
  have b: "0 < b" and keep: "\<And>bs. length bs = b \<Longrightarrow> length (enc bs) = b" using assms by (simp_all add: cipher_ok_def)
  from b show ?thesis by (simp add: encrypt_loop_blocks length_crypt_blocks [OF keep])
qed

lemma decrypted:
  assumes "cipher_ok b enc dec"
  shows "crypt_blocks b dec (length (padded b plain) div b) (encrypt_loop b enc plain) = padded b plain"
proof -
  have b: "0 < b" using assms by (simp add: cipher_ok_def)
  then show ?thesis by (simp add: encrypt_loop_blocks crypt_blocks_inverse [OF assms])
qed

lemma padded_Nil [simp]: "padded b [] = []"
  by (simp add: padded_def pad_length_def)

lemma padded_Nil_iff [simp]: "padded b plain = [] \<longleftrightarrow> plain = []"
  by (auto simp: padded_def pad_length_def)

text \<open>A stream of the encrypted text, decrypted.\<close>

lemma decrypted_stream:
  assumes ok: "cipher_ok b enc dec"
  shows "decrypt_loop b dec shrink None (encrypt_loop b enc plain) =
    (Inr (), if shrink \<and> plain \<noteq> [] then without_zeros b (padded b plain) else padded b plain)"
proof -
  have "0 < b" using ok by (simp add: cipher_ok_def)
  then have "b dvd length (encrypt_loop b enc plain)" by (simp add: length_encrypt_loop [OF ok] length_padded)
  from decrypt_loop_blocks [OF ok this, of None shrink] show ?thesis
    by (simp add: length_encrypt_loop [OF ok] decrypted [OF ok] Let_def)
qed

lemma real_len_spec:
  "(\<forall>i < n. real_len n plain \<le> i \<longrightarrow> plain ! i = 0) \<and> (0 < real_len n plain \<longrightarrow> plain ! (real_len n plain - 1) \<noteq> 0)"
  by (induction n) (auto simp: less_Suc_eq)

text \<open>Shrinking gives the text back exactly if its last byte is not zero.\<close>

lemma without_zeros_padded:
  assumes b: "0 < b" and plain: "plain \<noteq> []"
  shows "without_zeros b (padded b plain) = plain \<longleftrightarrow> last plain \<noteq> 0"
proof -
  define r where "r = real_len b (drop (length (padded b plain) - b) (padded b plain))"
  define k where "k = length (padded b plain) - b"
  have pad: "pad_length b (length plain) < b" using b by (simp add: pad_length_def Let_def)
  have "b \<le> length (padded b plain)" using length_padded [OF b, of plain] plain by (intro dvd_imp_le) simp_all
  then have kb: "length plain + pad_length b (length plain) = k + b" by (simp add: k_def padded_def)
  then have kl: "k < length plain" using pad by simp
  have nth: "drop k (padded b plain) ! i = (if k + i < length plain then plain ! (k + i) else 0)" if "i < b" for i
    using that kb kl by (simp add: padded_def nth_append) (metis add_diff_inverse_nat nat_add_left_cancel_less not_less_iff_gr_or_eq)
  have r: "r \<le> b" "\<And>i. i < b \<Longrightarrow> r \<le> i \<Longrightarrow> drop k (padded b plain) ! i = 0"
    "0 < r \<Longrightarrow> drop k (padded b plain) ! (r - 1) \<noteq> 0"
    unfolding r_def k_def using real_len_spec real_len_le by blast+
  have le: "k + r \<le> length plain"
  proof (rule ccontr)
    assume "\<not> k + r \<le> length plain"
    then have "0 < r" "r - 1 < b" "\<not> k + (r - 1) < length plain" using kl r(1) by auto
    then show False using r(3) nth [of "r - 1"] by simp
  qed
  have last: "last plain = plain ! (length plain - 1)" using plain by (rule last_conv_nth)
  have "k + r = length plain \<longleftrightarrow> last plain \<noteq> 0"
  proof
    assume e: "k + r = length plain"
    with kl have "0 < r" "k + (r - 1) = length plain - 1" "r - 1 < b" using r(1) by auto
    then show "last plain \<noteq> 0" using r(3) nth [of "r - 1"] plain last by simp
  next
    assume nz: "last plain \<noteq> 0"
    show "k + r = length plain"
    proof (rule ccontr)
      assume "k + r \<noteq> length plain"
      with le kl have "r \<le> length plain - 1 - k" "length plain - 1 - k < b" "k + (length plain - 1 - k) = length plain - 1"
        using kb by auto
      then show False using r(2) [of "length plain - 1 - k"] nth [of "length plain - 1 - k"] plain last nz by simp
    qed
  qed
  moreover have "without_zeros b (padded b plain) = take (k + r) (padded b plain)"
    by (simp only: without_zeros_def k_def r_def)
  then have "without_zeros b (padded b plain) = take (k + r) plain" using le by (simp add: padded_def)
  ultimately show ?thesis using le by auto
qed

lemma decrypt_loop_incomplete:
  "cipher_ok b enc dec \<Longrightarrow> \<not> b dvd length inp \<Longrightarrow>
    fst (decrypt_loop b dec shrink previous inp) = Inl (Thrown (Foundation ERR_CRYPTO_INCOMPLETE_DATA))"
proof (induction b dec shrink previous inp rule: decrypt_loop.induct)
  case (1 b dec shrink previous inp)
  then have b: "0 < b" and ne: "take b inp \<noteq> []" by (auto simp: cipher_ok_def)
  show ?case
  proof (cases "length (take b inp) = b")
    case True
    then have le: "b \<le> length inp" by simp
    with 1(3) have "\<not> b dvd length (drop b inp)" by (simp add: dvd_minus_self)
    then have "fst (decrypt_loop b dec shrink (Some (dec (take b inp))) (drop b inp)) =
      Inl (Thrown (Foundation ERR_CRYPTO_INCOMPLETE_DATA))"
      using 1(1) [OF refl refl refl _ 1(2)] True b by simp
    with True b show ?thesis by (subst decrypt_loop.simps) (auto simp: Let_def split: prod.split)
  next
    case False
    with ne show ?thesis by (subst decrypt_loop.simps) (auto simp: Let_def)
  qed
qed

lemma aes_decrypt_string_blocks:
  assumes ok: "cipher_ok 16 enc dec" and c: "16 dvd length c" "c \<noteq> []"
  shows "aes_decrypt_string dec shrink c = Inr (snd (aes_decrypt_stream dec shrink c)) \<and>
    fst (aes_decrypt_stream dec shrink c) = Inr ()"
proof -
  have keep: "\<And>bs. length bs = 16 \<Longrightarrow> length (dec bs) = 16" using ok by (simp add: cipher_ok_def)
  let ?p = "crypt_blocks 16 dec (length c div 16) c"
  have len: "length ?p = length c" by (rule length_crypt_blocks [OF keep]) simp_all
  with c(2) have ne: "?p \<noteq> []" by auto
  have "16 \<le> length ?p" using c by (simp add: len dvd_imp_le)
  then have "aes_decrypt_string dec shrink c = Inr (if shrink then without_zeros 16 ?p else ?p)"
    using len by (simp add: aes_decrypt_string_def aes_decrypt_blocks [OF c(1)] shrink_string_run)
  with ne decrypt_loop_blocks [OF ok c(1), of None shrink] show ?thesis
    by (simp add: aes_decrypt_stream_def Let_def)
qed

text \<open>The same for DES.\<close>

lemma des_decrypt_blocks:
  assumes ok: "cipher_ok 8 enc dec" and c: "8 dvd length c" "c \<noteq> []"
  shows "des_decrypt dec shrink c = Inr (snd (decrypt_loop 8 dec shrink None c)) \<and>
    fst (decrypt_loop 8 dec shrink None c) = Inr ()"
proof -
  have keep: "\<And>bs. length bs = 8 \<Longrightarrow> length (dec bs) = 8" using ok by (simp add: cipher_ok_def)
  let ?p = "crypt_blocks 8 dec (length c div 8) c"
  have len: "length ?p = length c" by (rule length_crypt_blocks [OF keep]) simp_all
  with c(2) have ne: "?p \<noteq> []" by auto
  have "8 \<le> length ?p" using c by (simp add: len dvd_imp_le)
  then have "des_decrypt dec shrink c = Inr (if shrink then without_zeros 8 ?p else ?p)"
    using len c(1) by (simp add: des_decrypt_def crypt_loop_def shrink_string_run)
  with ne decrypt_loop_blocks [OF ok c(1), of None shrink] show ?thesis
    by (simp add: Let_def)
qed

text \<open>
  Strings and streams agree. For every permutation of blocks the functions on strings and on
  streams encrypt a text to the same bytes, with AES and with DES; and they decrypt a cipher
  text of whole blocks to the same bytes, unless it is empty and is to be shrunk. A cipher text
  with a broken last block is an error for the streams only.
\<close>

theorem stream_equals_string:
  assumes aes: "cipher_ok 16 enc dec" and des: "cipher_ok 8 enc8 dec8"
  shows "aes_encrypt_string enc plain = Inr (aes_encrypt_stream enc plain) \<and>
    des_encrypt enc8 plain = Inr (des_encrypt_stream enc8 plain) \<and>
    (16 dvd length c \<and> c \<noteq> [] \<longrightarrow>
       aes_decrypt_stream dec shrink c = (Inr (), projr (aes_decrypt_string dec shrink c)) \<and>
       isl (aes_decrypt_string dec shrink c) = False) \<and>
    (8 dvd length c \<and> c \<noteq> [] \<longrightarrow>
       des_decrypt_stream dec8 c = (Inr (), projr (des_decrypt dec8 True c)) \<and> isl (des_decrypt dec8 True c) = False) \<and>
    (\<not> 16 dvd length c \<longrightarrow>
       fst (aes_decrypt_stream dec shrink c) = Inl (Thrown (Foundation ERR_CRYPTO_INCOMPLETE_DATA)) \<and>
       isl (aes_decrypt_string dec False c) = False)"
proof -
  have "isl (aes_decrypt_string dec False c) = False"
    by (simp add: aes_decrypt_string_def aes_decrypt_def crypt_loop_def)
  with encrypted_string [OF aes] encrypted_string_des [OF des] aes_decrypt_string_blocks [OF aes]
    des_decrypt_blocks [OF des] decrypt_loop_incomplete [OF aes]
  show ?thesis
    by (simp add: aes_encrypt_stream_def des_encrypt_stream_def des_decrypt_stream_def aes_decrypt_stream_def prod_eq_iff)
qed

lemma cipher_ok_map: "0 < b \<Longrightarrow> cipher_ok b (map (\<lambda>x. x + k)) (map (\<lambda>x. x - (k :: byte)))"
  by (simp add: cipher_ok_def o_def)

theorem stream_equals_string_witness:
  "aes_encrypt_string (map (\<lambda>x. x + 1)) [5, 6] = Inr (aes_encrypt_stream (map (\<lambda>x. x + 1)) [5, 6]) \<and>
   fst (aes_decrypt_stream (map (\<lambda>x. x - 1)) True [7 :: byte]) = Inl (Thrown (Foundation ERR_CRYPTO_INCOMPLETE_DATA))"
  using stream_equals_string [OF cipher_ok_map [of 16 1] cipher_ok_map [of 8 1], where plain = "[5, 6]" and c = "[7]" and shrink = True]
  by simp

text \<open>
  What an encrypted text comes back as. Decrypted without shrinking it has the zeros of the
  padding at its end. With shrinking it is the text exactly if the text does not end with a
  zero; for the empty text the functions on strings look in front of the string.
\<close>

theorem encrypted_text_roundtrip:
  assumes aes: "cipher_ok 16 enc dec" and des: "cipher_ok 8 enc8 dec8"
  shows "\<exists>c d. aes_encrypt_string enc plain = Inr c \<and> des_encrypt enc8 plain = Inr d \<and>
    aes_decrypt_string dec False c = Inr (padded 16 plain) \<and> des_decrypt dec8 False d = Inr (padded 8 plain) \<and>
    (if plain = [] then aes_decrypt_string dec True c = Inl Undefined \<and> des_decrypt dec8 True d = Inl Undefined
     else (aes_decrypt_string dec True c = Inr plain \<longleftrightarrow> last plain \<noteq> 0) \<and>
       (des_decrypt dec8 True d = Inr plain \<longleftrightarrow> last plain \<noteq> 0))"
proof (cases "plain = []")
  case True
  then show ?thesis
    by (simp add: encrypted_string [OF aes] encrypted_string_des [OF des] encrypt_loop_blocks padded_def pad_length_def
        aes_decrypt_string_def aes_decrypt_def crypt_loop_def des_decrypt_def shrink_string_def unuse_len.simps)
next
  case False
  let ?c = "encrypt_loop 16 enc plain" and ?d = "encrypt_loop 8 enc8 plain"
  have len: "length ?c = length (padded 16 plain)" "length ?d = length (padded 8 plain)"
    by (rule length_encrypt_loop [OF aes], rule length_encrypt_loop [OF des])
  have "?c \<noteq> []" "?d \<noteq> []" using len False by (metis length_0_conv padded_Nil_iff)+
  with len have c: "16 dvd length ?c" "?c \<noteq> []" and d: "8 dvd length ?d" "?d \<noteq> []" by (simp_all add: length_padded)
  have "aes_decrypt_string dec shrink ?c = Inr (if shrink then without_zeros 16 (padded 16 plain) else padded 16 plain)" for shrink
    using aes_decrypt_string_blocks [OF aes c, of shrink] decrypted_stream [OF aes, of shrink plain] False
    by (simp add: aes_decrypt_stream_def)
  moreover have "des_decrypt dec8 shrink ?d = Inr (if shrink then without_zeros 8 (padded 8 plain) else padded 8 plain)" for shrink
    using des_decrypt_blocks [OF des d, of shrink] decrypted_stream [OF des, of shrink plain] False by simp
  ultimately show ?thesis
    using False by (simp add: encrypted_string [OF aes] encrypted_string_des [OF des] without_zeros_padded)
qed

theorem encrypted_text_roundtrip_witness:
  "\<exists>c. aes_encrypt_string (map (\<lambda>x. x + 1)) [5, 0] = Inr c \<and> aes_decrypt_string (map (\<lambda>x. x - 1)) True c \<noteq> Inr [5, 0]"
  using encrypted_text_roundtrip [OF cipher_ok_map [of 16 1] cipher_ok_map [of 8 1], where plain = "[5, 0]"] by auto

text \<open>
  C24. Encrypting and decrypting files. Through a second and a third file the content comes back
  with AES's padding of zeros, and exactly with DES if it does not end with a zero. Encrypting a
  file onto itself empties it, since the output is opened before the input is read.
\<close>

theorem encrypted_file_roundtrip:
  assumes aes: "cipher_ok 16 enc dec" and des: "cipher_ok 8 enc8 dec8"
    and disk: "disk a = Some plain" "a \<noteq> b" "b \<noteq> c" and openable: "openable a" "openable b" "openable c"
  shows "(case aes_encrypt_file enc openable a b disk of (r, disk1) \<Rightarrow> r = Inr () \<and>
      (case aes_decrypt_file dec openable b c disk1 of (r, disk2) \<Rightarrow> r = Inr () \<and> disk2 c = Some (padded 16 plain))) \<and>
    (case des_encrypt_file enc8 openable a b disk of (r, disk1) \<Rightarrow> r = Inr () \<and>
      (case des_decrypt_file dec8 openable b c disk1 of (r, disk2) \<Rightarrow> r = Inr () \<and>
         (disk2 c = Some plain \<longleftrightarrow> plain = [] \<or> last plain \<noteq> 0))) \<and>
    aes_encrypt_file enc openable a a disk = (Inr (), disk(a \<mapsto> []))"
proof -
  have blocks: "length (encrypt_loop 16 enc plain) mod 16 = 0" "length (encrypt_loop 8 enc8 plain) mod 8 = 0"
    by (simp_all add: length_encrypt_loop [OF aes] length_encrypt_loop [OF des] length_padded mod_eq_0_iff_dvd)
  have empty: "encrypt_loop 16 enc [] = []" by (simp add: encrypt_loop.simps)
  show ?thesis
    using disk openable blocks
    by (auto simp: aes_encrypt_file_def aes_decrypt_file_def des_encrypt_file_def des_decrypt_file_def open_in_out_def
        open_out_def bindE_def Let_def aes_encrypt_stream_def aes_decrypt_stream_def des_encrypt_stream_def
        des_decrypt_stream_def decrypted_stream [OF aes] decrypted_stream [OF des] without_zeros_padded empty)
qed

theorem encrypted_file_roundtrip_witness:
  "fst (aes_encrypt_file (map (\<lambda>x. x + 1)) (\<lambda>_. True) ''a'' ''a'' [''a'' \<mapsto> [5]]) = Inr () \<and>
   snd (aes_encrypt_file (map (\<lambda>x. x + 1)) (\<lambda>_. True) ''a'' ''a'' [''a'' \<mapsto> [5]]) ''a'' = Some []"
  using encrypted_file_roundtrip [OF cipher_ok_map [of 16 1] cipher_ok_map [of 8 1], where disk = "[''a'' \<mapsto> [5]]" and a = "''a''"
      and b = "''b''" and c = "''c''" and openable = "\<lambda>_. True" and plain = "[5]"] by simp

end
