(* ===== verification/Wire.thy ===== *)
theory Wire
  imports Package Block_Cipher
begin

text \<open>
  The bytes of a package as they travel: \<open>PackageHeader\<close> is packed and copied as it lies in
  memory, so its integers are little-endian on the machines the program is built for; the
  content follows. Theory \<open>Package\<close> has the header as a record.
\<close>

section \<open>Integers as bytes\<close>

fun to_bytes :: "nat \<Rightarrow> int \<Rightarrow> bytes" where
  "to_bytes 0 v = []"
| "to_bytes (Suc n) v = word_of_int v # to_bytes n (v div 256)"

fun of_bytes :: "bytes \<Rightarrow> int" where
  "of_bytes [] = 0"
| "of_bytes (b # bs) = uint b + 256 * of_bytes bs"

text \<open>A signed integer of \<open>n\<close> bytes, and the integers that fit into it.\<close>

definition signed_of_bytes :: "bytes \<Rightarrow> int" where
  "signed_of_bytes bs = (let u = of_bytes bs in if 2 * u < 256 ^ length bs then u else u - 256 ^ length bs)"

definition fits :: "nat \<Rightarrow> int \<Rightarrow> bool" where
  "fits n v \<longleftrightarrow> - (256 ^ n) \<le> 2 * v \<and> 2 * v < 256 ^ n"

lemma length_to_bytes [simp]: "length (to_bytes n v) = n"
  by (induction n arbitrary: v) simp_all

lemma of_bytes_to_bytes: "of_bytes (to_bytes n v) = v mod 256 ^ n"
proof (induction n arbitrary: v)
  case (Suc n)
  have "uint (word_of_int v :: byte) = v mod 256" by (simp add: uint_word_of_int)
  moreover have "v mod 256 + 256 * (v div 256 mod 256 ^ n) = v mod 256 ^ Suc n"
    using zmod_zmult2_eq [of "256 ^ n" v 256] by (simp add: add.commute)
  ultimately show ?case by (simp add: Suc)
qed simp

lemma signed_of_to_bytes:
  assumes "fits n v" and "0 < n"
  shows "signed_of_bytes (to_bytes n v) = v"
proof (cases "0 \<le> v")
  case True
  with assms show ?thesis by (simp add: signed_of_bytes_def of_bytes_to_bytes fits_def)
next
  case False
  have "(v + 256 ^ n) mod 256 ^ n = v + 256 ^ n"
    using False assms(1) by (intro mod_pos_pos_trivial) (simp_all add: fits_def)
  then have "v mod 256 ^ n = v + 256 ^ n" by simp
  with False assms(1) show ?thesis by (simp add: signed_of_bytes_def of_bytes_to_bytes fits_def)
qed

section \<open>Headers\<close>

definition header_bytes :: "package_header \<Rightarrow> bytes" where
  "header_bytes h = to_bytes 2 (h_version h) @ to_bytes 4 (h_command h) @ to_bytes 4 (h_content_length h) @
     to_bytes 4 (h_self_package_id h) @ to_bytes 4 (h_trigger_package_id h)"

definition read_header :: "bytes \<Rightarrow> package_header" where
  "read_header bs = \<lparr>h_version = signed_of_bytes (take 2 bs), h_command = signed_of_bytes (take 4 (drop 2 bs)),
     h_content_length = signed_of_bytes (take 4 (drop 6 bs)),
     h_self_package_id = signed_of_bytes (take 4 (drop 10 bs)),
     h_trigger_package_id = signed_of_bytes (take 4 (drop 14 bs))\<rparr>"

text \<open>The length of a header, and of its \<open>Base\<close>, as a number of bytes.\<close>

definition header_len :: nat where "header_len = 18"
definition base_len :: nat where "base_len = 10"

definition header_fits :: "package_header \<Rightarrow> bool" where
  "header_fits h \<longleftrightarrow> fits 2 (h_version h) \<and> fits 4 (h_command h) \<and> fits 4 (h_content_length h) \<and>
     fits 4 (h_self_package_id h) \<and> fits 4 (h_trigger_package_id h)"

lemma length_header_bytes [simp]: "length (header_bytes h) = header_len"
  by (simp add: header_bytes_def header_len_def)

lemma read_header_bytes: "header_fits h \<Longrightarrow> read_header (header_bytes h @ rest) = h"
  by (simp add: read_header_def header_bytes_def header_fits_def signed_of_to_bytes)

text \<open>The base of a header is read from the first bytes.\<close>

lemma read_header_base:
  assumes "take base_len as = take base_len bs"
  shows "h_version (read_header as) = h_version (read_header bs) \<and> h_command (read_header as) = h_command (read_header bs)"
proof -
  have "take 2 as = take 2 bs" "take 4 (drop 2 as) = take 4 (drop 2 bs)"
    using arg_cong [OF assms, of "take 2"] arg_cong [OF assms, of "\<lambda>xs. take 4 (drop 2 xs)"]
    by (simp_all add: base_len_def drop_take)
  then show ?thesis by (simp add: read_header_def)
qed

section \<open>Packages\<close>

text \<open>
  The bytes behind the header in the memory of a package: what was written, and behind it
  what \<open>new char[len]\<close> left there, \<open>junk i\<close> at the index \<open>i\<close>.
\<close>

definition content_memory :: "(nat \<Rightarrow> byte) \<Rightarrow> bytes package \<Rightarrow> bytes" where
  "content_memory junk p = (let c = (case p_content p of None \<Rightarrow> [] | Some c \<Rightarrow> c); n = unat (p_length p) - header_len
     in take n c @ map junk [length c ..< n])"

definition package_memory :: "(nat \<Rightarrow> byte) \<Rightarrow> bytes package \<Rightarrow> bytes" where
  "package_memory junk p = header_bytes (p_header p) @ content_memory junk p"

text \<open>\<open>static_cast<int>\<close> of a \<open>size_t\<close>.\<close>

definition to_int :: "size_t \<Rightarrow> int" where
  "to_int n = sint (ucast n :: 32 word)"

text \<open>\<open>SecureConnection::get_content_length\<close>.\<close>

definition get_content_length :: "int \<Rightarrow> int" where
  "get_content_length raw_length = to_int (aes_cipher_length (word_of_int raw_length))"

lemma length_content_memory: "length (content_memory junk p) = unat (p_length p) - header_len"
  by (simp add: content_memory_def Let_def)

lemma to_int_small:
  assumes "unat n < 2 ^ 31"
  shows "to_int n = int (unat n)"
proof -
  have "int (unat n) < int (2 ^ 31)" using assms by (simp only: of_nat_less_iff)
  then have n: "uint n < 2 ^ 31" by (simp only: uint_nat of_nat_power of_nat_numeral)
  have "to_int n = signed_take_bit 31 (uint n)" unfolding to_int_def by transfer simp
  also have "\<dots> = uint n" using n by (intro signed_take_bit_int_eq_self) (simp_all add: order_trans [OF _ uint_ge_0])
  finally show ?thesis by simp
qed

end
