(* ===== verification/Connection.thy ===== *)
theory Connection
  imports Wire Services Actors
begin

text \<open>
  The connections of the network thread, \<open>foundation/details/network_impl.{h,cpp}\<close>:
  \<open>NetworkConnectionImpl\<close>, which cuts the byte stream of a socket into packages and writes
  packages to it, and \<open>SecureConnection\<close>, the exchange of a key and the encryption of packages.
  A method is a function of the id of its connection; \<open>delete this\<close> takes the connection out of
  the table, and touching it afterwards is undefined.

  A socket is what has arrived and was not read (\<open>so_in\<close>), whether the peer has closed
  (\<open>so_eof\<close>), how many bytes it takes before it is full (\<open>so_room\<close>) and what was sent
  (\<open>so_out\<close>). Poco's \<open>receiveBytes\<close> on a socket that does not block gives -1 when nothing is
  there and 0 at the end; \<open>sendBytes\<close> gives -1 when the socket is full.
\<close>

section \<open>State\<close>

record socket =
  so_in :: bytes
  so_eof :: bool
  so_room :: nat
  so_out :: bytes

datatype security_setting = CLOSE_SECURITY | OPEN_SECURITY
datatype open_type = ACTIVE_OPEN | PASSIVE_OPEN
datatype receive_state = RECEIVE_HEADER | RECEIVE_CONTENT
datatype secure_state = STARTING | STARTED

fun setting_byte :: "security_setting \<Rightarrow> byte" where
  "setting_byte CLOSE_SECURITY = 1" | "setting_byte OPEN_SECURITY = 2"

definition NTF_INVALID_VERSION :: int where "NTF_INVALID_VERSION = 1"
definition NTF_SECURITY_SETTING :: int where "NTF_SECURITY_SETTING = 2"
definition REQ_START_CRYPTO :: int where "REQ_START_CRYPTO = 3"
definition RSP_START_CRYPTO :: int where "RSP_START_CRYPTO = 4"

lemmas build_in_commands = NTF_INVALID_VERSION_def NTF_SECURITY_SETTING_def REQ_START_CRYPTO_def RSP_START_CRYPTO_def

record 'k secure =
  sc_state :: secure_state
  sc_private_key :: "'k option"
  sc_aes_key :: bytes
  sc_pending :: "int list option"

text \<open>
  \<open>m_receive_buffer\<close> is \<open>cn_header\<close>, \<open>cn_content\<close> and its length: the bytes that were written for
  the present package. What is left behind them of an earlier package is never read.
  \<open>cn_watch\<close> says that the handler for the writable event is registered.
\<close>

record 'k conn =
  cn_id :: int
  cn_open_type :: open_type
  cn_header :: bytes
  cn_content :: bytes
  cn_length :: size_t
  cn_receive_len :: int
  cn_receive_state :: receive_state
  cn_send_list :: "int list"
  cn_send_len :: int
  cn_is_opening :: bool
  cn_is_closing :: bool
  cn_secure :: "'k secure option"
  cn_pending :: "int list option"
  cn_socket :: socket
  cn_watch :: bool

record ('k, 'd) net =
  nt_packages :: "bytes package_manager"
  nt_queues :: "'d actor_message actor_queues"
  nt_services :: service_manager
  nt_conns :: "(int, 'k conn) omap"
  nt_next_id :: int
  nt_listeners :: "string list"    \<comment> \<open>\<open>m_secure_listener_list\<close>\<close>

text \<open>
  Crypto++ and the memory. What the random generator gives is a function of the connection it
  gives it to; a \<open>None\<close> is an exception of Crypto++. \<open>ne_junk k\<close> is what the fresh memory of the
  package \<open>k\<close> holds, \<open>ne_room\<close> what a new socket takes.
\<close>

record ('p, 'k) net_env =
  ne_key_pair :: "int \<Rightarrow> 'p \<times> 'k"
  ne_save :: "'p \<Rightarrow> bytes"
  ne_load :: "bytes \<Rightarrow> 'p option"
  ne_aes_key :: "int \<Rightarrow> bytes"
  ne_rsa_encrypt :: "bytes \<Rightarrow> 'p \<Rightarrow> bytes option"
  ne_rsa_decrypt :: "bytes \<Rightarrow> 'k \<Rightarrow> bytes option"
  ne_enc :: "bytes \<Rightarrow> bytes \<Rightarrow> bytes"
  ne_dec :: "bytes \<Rightarrow> bytes \<Rightarrow> bytes"
  ne_alloc :: "size_t \<Rightarrow> bool"
  ne_junk :: "int \<Rightarrow> nat \<Rightarrow> byte"
  ne_room :: nat

type_synonym ('k, 'd, 'a) net_exec = "(('k, 'd) net, 'a) exec"

section \<open>Access\<close>

definition find_conn :: "('k, 'd) net \<Rightarrow> int \<Rightarrow> 'k conn option" where
  "find_conn nt k = map_of (nt_conns nt) k"

definition get_conn :: "int \<Rightarrow> ('k, 'd, 'k conn) net_exec" where
  "get_conn k = getsE (\<lambda>nt. case find_conn nt k of None \<Rightarrow> Inl Undefined | Some c \<Rightarrow> Inr c)"

definition update_conn :: "int \<Rightarrow> ('k conn \<Rightarrow> 'k conn) \<Rightarrow> ('k, 'd) net \<Rightarrow> ('k, 'd) net" where
  "update_conn k f nt = nt\<lparr>nt_conns := om_update k f (nt_conns nt)\<rparr>"

definition set_conn :: "int \<Rightarrow> ('k conn \<Rightarrow> 'k conn) \<Rightarrow> ('k, 'd, unit) net_exec" where
  "set_conn k f = modify (update_conn k f)"

definition update_secure :: "('k secure \<Rightarrow> 'k secure) \<Rightarrow> 'k conn \<Rightarrow> 'k conn" where
  "update_secure f c = c\<lparr>cn_secure := map_option f (cn_secure c)\<rparr>"

definition on_socket :: "(socket \<Rightarrow> socket) \<Rightarrow> 'k conn \<Rightarrow> 'k conn" where
  "on_socket f c = c\<lparr>cn_socket := f (cn_socket c)\<rparr>"

definition get_secure :: "int \<Rightarrow> ('k, 'd, 'k secure) net_exec" where
  "get_secure k = bindE (get_conn k) (\<lambda>c. case cn_secure c of None \<Rightarrow> fail Undefined | Some sc \<Rightarrow> ret sc)"

text \<open>A \<open>Package\<close> is a pointer to its entry.\<close>

definition deref_package :: "int \<Rightarrow> ('k, 'd, bytes package) net_exec" where
  "deref_package pid = getsE (\<lambda>nt. case find_package (nt_packages nt) pid of None \<Rightarrow> Inl Undefined | Some p \<Rightarrow> Inr p)"

abbreviation on_net_packages where "on_net_packages \<equiv> zoom nt_packages (\<lambda>x nt. nt\<lparr>nt_packages := x\<rparr>)"

definition drop_package :: "int \<Rightarrow> ('k, 'd, unit) net_exec" where
  "drop_package pid = on_net_packages (modify (remove_package pid))"

definition add_pending :: "int \<Rightarrow> int list option \<Rightarrow> int list option" where
  "add_pending pid q = Some ((case q of None \<Rightarrow> [] | Some ids \<Rightarrow> ids) @ [pid])"

section \<open>Sockets\<close>

text \<open>\<open>receiveBytes\<close>: \<open>None\<close> for -1; no bytes for 0.\<close>

definition receive_bytes :: "int \<Rightarrow> int \<Rightarrow> ('k, 'd, bytes option) net_exec" where
  "receive_bytes k n = bindE (get_conn k) (\<lambda>c. let so = cn_socket c in
     if so_in so = [] then ret (if so_eof so then Some [] else None)
     else bindE (set_conn k (on_socket (\<lambda>so. so\<lparr>so_in := drop (nat n) (so_in so)\<rparr>))) (\<lambda>_.
       ret (Some (take (nat n) (so_in so)))))"

text \<open>\<open>sendBytes\<close> of \<open>len\<close> bytes of a package from \<open>off\<close>.\<close>

definition read_memory :: "bytes \<Rightarrow> int \<Rightarrow> int \<Rightarrow> bytes res" where
  "read_memory mem off len = (if 0 \<le> off \<and> 0 \<le> len \<and> off + len \<le> int (length mem)
     then Inr (take (nat len) (drop (nat off) mem)) else Inl Undefined)"

definition send_bytes :: "('p, 'k) net_env \<Rightarrow> int \<Rightarrow> bytes package \<Rightarrow> int \<Rightarrow> int \<Rightarrow> ('k, 'd, int) net_exec" where
  "send_bytes E k p off len = bindE (get_conn k) (\<lambda>c. let so = cn_socket c in
     bindE (getsE (\<lambda>_. read_memory (package_memory (ne_junk E (p_id p)) p) off len)) (\<lambda>bs.
     if so_room so = 0 then ret (- 1)
     else let n = min (length bs) (so_room so) in
       bindE (set_conn k (on_socket (\<lambda>so. so\<lparr>so_out := so_out so @ take n bs, so_room := so_room so - n\<rparr>))) (\<lambda>_.
       ret (int n))))"

section \<open>Sending\<close>

text \<open>\<open>static_cast<int>(package.valid_length())\<close>.\<close>

definition package_len :: "bytes package \<Rightarrow> int" where
  "package_len p = to_int (valid_length p)"

definition send_raw_package :: "('p, 'k) net_env \<Rightarrow> int \<Rightarrow> int \<Rightarrow> ('k, 'd, unit) net_exec" where
  "send_raw_package E k pid = bindE (get_conn k) (\<lambda>c.
     if cn_send_list c \<noteq> [] then set_conn k (\<lambda>c. c\<lparr>cn_send_list := cn_send_list c @ [pid]\<rparr>)
     else bindE (deref_package pid) (\<lambda>p. let len = package_len p in
       bindE (send_bytes E k p 0 len) (\<lambda>n.
       bindE (set_conn k (\<lambda>c. c\<lparr>cn_send_len := n\<rparr>)) (\<lambda>_.
       if n = len then bindE (set_conn k (\<lambda>c. c\<lparr>cn_send_len := 0\<rparr>)) (\<lambda>_. drop_package pid)
       else if n < len then set_conn k (\<lambda>c. c\<lparr>cn_send_list := cn_send_list c @ [pid], cn_watch := True\<rparr>)
       else ret ()))))"

text \<open>The encryption in place, of whole blocks of the memory behind the header.\<close>

definition encrypt_content :: "('p, 'k) net_env \<Rightarrow> bytes \<Rightarrow> bytes package \<Rightarrow> bytes res" where
  "encrypt_content E key p =
     (let mem = content_memory (ne_junk E (p_id p)) p;
          cipher_len = (word_of_int (get_content_length (h_content_length (p_header p))) :: size_t);
          n = unat cipher_len div 16
      in if n * 16 \<le> length mem then Inr (crypt_blocks 16 (ne_enc E key) n mem) else Inl Undefined)"

definition secure_send_package :: "('p, 'k) net_env \<Rightarrow> int \<Rightarrow> int \<Rightarrow> ('k, 'd, unit) net_exec" where
  "secure_send_package E k pid = bindE (get_secure k) (\<lambda>sc.
     if sc_state sc \<noteq> STARTED
     then set_conn k (update_secure (\<lambda>sc. sc\<lparr>sc_pending := add_pending pid (sc_pending sc)\<rparr>))
     else bindE (deref_package pid) (\<lambda>p.
       bindE (getsE (\<lambda>_. encrypt_content E (sc_aes_key sc) p)) (\<lambda>content.
       bindE (on_net_packages (modify (update_package pid (\<lambda>p. p\<lparr>p_content := Some content, p_cipher_length := True\<rparr>)))) (\<lambda>_.
       send_raw_package E k pid))))"

definition conn_send_package :: "('p, 'k) net_env \<Rightarrow> int \<Rightarrow> int \<Rightarrow> ('k, 'd, unit) net_exec" where
  "conn_send_package E k pid = bindE (get_conn k) (\<lambda>c.
     if cn_is_closing c then drop_package pid
     else case cn_secure c of
       Some _ \<Rightarrow> secure_send_package E k pid
     | None \<Rightarrow>
         if cn_is_opening c then set_conn k (\<lambda>c. c\<lparr>cn_pending := add_pending pid (cn_pending c)\<rparr>)
         else send_raw_package E k pid)"

text \<open>The loops over the pending packages; a package that was removed meanwhile is passed over.\<close>

fun send_each :: "('p, 'k) net_env \<Rightarrow> int \<Rightarrow> int list \<Rightarrow> ('k, 'd, unit) net_exec" where
  "send_each E k [] = set_conn k (\<lambda>c. c\<lparr>cn_pending := None\<rparr>)"
| "send_each E k (pid # ids) =
     bindE (set_conn k (\<lambda>c. c\<lparr>cn_pending := Some ids\<rparr>)) (\<lambda>_.
     bindE (gets (\<lambda>nt. find_package (nt_packages nt) pid \<noteq> None)) (\<lambda>valid.
     bindE (if valid then conn_send_package E k pid else ret ()) (\<lambda>_.
     send_each E k ids)))"

definition send_all_pending_package :: "('p, 'k) net_env \<Rightarrow> int \<Rightarrow> ('k, 'd, unit) net_exec" where
  "send_all_pending_package E k = bindE (get_conn k) (\<lambda>c.
     case cn_pending c of None \<Rightarrow> ret () | Some ids \<Rightarrow> send_each E k ids)"

fun secure_send_each :: "('p, 'k) net_env \<Rightarrow> int \<Rightarrow> int list \<Rightarrow> ('k, 'd, unit) net_exec" where
  "secure_send_each E k [] = set_conn k (update_secure (\<lambda>sc. sc\<lparr>sc_pending := None\<rparr>))"
| "secure_send_each E k (pid # ids) =
     bindE (set_conn k (update_secure (\<lambda>sc. sc\<lparr>sc_pending := Some ids\<rparr>))) (\<lambda>_.
     bindE (gets (\<lambda>nt. find_package (nt_packages nt) pid \<noteq> None)) (\<lambda>valid.
     bindE (if valid then secure_send_package E k pid else ret ()) (\<lambda>_.
     secure_send_each E k ids)))"

definition secure_send_all_pending :: "('p, 'k) net_env \<Rightarrow> int \<Rightarrow> ('k, 'd, unit) net_exec" where
  "secure_send_all_pending E k = bindE (get_secure k) (\<lambda>sc.
     case sc_pending sc of None \<Rightarrow> ret () | Some ids \<Rightarrow> secure_send_each E k ids)"

text \<open>A package of the connection's own: registered, the header filled in, the content copied.\<close>

definition own_package :: "('p, 'k) net_env \<Rightarrow> int \<Rightarrow> bytes \<Rightarrow> ('k, 'd, int) net_exec" where
  "own_package E command content =
     bindE (on_net_packages (register_package (ne_alloc E) (int (length content)))) (\<lambda>p.
     bindE (on_net_packages (modify (update_package (p_id p) (\<lambda>p. p\<lparr>
       p_header := (p_header p)\<lparr>h_command := command, h_content_length := int (length content)\<rparr>,
       p_content := Some content\<rparr>)))) (\<lambda>_.
     ret (p_id p)))"

section \<open>Closing\<close>

text \<open>The destructor, and \<open>close()\<close>, which is put off while packages are unsent.\<close>

definition destroy_conn :: "int \<Rightarrow> ('k, 'd, unit) net_exec" where
  "destroy_conn k = bindE (get_conn k) (\<lambda>c. modify (\<lambda>nt. nt\<lparr>
     nt_conns := om_erase k (nt_conns nt),
     nt_packages := fold remove_package (cn_send_list c) (nt_packages nt)\<rparr>))"

definition close_conn :: "int \<Rightarrow> ('k, 'd, unit) net_exec" where
  "close_conn k = bindE (get_conn k) (\<lambda>c.
     if cn_send_list c = [] then destroy_conn k else set_conn k (\<lambda>c. c\<lparr>cn_is_closing := True\<rparr>))"

section \<open>The secure connection\<close>

text \<open>The constructor: the passive side makes the key pair and sends the public key.\<close>

definition start_secure :: "('p, 'k) net_env \<Rightarrow> int \<Rightarrow> ('k, 'd, unit) net_exec" where
  "start_secure E k = bindE (get_conn k) (\<lambda>c. case ne_key_pair E k of (pub, priv) \<Rightarrow>
     let passive = (cn_open_type c = PASSIVE_OPEN) in
     bindE (if passive then bindE (own_package E REQ_START_CRYPTO (ne_save E pub)) (send_raw_package E k) else ret ()) (\<lambda>_.
     set_conn k (\<lambda>c. c\<lparr>cn_secure := Some \<lparr>sc_state = STARTING,
       sc_private_key = (if passive then Some priv else None), sc_aes_key = aes_key_reset [] [] 32, sc_pending = None\<rparr>\<rparr>)))"

text \<open>\<open>pad_message\<close> and the push into the worker's queue.\<close>

definition push_message :: "int \<Rightarrow> int \<Rightarrow> ('k, 'd, unit) net_exec" where
  "push_message k pid = modify (\<lambda>nt. nt\<lparr>nt_queues := queue_push IN_QUEUE (NETWORK_TYPE \<lparr>nm_conn_id = k,
     nm_service_id = (case find_service_by_connection (nt_services nt) k of None \<Rightarrow> 0 | Some s \<Rightarrow> ns_service_id s),
     nm_package_id = pid\<rparr>) (nt_queues nt)\<rparr>)"

text \<open>A copy of the received package for the worker.\<close>

definition deliver :: "('p, 'k) net_env \<Rightarrow> int \<Rightarrow> int \<Rightarrow> package_header \<Rightarrow> (bytes package \<Rightarrow> bytes res) \<Rightarrow> ('k, 'd, unit) net_exec" where
  "deliver E k content_len h content =
     bindE (on_net_packages (register_package (ne_alloc E) content_len)) (\<lambda>p.
     bindE (getsE (\<lambda>_. content p)) (\<lambda>c.
     bindE (on_net_packages (modify (update_package (p_id p) (\<lambda>p. p\<lparr>p_header := h, p_content := Some c\<rparr>)))) (\<lambda>_.
     push_message k (p_id p))))"

text \<open>\<open>package_buffer.content()\<close>: as many bytes as the header says.\<close>

definition buffer_content :: "'k conn \<Rightarrow> bytes" where
  "buffer_content c = take (nat (h_content_length (read_header (cn_header c)))) (cn_content c)"

definition secure_receive :: "('p, 'k) net_env \<Rightarrow> int \<Rightarrow> ('k, 'd, unit) net_exec" where
  "secure_receive E k = bindE (get_conn k) (\<lambda>c. bindE (get_secure k) (\<lambda>sc.
     let h = read_header (cn_header c); content = buffer_content c in
     case sc_state sc of
       STARTING \<Rightarrow>
         if cn_open_type c = PASSIVE_OPEN \<and> h_command h = RSP_START_CRYPTO then
           (case sc_private_key sc of
              None \<Rightarrow> fail Aborted
            | Some private_key \<Rightarrow> (case ne_rsa_decrypt E content private_key of
                None \<Rightarrow> fail Std_exception
              | Some plain \<Rightarrow>
                  bindE (set_conn k (update_secure (\<lambda>sc. sc\<lparr>sc_aes_key := aes_key_reset (sc_aes_key sc) plain 32,
                    sc_private_key := None, sc_state := STARTED\<rparr>))) (\<lambda>_.
                  secure_send_all_pending E k)))
         else if cn_open_type c = ACTIVE_OPEN \<and> h_command h = REQ_START_CRYPTO then
           (case ne_load E content of
              None \<Rightarrow> fail Std_exception
            | Some public_key \<Rightarrow>
                let key = ne_aes_key E k in
                bindE (set_conn k (update_secure (\<lambda>sc. sc\<lparr>sc_aes_key := key\<rparr>))) (\<lambda>_.
                (case ne_rsa_encrypt E key public_key of
                   None \<Rightarrow> fail Std_exception
                 | Some cipher \<Rightarrow>
                     bindE (own_package E RSP_START_CRYPTO cipher) (\<lambda>pid.
                     bindE (send_raw_package E k pid) (\<lambda>_.
                     bindE (set_conn k (update_secure (\<lambda>sc. sc\<lparr>sc_state := STARTED\<rparr>))) (\<lambda>_.
                     secure_send_all_pending E k))))))
         else ret ()
     | STARTED \<Rightarrow>
         let content_len = get_content_length (h_content_length h) in
         deliver E k content_len h (\<lambda>p. aes_decrypt (ne_dec E (sc_aes_key sc))
           (take (nat content_len) (cn_content c)) (content_memory (ne_junk E (p_id p)) p))))"

section \<open>Receiving\<close>

definition process_check_package_version :: "('p, 'k) net_env \<Rightarrow> int \<Rightarrow> ('k, 'd, bool) net_exec" where
  "process_check_package_version E k = bindE (get_conn k) (\<lambda>c.
     if cn_receive_len c < int base_len then ret True
     else let h = read_header (cn_header c) in
       if h_version h = PACKAGE_VERSION then ret True
       else bindE (if h_command h \<noteq> NTF_INVALID_VERSION
                   then bindE (own_package E NTF_INVALID_VERSION []) (send_raw_package E k) else ret ()) (\<lambda>_.
         bindE (close_conn k) (\<lambda>_. ret False)))"

definition on_receive_complete_package :: "('p, 'k) net_env \<Rightarrow> int \<Rightarrow> ('k, 'd, bool) net_exec" where
  "on_receive_complete_package E k = bindE (get_conn k) (\<lambda>c.
     let h = read_header (cn_header c); stop = bindE (close_conn k) (\<lambda>_. ret False) in
     if h_command h = NTF_SECURITY_SETTING then
       (if cn_open_type c = PASSIVE_OPEN then stop
        else if \<not> cn_is_opening c then stop
        else case buffer_content c of
            [] \<Rightarrow> stop
          | setting # _ \<Rightarrow>
              bindE (set_conn k (\<lambda>c. c\<lparr>cn_is_opening := False\<rparr>)) (\<lambda>_.
              bindE (if setting = setting_byte OPEN_SECURITY
                     then if cn_secure c = None then start_secure E k else fail Aborted else ret ()) (\<lambda>_.
              bindE (send_all_pending_package E k) (\<lambda>_. ret True))))
     else if cn_is_opening c then ret False
     else if cn_secure c \<noteq> None then bindE (secure_receive E k) (\<lambda>_. ret True)
     else bindE (deliver E k (h_content_length h) h (\<lambda>p. Inr (buffer_content c))) (\<lambda>_. ret True))"

text \<open>One pass of the loop in \<open>receive_for_state\<close>: true when the loop goes on.\<close>

definition receive_header :: "('p, 'k) net_env \<Rightarrow> int \<Rightarrow> ('k, 'd, bool) net_exec" where
  "receive_header E k = bindE (get_conn k) (\<lambda>c. let old = cn_receive_len c in
     bindE (receive_bytes k (int header_len - old)) (\<lambda>received. case received of
       None \<Rightarrow> ret False
     | Some bs \<Rightarrow>
         if bs = [] then bindE (destroy_conn k) (\<lambda>_. ret False)
         else
           bindE (set_conn k (\<lambda>c. c\<lparr>cn_header := take (nat old) (cn_header c) @ bs,
             cn_receive_len := old + int (length bs)\<rparr>)) (\<lambda>_.
           bindE (process_check_package_version E k) (\<lambda>ok.
           if \<not> ok then ret False
           else bindE (set_conn k (\<lambda>c. if cn_receive_len c = int header_len
                  then c\<lparr>cn_receive_len := 0, cn_receive_state := RECEIVE_CONTENT\<rparr> else c)) (\<lambda>_. ret True)))))"

definition read_content_len :: "'k conn \<Rightarrow> int" where
  "read_content_len c = (let raw_len = h_content_length (read_header (cn_header c)) in
     if cn_secure c \<noteq> None then get_content_length raw_len else raw_len)"

text \<open>The bytes of the content, if there are any; growing the buffer keeps the header only.\<close>

definition receive_content_bytes :: "('p, 'k) net_env \<Rightarrow> int \<Rightarrow> ('k, 'd, bool) net_exec" where
  "receive_content_bytes E k = bindE (get_conn k) (\<lambda>c.
     let len = read_content_len c; expect_len = (word_of_int len :: size_t); old = cn_receive_len c in
     if len = 0 then ret True
     else case expect_content_length expect_len (cn_length c) of
         None \<Rightarrow> fail Endless
       | Some (Inl e, _) \<Rightarrow> fail e
       | Some (Inr _, new_length) \<Rightarrow>
           bindE (set_conn k (\<lambda>c. c\<lparr>cn_length := new_length\<rparr>)) (\<lambda>_.
           if new_length - HEADER_LEN < expect_len then bindE (close_conn k) (\<lambda>_. ret False)
           else bindE (receive_bytes k (len - old)) (\<lambda>received. case received of
               None \<Rightarrow> ret False
             | Some bs \<Rightarrow>
                 if bs = [] then bindE (destroy_conn k) (\<lambda>_. ret False)
                 else bindE (set_conn k (\<lambda>c. c\<lparr>cn_content := take (nat old) (cn_content c) @ bs,
                   cn_receive_len := old + int (length bs)\<rparr>)) (\<lambda>_. ret True))))"

definition receive_content :: "('p, 'k) net_env \<Rightarrow> int \<Rightarrow> ('k, 'd, bool) net_exec" where
  "receive_content E k =
     bindE (receive_content_bytes E k) (\<lambda>go. if \<not> go then ret False else
     bindE (get_conn k) (\<lambda>c. if cn_receive_len c \<noteq> read_content_len c then ret True
       else bindE (set_conn k (\<lambda>c. c\<lparr>cn_receive_len := 0, cn_receive_state := RECEIVE_HEADER\<rparr>)) (\<lambda>_.
         on_receive_complete_package E k)))"

definition receive_pass :: "('p, 'k) net_env \<Rightarrow> int \<Rightarrow> ('k, 'd, bool) net_exec" where
  "receive_pass E k = bindE (get_conn k) (\<lambda>c. case cn_receive_state c of
     RECEIVE_HEADER \<Rightarrow> receive_header E k | RECEIVE_CONTENT \<Rightarrow> receive_content E k)"

text \<open>The loop: \<open>None\<close> when it does not end.\<close>

partial_function (option) receive_for_state ::
  "('p, 'k) net_env \<Rightarrow> int \<Rightarrow> ('k, 'd) net \<Rightarrow> (unit res \<times> ('k, 'd) net) option" where
  "receive_for_state E k nt = (case receive_pass E k nt of (r, nt') \<Rightarrow>
     if r = Inr True then receive_for_state E k nt' else Some (map_sum id (\<lambda>_. ()) r, nt'))"

declare receive_for_state.simps [code]

definition on_readable :: "('p, 'k) net_env \<Rightarrow> int \<Rightarrow> ('k, 'd) net \<Rightarrow> (unit res \<times> ('k, 'd) net) option" where
  "on_readable E k nt = (case find_conn nt k of
     None \<Rightarrow> Some (Inl Undefined, nt)
   | Some c \<Rightarrow> if cn_is_closing c then Some (Inr (), nt) else receive_for_state E k nt)"

section \<open>Writing\<close>

definition on_writable :: "('p, 'k) net_env \<Rightarrow> int \<Rightarrow> ('k, 'd, unit) net_exec" where
  "on_writable E k = bindE (get_conn k) (\<lambda>c.
     bindE (gets (\<lambda>nt. dropWhile (\<lambda>pid. find_package (nt_packages nt) pid = None) (cn_send_list c))) (\<lambda>ids.
     bindE (set_conn k (\<lambda>c. c\<lparr>cn_send_list := ids\<rparr>)) (\<lambda>_. case ids of
       [] \<Rightarrow> ret ()
     | pid # rest \<Rightarrow>
         bindE (deref_package pid) (\<lambda>p. let len = package_len p in
         bindE (send_bytes E k p (cn_send_len c) (len - cn_send_len c)) (\<lambda>n.
         bindE (set_conn k (\<lambda>c. c\<lparr>cn_send_len := cn_send_len c + n\<rparr>)) (\<lambda>_.
         bindE (if cn_send_len c + n = len
                then bindE (set_conn k (\<lambda>c. c\<lparr>cn_send_len := 0, cn_send_list := rest\<rparr>)) (\<lambda>_. drop_package pid)
                else ret ()) (\<lambda>_.
         bindE (get_conn k) (\<lambda>c. if cn_send_list c \<noteq> [] then ret ()
           else bindE (set_conn k (\<lambda>c. c\<lparr>cn_watch := False\<rparr>)) (\<lambda>_.
             if cn_is_closing c then destroy_conn k else ret ())))))))))"

definition on_error :: "int \<Rightarrow> ('k, 'd, unit) net_exec" where
  "on_error k = destroy_conn k"

section \<open>NetworkManagerImpl\<close>

definition new_conn :: "int \<Rightarrow> open_type \<Rightarrow> socket \<Rightarrow> 'k conn" where
  "new_conn k t so = \<lparr>cn_id = k, cn_open_type = t, cn_header = [], cn_content = [], cn_length = STACK_BUFFER_LEN,
     cn_receive_len = 0, cn_receive_state = RECEIVE_HEADER, cn_send_list = [], cn_send_len = 0,
     cn_is_opening = True, cn_is_closing = False, cn_secure = None, cn_pending = None, cn_socket = so,
     cn_watch = False\<rparr>"

definition on_create_connection :: "open_type \<Rightarrow> socket \<Rightarrow> ('k, 'd, int) net_exec" where
  "on_create_connection t so =
     bindE (gets nt_next_id) (\<lambda>k.
     bindE (modify (\<lambda>nt. nt\<lparr>nt_next_id := nt_next_id nt + 1,
       nt_conns := om_insert k (new_conn k t so) (nt_conns nt)\<rparr>)) (\<lambda>_. ret k))"

definition get_security_setting :: "('k, 'd) net \<Rightarrow> string \<Rightarrow> security_setting" where
  "get_security_setting nt address = (if address \<in> set (nt_listeners nt) then OPEN_SECURITY else CLOSE_SECURITY)"

definition register_listener :: "string \<Rightarrow> security_setting \<Rightarrow> ('k, 'd) net \<Rightarrow> ('k, 'd) net" where
  "register_listener address setting nt =
     (if setting = OPEN_SECURITY then nt\<lparr>nt_listeners := List.insert address (nt_listeners nt)\<rparr> else nt)"

text \<open>The constructor of a connection, for a socket that the acceptor or \<open>register_connection\<close> made.\<close>

definition create_connection :: "('p, 'k) net_env \<Rightarrow> open_type \<Rightarrow> string \<Rightarrow> socket \<Rightarrow> ('k, 'd, int) net_exec" where
  "create_connection E t address so =
     bindE (on_create_connection t so) (\<lambda>k.
     if t = ACTIVE_OPEN then ret k
     else bindE (gets (\<lambda>nt. get_security_setting nt address)) (\<lambda>setting.
       bindE (own_package E NTF_SECURITY_SETTING [setting_byte setting]) (\<lambda>pid.
       bindE (send_raw_package E k pid) (\<lambda>_.
       bindE (if setting = OPEN_SECURITY then start_secure E k else ret ()) (\<lambda>_.
       bindE (set_conn k (\<lambda>c. c\<lparr>cn_is_opening := False\<rparr>)) (\<lambda>_. ret k))))))"

definition find_open_conn :: "('k, 'd) net \<Rightarrow> int \<Rightarrow> 'k conn option" where
  "find_open_conn nt k = (case find_conn nt k of
     None \<Rightarrow> None | Some c \<Rightarrow> if cn_is_closing c then None else Some c)"

definition remove_conn :: "int \<Rightarrow> ('k, 'd, unit) net_exec" where
  "remove_conn k = bindE (gets (\<lambda>nt. find_conn nt k \<noteq> None)) (\<lambda>found. if found then close_conn k else ret ())"

text \<open>\<open>stop_all\<close> closes the first connection until none is left; \<open>None\<close> when that does not end.\<close>

partial_function (option) stop_all :: "('k, 'd) net \<Rightarrow> ('k, 'd) net option" where
  "stop_all nt = (case nt_conns nt of
     [] \<Rightarrow> Some nt
   | (k, _) # _ \<Rightarrow> stop_all (snd (close_conn k nt)))"

declare stop_all.simps [code]

end
