(* ===== verification/Receive.thy ===== *)
theory Receive
  imports Connection
begin

text \<open>
  What the loop that reads a socket does: it ends, and it does not matter in which pieces the
  bytes of a connection arrive.
\<close>

section \<open>Connections in the table\<close>

lemma bindE_assoc: "bindE (bindE m f) g = bindE m (\<lambda>a. bindE (f a) g)"
  by (auto simp: bindE_def fun_eq_iff split: prod.split sum.split)

lemma bindE_ret_False [simp]: "(bindE m (\<lambda>_. ret False) s = (Inr True, t)) = False"
  by (auto elim: bindE_InrE)

lemma bindE_Pair: "bindE m (\<lambda>_. Pair (Inr a)) = bindE m (\<lambda>_. ret a)"
  by (simp add: ret_def)

lemma find_update_conn [simp]:
  "find_conn (update_conn j f nt) k = (if k = j then map_option f (find_conn nt k) else find_conn nt k)"
  by (simp add: find_conn_def update_conn_def map_of_om_update)

lemma update_conn_simps [simp]:
  "nt_packages (update_conn k f nt) = nt_packages nt" "nt_queues (update_conn k f nt) = nt_queues nt"
  "nt_services (update_conn k f nt) = nt_services nt" "nt_next_id (update_conn k f nt) = nt_next_id nt"
  "nt_listeners (update_conn k f nt) = nt_listeners nt"
  by (simp_all add: update_conn_def)

lemma update_conn_cong:
  assumes "om_ok (nt_conns nt)" and "\<And>c. find_conn nt k = Some c \<Longrightarrow> f c = g c"
  shows "update_conn k f nt = update_conn k g nt"
proof -
  have "find_conn nt k = Some v" if "(k, v) \<in> set (nt_conns nt)" for v
    unfolding find_conn_def by (rule map_of_is_SomeI [OF om_ok_distinct [OF assms(1)] that])
  then have "om_update k f (nt_conns nt) = om_update k g (nt_conns nt)"
    unfolding om_update_def by (intro map_cong) (auto simp: assms(2))
  then show ?thesis by (simp add: update_conn_def)
qed

lemma update_conn_compose: "update_conn k f (update_conn k g nt) = update_conn k (\<lambda>c. f (g c)) nt"
proof -
  have "(\<lambda>e. if fst e = k then (fst e, f (snd e)) else e) \<circ> (\<lambda>e. if fst e = k then (fst e, g (snd e)) else e) =
    (\<lambda>e. if fst e = k then (fst e, f (g (snd e))) else e)" by (auto simp: fun_eq_iff)
  then show ?thesis by (simp add: update_conn_def om_update_def)
qed

lemma update_conn_id: "update_conn k (\<lambda>c. c) nt = (nt :: ('a, 'd) net)"
proof -
  have "(if fst e = k then (fst e, snd e) else e) = e" for e :: "int \<times> 'a conn" by (cases e) simp
  then have "om_update k (\<lambda>c. c) (nt_conns nt) = nt_conns nt" unfolding om_update_def by (simp only: map_ident)
  then show ?thesis by (simp add: update_conn_def)
qed

lemma bindE_get_conn: "find_conn nt k = Some c \<Longrightarrow> bindE (get_conn k) f nt = f c nt"
  by (simp add: get_conn_def bindE_getsE)

lemma bindE_get_conn_None: "find_conn nt k = None \<Longrightarrow> bindE (get_conn k) f nt = (Inl Undefined, nt)"
  by (simp add: get_conn_def bindE_getsE)

lemma bindE_set_conn [simp]: "bindE (set_conn k f) g nt = g () (update_conn k f nt)"
  by (simp add: set_conn_def)

section \<open>Bytes that arrive later\<close>

definition more :: "bytes \<Rightarrow> 'k conn \<Rightarrow> 'k conn" where
  "more bs = on_socket (\<lambda>so. so\<lparr>so_in := so_in so @ bs\<rparr>)"

definition arrive :: "int \<Rightarrow> bytes \<Rightarrow> ('k, 'd) net \<Rightarrow> ('k, 'd) net" where
  "arrive k bs = update_conn k (more bs)"

lemma more_simps [simp]:
  "cn_id (more bs c) = cn_id c" "cn_open_type (more bs c) = cn_open_type c" "cn_header (more bs c) = cn_header c"
  "cn_content (more bs c) = cn_content c" "cn_length (more bs c) = cn_length c"
  "cn_receive_len (more bs c) = cn_receive_len c" "cn_receive_state (more bs c) = cn_receive_state c"
  "cn_send_list (more bs c) = cn_send_list c" "cn_send_len (more bs c) = cn_send_len c"
  "cn_is_opening (more bs c) = cn_is_opening c" "cn_is_closing (more bs c) = cn_is_closing c"
  "cn_secure (more bs c) = cn_secure c" "cn_pending (more bs c) = cn_pending c" "cn_watch (more bs c) = cn_watch c"
  "so_in (cn_socket (more bs c)) = so_in (cn_socket c) @ bs" "so_eof (cn_socket (more bs c)) = so_eof (cn_socket c)"
  "so_room (cn_socket (more bs c)) = so_room (cn_socket c)" "so_out (cn_socket (more bs c)) = so_out (cn_socket c)"
  by (simp_all add: more_def on_socket_def)

lemma more_Nil [simp]: "more [] = (\<lambda>c. c)"
  by (simp add: more_def on_socket_def fun_eq_iff)

lemma arrive_Nil [simp]: "arrive k [] nt = nt"
  by (simp add: arrive_def update_conn_id)

lemma more_more: "more bs (more as c) = more (as @ bs) c"
  by (simp add: more_def on_socket_def)

lemma more_updates [simp]:
  "more bs (c\<lparr>cn_send_list := x1\<rparr>) = (more bs c)\<lparr>cn_send_list := x1\<rparr>"
  "more bs (c\<lparr>cn_send_len := x2\<rparr>) = (more bs c)\<lparr>cn_send_len := x2\<rparr>"
  "more bs (c\<lparr>cn_is_opening := x3\<rparr>) = (more bs c)\<lparr>cn_is_opening := x3\<rparr>"
  "more bs (c\<lparr>cn_is_closing := x3\<rparr>) = (more bs c)\<lparr>cn_is_closing := x3\<rparr>"
  "more bs (c\<lparr>cn_watch := x3\<rparr>) = (more bs c)\<lparr>cn_watch := x3\<rparr>"
  "more bs (c\<lparr>cn_secure := x4\<rparr>) = (more bs c)\<lparr>cn_secure := x4\<rparr>"
  "more bs (c\<lparr>cn_pending := x5\<rparr>) = (more bs c)\<lparr>cn_pending := x5\<rparr>"
  "more bs (c\<lparr>cn_receive_len := x6\<rparr>) = (more bs c)\<lparr>cn_receive_len := x6\<rparr>"
  "more bs (c\<lparr>cn_receive_state := x7\<rparr>) = (more bs c)\<lparr>cn_receive_state := x7\<rparr>"
  "more bs (c\<lparr>cn_header := x8\<rparr>) = (more bs c)\<lparr>cn_header := x8\<rparr>"
  "more bs (c\<lparr>cn_content := x8\<rparr>) = (more bs c)\<lparr>cn_content := x8\<rparr>"
  "more bs (c\<lparr>cn_length := x9\<rparr>) = (more bs c)\<lparr>cn_length := x9\<rparr>"
  "more bs (update_secure f c) = update_secure f (more bs c)"
  "more bs (on_socket (\<lambda>so. so\<lparr>so_out := so_out so @ as, so_room := so_room so - n\<rparr>) c) =
     on_socket (\<lambda>so. so\<lparr>so_out := so_out so @ as, so_room := so_room so - n\<rparr>) (more bs c)"
  by (simp_all add: more_def on_socket_def update_secure_def)

lemma arrive_append: "arrive k (as @ bs) nt = arrive k bs (arrive k as nt)"
  by (simp add: arrive_def update_conn_compose more_more)

lemma find_arrive [simp]:
  "find_conn (arrive j bs nt) k = (if k = j then map_option (more bs) (find_conn nt k) else find_conn nt k)"
  by (simp add: arrive_def)

lemma arrive_simps [simp]:
  "nt_packages (arrive k bs nt) = nt_packages nt" "nt_queues (arrive k bs nt) = nt_queues nt"
  "nt_services (arrive k bs nt) = nt_services nt"
  by (simp_all add: arrive_def)

text \<open>\<open>commutes g m\<close>: \<open>m\<close> neither looks at what \<open>g\<close> changes nor changes it.\<close>

definition commutes :: "('s \<Rightarrow> 's) \<Rightarrow> ('s, 'a) exec \<Rightarrow> bool" where
  "commutes g m \<longleftrightarrow> (\<forall>s. m (g s) = (fst (m s), g (snd (m s))))"

named_theorems commutes_intros \<open>rules that derive \<open>commutes\<close> for a compound call\<close>

lemma commutesD: "commutes g m \<Longrightarrow> m s = (r, t) \<Longrightarrow> m (g s) = (r, g t)"
  by (simp add: commutes_def)

lemma commutes_ret [commutes_intros]: "commutes g (ret a)"
  by (simp add: commutes_def)

lemma commutes_fail [commutes_intros]: "commutes g (fail e)"
  by (simp add: commutes_def)

lemma commutes_getsE [commutes_intros]: "commutes g (getsE (\<lambda>_. r))"
  by (simp add: commutes_def)

lemma commutes_bindE [commutes_intros]:
  "commutes g m \<Longrightarrow> (\<And>a. commutes g (f a)) \<Longrightarrow> commutes g (bindE m f)"
  unfolding commutes_def bindE_def by (auto split: prod.split sum.split)

lemma commutes_if [commutes_intros]: "commutes g m \<Longrightarrow> commutes g n \<Longrightarrow> commutes g (if b then m else n)"
  by simp

lemma commutes_option [commutes_intros]:
  "commutes g m \<Longrightarrow> (\<And>a. commutes g (f a)) \<Longrightarrow> commutes g (case x of None \<Rightarrow> m | Some a \<Rightarrow> f a)"
  by (cases x) simp_all

lemma commutes_list [commutes_intros]:
  "commutes g m \<Longrightarrow> (\<And>a as. commutes g (f a as)) \<Longrightarrow> commutes g (case x of [] \<Rightarrow> m | a # as \<Rightarrow> f a as)"
  by (cases x) simp_all

lemma commutes_modify: "(\<And>s. f (g s) = g (f s)) \<Longrightarrow> commutes g (modify f)"
  by (simp add: commutes_def)

lemma commutes_gets: "(\<And>s. f (g s) = f s) \<Longrightarrow> commutes g (gets f)"
  by (simp add: commutes_def)

lemma commutes_zoom: "(\<And>s. get (g s) = get s) \<Longrightarrow> (\<And>s t. put t (g s) = g (put t s)) \<Longrightarrow> commutes g (zoom get put m)"
  by (simp add: commutes_def zoom_def split: prod.split)

lemma commutes_get_conn:
  assumes "\<And>c. f (more bs c) = f c" and "\<And>c. commutes (arrive k bs) (f c)"
  shows "commutes (arrive k bs) (bindE (get_conn k) f)"
  using assms by (auto simp: commutes_def get_conn_def bindE_getsE split: option.split)

lemma commutes_set_conn [commutes_intros]:
  "(\<And>c. f (more bs c) = more bs (f c)) \<Longrightarrow> commutes (arrive k bs) (set_conn k f)"
  by (simp add: set_conn_def commutes_modify arrive_def update_conn_compose)

lemma commutes_net_packages [commutes_intros]: "commutes (arrive k bs) (on_net_packages m)"
  by (rule commutes_zoom) (simp_all add: arrive_def update_conn_def)

lemma commutes_deref [commutes_intros]: "commutes (arrive k bs) (deref_package pid)"
  by (simp add: deref_package_def commutes_def)

lemma commutes_get_secure [commutes_intros]: "commutes (arrive k bs) (get_secure k)"
  unfolding get_secure_def by (rule commutes_get_conn) (unfold more_simps, rule refl, auto intro!: commutes_intros)

lemma commutes_gets_packages [commutes_intros]: "commutes (arrive k bs) (gets (\<lambda>nt. f (nt_packages nt)))"
  by (rule commutes_gets) simp

lemma commutes_drop_package [commutes_intros]: "commutes (arrive k bs) (drop_package pid)"
  by (simp add: drop_package_def commutes_intros)

lemma commutes_send_bytes [commutes_intros]: "commutes (arrive k bs) (send_bytes E k p off len)"
  unfolding send_bytes_def Let_def
  by (rule commutes_get_conn) (unfold more_simps, rule refl, auto intro!: commutes_intros)

lemma commutes_send_raw [commutes_intros]: "commutes (arrive k bs) (send_raw_package E k pid)"
  unfolding send_raw_package_def Let_def
  by (rule commutes_get_conn) (unfold more_simps, rule refl, auto intro!: commutes_intros)

lemma commutes_secure_send [commutes_intros]: "commutes (arrive k bs) (secure_send_package E k pid)"
  unfolding secure_send_package_def Let_def
  by (auto intro!: commutes_intros)

lemma commutes_conn_send [commutes_intros]: "commutes (arrive k bs) (conn_send_package E k pid)"
  unfolding conn_send_package_def Let_def
  by (rule commutes_get_conn) (unfold more_simps, rule refl, auto intro!: commutes_intros)

lemma commutes_send_each [commutes_intros]: "commutes (arrive k bs) (send_each E k ids)"
  by (induction ids) (auto intro!: commutes_intros simp del: bindE_gets bindE_set_conn)

lemma commutes_send_all [commutes_intros]: "commutes (arrive k bs) (send_all_pending_package E k)"
  unfolding send_all_pending_package_def
  by (rule commutes_get_conn) (unfold more_simps, rule refl, auto intro!: commutes_intros)

lemma commutes_secure_send_each [commutes_intros]: "commutes (arrive k bs) (secure_send_each E k ids)"
  by (induction ids) (auto intro!: commutes_intros simp del: bindE_gets bindE_set_conn)

lemma commutes_secure_send_all [commutes_intros]: "commutes (arrive k bs) (secure_send_all_pending E k)"
  unfolding secure_send_all_pending_def by (auto intro!: commutes_intros)

lemma commutes_own_package [commutes_intros]: "commutes (arrive k bs) (own_package E cmd content)"
  unfolding own_package_def by (auto intro!: commutes_intros)

lemma om_erase_updated: "om_erase k (om_update k f m) = om_erase k m"
  by (induction m) (auto simp: om_erase_def om_update_def)

lemma om_update_erased: "om_update k f (om_erase k m) = om_erase k m"
  unfolding om_update_def om_erase_def by (rule map_idI) auto

lemma commutes_destroy [commutes_intros]: "commutes (arrive k bs) (destroy_conn k)"
  unfolding destroy_conn_def
  by (rule commutes_get_conn) (unfold more_simps, rule refl, rule commutes_modify,
    simp add: arrive_def update_conn_def om_erase_updated om_update_erased)

lemma commutes_close [commutes_intros]: "commutes (arrive k bs) (close_conn k)"
  unfolding close_conn_def
  by (rule commutes_get_conn) (unfold more_simps, rule refl, auto intro!: commutes_intros)

lemma commutes_push_message [commutes_intros]: "commutes (arrive k bs) (push_message k pid)"
  unfolding push_message_def by (rule commutes_modify) (simp add: arrive_def update_conn_def)

lemma commutes_deliver [commutes_intros]: "commutes (arrive k bs) (deliver E k len h content)"
  unfolding deliver_def by (auto intro!: commutes_intros)

lemma commutes_start_secure [commutes_intros]: "commutes (arrive k bs) (start_secure E k)"
  unfolding start_secure_def Let_def
  by (rule commutes_get_conn) (unfold more_simps, rule refl, auto intro!: commutes_intros split: prod.split)

lemma buffer_content_more: "buffer_content (more bs c) = buffer_content c"
  by (simp add: buffer_content_def)

lemma read_content_len_more: "read_content_len (more bs c) = read_content_len c"
  by (simp add: read_content_len_def)

lemma commutes_secure_receive [commutes_intros]: "commutes (arrive k bs) (secure_receive E k)"
  unfolding secure_receive_def Let_def
  by (rule commutes_get_conn)
    (unfold more_simps buffer_content_more, rule refl, auto intro!: commutes_intros split: secure_state.split)

lemma commutes_check_version [commutes_intros]: "commutes (arrive k bs) (process_check_package_version E k)"
  unfolding process_check_package_version_def Let_def
  by (rule commutes_get_conn) (unfold more_simps, rule refl, auto intro!: commutes_intros)

lemma commutes_on_receive [commutes_intros]: "commutes (arrive k bs) (on_receive_complete_package E k)"
  unfolding on_receive_complete_package_def Let_def
  by (rule commutes_get_conn) (unfold more_simps buffer_content_more, rule refl, auto intro!: commutes_intros)

section \<open>What processing a package leaves alone\<close>

definition reading :: "'k conn \<Rightarrow> bytes \<times> bytes \<times> size_t \<times> int \<times> receive_state \<times> bytes \<times> bool" where
  "reading c = (cn_header c, cn_content c, cn_length c, cn_receive_len c, cn_receive_state c,
     so_in (cn_socket c), so_eof (cn_socket c))"

definition reads_as :: "int \<Rightarrow> bytes \<times> bytes \<times> size_t \<times> int \<times> receive_state \<times> bytes \<times> bool \<Rightarrow> ('k, 'd) net \<Rightarrow> bool" where
  "reads_as k x nt \<longleftrightarrow> om_ok (nt_conns nt) \<and> (\<forall>c. find_conn nt k = Some c \<longrightarrow> reading c = x)"

lemma keeps_list: "keeps P m \<Longrightarrow> (\<And>a as. keeps P (f a as)) \<Longrightarrow> keeps P (case x of [] \<Rightarrow> m | a # as \<Rightarrow> f a as)"
  by (cases x) simp_all

lemma keeps_get_conn: "keeps P (get_conn k)"
  by (simp add: get_conn_def keeps_getsE)

lemma keeps_deref: "keeps P (deref_package pid)"
  by (simp add: deref_package_def keeps_getsE)

lemma keeps_get_secure: "keeps P (get_secure k)"
  unfolding get_secure_def by (intro keeps_intros keeps_get_conn)

lemma keeps_net_packages: "keeps (reads_as k x) (on_net_packages m)"
  by (auto simp: keeps_def zoom_def reads_as_def find_conn_def split: prod.split)

lemma keeps_set_conn:
  assumes "\<And>c. reading (f c) = reading c"
  shows "keeps (reads_as k x) (set_conn k f)"
  using assms by (auto simp: keeps_def set_conn_def reads_as_def) (auto simp: update_conn_def)

lemma reading_updates [simp]:
  "reading (c\<lparr>cn_send_list := x1\<rparr>) = reading c" "reading (c\<lparr>cn_send_len := x2\<rparr>) = reading c"
  "reading (c\<lparr>cn_is_opening := x3\<rparr>) = reading c" "reading (c\<lparr>cn_is_closing := x3\<rparr>) = reading c"
  "reading (c\<lparr>cn_watch := x3\<rparr>) = reading c" "reading (c\<lparr>cn_secure := x4\<rparr>) = reading c"
  "reading (c\<lparr>cn_pending := x5\<rparr>) = reading c" "reading (update_secure f c) = reading c"
  "reading (on_socket (\<lambda>so. so\<lparr>so_out := g so, so_room := h so\<rparr>) c) = reading c"
  by (simp_all add: reading_def update_secure_def on_socket_def)

lemma keeps_destroy: "keeps (reads_as k x) (destroy_conn k)"
  unfolding destroy_conn_def
  by (intro keeps_intros keeps_get_conn keeps_modify) (auto simp: reads_as_def find_conn_def)

lemma keeps_push_message: "keeps (reads_as k x) (push_message k pid)"
  unfolding push_message_def by (rule keeps_modify) (simp add: reads_as_def find_conn_def)

lemmas reads_intros = keeps_intros keeps_list keeps_get_conn keeps_deref keeps_get_secure keeps_net_packages
  keeps_set_conn keeps_destroy keeps_push_message

lemma keeps_send_bytes: "keeps (reads_as k x) (send_bytes E k p off len)"
  unfolding send_bytes_def Let_def by (intro reads_intros) simp_all

lemma keeps_drop: "keeps (reads_as k x) (drop_package pid)"
  unfolding drop_package_def by (intro reads_intros)

lemma keeps_send_raw: "keeps (reads_as k x) (send_raw_package E k pid)"
  unfolding send_raw_package_def Let_def by (intro reads_intros keeps_send_bytes keeps_drop) simp_all

lemma keeps_secure_send: "keeps (reads_as k x) (secure_send_package E k pid)"
  unfolding secure_send_package_def by (intro reads_intros keeps_send_raw) simp_all

lemma keeps_conn_send: "keeps (reads_as k x) (conn_send_package E k pid)"
  unfolding conn_send_package_def by (intro reads_intros keeps_send_raw keeps_secure_send keeps_drop) simp_all

lemma keeps_send_each: "keeps (reads_as k x) (send_each E k ids)"
  by (induction ids) (auto intro!: reads_intros keeps_conn_send simp del: bindE_gets bindE_set_conn)

lemma keeps_secure_send_each: "keeps (reads_as k x) (secure_send_each E k ids)"
  by (induction ids) (auto intro!: reads_intros keeps_secure_send simp del: bindE_gets bindE_set_conn)

lemma keeps_send_all: "keeps (reads_as k x) (send_all_pending_package E k)" "keeps (reads_as k x) (secure_send_all_pending E k)"
  unfolding send_all_pending_package_def secure_send_all_pending_def
  by (intro reads_intros keeps_send_each keeps_secure_send_each)+

lemma keeps_own_package: "keeps (reads_as k x) (own_package E cmd content)"
  unfolding own_package_def by (intro reads_intros)

lemma keeps_close: "keeps (reads_as k x) (close_conn k)"
  unfolding close_conn_def by (intro reads_intros) simp_all

lemma keeps_deliver: "keeps (reads_as k x) (deliver E k len h content)"
  unfolding deliver_def by (intro reads_intros)

lemma keeps_start_secure: "keeps (reads_as k x) (start_secure E k)"
  unfolding start_secure_def Let_def
  by (auto intro!: reads_intros keeps_own_package keeps_send_raw split: prod.split)

lemma keeps_secure_receive: "keeps (reads_as k x) (secure_receive E k)"
  unfolding secure_receive_def Let_def
  by (auto intro!: reads_intros keeps_send_all keeps_own_package keeps_send_raw keeps_deliver split: secure_state.split)

lemma keeps_check_version: "keeps (reads_as k x) (process_check_package_version E k)"
  unfolding process_check_package_version_def Let_def
  by (intro reads_intros keeps_own_package keeps_send_raw keeps_close)

lemma keeps_on_receive: "keeps (reads_as k x) (on_receive_complete_package E k)"
  unfolding on_receive_complete_package_def Let_def
  by (auto intro!: reads_intros keeps_close keeps_start_secure keeps_send_all keeps_secure_receive keeps_deliver)

section \<open>One pass\<close>

text \<open>Where a connection stands between two passes.\<close>

definition conn_ok :: "'k conn \<Rightarrow> bool" where
  "conn_ok c \<longleftrightarrow> cn_length c \<in> set buffer_lengths \<and> 0 \<le> cn_receive_len c \<and> (case cn_receive_state c of
     RECEIVE_HEADER \<Rightarrow> cn_receive_len c \<le> int (length (cn_header c)) \<and> cn_receive_len c < int header_len
   | RECEIVE_CONTENT \<Rightarrow> cn_receive_len c \<le> int (length (cn_content c)) \<and>
       (read_content_len c = 0 \<longrightarrow> cn_receive_len c = 0))"

definition net_ok :: "int \<Rightarrow> ('k, 'd) net \<Rightarrow> bool" where
  "net_ok k nt \<longleftrightarrow> om_ok (nt_conns nt) \<and> (\<forall>c. find_conn nt k = Some c \<longrightarrow> conn_ok c)"

text \<open>The bytes of a pass stored, and what follows.\<close>

definition header_got :: "'k conn \<Rightarrow> 'k conn" where
  "header_got c = (let so = cn_socket c; n = nat (int header_len - cn_receive_len c); bs = take n (so_in so) in
     c\<lparr>cn_socket := so\<lparr>so_in := drop n (so_in so)\<rparr>, cn_header := take (nat (cn_receive_len c)) (cn_header c) @ bs,
       cn_receive_len := cn_receive_len c + int (length bs)\<rparr>)"

definition content_got :: "size_t \<Rightarrow> 'k conn \<Rightarrow> 'k conn" where
  "content_got l c = (let so = cn_socket c; n = nat (read_content_len c - cn_receive_len c); bs = take n (so_in so) in
     c\<lparr>cn_socket := so\<lparr>so_in := drop n (so_in so)\<rparr>, cn_length := l,
       cn_content := take (nat (cn_receive_len c)) (cn_content c) @ bs,
       cn_receive_len := cn_receive_len c + int (length bs)\<rparr>)"

definition after_header :: "('p, 'k) net_env \<Rightarrow> int \<Rightarrow> ('k, 'd, bool) net_exec" where
  "after_header E k = bindE (process_check_package_version E k) (\<lambda>ok. if \<not> ok then ret False
     else bindE (set_conn k (\<lambda>c. if cn_receive_len c = int header_len
       then c\<lparr>cn_receive_len := 0, cn_receive_state := RECEIVE_CONTENT\<rparr> else c)) (\<lambda>_. ret True))"

definition after_content :: "('p, 'k) net_env \<Rightarrow> int \<Rightarrow> ('k, 'd, bool) net_exec" where
  "after_content E k = bindE (get_conn k) (\<lambda>c. if cn_receive_len c \<noteq> read_content_len c then ret True
     else bindE (set_conn k (\<lambda>c. c\<lparr>cn_receive_len := 0, cn_receive_state := RECEIVE_HEADER\<rparr>)) (\<lambda>_.
       on_receive_complete_package E k))"

lemma receive_header_eq:
  assumes c: "find_conn nt k = Some c" and ok: "net_ok k nt" and state: "cn_receive_state c = RECEIVE_HEADER"
  shows "receive_header E k nt =
    (if so_in (cn_socket c) = []
     then if so_eof (cn_socket c) then bindE (destroy_conn k) (\<lambda>_. ret False) nt else (Inr False, nt)
     else after_header E k (update_conn k header_got nt))"
proof -
  have old: "0 < nat (int header_len - cn_receive_len c)" using ok c state by (simp add: net_ok_def conn_ok_def)
  have "update_conn k (\<lambda>c'. (on_socket (\<lambda>so. so\<lparr>so_in := drop (nat (int header_len - cn_receive_len c)) (so_in so)\<rparr>) c')\<lparr>
      cn_header := take (nat (cn_receive_len c)) (cn_header c') @ take (nat (int header_len - cn_receive_len c)) (so_in (cn_socket c)),
      cn_receive_len := cn_receive_len c + int (min (length (so_in (cn_socket c))) (nat (int header_len - cn_receive_len c)))\<rparr>) nt =
    update_conn k header_got nt"
    using ok c by (intro update_conn_cong) (auto simp: net_ok_def header_got_def Let_def on_socket_def)
  with c old show ?thesis
    by (simp add: receive_header_def receive_bytes_def Let_def bindE_get_conn bindE_def [of "bindE _ _"]
        update_conn_compose after_header_def on_socket_def)
qed

text \<open>What \<open>content_buffer\<close> and the check behind it come to.\<close>

definition room_for :: "'k conn \<Rightarrow> size_t res option" where
  "room_for c = (case expect_content_length (word_of_int (read_content_len c)) (cn_length c) of
     None \<Rightarrow> Some (Inl Endless)
   | Some (Inl e, _) \<Rightarrow> Some (Inl e)
   | Some (Inr _, l) \<Rightarrow> if l - HEADER_LEN < word_of_int (read_content_len c) then None else Some (Inr l))"

lemma receive_content_eq:
  assumes c: "find_conn nt k = Some c" and ok: "om_ok (nt_conns nt)"
  shows "read_content_len c = 0 \<Longrightarrow> receive_content E k nt = after_content E k nt"
    and "read_content_len c \<noteq> 0 \<Longrightarrow> room_for c = Some (Inr l) \<Longrightarrow> cn_receive_len c < read_content_len c \<Longrightarrow>
      receive_content E k nt =
      (if so_in (cn_socket c) = []
       then if so_eof (cn_socket c) then bindE (destroy_conn k) (\<lambda>_. ret False) (update_conn k (\<lambda>c. c\<lparr>cn_length := l\<rparr>) nt)
            else (Inr False, update_conn k (\<lambda>c. c\<lparr>cn_length := l\<rparr>) nt)
       else after_content E k (update_conn k (content_got l) nt))"
    and "receive_content E k nt = (Inr True, nt') \<Longrightarrow> read_content_len c \<noteq> 0 \<Longrightarrow>
      (\<exists>l. room_for c = Some (Inr l)) \<and> cn_receive_len c < read_content_len c \<and> so_in (cn_socket c) \<noteq> []"
proof -
  show "read_content_len c = 0 \<Longrightarrow> receive_content E k nt = after_content E k nt"
    by (simp add: receive_content_def receive_content_bytes_def Let_def bindE_get_conn [OF c] bindE_def [of "bindE _ _"]
        after_content_def)
  show "receive_content E k nt =
      (if so_in (cn_socket c) = []
       then if so_eof (cn_socket c) then bindE (destroy_conn k) (\<lambda>_. ret False) (update_conn k (\<lambda>c. c\<lparr>cn_length := l\<rparr>) nt)
            else (Inr False, update_conn k (\<lambda>c. c\<lparr>cn_length := l\<rparr>) nt)
       else after_content E k (update_conn k (content_got l) nt))"
    if len: "read_content_len c \<noteq> 0" and room: "room_for c = Some (Inr l)" and lt: "cn_receive_len c < read_content_len c"
  proof -
    from room obtain b where e: "expect_content_length (word_of_int (read_content_len c)) (cn_length c) = Some (Inr b, l)"
      and l: "\<not> l - HEADER_LEN < word_of_int (read_content_len c)"
      by (auto simp: room_for_def split: option.splits prod.splits sum.splits if_splits)
    have "update_conn k (\<lambda>c'. (on_socket (\<lambda>so. so\<lparr>so_in := drop (nat (read_content_len c - cn_receive_len c)) (so_in so)\<rparr>)
        (c'\<lparr>cn_length := l\<rparr>))\<lparr>
        cn_content := take (nat (cn_receive_len c)) (cn_content c') @ take (nat (read_content_len c - cn_receive_len c)) (so_in (cn_socket c)),
        cn_receive_len := cn_receive_len c + int (min (length (so_in (cn_socket c))) (nat (read_content_len c - cn_receive_len c)))\<rparr>) nt =
      update_conn k (content_got l) nt"
      using ok c by (intro update_conn_cong) (auto simp: content_got_def Let_def on_socket_def)
    moreover have "find_conn (update_conn k (\<lambda>c. c\<lparr>cn_length := l\<rparr>) nt) k = Some (c\<lparr>cn_length := l\<rparr>)" by (simp add: c)
    ultimately show ?thesis
      using len lt l
      by (simp add: receive_content_def receive_content_bytes_def receive_bytes_def Let_def bindE_get_conn c e
          bindE_assoc bindE_Pair update_conn_compose after_content_def on_socket_def)
  qed
  show "(\<exists>l. room_for c = Some (Inr l)) \<and> cn_receive_len c < read_content_len c \<and> so_in (cn_socket c) \<noteq> []"
    if run: "receive_content E k nt = (Inr True, nt')" and len: "read_content_len c \<noteq> 0"
  proof -
    have bytes: "\<exists>nt1. receive_content_bytes E k nt = (Inr True, nt1)"
      using run by (auto simp: receive_content_def elim!: bindE_InrE split: if_splits)
    then show ?thesis
      using bytes len
      by (auto simp: receive_content_bytes_def Let_def bindE_get_conn c receive_bytes_def room_for_def bindE_assoc
          split: option.splits prod.splits sum.splits if_splits)
  qed
qed

section \<open>Calls that come back\<close>

text \<open>\<open>halts m\<close>: no run of \<open>m\<close> gets caught in a loop of a call that it makes.\<close>

definition halts :: "('s, 'a) exec \<Rightarrow> bool" where
  "halts m \<longleftrightarrow> (\<forall>s t. m s \<noteq> (Inl Endless, t))"

named_theorems halts_intros \<open>rules that derive \<open>halts\<close> for a compound call\<close>

lemma halts_ret [halts_intros]: "halts (ret a)"
  by (simp add: halts_def)

lemma halts_fail [halts_intros]: "e \<noteq> Endless \<Longrightarrow> halts (fail e)"
  by (simp add: halts_def)

lemma halts_gets [halts_intros]: "halts (gets f)"
  by (simp add: halts_def)

lemma halts_getsE: "(\<And>s. f s \<noteq> Inl Endless) \<Longrightarrow> halts (getsE f)"
  by (simp add: halts_def getsE_def)

lemma halts_modify [halts_intros]: "halts (modify f)" "halts (set_conn k g)"
  by (simp_all add: halts_def set_conn_def)

lemma halts_bindE [halts_intros]: "halts m \<Longrightarrow> (\<And>a. halts (f a)) \<Longrightarrow> halts (bindE m f)"
  unfolding halts_def bindE_def by (auto split: prod.split sum.split)

lemma halts_if [halts_intros]: "halts m \<Longrightarrow> halts n \<Longrightarrow> halts (if b then m else n)"
  by simp

lemma halts_option [halts_intros]: "halts m \<Longrightarrow> (\<And>a. halts (f a)) \<Longrightarrow> halts (case x of None \<Rightarrow> m | Some a \<Rightarrow> f a)"
  by (cases x) simp_all

lemma halts_list [halts_intros]: "halts m \<Longrightarrow> (\<And>a as. halts (f a as)) \<Longrightarrow> halts (case x of [] \<Rightarrow> m | a # as \<Rightarrow> f a as)"
  by (cases x) simp_all

lemma halts_zoom [halts_intros]: "halts m \<Longrightarrow> halts (zoom g p m)"
  by (auto simp: halts_def zoom_def split: prod.splits)

lemma halts_get_conn [halts_intros]: "halts (get_conn k)" "halts (deref_package pid)"
  unfolding get_conn_def deref_package_def by (rule halts_getsE, simp split: option.split)+

lemma halts_get_secure [halts_intros]: "halts (get_secure k)"
  unfolding get_secure_def by (intro halts_intros) simp_all

lemma halts_register [halts_intros]: "halts (register_package a n)"
  by (simp add: halts_def register_package_def Let_def)

lemma halts_send_bytes [halts_intros]: "halts (send_bytes E k p off len)"
  unfolding send_bytes_def Let_def by (intro halts_intros halts_getsE) (simp add: read_memory_def)

lemma halts_drop [halts_intros]: "halts (drop_package pid)"
  unfolding drop_package_def by (intro halts_intros)

lemma halts_send_raw [halts_intros]: "halts (send_raw_package E k pid)"
  unfolding send_raw_package_def Let_def by (intro halts_intros)

lemma halts_secure_send [halts_intros]: "halts (secure_send_package E k pid)"
  unfolding secure_send_package_def by (intro halts_intros halts_getsE) (simp add: encrypt_content_def Let_def)

lemma halts_conn_send [halts_intros]: "halts (conn_send_package E k pid)"
  unfolding conn_send_package_def by (intro halts_intros)

lemma halts_send_each [halts_intros]: "halts (send_each E k ids)"
  by (induction ids) (auto intro!: halts_intros simp del: bindE_gets bindE_set_conn)

lemma halts_secure_send_each [halts_intros]: "halts (secure_send_each E k ids)"
  by (induction ids) (auto intro!: halts_intros simp del: bindE_gets bindE_set_conn)

lemma halts_send_all [halts_intros]: "halts (send_all_pending_package E k)" "halts (secure_send_all_pending E k)"
  unfolding send_all_pending_package_def secure_send_all_pending_def by (intro halts_intros; simp)+

lemma halts_own_package [halts_intros]: "halts (own_package E cmd content)"
  unfolding own_package_def by (intro halts_intros)

lemma halts_close [halts_intros]: "halts (destroy_conn k)" "halts (close_conn k)" "halts (push_message k pid)"
  unfolding close_conn_def destroy_conn_def push_message_def by (intro halts_intros)+

lemma halts_deliver: "(\<And>p. content p \<noteq> Inl Endless) \<Longrightarrow> halts (deliver E k n h content)"
  unfolding deliver_def by (intro halts_intros halts_getsE) simp_all

lemma halts_start_secure [halts_intros]: "halts (start_secure E k)"
  unfolding start_secure_def Let_def by (auto intro!: halts_intros split: prod.split)

lemma aes_decrypt_halts: "aes_decrypt dec cipher plain \<noteq> Inl Endless"
  by (simp add: aes_decrypt_def crypt_loop_def)

lemma halts_secure_receive [halts_intros]: "halts (secure_receive E k)"
  unfolding secure_receive_def Let_def
  by (auto intro!: halts_intros halts_deliver simp: aes_decrypt_halts split: secure_state.split)

lemma halts_check_version [halts_intros]: "halts (process_check_package_version E k)"
  unfolding process_check_package_version_def Let_def by (intro halts_intros)

lemma halts_on_receive [halts_intros]: "halts (on_receive_complete_package E k)"
  unfolding on_receive_complete_package_def Let_def by (auto intro!: halts_intros halts_deliver)

lemma halts_after: "halts (after_header E k)" "halts (after_content E k)"
  unfolding after_header_def after_content_def by (intro halts_intros)+

text \<open>The lengths in a header are integers of 32 bits.\<close>

lemma of_bytes_bounds: "0 \<le> of_bytes bs \<and> of_bytes bs < 256 ^ length bs"
proof (induction bs)
  case (Cons b bs)
  have "0 \<le> uint b" "uint b < 256" using uint_lt2p [of b] by simp_all
  with Cons show ?case by simp
qed simp

lemma signed_of_bytes_bounds: "- (256 ^ length bs) \<le> 2 * signed_of_bytes bs \<and> 2 * signed_of_bytes bs < 256 ^ length bs"
  using of_bytes_bounds [of bs] by (auto simp: signed_of_bytes_def Let_def)

lemma read_content_len_bounds: "- (2 ^ 31) \<le> read_content_len c" "read_content_len c < 2 ^ 31"
proof -
  have raw: "- (2 ^ 31) \<le> h_content_length (read_header bs) \<and> h_content_length (read_header bs) < 2 ^ 31" for bs
  proof -
    have "(256 :: int) ^ length (take 4 (drop 6 bs)) \<le> 256 ^ 4" by (rule power_increasing) simp_all
    with signed_of_bytes_bounds [of "take 4 (drop 6 bs)"] show ?thesis by (simp add: read_header_def)
  qed
  have "- (2 ^ 31) \<le> to_int n \<and> to_int n < 2 ^ 31" for n
    using sint_greater_eq [of "ucast n :: 32 word"] sint_less [of "ucast n :: 32 word"] by (simp add: to_int_def)
  with raw show "- (2 ^ 31) \<le> read_content_len c" "read_content_len c < 2 ^ 31"
    by (simp_all add: read_content_len_def get_content_length_def Let_def)
qed

lemma room_for_spec:
  assumes "cn_length c \<in> set buffer_lengths"
  shows "room_for c = Some (Inr l) \<Longrightarrow> l \<in> set buffer_lengths"
    and "room_for c = Some (Inl Endless) \<Longrightarrow> - 17 \<le> read_content_len c \<and> read_content_len c < 0"
    and "0 \<le> read_content_len c \<Longrightarrow> read_content_len c \<le> 65518 \<Longrightarrow> \<exists>l. room_for c = Some (Inr l) \<and> l \<in> set buffer_lengths"
proof -
  note spec = expect_content_length_spec [OF assms read_content_len_bounds [of c]]
  show "room_for c = Some (Inr l) \<Longrightarrow> l \<in> set buffer_lengths"
    using spec assms by (auto simp: room_for_def split: option.splits prod.splits sum.splits if_splits bool.splits)
  show "room_for c = Some (Inl Endless) \<Longrightarrow> - 17 \<le> read_content_len c \<and> read_content_len c < 0"
    using spec by (auto simp: room_for_def split: option.splits prod.splits sum.splits if_splits bool.splits)
  assume len: "0 \<le> read_content_len c" "read_content_len c \<le> 65518"
  with spec obtain l where l: "expect_content_length (word_of_int (read_content_len c)) (cn_length c) = Some (Inr True, l)"
    "l \<in> set buffer_lengths" "unat HEADER_LEN + nat (read_content_len c) \<le> unat l"
    by (auto split: option.splits prod.splits sum.splits if_splits bool.splits)
  have "unat (word_of_int (read_content_len c) :: size_t) = nat (read_content_len c)"
    using len by (intro unat_word_of_int) auto
  moreover have "HEADER_LEN \<le> l" using l(3) by (simp add: word_le_nat_alt)
  then have "unat (l - HEADER_LEN) = unat l - unat HEADER_LEN" by (rule unat_sub)
  ultimately have "\<not> l - HEADER_LEN < word_of_int (read_content_len c)"
    using l(3) by (simp add: word_less_nat_alt)
  with l show "\<exists>l. room_for c = Some (Inr l) \<and> l \<in> set buffer_lengths" by (simp add: room_for_def)
qed

section \<open>Passes and later bytes\<close>

lemma header_got_simps [simp]:
  "cn_receive_state (header_got c) = cn_receive_state c" "cn_is_closing (header_got c) = cn_is_closing c"
  "so_eof (cn_socket (header_got c)) = so_eof (cn_socket c)" "cn_length (header_got c) = cn_length c"
  "cn_receive_state (content_got l c) = cn_receive_state c" "cn_secure (content_got l c) = cn_secure c"
  "cn_header (content_got l c) = cn_header c" "cn_length (content_got l c) = l"
  by (simp_all add: header_got_def content_got_def Let_def)

lemma read_content_len_got [simp]: "read_content_len (content_got l c) = read_content_len c"
  by (simp add: read_content_len_def)

lemma header_got_full:
  "nat (int header_len - cn_receive_len c) \<le> length (so_in (cn_socket c)) \<Longrightarrow> header_got (more ys c) = more ys (header_got c)"
  by (simp add: header_got_def Let_def more_def on_socket_def)

lemma min_part: "n < m \<Longrightarrow> min (n + k) m = n + min k (m - (n :: nat))"
  by simp

lemma header_got_part:
  assumes "length (so_in (cn_socket c)) < nat (int header_len - cn_receive_len c)"
    and "0 \<le> cn_receive_len c" "cn_receive_len c \<le> int (length (cn_header c))"
  shows "header_got (more ys (header_got c)) = header_got (more ys c)"
proof -
  define n m where "n = nat (int header_len - cn_receive_len c)" and "m = length (so_in (cn_socket c))"
  define old where "old = nat (cn_receive_len c)"
  have len: "cn_receive_len c = int old" "old \<le> length (cn_header c)" using assms(2,3) by (simp_all add: old_def)
  have m: "m < n" using assms(1) by (simp add: n_def m_def)
  have n: "nat (int header_len - (int old + int m)) = n - m" "nat (int old + int m) = old + m"
    using assms(1) len by (simp_all add: n_def m_def)
  have n0: "nat (int header_len - int old) = n" by (simp add: n_def len)
  have first: "header_got c = c\<lparr>cn_socket := (cn_socket c)\<lparr>so_in := []\<rparr>,
      cn_header := take old (cn_header c) @ so_in (cn_socket c), cn_receive_len := int old + int m\<rparr>"
    using m by (simp add: header_got_def Let_def m_def len n0)
  have "header_got (more ys (header_got c)) = c\<lparr>cn_socket := (cn_socket c)\<lparr>so_in := drop (n - m) ys\<rparr>,
      cn_header := take old (cn_header c) @ so_in (cn_socket c) @ take (n - m) ys,
      cn_receive_len := int old + int m + int (length (take (n - m) ys))\<rparr>"
    unfolding first more_def on_socket_def
    using len(2) by (simp add: header_got_def Let_def m_def n [unfolded m_def])
  moreover have "header_got (more ys c) = c\<lparr>cn_socket := (cn_socket c)\<lparr>so_in := drop (n - m) ys\<rparr>,
      cn_header := take old (cn_header c) @ so_in (cn_socket c) @ take (n - m) ys,
      cn_receive_len := int old + int m + int (length (take (n - m) ys))\<rparr>"
    unfolding more_def on_socket_def
    using m by (simp add: header_got_def Let_def len n0 m_def min_part)
  ultimately show ?thesis by simp
qed

lemma read_content_len_updates:
  "read_content_len (c\<lparr>cn_socket := s\<rparr>) = read_content_len c"
  "read_content_len (c\<lparr>cn_length := l\<rparr>) = read_content_len c" "read_content_len (c\<lparr>cn_content := bs\<rparr>) = read_content_len c"
  "read_content_len (c\<lparr>cn_receive_len := n\<rparr>) = read_content_len c"
  by (simp_all add: read_content_len_def)

lemma content_got_full:
  assumes "nat (read_content_len c - cn_receive_len c) \<le> length (so_in (cn_socket c))"
  shows "content_got l (more ys c) = more ys (content_got l c)"
proof -
  define n where "n = nat (read_content_len c - cn_receive_len c)"
  have "n \<le> length (so_in (cn_socket c))" using assms by (simp add: n_def)
  then show ?thesis
    by (simp add: content_got_def Let_def more_def on_socket_def read_content_len_updates flip: n_def)
qed

lemma content_got_part:
  assumes "length (so_in (cn_socket c)) < nat (read_content_len c - cn_receive_len c)"
    and "0 \<le> cn_receive_len c" "cn_receive_len c \<le> int (length (cn_content c))"
  shows "content_got l (more ys (content_got l c)) = content_got l (more ys c)"
proof -
  define n m where "n = nat (read_content_len c - cn_receive_len c)" and "m = length (so_in (cn_socket c))"
  define old where "old = nat (cn_receive_len c)"
  have len: "cn_receive_len c = int old" "old \<le> length (cn_content c)" using assms(2,3) by (simp_all add: old_def)
  have m: "m < n" using assms(1) by (simp add: n_def m_def)
  have n: "nat (read_content_len c - (int old + int m)) = n - m" "nat (int old + int m) = old + m"
    using assms(1) len by (simp_all add: n_def m_def)
  have n0: "nat (read_content_len c - int old) = n" by (simp add: n_def len)
  have first: "content_got l c = c\<lparr>cn_socket := (cn_socket c)\<lparr>so_in := []\<rparr>, cn_length := l,
      cn_content := take old (cn_content c) @ so_in (cn_socket c), cn_receive_len := int old + int m\<rparr>"
    using m by (simp add: content_got_def Let_def m_def len n0)
  have "content_got l (more ys (content_got l c)) = c\<lparr>cn_socket := (cn_socket c)\<lparr>so_in := drop (n - m) ys\<rparr>, cn_length := l,
      cn_content := take old (cn_content c) @ so_in (cn_socket c) @ take (n - m) ys,
      cn_receive_len := int old + int m + int (length (take (n - m) ys))\<rparr>"
    unfolding first more_def on_socket_def
    using len(2) by (simp add: content_got_def Let_def m_def n [unfolded m_def] read_content_len_updates)
  moreover have "content_got l (more ys c) = c\<lparr>cn_socket := (cn_socket c)\<lparr>so_in := drop (n - m) ys\<rparr>, cn_length := l,
      cn_content := take old (cn_content c) @ so_in (cn_socket c) @ take (n - m) ys,
      cn_receive_len := int old + int m + int (length (take (n - m) ys))\<rparr>"
    unfolding more_def on_socket_def
    using m by (simp add: content_got_def Let_def len n0 m_def min_part read_content_len_updates)
  ultimately show ?thesis by simp
qed

lemma check_version_True: "process_check_package_version E k nt = (Inr True, nt') \<Longrightarrow> nt' = nt"
  by (cases "find_conn nt k")
    (auto simp: process_check_package_version_def bindE_get_conn_None bindE_get_conn Let_def bindE_assoc
      simp flip: bindE_assoc split: if_splits)

lemma commutes_after_header: "commutes (arrive k bs) (after_header E k)"
  unfolding after_header_def by (auto intro!: commutes_intros)

lemma commutes_after_content: "commutes (arrive k bs) (after_content E k)"
  unfolding after_content_def
  by (rule commutes_get_conn) (unfold more_simps read_content_len_more, rule refl, auto intro!: commutes_intros)

lemma receive_for_state_cong: "receive_pass E k a = receive_pass E k b \<Longrightarrow> receive_for_state E k a = receive_for_state E k b"
  by (subst (1 2) receive_for_state.simps) simp

lemma conn_ok_more: "conn_ok (more bs c) = conn_ok c"
  by (cases "cn_receive_state c") (simp_all add: conn_ok_def read_content_len_more)

lemma net_ok_arrive: "net_ok k nt \<Longrightarrow> net_ok k (arrive k bs nt)"
  by (auto simp: net_ok_def conn_ok_more) (simp add: arrive_def update_conn_def)

lemma room_for_grown:
  assumes "room_for c = Some (Inr l)" and "read_content_len c' = read_content_len c" and "cn_length c' = l"
  shows "room_for c' = Some (Inr l)"
  using assms by (auto simp: room_for_def expect_content_length_def split: option.splits prod.splits sum.splits if_splits)

lemma room_for_more: "room_for (more bs c) = room_for c"
  unfolding room_for_def read_content_len_more more_simps ..

lemma receive_pass_eq:
  assumes "find_conn nt k = Some c"
  shows "receive_pass E k nt = (case cn_receive_state c of
    RECEIVE_HEADER \<Rightarrow> receive_header E k nt | RECEIVE_CONTENT \<Rightarrow> receive_content E k nt)"
  using assms by (simp add: receive_pass_def bindE_get_conn split: receive_state.split)

lemma update_arrive:
  assumes "om_ok (nt_conns nt)" and "find_conn nt k = Some c" and "f (more ys c) = g c"
  shows "update_conn k f (arrive k ys nt) = update_conn k g nt"
  unfolding arrive_def update_conn_compose using assms by (intro update_conn_cong) auto

lemma arrive_update: "arrive k ys (update_conn k f nt) = update_conn k (\<lambda>c. more ys (f c)) nt"
  by (simp add: arrive_def update_conn_compose)

text \<open>
  A pass that goes on has read all the bytes it asked for, and then does the same when more
  bytes have arrived; or it has read what there was, and the pass that reads the rest ends
  where one pass over all of it ends.
\<close>

lemma header_pass_goes_on:
  assumes c: "find_conn nt k = Some c" and ok: "net_ok k nt" and state: "cn_receive_state c = RECEIVE_HEADER"
    and run: "receive_pass E k nt = (Inr True, nt')"
  shows "receive_pass E k (arrive k ys nt) = (Inr True, arrive k ys nt') \<or>
    receive_pass E k (arrive k ys nt) = receive_pass E k (arrive k ys nt') \<or> ys = []"
proof -
  have conns: "om_ok (nt_conns nt)" and cok: "conn_ok c" using ok c by (simp_all add: net_ok_def)
  have ne: "so_in (cn_socket c) \<noteq> []" and run: "after_header E k (update_conn k header_got nt) = (Inr True, nt')"
    using run by (auto simp: receive_pass_eq [OF c] state receive_header_eq [OF c ok state] split: if_splits)
  have c': "find_conn (arrive k ys nt) k = Some (more ys c)" by (simp add: c)
  have pass: "receive_pass E k (arrive k ys nt) = after_header E k (update_conn k header_got (arrive k ys nt))"
    using ne by (simp add: receive_pass_eq [OF c'] state receive_header_eq [OF c' net_ok_arrive [OF ok]])
  show ?thesis
  proof (cases "nat (int header_len - cn_receive_len c) \<le> length (so_in (cn_socket c))")
    case True
    have "update_conn k header_got (arrive k ys nt) = arrive k ys (update_conn k header_got nt)"
      unfolding arrive_update by (rule update_arrive [OF conns c]) (rule header_got_full [OF True])
    with pass commutesD [OF commutes_after_header run] show ?thesis by simp
  next
    case False
    then have lt: "length (so_in (cn_socket c)) < nat (int header_len - cn_receive_len c)" by simp
    have got: "cn_receive_len (header_got c) = cn_receive_len c + int (length (so_in (cn_socket c)))"
      "so_in (cn_socket (header_got c)) = []"
      "cn_header (header_got c) = take (nat (cn_receive_len c)) (cn_header c) @ so_in (cn_socket c)"
      using lt by (simp_all add: header_got_def Let_def)
    have less: "cn_receive_len c + int (length (so_in (cn_socket c))) < int header_len" using lt by linarith
    then have short: "cn_receive_len (header_got c) \<noteq> int header_len" by (simp add: got)
    from run obtain go s where check: "process_check_package_version E k (update_conn k header_got nt) = (Inr go, s)"
      and rest: "(if \<not> go then ret False else bindE (set_conn k (\<lambda>c. if cn_receive_len c = int header_len
        then c\<lparr>cn_receive_len := 0, cn_receive_state := RECEIVE_CONTENT\<rparr> else c)) (\<lambda>_. ret True)) s = (Inr True, nt')"
      unfolding after_header_def by (rule bindE_InrE)
    from rest have go by (cases go) simp_all
    with check have "s = update_conn k header_got nt" by (intro check_version_True) simp
    with rest \<open>go\<close> have "nt' = update_conn k (\<lambda>c. if cn_receive_len c = int header_len
        then c\<lparr>cn_receive_len := 0, cn_receive_state := RECEIVE_CONTENT\<rparr> else c) (update_conn k header_got nt)"
      by simp
    then have nt': "nt' = update_conn k header_got nt"
      unfolding update_conn_compose using short c by (auto intro!: update_conn_cong [OF conns])
    have len: "0 \<le> cn_receive_len c" "cn_receive_len c \<le> int (length (cn_header c))"
      using cok state by (simp_all add: conn_ok_def)
    have d: "find_conn (arrive k ys nt') k = Some (more ys (header_got c))" by (simp add: nt' c)
    have "conn_ok (header_got c)" using cok len less state by (simp add: conn_ok_def got)
    moreover have "om_ok (nt_conns nt')" using conns by (simp add: nt' update_conn_def)
    ultimately have dok: "net_ok k (arrive k ys nt')" using c by (intro net_ok_arrive) (simp add: net_ok_def nt')
    have "update_conn k header_got (arrive k ys nt') = update_conn k header_got (arrive k ys nt)"
      unfolding nt' arrive_update update_conn_compose arrive_def using conns c header_got_part [OF lt len]
      by (intro update_conn_cong) auto
    then have "ys \<noteq> [] \<Longrightarrow> receive_pass E k (arrive k ys nt') = after_header E k (update_conn k header_got (arrive k ys nt))"
      by (simp add: receive_pass_eq [OF d] state receive_header_eq [OF d dok])
    then show ?thesis unfolding pass by metis
  qed
qed

lemma content_pass_goes_on:
  assumes c: "find_conn nt k = Some c" and ok: "net_ok k nt" and state: "cn_receive_state c = RECEIVE_CONTENT"
    and run: "receive_pass E k nt = (Inr True, nt')"
  shows "receive_pass E k (arrive k ys nt) = (Inr True, arrive k ys nt') \<or>
    receive_pass E k (arrive k ys nt) = receive_pass E k (arrive k ys nt') \<or> ys = []"
proof -
  have conns: "om_ok (nt_conns nt)" and cok: "conn_ok c" using ok c by (simp_all add: net_ok_def)
  have conns': "om_ok (nt_conns (arrive k ys nt))" using net_ok_arrive [OF ok] by (simp add: net_ok_def)
  have c': "find_conn (arrive k ys nt) k = Some (more ys c)" by (simp add: c)
  have run: "receive_content E k nt = (Inr True, nt')" using run by (simp add: receive_pass_eq [OF c] state)
  have pass: "receive_pass E k (arrive k ys nt) = receive_content E k (arrive k ys nt)"
    by (simp add: receive_pass_eq [OF c'] state)
  show ?thesis
  proof (cases "read_content_len c = 0")
    case True
    then have "after_content E k nt = (Inr True, nt')" using run by (simp add: receive_content_eq(1) [OF c conns])
    from commutesD [OF commutes_after_content this]
    have "after_content E k (arrive k ys nt) = (Inr True, arrive k ys nt')" .
    with True pass show ?thesis by (simp add: receive_content_eq(1) [OF c' conns'] read_content_len_more)
  next
    case len: False
    from receive_content_eq(3) [OF c conns run len] obtain l where room: "room_for c = Some (Inr l)"
      and lt: "cn_receive_len c < read_content_len c" and ne: "so_in (cn_socket c) \<noteq> []" by blast
    have run: "after_content E k (update_conn k (content_got l) nt) = (Inr True, nt')"
      using run ne by (simp add: receive_content_eq(2) [OF c conns len room lt])
    have pass: "receive_pass E k (arrive k ys nt) = after_content E k (update_conn k (content_got l) (arrive k ys nt))"
      using pass ne len room lt
      by (simp add: receive_content_eq(2) [OF c' conns', of l] room_for_more read_content_len_more)
    show ?thesis
    proof (cases "nat (read_content_len c - cn_receive_len c) \<le> length (so_in (cn_socket c))")
      case True
      have "update_conn k (content_got l) (arrive k ys nt) = arrive k ys (update_conn k (content_got l) nt)"
        unfolding arrive_update by (rule update_arrive [OF conns c]) (rule content_got_full [OF True])
      with pass commutesD [OF commutes_after_content run] show ?thesis by simp
    next
      case False
      then have part: "length (so_in (cn_socket c)) < nat (read_content_len c - cn_receive_len c)" by simp
      then have short: "cn_receive_len (content_got l c) < read_content_len c" by (simp add: content_got_def Let_def)
      have e: "find_conn (update_conn k (content_got l) nt) k = Some (content_got l c)" by (simp add: c)
      from run short have nt': "nt' = update_conn k (content_got l) nt"
        by (simp add: after_content_def bindE_get_conn [OF e])
      have old: "0 \<le> cn_receive_len c" "cn_receive_len c \<le> int (length (cn_content c))"
        using cok state by (simp_all add: conn_ok_def)
      have d: "find_conn (arrive k ys nt') k = Some (more ys (content_got l c))" by (simp add: nt' c)
      have dok: "om_ok (nt_conns (arrive k ys nt'))" using conns by (simp add: nt' arrive_def update_conn_def)
      have "update_conn k (content_got l) (arrive k ys nt') = update_conn k (content_got l) (arrive k ys nt)"
        unfolding nt' arrive_update update_conn_compose arrive_def using conns c content_got_part [OF part old]
        by (intro update_conn_cong) auto
      moreover have "room_for (more ys (content_got l c)) = Some (Inr l)"
        using room_for_grown [OF room, of "content_got l c"] by (simp add: room_for_more)
      ultimately have "ys \<noteq> [] \<Longrightarrow> receive_pass E k (arrive k ys nt') = after_content E k (update_conn k (content_got l) (arrive k ys nt))"
        using len short receive_content_eq(2) [OF d dok, of l]
        by (simp add: receive_pass_eq [OF d] state read_content_len_more)
      then show ?thesis unfolding pass by metis
    qed
  qed
qed

lemma pass_goes_on:
  assumes ok: "net_ok k nt" and run: "receive_pass E k nt = (Inr True, nt')"
  shows "receive_for_state E k (arrive k ys nt) = receive_for_state E k (arrive k ys nt')"
proof -
  obtain c where c: "find_conn nt k = Some c"
    using run by (cases "find_conn nt k") (auto simp: receive_pass_def bindE_get_conn_None)
  have "receive_pass E k (arrive k ys nt) = (Inr True, arrive k ys nt') \<or>
    receive_pass E k (arrive k ys nt) = receive_pass E k (arrive k ys nt') \<or> ys = []"
  proof (cases "cn_receive_state c")
    case RECEIVE_HEADER
    show ?thesis by (rule header_pass_goes_on [OF c ok RECEIVE_HEADER run])
  next
    case RECEIVE_CONTENT
    show ?thesis by (rule content_pass_goes_on [OF c ok RECEIVE_CONTENT run])
  qed
  moreover have "receive_for_state E k (arrive k ys nt) = receive_for_state E k (arrive k ys nt')"
    if "receive_pass E k (arrive k ys nt) = (Inr True, arrive k ys nt')"
    using that by (subst receive_for_state.simps) simp
  moreover have "receive_for_state E k nt = receive_for_state E k nt'"
    using run by (subst receive_for_state.simps) simp
  ultimately show ?thesis by (auto intro: receive_for_state_cong)
qed

section \<open>The last pass\<close>

definition gone :: "int \<Rightarrow> ('k, 'd) net \<Rightarrow> bool" where
  "gone k nt \<longleftrightarrow> (\<forall>c. find_conn nt k = Some c \<longrightarrow> cn_is_closing c)"

lemma destroy_gone: "bindE (destroy_conn k) (\<lambda>_. ret False) nt = (Inr False, nt') \<Longrightarrow> gone k nt'"
  by (auto simp: destroy_conn_def bindE_assoc get_conn_def bindE_getsE gone_def find_conn_def split: option.splits)

lemma close_gone: "bindE (close_conn k) (\<lambda>_. ret False) nt = (Inr False, nt') \<Longrightarrow> gone k nt'"
  by (cases "find_conn nt k")
    (auto simp: close_conn_def bindE_assoc bindE_get_conn bindE_get_conn_None destroy_conn_def gone_def find_conn_def
      bindE_Pair split: if_splits, auto simp: update_conn_def map_of_om_update)

lemma check_version_False:
  assumes "process_check_package_version E k nt = (Inr False, nt')"
  shows "gone k nt'"
proof (cases "find_conn nt k")
  case None
  with assms show ?thesis by (simp add: process_check_package_version_def bindE_get_conn_None)
next
  case (Some c)
  with assms show ?thesis
    by (auto simp: process_check_package_version_def bindE_get_conn Let_def split: if_splits
      elim!: bindE_InrE [of "if _ then _ else _"] bindE_InrE [of "bindE _ _"] intro: close_gone)
qed

lemma close_goneI: "close_conn k nt = (Inr (), nt') \<Longrightarrow> gone k nt'"
  by (rule close_gone [where nt = nt]) (simp add: bindE_def)

lemma destroy_goneI: "destroy_conn k nt = (Inr (), nt') \<Longrightarrow> gone k nt'"
  by (rule destroy_gone [where nt = nt]) (simp add: bindE_def)

lemma on_receive_False:
  assumes "on_receive_complete_package E k nt = (Inr False, nt')"
  shows "gone k nt' \<or> (\<exists>c. find_conn nt k = Some c \<and> cn_is_opening c \<and> nt' = nt)"
proof (cases "find_conn nt k")
  case None
  with assms show ?thesis by (simp add: on_receive_complete_package_def bindE_get_conn_None)
next
  case (Some c)
  with assms show ?thesis
    by (auto simp: on_receive_complete_package_def bindE_get_conn Let_def split: if_splits list.splits
      elim!: bindE_InrE intro: close_goneI)
qed

text \<open>Where the loop stops for good: without the connection, or on a package ignored while opening.\<close>

definition stopped :: "int \<Rightarrow> ('k, 'd) net \<Rightarrow> bool" where
  "stopped k nt \<longleftrightarrow> (\<forall>c. find_conn nt k = Some c \<longrightarrow> cn_is_closing c \<or>
     cn_is_opening c \<and> cn_receive_state c = RECEIVE_HEADER \<and> cn_receive_len c = 0)"

lemma gone_stopped: "gone k nt \<Longrightarrow> stopped k nt"
  by (auto simp: gone_def stopped_def)

lemma after_content_False:
  assumes "after_content E k nt = (Inr False, nt')"
  shows "stopped k nt'"
proof (cases "find_conn nt k")
  case None
  with assms show ?thesis by (simp add: after_content_def bindE_get_conn_None)
next
  case (Some c)
  with assms have "on_receive_complete_package E k
      (update_conn k (\<lambda>c. c\<lparr>cn_receive_len := 0, cn_receive_state := RECEIVE_HEADER\<rparr>) nt) = (Inr False, nt')"
    by (simp add: after_content_def bindE_get_conn split: if_splits)
  from on_receive_False [OF this] Some show ?thesis by (auto intro: gone_stopped) (auto simp: stopped_def)
qed

lemma receive_header_False:
  assumes c: "find_conn nt k = Some c" and ok: "net_ok k nt" and state: "cn_receive_state c = RECEIVE_HEADER"
    and run: "receive_header E k nt = (Inr False, nt')"
  shows "stopped k nt' \<or> nt' = nt"
proof -
  have after: "gone k t" if "after_header E k s = (Inr False, t)" for s t
    using that by (auto simp: after_header_def elim!: bindE_InrE split: if_splits intro: check_version_False)
  from run show ?thesis
    by (auto simp: receive_header_eq [OF c ok state] split: if_splits intro: gone_stopped destroy_gone after)
qed

lemma receive_content_False:
  assumes c: "find_conn nt k = Some c" and run: "receive_content E k nt = (Inr False, nt')"
  shows "stopped k nt' \<or> (\<exists>l. room_for c = Some (Inr l) \<and> read_content_len c \<noteq> 0 \<and>
    nt' = update_conn k (\<lambda>c. c\<lparr>cn_length := l\<rparr>) nt)"
proof -
  from run obtain go u where bytes: "receive_content_bytes E k nt = (Inr go, u)"
    and rest: "(if \<not> go then ret False else after_content E k) u = (Inr False, nt')"
    unfolding receive_content_def after_content_def by (rule bindE_InrE)
  show ?thesis
  proof (cases go)
    case True
    with rest show ?thesis by (auto intro: after_content_False)
  next
    case False
    then have u: "u = nt'" using rest by simp
    from bytes False show ?thesis
      unfolding u
      by (auto simp: receive_content_bytes_def Let_def bindE_get_conn c receive_bytes_def room_for_def bindE_assoc
          split: option.splits prod.splits sum.splits if_splits intro: gone_stopped close_gone destroy_gone)
  qed
qed

lemma receive_content_grown:
  assumes c: "find_conn nt k = Some c" and room: "room_for c = Some (Inr l)" and len: "read_content_len c \<noteq> 0"
  shows "receive_content E k (update_conn k (\<lambda>c. c\<lparr>cn_length := l\<rparr>) nt) = receive_content E k nt"
proof -
  have d: "find_conn (update_conn k (\<lambda>c. c\<lparr>cn_length := l\<rparr>) nt) k = Some (c\<lparr>cn_length := l\<rparr>)" by (simp add: c)
  have room': "room_for (c\<lparr>cn_length := l\<rparr>) = Some (Inr l)" by (rule room_for_grown [OF room]) (simp_all add: read_content_len_updates)
  obtain b b' where e: "expect_content_length (word_of_int (read_content_len c)) (cn_length c) = Some (Inr b, l)"
    "expect_content_length (word_of_int (read_content_len c)) l = Some (Inr b', l)"
    using room room' by (auto simp: room_for_def read_content_len_updates split: option.splits prod.splits sum.splits if_splits)
  have "receive_content_bytes E k (update_conn k (\<lambda>c. c\<lparr>cn_length := l\<rparr>) nt) = receive_content_bytes E k nt"
    using len by (simp add: receive_content_bytes_def bindE_get_conn [OF c] bindE_get_conn [OF d] Let_def
        read_content_len_updates e update_conn_compose cong: option.case_cong if_cong)
  then show ?thesis by (simp add: receive_content_def bindE_def [of "receive_content_bytes E k"])
qed

lemma pass_stops:
  assumes ok: "net_ok k nt" and run: "receive_pass E k nt = (Inr False, nt')" and going: "\<not> stopped k nt'"
  shows "receive_pass E k (arrive k ys nt) = receive_pass E k (arrive k ys nt')"
proof -
  obtain c where c: "find_conn nt k = Some c"
    using run by (cases "find_conn nt k") (auto simp: receive_pass_def bindE_get_conn_None)
  show ?thesis
  proof (cases "cn_receive_state c")
    case RECEIVE_HEADER
    from run have "receive_header E k nt = (Inr False, nt')" by (simp add: receive_pass_eq [OF c] RECEIVE_HEADER)
    from receive_header_False [OF c ok RECEIVE_HEADER this] going show ?thesis by simp
  next
    case RECEIVE_CONTENT
    from run have "receive_content E k nt = (Inr False, nt')" by (simp add: receive_pass_eq [OF c] RECEIVE_CONTENT)
    from receive_content_False [OF c this] going obtain l where room: "room_for c = Some (Inr l)"
      and len: "read_content_len c \<noteq> 0" and nt': "nt' = update_conn k (\<lambda>c. c\<lparr>cn_length := l\<rparr>) nt" by blast
    have d: "find_conn (arrive k ys nt) k = Some (more ys c)" by (simp add: c)
    have d': "find_conn (arrive k ys nt') k = Some ((more ys c)\<lparr>cn_length := l\<rparr>)" by (simp add: nt' c)
    have a: "arrive k ys nt' = update_conn k (\<lambda>c. c\<lparr>cn_length := l\<rparr>) (arrive k ys nt)"
      by (simp add: nt' arrive_def update_conn_compose)
    have "receive_content E k (arrive k ys nt') = receive_content E k (arrive k ys nt)"
      unfolding a using room len by (intro receive_content_grown [OF d]) (simp_all add: room_for_more read_content_len_more)
    then show ?thesis by (simp add: receive_pass_eq [OF d] receive_pass_eq [OF d'] RECEIVE_CONTENT)
  qed
qed

section \<open>The loop ends\<close>

definition left_to_read :: "int \<Rightarrow> ('k, 'd) net \<Rightarrow> nat" where
  "left_to_read k nt = (case find_conn nt k of None \<Rightarrow> 0
     | Some c \<Rightarrow> 2 * length (so_in (cn_socket c)) + (if cn_receive_state c = RECEIVE_CONTENT then 1 else 0))"

lemma after_header_True:
  "after_header E k nt = (Inr True, nt') \<Longrightarrow> nt' = update_conn k (\<lambda>c. if cn_receive_len c = int header_len
     then c\<lparr>cn_receive_len := 0, cn_receive_state := RECEIVE_CONTENT\<rparr> else c) nt"
  by (auto simp: after_header_def elim!: bindE_InrE split: if_splits dest!: check_version_True)

lemma after_content_True:
  assumes c: "find_conn nt k = Some c" and ok: "om_ok (nt_conns nt)" and run: "after_content E k nt = (Inr True, nt')"
  shows "if cn_receive_len c = read_content_len c
    then reads_as k (reading (c\<lparr>cn_receive_len := 0, cn_receive_state := RECEIVE_HEADER\<rparr>)) nt' else nt' = nt"
proof (cases "cn_receive_len c = read_content_len c")
  case True
  let ?nt = "update_conn k (\<lambda>c. c\<lparr>cn_receive_len := 0, cn_receive_state := RECEIVE_HEADER\<rparr>) nt"
  have "on_receive_complete_package E k ?nt = (Inr True, nt')"
    using run True by (simp add: after_content_def bindE_get_conn [OF c])
  moreover have "reads_as k (reading (c\<lparr>cn_receive_len := 0, cn_receive_state := RECEIVE_HEADER\<rparr>)) ?nt"
    using c ok by (simp add: reads_as_def) (simp add: update_conn_def)
  ultimately show ?thesis using True keepsD_eq [OF keeps_on_receive] by metis
next
  case False
  with run show ?thesis by (simp add: after_content_def bindE_get_conn [OF c])
qed

lemma header_advances:
  assumes c: "find_conn nt k = Some c" and ok: "net_ok k nt" and state: "cn_receive_state c = RECEIVE_HEADER"
    and run: "receive_header E k nt = (Inr True, nt')"
  shows "net_ok k nt' \<and> left_to_read k nt' < left_to_read k nt"
proof -
  have ne: "so_in (cn_socket c) \<noteq> []" and run: "after_header E k (update_conn k header_got nt) = (Inr True, nt')"
    using run by (auto simp: receive_header_eq [OF c ok state] split: if_splits)
  define c' where "c' = header_got c"
  have old: "0 \<le> cn_receive_len c" "cn_receive_len c \<le> int (length (cn_header c))" "cn_receive_len c < int header_len"
      "cn_length c \<in> set buffer_lengths"
    and conns: "om_ok (nt_conns nt)"
    using ok c state by (simp_all add: net_ok_def conn_ok_def)
  have got: "length (so_in (cn_socket c')) < length (so_in (cn_socket c))" "0 \<le> cn_receive_len c'"
    "cn_receive_len c' \<le> int (length (cn_header c'))" "cn_receive_len c' \<le> int header_len"
    "cn_receive_state c' = RECEIVE_HEADER" "cn_length c' \<in> set buffer_lengths"
    using ne old state by (simp_all add: c'_def header_got_def Let_def min_def, linarith?)
  have nt': "nt' = update_conn k (\<lambda>c. if cn_receive_len c = int header_len
      then c\<lparr>cn_receive_len := 0, cn_receive_state := RECEIVE_CONTENT\<rparr> else c) (update_conn k header_got nt)"
    by (rule after_header_True [OF run])
  have find: "find_conn nt' k = Some (if cn_receive_len c' = int header_len
      then c'\<lparr>cn_receive_len := 0, cn_receive_state := RECEIVE_CONTENT\<rparr> else c')"
    by (simp add: nt' c c'_def)
  have "om_ok (nt_conns nt')" using conns by (simp add: nt' update_conn_def)
  with find c got state show ?thesis by (auto simp: net_ok_def conn_ok_def left_to_read_def)
qed

lemma content_advances:
  assumes c: "find_conn nt k = Some c" and ok: "net_ok k nt" and state: "cn_receive_state c = RECEIVE_CONTENT"
    and run: "receive_content E k nt = (Inr True, nt')"
  shows "net_ok k nt' \<and> left_to_read k nt' < left_to_read k nt"
proof -
  have conns: "om_ok (nt_conns nt)" and old: "0 \<le> cn_receive_len c" "cn_receive_len c \<le> int (length (cn_content c))"
    "read_content_len c = 0 \<longrightarrow> cn_receive_len c = 0" "cn_length c \<in> set buffer_lengths"
    using ok c state by (simp_all add: net_ok_def conn_ok_def)
  have ended: "net_ok k t \<and> left_to_read k t < left_to_read k nt"
    if "reads_as k (reading (d\<lparr>cn_receive_len := 0, cn_receive_state := RECEIVE_HEADER\<rparr>)) t"
      and "length (so_in (cn_socket d)) \<le> length (so_in (cn_socket c))" and "cn_length d \<in> set buffer_lengths" for d t
    using that c state by (cases "find_conn t k") (auto simp: reads_as_def reading_def net_ok_def conn_ok_def left_to_read_def header_len_def)
  show ?thesis
  proof (cases "read_content_len c = 0")
    case True
    then have "after_content E k nt = (Inr True, nt')" using run by (simp add: receive_content_eq(1) [OF c conns])
    from after_content_True [OF c conns this] True old show ?thesis by (intro ended [of c]) simp_all
  next
    case len: False
    from receive_content_eq(3) [OF c conns run len] obtain l where room: "room_for c = Some (Inr l)"
      and lt: "cn_receive_len c < read_content_len c" and ne: "so_in (cn_socket c) \<noteq> []" by blast
    define d where "d = content_got l c"
    have after: "after_content E k (update_conn k (content_got l) nt) = (Inr True, nt')"
      using run ne by (simp add: receive_content_eq(2) [OF c conns len room lt])
    have d: "find_conn (update_conn k (content_got l) nt) k = Some d" by (simp add: c d_def)
    have dconns: "om_ok (nt_conns (update_conn k (content_got l) nt))" using conns by (simp add: update_conn_def)
    define n where "n = nat (read_content_len c - cn_receive_len c)"
    have n: "0 < n" using lt by (simp add: n_def)
    have got: "length (so_in (cn_socket d)) < length (so_in (cn_socket c))" "0 \<le> cn_receive_len d"
      "cn_receive_len d \<le> int (length (cn_content d))" "cn_receive_state d = RECEIVE_CONTENT"
      "read_content_len d = read_content_len c" "cn_length d \<in> set buffer_lengths"
      using n ne old state room_for_spec(1) [OF old(4) room] by (simp_all add: d_def content_got_def Let_def read_content_len_updates flip: n_def)
    show ?thesis
    proof (cases "cn_receive_len d = read_content_len d")
      case True
      with after_content_True [OF d dconns after] got show ?thesis by (intro ended [of d]) simp_all
    next
      case False
      with after_content_True [OF d dconns after] have "nt' = update_conn k (content_got l) nt" by simp
      with d dconns got c state len show ?thesis by (simp add: net_ok_def conn_ok_def left_to_read_def)
    qed
  qed
qed

lemma pass_advances:
  assumes "net_ok k nt" and "receive_pass E k nt = (Inr True, nt')"
  shows "net_ok k nt'" and "left_to_read k nt' < left_to_read k nt"
proof -
  obtain c where c: "find_conn nt k = Some c"
    using assms by (cases "find_conn nt k") (auto simp: receive_pass_def bindE_get_conn_None)
  have "net_ok k nt' \<and> left_to_read k nt' < left_to_read k nt"
    using assms header_advances [OF c] content_advances [OF c]
    by (cases "cn_receive_state c") (auto simp: receive_pass_eq [OF c])
  then show "net_ok k nt'" "left_to_read k nt' < left_to_read k nt" by simp_all
qed

lemma loop_returns: "net_ok k nt \<Longrightarrow> \<exists>res. receive_for_state E k nt = Some res"
proof (induction "left_to_read k nt" arbitrary: nt rule: less_induct)
  case less
  obtain r nt' where pass: "receive_pass E k nt = (r, nt')" by fastforce
  show ?case
  proof (cases "r = Inr True")
    case True
    have "\<exists>res. receive_for_state E k nt' = Some res"
      using pass_advances [OF less.prems, of E nt'] pass True by (intro less.hyps) simp_all
    with pass True show ?thesis by (subst receive_for_state.simps) simp
  next
    case False
    with pass show ?thesis by (subst receive_for_state.simps) simp
  qed
qed

lemma loop_splits:
  assumes "net_ok k nt" and "receive_for_state E k nt = Some (Inr (), nt1)" and "\<not> stopped k nt1"
  shows "receive_for_state E k (arrive k ys nt) = receive_for_state E k (arrive k ys nt1)"
  using assms
proof (induction "left_to_read k nt" arbitrary: nt rule: less_induct)
  case less
  obtain r nt' where pass: "receive_pass E k nt = (r, nt')" by fastforce
  have run: "(if r = Inr True then receive_for_state E k nt' else Some (map_sum id (\<lambda>_. ()) r, nt')) = Some (Inr (), nt1)"
    using less.prems(2) pass by (subst (asm) receive_for_state.simps) simp
  show ?case
  proof (cases "r = Inr True")
    case True
    then have go: "receive_pass E k nt = (Inr True, nt')" using pass by simp
    have "receive_for_state E k (arrive k ys nt') = receive_for_state E k (arrive k ys nt1)"
      using pass_advances [OF less.prems(1) go] run True less.prems(3) by (intro less.hyps) simp_all
    with pass_goes_on [OF less.prems(1) go] show ?thesis by simp
  next
    case False
    then have r: "r = Inr False" and nt1: "nt1 = nt'" using run by (cases r; simp)+
    have "receive_pass E k nt = (Inr False, nt1)" using pass r nt1 by simp
    from pass_stops [OF less.prems(1) this less.prems(3)] show ?thesis by (rule receive_for_state_cong)
  qed
qed

lemma loop_keeps:
  assumes "net_ok k nt" and "receive_for_state E k nt = Some (Inr (), nt1)" and "\<not> stopped k nt1"
  shows "net_ok k nt1"
  using assms
proof (induction "left_to_read k nt" arbitrary: nt rule: less_induct)
  case less
  obtain r nt' where pass: "receive_pass E k nt = (r, nt')" by fastforce
  have run: "(if r = Inr True then receive_for_state E k nt' else Some (map_sum id (\<lambda>_. ()) r, nt')) = Some (Inr (), nt1)"
    using less.prems(2) pass by (subst (asm) receive_for_state.simps) simp
  show ?case
  proof (cases "r = Inr True")
    case True
    with pass_advances [OF less.prems(1), of E nt'] pass run less.prems(3) show ?thesis by (intro less.hyps) simp_all
  next
    case False
    then have pass: "receive_pass E k nt = (Inr False, nt1)" using run pass by (cases r; simp)
    then obtain c where c: "find_conn nt k = Some c"
      by (cases "find_conn nt k") (auto simp: receive_pass_def bindE_get_conn_None)
    have ok: "om_ok (nt_conns nt)" "conn_ok c" using less.prems(1) c by (simp_all add: net_ok_def)
    show ?thesis
    proof (cases "cn_receive_state c")
      case RECEIVE_HEADER
      with pass receive_header_False [OF c less.prems(1)] less.prems(1,3) show ?thesis
        by (auto simp: receive_pass_eq [OF c])
    next
      case RECEIVE_CONTENT
      with pass have "receive_content E k nt = (Inr False, nt1)" by (simp add: receive_pass_eq [OF c])
      from receive_content_False [OF c this] less.prems(3) obtain l
        where room: "room_for c = Some (Inr l)" and "nt1 = update_conn k (\<lambda>c. c\<lparr>cn_length := l\<rparr>) nt" by blast
      moreover have "l \<in> set buffer_lengths" using ok by (intro room_for_spec(1) [OF _ room]) (simp add: conn_ok_def)
      ultimately show ?thesis
        using ok c RECEIVE_CONTENT by (simp add: net_ok_def conn_ok_def read_content_len_updates) (simp add: update_conn_def)
    qed
  qed
qed

lemma haltsE: "m s = (Inl Endless, t) \<Longrightarrow> halts m \<Longrightarrow> P"
  by (simp add: halts_def)

lemma halts_receive_bytes: "halts (receive_bytes k n)"
  unfolding receive_bytes_def Let_def by (intro halts_intros)

lemma halts_receive_header: "halts (receive_header E k)"
  unfolding receive_header_def Let_def by (intro halts_intros halts_receive_bytes)

lemma content_endless:
  assumes c: "find_conn nt k = Some c" and run: "receive_content E k nt = (Inl Endless, nt')"
  shows "nt' = nt \<and> room_for c = Some (Inl Endless)"
proof -
  have no: "(if \<not> go then ret False else after_content E k) s \<noteq> (Inl Endless, t)" for go s t
    using halts_after(2) [of E k] unfolding halts_def by (cases go) (simp, blast, simp add: ret_def)
  from run have "bindE (receive_content_bytes E k) (\<lambda>go. if \<not> go then ret False else after_content E k) nt = (Inl Endless, nt')"
    by (simp only: receive_content_def after_content_def)
  then have "receive_content_bytes E k nt = (Inl Endless, nt')"
    using no by (auto simp: bindE_def split: prod.splits sum.splits)
  then show ?thesis
    by (auto simp: receive_content_bytes_def Let_def bindE_get_conn c room_for_def
      simp del: bindE_set_conn split: option.splits prod.splits sum.splits if_splits)
      (erule haltsE, intro halts_intros halts_receive_bytes)+
qed

lemma loop_endless:
  assumes "net_ok k nt" and "receive_for_state E k nt = Some (Inl Endless, nt1)"
  shows "\<exists>c. find_conn nt1 k = Some c \<and> - 17 \<le> read_content_len c \<and> read_content_len c < 0"
  using assms
proof (induction "left_to_read k nt" arbitrary: nt rule: less_induct)
  case less
  obtain r nt' where pass: "receive_pass E k nt = (r, nt')" by fastforce
  have run: "(if r = Inr True then receive_for_state E k nt' else Some (map_sum id (\<lambda>_. ()) r, nt')) = Some (Inl Endless, nt1)"
    using less.prems(2) pass by (subst (asm) receive_for_state.simps) simp
  show ?case
  proof (cases "r = Inr True")
    case True
    with pass_advances [OF less.prems(1), of E nt'] pass run show ?thesis by (intro less.hyps) simp_all
  next
    case False
    then have pass: "receive_pass E k nt = (Inl Endless, nt1)" using run pass by (cases r; simp)
    then obtain c where c: "find_conn nt k = Some c"
      by (cases "find_conn nt k") (auto simp: receive_pass_def bindE_get_conn_None)
    have len: "cn_length c \<in> set buffer_lengths" using less.prems(1) c by (simp add: net_ok_def conn_ok_def)
    have "cn_receive_state c = RECEIVE_CONTENT"
      using pass halts_receive_header [of E k] by (cases "cn_receive_state c") (auto simp: receive_pass_eq [OF c] halts_def)
    with pass content_endless [OF c, of E nt1] have "nt1 = nt" "room_for c = Some (Inl Endless)" by (simp_all add: receive_pass_eq [OF c])
    with c room_for_spec(2) [OF len] show ?thesis by simp
  qed
qed

section \<open>The properties\<close>

text \<open>A connection as it is made, and one that is open, for the examples.\<close>

definition some_env :: "(nat, nat) net_env" where
  "some_env = \<lparr>ne_key_pair = (\<lambda>k. (nat k, nat k)), ne_save = (\<lambda>n. replicate 16 (of_nat n)),
     ne_load = (\<lambda>bs. if bs = [] then None else Some (unat (hd bs))), ne_aes_key = (\<lambda>k. replicate 32 (word_of_int k)),
     ne_rsa_encrypt = (\<lambda>bs n. Some bs), ne_rsa_decrypt = (\<lambda>bs n. Some bs),
     ne_enc = (\<lambda>key. map (\<lambda>x. x + hd key)), ne_dec = (\<lambda>key. map (\<lambda>x. x - hd key)),
     ne_alloc = (\<lambda>_. True), ne_junk = (\<lambda>_ _. 0), ne_room = 1000\<rparr>"

definition some_net :: "(nat, nat) net" where
  "some_net = \<lparr>nt_packages = empty_package_manager, nt_queues = empty_queues,
     nt_services = empty_service_manager,
     nt_conns = [(1, (new_conn 1 PASSIVE_OPEN \<lparr>so_in = [], so_eof = False, so_room = 1000, so_out = []\<rparr>)
       \<lparr>cn_is_opening := False\<rparr>)],
     nt_next_id = 2, nt_listeners = []\<rparr>"

lemma some_net_ok: "net_ok 1 some_net"
  by (simp add: some_net_def net_ok_def find_conn_def conn_ok_def new_conn_def om_ok_def header_len_def
      buffer_lengths_def package_consts)

text \<open>
  C8. The bytes of a connection may arrive in any pieces. When the handler has read the piece
  \<open>xs\<close> and the connection still reads on, then the handler, run again when \<open>ys\<close> has arrived,
  does exactly what it would have done had \<open>xs @ ys\<close> been there at once: the same packages
  registered, the same messages queued, the same bytes sent, the same connection left. The
  state between the pieces is again one the theorem applies to. Left out is a connection that
  is gone, closing, or has ignored a package while opening, which stops the loop early.
\<close>

theorem receive_split:
  assumes "net_ok k nt" and "on_readable E k (arrive k xs nt) = Some (Inr (), nt1)" and "\<not> stopped k nt1"
  shows "on_readable E k (arrive k (xs @ ys) nt) = on_readable E k (arrive k ys nt1) \<and> net_ok k nt1"
proof -
  have ok: "net_ok k (arrive k xs nt)" by (rule net_ok_arrive [OF assms(1)])
  from assms(2,3) obtain c where c: "find_conn (arrive k xs nt) k = Some c" "\<not> cn_is_closing c"
    by (auto simp: on_readable_def stopped_def split: option.splits if_splits)
  then have run: "receive_for_state E k (arrive k xs nt) = Some (Inr (), nt1)"
    using assms(2) by (simp add: on_readable_def del: find_arrive)
  from assms(3) obtain d where d: "find_conn nt1 k = Some d" "\<not> cn_is_closing d" by (auto simp: stopped_def)
  have "on_readable E k (arrive k (xs @ ys) nt) = receive_for_state E k (arrive k ys (arrive k xs nt))"
    using c by (auto simp: on_readable_def arrive_append)
  also have "\<dots> = receive_for_state E k (arrive k ys nt1)" by (rule loop_splits [OF ok run assms(3)])
  also have "\<dots> = on_readable E k (arrive k ys nt1)" using d by (simp add: on_readable_def)
  finally show ?thesis using loop_keeps [OF ok run assms(3)] by simp
qed

definition some_net_later :: "(nat, nat) net" where
  "some_net_later = update_conn 1 (\<lambda>c. c\<lparr>cn_header := [2, 0, 7], cn_receive_len := 3\<rparr>) some_net"

lemma first_piece: "on_readable some_env 1 (arrive 1 [2, 0, 7] some_net) = Some (Inr (), some_net_later)"
  by code_simp

theorem receive_split_witness:
  "\<not> stopped 1 some_net_later \<and>
   on_readable some_env 1 (arrive 1 ([2, 0, 7] @ [0, 0, 0, 1]) some_net) =
     on_readable some_env 1 (arrive 1 [0, 0, 0, 1] some_net_later) \<and> net_ok 1 some_net_later"
proof -
  have "\<not> stopped 1 some_net_later"
    by (simp add: stopped_def some_net_later_def some_net_def find_conn_def update_conn_def om_update_def new_conn_def)
  with receive_split [OF some_net_ok first_piece this] show ?thesis by simp
qed

text \<open>
  C9. The handler for the readable event ends its loop: from any state of a connection between
  two passes, whatever bytes have arrived and whatever the headers among them say, every
  iteration of \<open>receive_for_state\<close> reads a byte or completes a package. The one call in it that
  need not come back is the growing of the receive buffer, and then the length of the content
  that it reads lies between -17 and -1: on an open connection that is the content length of
  the header, on a secure one the length padded to whole blocks.
\<close>

theorem receive_returns:
  assumes "net_ok k nt"
  shows "\<exists>r nt'. on_readable E k (arrive k bs nt) = Some (r, nt') \<and>
    (r = Inl Endless \<longrightarrow> (\<exists>c. find_conn nt' k = Some c \<and> - 17 \<le> read_content_len c \<and> read_content_len c < 0))"
proof -
  have ok: "net_ok k (arrive k bs nt)" by (rule net_ok_arrive [OF assms])
  obtain r nt' where "receive_for_state E k (arrive k bs nt) = Some (r, nt')"
    using loop_returns [OF ok, of E] by auto
  with loop_endless [OF ok, of E nt'] show ?thesis by (auto simp: on_readable_def split: option.split)
qed

text \<open>A peer that sends a header with the content length -1.\<close>

theorem receive_returns_witness:
  "\<exists>r nt'. on_readable some_env 1 (arrive 1 (header_bytes (reset_header\<lparr>h_content_length := -1\<rparr>)) some_net) = Some (r, nt') \<and>
    (r = Inl Endless \<longrightarrow> (\<exists>c. find_conn nt' 1 = Some c \<and> - 17 \<le> read_content_len c \<and> read_content_len c < 0))"
  by (rule receive_returns [OF some_net_ok])

end
