(* ===== verification/Delivery.thy ===== *)
theory Delivery
  imports Receive
begin

text \<open>
  What two ends of a connection do for each other: the bytes that one end sends for a package
  are, at the other end, that package again, in the clear and encrypted.
\<close>

section \<open>Packages on the wire\<close>

text \<open>
  The bytes behind the header, for a content: the content itself, or whole blocks of it and of
  what lies behind it, encrypted.
\<close>

definition carries :: "('p, 'k) net_env \<Rightarrow> 'k secure option \<Rightarrow> bytes \<Rightarrow> bytes \<Rightarrow> bool" where
  "carries E s content wire = (case s of
     None \<Rightarrow> wire = content
   | Some sc \<Rightarrow> (\<exists>junk. length content + length junk = (length content + 15) div 16 * 16 \<and>
       wire = crypt_blocks 16 (ne_enc E (sc_aes_key sc)) ((length content + 15) div 16) (content @ junk)))"

text \<open>A package that is not one of the handshake, with a header that says how long it is.\<close>

definition regular :: "package_header \<Rightarrow> bytes \<Rightarrow> bool" where
  "regular h content \<longleftrightarrow> header_fits h \<and> h_version h = PACKAGE_VERSION \<and> h_command h \<noteq> NTF_SECURITY_SETTING \<and>
     h_content_length h = int (length content)"

text \<open>A connection that waits for the next package, and one that does after the handshake.\<close>

definition between :: "'k conn \<Rightarrow> bool" where
  "between c \<longleftrightarrow> cn_receive_state c = RECEIVE_HEADER \<and> cn_receive_len c = 0 \<and> cn_length c \<in> set buffer_lengths"

definition ready :: "'k conn \<Rightarrow> bool" where
  "ready c \<longleftrightarrow> \<not> cn_is_opening c \<and> \<not> cn_is_closing c \<and> between c \<and> (case cn_secure c of None \<Rightarrow> True | Some sc \<Rightarrow> sc_state sc = STARTED)"

definition env_ok :: "('p, 'k) net_env \<Rightarrow> bool" where
  "env_ok E \<longleftrightarrow> (\<forall>n. ne_alloc E n) \<and> (\<forall>key. cipher_ok 16 (ne_enc E key) (ne_dec E key))"

text \<open>The worker gets one message, for a new package with this header and this content.\<close>

definition message_of :: "int \<Rightarrow> ('k, 'd) net \<Rightarrow> int \<Rightarrow> 'd actor_message" where
  "message_of k nt pid = NETWORK_TYPE \<lparr>nm_conn_id = k,
     nm_service_id = (case find_service_by_connection (nt_services nt) k of None \<Rightarrow> 0 | Some s \<Rightarrow> ns_service_id s),
     nm_package_id = pid\<rparr>"

definition holds_package :: "package_header \<Rightarrow> bytes \<Rightarrow> bytes package option \<Rightarrow> bool" where
  "holds_package h content entry \<longleftrightarrow> (\<exists>p full. entry = Some p \<and> p_header p = h \<and> p_content p = Some full \<and>
     take (length content) full = content)"

definition takes :: "int \<Rightarrow> package_header \<Rightarrow> bytes \<Rightarrow> ('k, 'd) net \<Rightarrow> ('k, 'd) net \<Rightarrow> bool" where
  "takes k h content nt nt' \<longleftrightarrow> (let pid = pm_next_id (nt_packages nt) in
     pm_inv (nt_packages nt') \<and> pm_next_id (nt_packages nt') = pid + 1 \<and>
     nt_services nt' = nt_services nt \<and>
     nt_queues nt' = queue_push IN_QUEUE (message_of k nt pid) (nt_queues nt) \<and>
     holds_package h content (find_package (nt_packages nt') pid) \<and>
     (\<forall>j. j \<noteq> pid \<longrightarrow> find_package (nt_packages nt') j = find_package (nt_packages nt) j))"

lemma found_update: "find_conn nt k = Some c \<Longrightarrow> find_conn (update_conn k f nt) k = Some (f c)"
  by simp

section \<open>The copy for the worker\<close>

lemma buffer_length:
  assumes "0 \<le> n" and "n \<le> 65535"
  shows "unat (HEADER_LEN + aes_cipher_length (word_of_int n)) = 18 + (nat n + 15) div 16 * 16"
proof -
  have c: "unat (word_of_int n :: size_t) = nat n" using assms by (intro unat_word_of_int) auto
  have a: "unat (aes_cipher_length (word_of_int n)) = (nat n + 15) div 16 * 16"
    using assms by (subst aes_cipher_length_nat) (auto simp: c)
  then show ?thesis
    using assms by (subst unat_add_lem [THEN iffD1]) (auto simp: HEADER_LEN_def)
qed

lemma register_package_run:
  assumes "pm_inv pm" and "\<And>n. alloc n" and "0 \<le> n" "n \<le> 65535"
  shows "register_package alloc n pm = (Inr (new_package n (pm_next_id pm)), enter_package n pm)"
proof -
  have "\<not> HEADER_LEN + aes_cipher_length (word_of_int n) < HEADER_LEN"
    using buffer_length [OF assms(3,4)] by (simp add: word_less_nat_alt) (simp add: HEADER_LEN_def)
  with assms(1,2) show ?thesis
    by (cases rule: register_package_cases [OF assms(1) surjective_pairing [of "register_package alloc n pm"]])
      (simp_all add: prod_eq_iff)
qed

lemma deliver_run:
  assumes inv: "pm_inv (nt_packages nt)" and alloc: "\<And>n. ne_alloc E n" and n: "0 \<le> n" "n \<le> 65535"
    and content: "content (new_package n (pm_next_id (nt_packages nt))) = Inr full" and take: "take (length bs) full = bs"
  shows "\<exists>nt'. deliver E k n h content nt = (Inr (), nt') \<and> nt_conns nt' = nt_conns nt \<and> takes k h bs nt nt'"
proof -
  let ?pid = "pm_next_id (nt_packages nt)"
  let ?pm = "update_package ?pid (\<lambda>p. p\<lparr>p_header := h, p_content := Some full\<rparr>) (enter_package n (nt_packages nt))"
  have [simp]: "p_id (new_package n ?pid :: bytes package) = ?pid" by (simp add: new_package_def)
  have run: "deliver E k n h content nt = (Inr (), nt\<lparr>nt_packages := ?pm,
      nt_queues := queue_push IN_QUEUE (message_of k nt ?pid) (nt_queues nt)\<rparr>)"
    by (simp add: deliver_def bindE_def zoom_def register_package_run [OF inv alloc n] content getsE_def
        push_message_def message_of_def)
  have "pm_inv ?pm" by (intro pm_inv_update enter_package_inv(1) inv) simp
  moreover have "find_package ?pm ?pid = Some ((new_package n ?pid)\<lparr>p_header := h, p_content := Some full\<rparr>)"
    by (simp add: find_package_update enter_package_inv(2) [OF inv])
  ultimately show ?thesis
    using take by (simp add: run takes_def Let_def holds_package_def find_package_update enter_package_inv(2,3) [OF inv])
      (simp add: update_package_def enter_package_def)
qed

section \<open>The content of a package\<close>

lemma carries_length:
  assumes "carries E s content wire" and "env_ok E"
  shows "length wire = (if s = None then length content else (length content + 15) div 16 * 16)"
    and "length content \<le> length wire"
proof -
  have keep: "\<And>key bs. length bs = 16 \<Longrightarrow> length (ne_enc E key bs) = 16"
    using assms(2) by (simp add: env_ok_def cipher_ok_def)
  show "length wire = (if s = None then length content else (length content + 15) div 16 * 16)"
    using assms(1) by (auto simp: carries_def length_crypt_blocks [OF keep] split: option.splits)
  moreover have "length content \<le> (length content + 15) div 16 * 16" by presburger
  ultimately show "length content \<le> length wire" by simp
qed

lemma get_content_length_nat:
  assumes "n \<le> 65535"
  shows "get_content_length (int n) = int ((n + 15) div 16 * 16)"
proof -
  have "unat (word_of_int (int n) :: size_t) = n" using assms by (subst unat_word_of_int) auto
  then have "unat (aes_cipher_length (word_of_int (int n))) = (n + 15) div 16 * 16"
    using assms by (subst aes_cipher_length_nat) auto
  moreover from this have "unat (aes_cipher_length (word_of_int (int n))) < 2 ^ 31" using assms by simp
  ultimately show ?thesis unfolding get_content_length_def by (simp only: to_int_small)
qed

lemma wire_length:
  assumes "carries E (cn_secure c) content wire" and "env_ok E" and "length wire \<le> 65518"
    and "h_content_length (read_header (cn_header c)) = int (length content)"
  shows "read_content_len c = int (length wire)"
proof -
  have "length content \<le> 65535" using carries_length(2) [OF assms(1,2)] assms(3) by simp
  with carries_length(1) [OF assms(1,2)] assms(4) show ?thesis
    by (auto simp: read_content_len_def Let_def get_content_length_nat)
qed

lemma decrypted_content:
  assumes wire: "carries E (Some sc) content wire" and env: "env_ok E" and small: "length wire \<le> 65518"
  shows "\<exists>full. aes_decrypt (ne_dec E (sc_aes_key sc)) wire (content_memory junk (new_package (int (length wire)) pid)) = Inr full \<and>
    take (length content) full = content"
proof -
  define n where "n = (length content + 15) div 16"
  from wire obtain rest where rest: "length content + length rest = n * 16"
    and w: "wire = crypt_blocks 16 (ne_enc E (sc_aes_key sc)) n (content @ rest)"
    by (auto simp: carries_def n_def)
  have ok: "cipher_ok 16 (ne_enc E (sc_aes_key sc)) (ne_dec E (sc_aes_key sc))" using env by (simp add: env_ok_def)
  have len: "length wire = n * 16" using carries_length(1) [OF wire env] by (simp add: n_def)
  have "(n * 16 + 15) div 16 = n" by simp
  then have mem: "length (content_memory junk (new_package (int (length wire)) pid)) = n * 16"
    using small len buffer_length [of "int (length wire)"]
    by (simp add: length_content_memory new_package_def header_len_def nat_mult_distrib)
  have "crypt_blocks 16 (ne_dec E (sc_aes_key sc)) n wire = content @ rest"
    unfolding w by (rule crypt_blocks_inverse [OF ok]) (simp add: rest)
  with mem len rest show ?thesis by (simp add: aes_decrypt_def crypt_loop_def)
qed

lemma complete_package:
  assumes c: "find_conn nt k = Some c" and ready: "ready c" and h: "read_header (cn_header c) = h"
    and reg: "regular h content" and wire: "carries E (cn_secure c) content wire" and got: "cn_content c = wire @ old"
    and small: "length wire \<le> 65518" and env: "env_ok E" and inv: "pm_inv (nt_packages nt)"
  shows "\<exists>nt'. on_receive_complete_package E k nt = (Inr True, nt') \<and> nt_conns nt' = nt_conns nt \<and> takes k h content nt nt'"
proof -
  have cmd: "h_command h \<noteq> NTF_SECURITY_SETTING" and len: "h_content_length h = int (length content)"
    using reg by (simp_all add: regular_def)
  have opened: "\<not> cn_is_opening c" using ready by (simp add: ready_def)
  have alloc: "\<And>n. ne_alloc E n" using env by (simp add: env_ok_def)
  have le: "length content \<le> length wire" by (rule carries_length(2) [OF wire env])
  show ?thesis
  proof (cases "cn_secure c")
    case None
    then have content: "wire = content" using wire by (simp add: carries_def)
    then have buf: "buffer_content c = content" by (simp add: buffer_content_def h len got)
    have "\<exists>nt'. deliver E k (int (length content)) h (\<lambda>p. Inr (buffer_content c)) nt = (Inr (), nt') \<and>
        nt_conns nt' = nt_conns nt \<and> takes k h content nt nt'"
      using small content buf by (intro deliver_run [OF inv alloc, where full = content]) simp_all
    with cmd opened None show ?thesis
      by (auto simp: on_receive_complete_package_def bindE_get_conn [OF c] h len bindE_def [of "deliver _ _ _ _ _"])
  next
    case (Some sc)
    let ?w = "int (length wire)"
    have started: "sc_state sc = STARTED" using ready Some by (simp add: ready_def)
    have clen: "get_content_length (h_content_length h) = ?w"
      using wire_length [OF wire env small] Some by (simp add: h len read_content_len_def)
    have w: "carries E (Some sc) content wire" using wire by (simp add: Some)
    obtain full where full: "aes_decrypt (ne_dec E (sc_aes_key sc)) wire
        (content_memory (ne_junk E (pm_next_id (nt_packages nt))) (new_package ?w (pm_next_id (nt_packages nt)))) = Inr full"
      "take (length content) full = content" using decrypted_content [OF w env small] by blast
    have "\<exists>nt'. deliver E k ?w h (\<lambda>p. aes_decrypt (ne_dec E (sc_aes_key sc)) (take (nat ?w) (cn_content c))
        (content_memory (ne_junk E (p_id p)) p)) nt = (Inr (), nt') \<and> nt_conns nt' = nt_conns nt \<and> takes k h content nt nt'"
      by (rule deliver_run [OF inv alloc _ _ _ full(2)]) (use small full(1) in \<open>simp_all add: new_package_def got\<close>)
    with cmd opened Some started show ?thesis
      by (auto simp: on_receive_complete_package_def secure_receive_def get_secure_def bindE_get_conn [OF c] bindE_assoc
          h clen Let_def bindE_def [of "deliver _ _ _ _ _"])
  qed
qed

section \<open>One package after the other\<close>

lemma between_net_ok:
  assumes "om_ok (nt_conns nt)" and "find_conn nt k = Some c" and "between c"
  shows "net_ok k nt"
  using assms by (simp add: net_ok_def conn_ok_def between_def header_len_def)

text \<open>How the loop goes on after a package.\<close>

definition go_on :: "('p, 'k) net_env \<Rightarrow> int \<Rightarrow> bool res \<times> ('k, 'd) net \<Rightarrow> (unit res \<times> ('k, 'd) net) option" where
  "go_on E k = (\<lambda>(r, nt). if r = Inr True then receive_for_state E k nt else Some (map_sum id (\<lambda>_. ()) r, nt))"

lemma receive_step: "receive_for_state E k nt = go_on E k (receive_pass E k nt)"
  by (subst receive_for_state.simps) (simp add: go_on_def)

lemma header_read:
  assumes conns: "om_ok (nt_conns nt)" and c: "find_conn nt k = Some c" and between: "between c"
    and bytes: "so_in (cn_socket c) = header_bytes h @ rest" and h: "header_fits h" "h_version h = PACKAGE_VERSION"
  shows "receive_for_state E k nt = receive_for_state E k (update_conn k (\<lambda>_. c\<lparr>cn_socket := (cn_socket c)\<lparr>so_in := rest\<rparr>,
    cn_header := header_bytes h, cn_receive_len := 0, cn_receive_state := RECEIVE_CONTENT\<rparr>) nt)"
proof -
  have state: "cn_receive_state c = RECEIVE_HEADER" "cn_receive_len c = 0" using between by (simp_all add: between_def)
  have read: "read_header (header_bytes h) = h" using read_header_bytes [of h "[]"] h by simp
  have "length (header_bytes h) \<noteq> 0" by (simp only: length_header_bytes) (simp add: header_len_def)
  then have ne: "header_bytes h \<noteq> []" by (simp only: length_0_conv not_False_eq_True)
  have got: "header_got c = c\<lparr>cn_socket := (cn_socket c)\<lparr>so_in := rest\<rparr>, cn_header := header_bytes h,
      cn_receive_len := int header_len\<rparr>"
    by (simp add: header_got_def Let_def bytes state)
  let ?nt = "update_conn k header_got nt"
  let ?f = "\<lambda>c. if cn_receive_len c = int header_len then c\<lparr>cn_receive_len := 0, cn_receive_state := RECEIVE_CONTENT\<rparr> else c"
  have d: "find_conn ?nt k = Some (header_got c)" by (simp add: c)
  have "process_check_package_version E k ?nt = (Inr True, ?nt)"
    using h by (simp add: process_check_package_version_def bindE_get_conn [OF d] got read)
  then have "after_header E k ?nt = (Inr True, update_conn k ?f ?nt)"
    by (simp add: after_header_def bindE_def [of "process_check_package_version E k"])
  then have "receive_pass E k nt = (Inr True, update_conn k ?f ?nt)"
    using ne by (simp add: receive_pass_eq [OF c] state receive_header_eq [OF c between_net_ok [OF conns c between]] bytes)
  moreover have "update_conn k ?f ?nt = update_conn k (\<lambda>_. c\<lparr>cn_socket := (cn_socket c)\<lparr>so_in := rest\<rparr>,
      cn_header := header_bytes h, cn_receive_len := 0, cn_receive_state := RECEIVE_CONTENT\<rparr>) nt"
    unfolding update_conn_compose using c by (intro update_conn_cong [OF conns]) (simp add: got)
  ultimately show ?thesis by (subst receive_step) (simp add: go_on_def)
qed

lemma content_read:
  assumes conns: "om_ok (nt_conns nt)" and c: "find_conn nt k = Some c"
    and state: "cn_receive_state c = RECEIVE_CONTENT" "cn_receive_len c = 0" "cn_length c \<in> set buffer_lengths"
    and bytes: "so_in (cn_socket c) = wire @ rest" and len: "read_content_len c = int (length wire)"
    and small: "length wire \<le> 65518"
  shows "\<exists>l old. l \<in> set buffer_lengths \<and> receive_for_state E k nt = go_on E k (on_receive_complete_package E k
    (update_conn k (\<lambda>_. c\<lparr>cn_socket := (cn_socket c)\<lparr>so_in := rest\<rparr>, cn_content := wire @ old, cn_length := l,
      cn_receive_len := 0, cn_receive_state := RECEIVE_HEADER\<rparr>) nt))"
proof -
  let ?f = "\<lambda>c. c\<lparr>cn_receive_len := 0, cn_receive_state := RECEIVE_HEADER\<rparr>"
  have goes_on: "receive_for_state E k nt = go_on E k (on_receive_complete_package E k (update_conn k (\<lambda>_. ?f (g c)) nt))"
    if run: "receive_content E k nt = after_content E k (update_conn k g nt)"
      and all: "cn_receive_len (g c) = int (length wire)" "read_content_len (g c) = int (length wire)" for g
  proof -
    have d: "find_conn (update_conn k g nt) k = Some (g c)" by (rule found_update [OF c])
    have "update_conn k ?f (update_conn k g nt) = update_conn k (\<lambda>_. ?f (g c)) nt"
      unfolding update_conn_compose using c by (intro update_conn_cong [OF conns]) simp
    then have "receive_content E k nt = on_receive_complete_package E k (update_conn k (\<lambda>_. ?f (g c)) nt)"
      by (simp add: run after_content_def bindE_get_conn [OF d] all)
    then show ?thesis by (subst receive_step) (simp add: receive_pass_eq [OF c] state)
  qed
  show ?thesis
  proof (cases "wire = []")
    case True
    then have "receive_content E k nt = after_content E k (update_conn k (\<lambda>c. c) nt)"
      using len by (simp add: receive_content_eq(1) [OF c conns] update_conn_id)
    moreover have "?f c = c\<lparr>cn_socket := (cn_socket c)\<lparr>so_in := rest\<rparr>, cn_content := wire @ cn_content c, cn_length := cn_length c,
        cn_receive_len := 0, cn_receive_state := RECEIVE_HEADER\<rparr>"
      using True bytes by (cases c; cases "cn_socket c") simp
    ultimately show ?thesis
      using goes_on [of "\<lambda>c. c"] True len state
      by (intro exI [of _ "cn_length c"] exI [of _ "cn_content c"]) simp
  next
    case False
    then obtain l where room: "room_for c = Some (Inr l)" and l: "l \<in> set buffer_lengths"
      using room_for_spec(3) [OF state(3)] small len by auto
    have "content_got l c = c\<lparr>cn_socket := (cn_socket c)\<lparr>so_in := rest\<rparr>, cn_length := l, cn_content := wire,
        cn_receive_len := int (length wire)\<rparr>"
      by (simp add: content_got_def Let_def len state bytes)
    also have "\<dots> = c\<lparr>cn_socket := (cn_socket c)\<lparr>so_in := rest\<rparr>, cn_content := wire, cn_length := l,
        cn_receive_len := int (length wire)\<rparr>"
      by (cases c) simp
    finally have got: "content_got l c = c\<lparr>cn_socket := (cn_socket c)\<lparr>so_in := rest\<rparr>, cn_content := wire, cn_length := l,
        cn_receive_len := int (length wire)\<rparr>" .
    have "receive_content E k nt = after_content E k (update_conn k (content_got l) nt)"
      using False bytes len state by (simp add: receive_content_eq(2) [OF c conns _ room])
    from goes_on [OF this] l len show ?thesis
      by (intro exI [of _ l] exI [of _ "[]"]) (simp add: got read_content_len_updates)
  qed
qed

text \<open>A package whose bytes are there is read, and what follows is up to \<open>on_receive_complete_package\<close>.\<close>

lemma package_read:
  assumes conns: "om_ok (nt_conns nt)" and c: "find_conn nt k = Some c" and between: "between c"
    and bytes: "so_in (cn_socket c) = header_bytes h @ wire @ rest" and h: "header_fits h" "h_version h = PACKAGE_VERSION"
    and len: "(if cn_secure c = None then h_content_length h else get_content_length (h_content_length h)) = int (length wire)"
    and small: "length wire \<le> 65518"
  shows "\<exists>l old. l \<in> set buffer_lengths \<and> receive_for_state E k nt = go_on E k (on_receive_complete_package E k
    (update_conn k (\<lambda>_. c\<lparr>cn_socket := (cn_socket c)\<lparr>so_in := rest\<rparr>, cn_header := header_bytes h,
      cn_content := wire @ old, cn_length := l\<rparr>) nt))"
proof -
  define d where "d = c\<lparr>cn_socket := (cn_socket c)\<lparr>so_in := wire @ rest\<rparr>, cn_header := header_bytes h, cn_receive_len := 0,
    cn_receive_state := RECEIVE_CONTENT\<rparr>"
  have state: "cn_receive_state c = RECEIVE_HEADER" "cn_receive_len c = 0" "cn_length c \<in> set buffer_lengths"
    using between by (simp_all add: between_def)
  have d: "find_conn (update_conn k (\<lambda>_. d) nt) k = Some d" by (rule found_update [OF c])
  have dconns: "om_ok (nt_conns (update_conn k (\<lambda>_. d) nt))" using conns by (simp add: update_conn_def)
  have "read_content_len d = int (length wire)"
    using len read_header_bytes [of h "[]"] h by (cases "cn_secure c") (simp_all add: d_def read_content_len_def Let_def)
  then obtain l old where l: "l \<in> set buffer_lengths" and run: "receive_for_state E k (update_conn k (\<lambda>_. d) nt) =
      go_on E k (on_receive_complete_package E k (update_conn k (\<lambda>_. d\<lparr>cn_socket := (cn_socket d)\<lparr>so_in := rest\<rparr>,
        cn_content := wire @ old, cn_length := l, cn_receive_len := 0, cn_receive_state := RECEIVE_HEADER\<rparr>) (update_conn k (\<lambda>_. d) nt)))"
    using content_read [OF dconns d, of wire rest E] state small by (auto simp: d_def)
  have "receive_for_state E k nt = receive_for_state E k (update_conn k (\<lambda>_. d) nt)"
    unfolding d_def by (rule header_read [OF conns c between bytes h])
  moreover have "d\<lparr>cn_socket := (cn_socket d)\<lparr>so_in := rest\<rparr>, cn_content := wire @ old, cn_length := l, cn_receive_len := 0,
      cn_receive_state := RECEIVE_HEADER\<rparr> = c\<lparr>cn_socket := (cn_socket c)\<lparr>so_in := rest\<rparr>, cn_header := header_bytes h,
      cn_content := wire @ old, cn_length := l\<rparr>"
    using state by (cases c) (simp add: d_def)
  ultimately show ?thesis using l run by (auto simp: update_conn_compose)
qed

lemma takes_update:
  "takes k h content (update_conn j f nt) nt' = takes k h content nt nt'"
  by (simp add: takes_def message_of_def)

lemma package_arrives:
  assumes conns: "om_ok (nt_conns nt)" and c: "find_conn nt k = Some c" and ready: "ready c"
    and bytes: "so_in (cn_socket c) = header_bytes h @ wire @ rest" and reg: "regular h content"
    and wire: "carries E (cn_secure c) content wire" and small: "length wire \<le> 65518"
    and env: "env_ok E" and inv: "pm_inv (nt_packages nt)"
  shows "\<exists>nt1 c1. receive_for_state E k nt = receive_for_state E k nt1 \<and>
    om_ok (nt_conns nt1) \<and> find_conn nt1 k = Some c1 \<and> ready c1 \<and> cn_secure c1 = cn_secure c \<and>
    so_in (cn_socket c1) = rest \<and> so_eof (cn_socket c1) = so_eof (cn_socket c) \<and> takes k h content nt nt1"
proof -
  let ?c = "\<lambda>l old. c\<lparr>cn_socket := (cn_socket c)\<lparr>so_in := rest\<rparr>, cn_header := header_bytes h, cn_content := wire @ old, cn_length := l\<rparr>"
  have fits: "header_fits h" "h_version h = PACKAGE_VERSION" using reg by (simp_all add: regular_def)
  have read: "read_header (header_bytes h) = h" using read_header_bytes [of h "[]"] fits by simp
  have "read_content_len (c\<lparr>cn_header := header_bytes h\<rparr>) = int (length wire)"
    using reg by (intro wire_length [OF _ env small, of _ content]) (use wire in \<open>simp_all add: read regular_def\<close>)
  then have len: "(if cn_secure c = None then h_content_length h else get_content_length (h_content_length h)) = int (length wire)"
    by (cases "cn_secure c") (simp_all add: read_content_len_def Let_def read)
  have "between c" using ready by (simp add: ready_def)
  from package_read [OF conns c this bytes fits len small, of E] obtain l old where l: "l \<in> set buffer_lengths"
    and run: "receive_for_state E k nt = go_on E k (on_receive_complete_package E k (update_conn k (\<lambda>_. ?c l old) nt))" by blast
  let ?nt = "update_conn k (\<lambda>_. ?c l old) nt"
  have d: "find_conn ?nt k = Some (?c l old)" by (rule found_update [OF c])
  have rd: "ready (?c l old)" using ready l by (simp add: ready_def between_def)
  have "\<exists>nt1. on_receive_complete_package E k ?nt = (Inr True, nt1) \<and> nt_conns nt1 = nt_conns ?nt \<and> takes k h content ?nt nt1"
    by (rule complete_package [OF d rd _ reg _ _ small env]) (use read wire inv in simp_all)
  then obtain nt1 where done1: "on_receive_complete_package E k ?nt = (Inr True, nt1)" "nt_conns nt1 = nt_conns ?nt"
    "takes k h content nt nt1" by (auto simp: takes_update)
  have "find_conn nt1 k = Some (?c l old)" using d by (simp only: find_conn_def done1(2))
  moreover have "om_ok (nt_conns nt1)" using conns by (simp add: done1(2)) (simp add: update_conn_def)
  moreover have "receive_for_state E k nt = receive_for_state E k nt1" by (simp add: run done1(1) go_on_def)
  ultimately show ?thesis using rd done1(3) by (intro exI conjI) (assumption | simp)+
qed

section \<open>Sending\<close>

lemma send_raw_run:
  assumes c: "find_conn nt k = Some c" and empty: "cn_send_list c = []" and p: "find_package (nt_packages nt) pid = Some p"
    and len: "package_len p = int (length bs)" and mem: "package_memory (ne_junk E (p_id p)) p = bs @ rest"
    and room: "length bs \<le> so_room (cn_socket c)" and ne: "bs \<noteq> []"
  shows "\<exists>nt'. send_raw_package E k pid nt = (Inr (), nt') \<and> find_package (nt_packages nt') pid = None \<and>
    (\<exists>c'. find_conn nt' k = Some c' \<and> so_out (cn_socket c') = so_out (cn_socket c) @ bs \<and> cn_send_list c' = [] \<and>
      cn_secure c' = cn_secure c)"
proof -
  have ne: "so_room (cn_socket c) \<noteq> 0" using room ne by (cases bs) auto
  have "send_bytes E k p 0 (int (length bs)) nt = (Inr (int (length bs)),
      update_conn k (on_socket (\<lambda>so. so\<lparr>so_out := so_out so @ bs, so_room := so_room so - length bs\<rparr>)) nt)"
    using ne room by (simp add: send_bytes_def bindE_get_conn [OF c] read_memory_def mem bindE_getsE Let_def min_absorb1)
  then have "send_raw_package E k pid nt = drop_package pid (update_conn k (\<lambda>c. c\<lparr>cn_send_len := 0\<rparr>)
      (update_conn k (\<lambda>c. c\<lparr>cn_send_len := int (length bs)\<rparr>)
      (update_conn k (on_socket (\<lambda>so. so\<lparr>so_out := so_out so @ bs, so_room := so_room so - length bs\<rparr>)) nt)))"
    using p by (simp add: send_raw_package_def bindE_get_conn [OF c] empty deref_package_def bindE_getsE len Let_def
        bindE_def [of "send_bytes _ _ _ _ _"])
  then show ?thesis
    using c empty by (simp add: drop_package_def zoom_def find_package_remove find_conn_def)
      (simp add: update_conn_def on_socket_def map_of_om_update)
qed

lemma secure_send_run:
  assumes c: "find_conn nt k = Some c" and sc: "cn_secure c = Some sc" "sc_state sc = STARTED"
    and p: "find_package (nt_packages nt) pid = Some p" and e: "encrypt_content E (sc_aes_key sc) p = Inr cipher"
  shows "secure_send_package E k pid nt = send_raw_package E k pid
    (nt\<lparr>nt_packages := update_package pid (\<lambda>p. p\<lparr>p_content := Some cipher, p_cipher_length := True\<rparr>) (nt_packages nt)\<rparr>)"
  by (simp add: secure_send_package_def get_secure_def bindE_get_conn [OF c] bindE_assoc sc deref_package_def bindE_getsE p e)
    (simp add: bindE_def zoom_def)

text \<open>A package as \<open>register_package\<close> makes it, filled in with a content of its length.\<close>

definition sendable :: "int \<Rightarrow> package_header \<Rightarrow> bytes \<Rightarrow> bytes package \<Rightarrow> bool" where
  "sendable pid h content p \<longleftrightarrow> p_id p = pid \<and> p_header p = h \<and> p_content p = Some content \<and> \<not> p_cipher_length p \<and>
     p_length p = HEADER_LEN + aes_cipher_length (word_of_int (int (length content))) \<and>
     h_content_length h = int (length content) \<and> length content \<le> 65504"

lemma sendable_memory:
  assumes "sendable pid h content p"
  shows "content_memory junk p = content @ map junk [length content ..< (length content + 15) div 16 * 16]"
    and "package_len p = int (18 + length content)"
    and "package_len (p\<lparr>p_content := Some cipher, p_cipher_length := True\<rparr>) = int (18 + (length content + 15) div 16 * 16)"
    and "length cipher = (length content + 15) div 16 * 16 \<Longrightarrow>
      content_memory junk (p\<lparr>p_content := Some cipher, p_cipher_length := True\<rparr>) = cipher"
    and "unat (word_of_int (get_content_length (h_content_length h)) :: size_t) = (length content + 15) div 16 * 16"
proof -
  define n where "n = (length content + 15) div 16 * 16"
  have small: "length content \<le> 65504" and pc: "p_content p = Some content" using assms by (simp_all add: sendable_def)
  have n: "length content \<le> n" "n \<le> 65504" unfolding n_def using small by presburger+
  have len: "unat (p_length p) = 18 + n"
    using assms buffer_length [of "int (length content)"] by (simp add: sendable_def n_def)
  show "content_memory junk p = content @ map junk [length content ..< (length content + 15) div 16 * 16]"
    unfolding content_memory_def Let_def len pc header_len_def n_def [symmetric] using n by simp
  show "content_memory junk (p\<lparr>p_content := Some cipher, p_cipher_length := True\<rparr>) = cipher"
    if "length cipher = (length content + 15) div 16 * 16"
    using that by (simp add: content_memory_def len header_len_def flip: n_def)
  have c: "unat (word_of_int (int (length content)) :: size_t) = length content" using small by (subst unat_word_of_int) auto
  have "unat (HEADER_LEN + word_of_int (int (length content)) :: size_t) = 18 + length content"
    using small c by (subst unat_add_lem [THEN iffD1]) (auto simp: HEADER_LEN_def)
  then show "package_len p = int (18 + length content)"
    using assms small by (simp add: package_len_def valid_length_def sendable_def to_int_small)
  have "unat (HEADER_LEN + aes_cipher_length (word_of_int (int (length content)))) = 18 + n"
    using assms len by (simp add: sendable_def)
  then show "package_len (p\<lparr>p_content := Some cipher, p_cipher_length := True\<rparr>) = int (18 + (length content + 15) div 16 * 16)"
    using assms n by (simp add: package_len_def valid_length_def sendable_def to_int_small n_def)
  have "get_content_length (h_content_length h) = int n"
    using assms small get_content_length_nat [of "length content"] by (simp add: sendable_def n_def)
  then show "unat (word_of_int (get_content_length (h_content_length h)) :: size_t) = (length content + 15) div 16 * 16"
    using n(2) by (simp add: unat_of_nat flip: n_def)
qed

lemma package_sent:
  assumes c: "find_conn nt k = Some c" and on: "\<not> cn_is_closing c" "\<not> cn_is_opening c" and empty: "cn_send_list c = []"
    and secure: "case cn_secure c of None \<Rightarrow> True | Some sc \<Rightarrow> sc_state sc = STARTED"
    and p: "find_package (nt_packages nt) pid = Some p" "sendable pid h content p" and env: "env_ok E"
    and room: "18 + (length content + 15) div 16 * 16 \<le> so_room (cn_socket c)"
  shows "\<exists>nt' c' wire. conn_send_package E k pid nt = (Inr (), nt') \<and> find_package (nt_packages nt') pid = None \<and>
    find_conn nt' k = Some c' \<and> carries E (cn_secure c) content wire \<and> length wire \<le> 65504 \<and>
    so_out (cn_socket c') = so_out (cn_socket c) @ header_bytes h @ wire"
proof -
  define n where "n = (length content + 15) div 16"
  have small: "length content \<le> 65504" "p_header p = h" "p_id p = pid" using p(2) by (simp_all add: sendable_def)
  have n: "length content \<le> n * 16" "n * 16 \<le> 65504" unfolding n_def using small(1) by presburger+
  have ne: "length (header_bytes h @ bs) = 18 + length bs" for bs by (simp add: header_len_def)
  show ?thesis
  proof (cases "cn_secure c")
    case None
    have "\<exists>nt'. send_raw_package E k pid nt = (Inr (), nt') \<and> find_package (nt_packages nt') pid = None \<and>
      (\<exists>c'. find_conn nt' k = Some c' \<and> so_out (cn_socket c') = so_out (cn_socket c) @ header_bytes h @ content \<and>
        cn_send_list c' = [] \<and> cn_secure c' = cn_secure c)"
      by (rule send_raw_run [OF c empty p(1)])
        (use room n small ne [of content] sendable_memory(1,2) [OF p(2)] in
          \<open>simp_all add: package_memory_def flip: n_def\<close>, (use ne [of content] in fastforce)?)
    then show ?thesis
      using None on small by (auto simp: conn_send_package_def bindE_get_conn [OF c] carries_def)
  next
    case (Some sc)
    let ?rest = "map (ne_junk E pid) [length content ..< n * 16]"
    let ?w = "crypt_blocks 16 (ne_enc E (sc_aes_key sc)) n (content @ ?rest)"
    let ?p = "p\<lparr>p_content := Some ?w, p_cipher_length := True\<rparr>"
    let ?nt = "nt\<lparr>nt_packages := update_package pid (\<lambda>p. p\<lparr>p_content := Some ?w, p_cipher_length := True\<rparr>) (nt_packages nt)\<rparr>"
    have keep: "\<And>bs. length bs = 16 \<Longrightarrow> length (ne_enc E (sc_aes_key sc) bs) = 16"
      using env by (simp add: env_ok_def cipher_ok_def)
    have w: "length ?w = n * 16" using n by (simp add: length_crypt_blocks [OF keep])
    have e: "encrypt_content E (sc_aes_key sc) p = Inr ?w"
      using n small sendable_memory(1,5) [OF p(2)] by (simp add: encrypt_content_def Let_def flip: n_def)
    have started: "sc_state sc = STARTED" using secure Some by simp
    have c': "find_conn ?nt k = Some c" using c by (simp add: find_conn_def)
    have p': "find_package (nt_packages ?nt) pid = Some ?p" using p(1) by (simp add: find_package_update)
    have "\<exists>nt'. send_raw_package E k pid ?nt = (Inr (), nt') \<and> find_package (nt_packages nt') pid = None \<and>
      (\<exists>c'. find_conn nt' k = Some c' \<and> so_out (cn_socket c') = so_out (cn_socket c) @ header_bytes h @ ?w \<and>
        cn_send_list c' = [] \<and> cn_secure c' = cn_secure c)"
      by (rule send_raw_run [OF c' empty p', where rest = "[]"])
        (use room n w small ne [of ?w] sendable_memory(3) [OF p(2)] sendable_memory(4) [OF p(2), of ?w] in
          \<open>simp_all add: package_memory_def flip: n_def\<close>, (use ne [of ?w] in fastforce)?)
    moreover have "carries E (cn_secure c) content ?w"
      unfolding carries_def Some option.case n_def [symmetric] using n by (intro exI [of _ ?rest]) simp
    moreover have "conn_send_package E k pid nt = send_raw_package E k pid ?nt"
      using on Some secure_send_run [OF c Some started p(1) e] by (simp add: conn_send_package_def bindE_get_conn [OF c])
    ultimately show ?thesis using w n by auto
  qed
qed

section \<open>The properties\<close>

lemma nothing_left:
  assumes conns: "om_ok (nt_conns nt)" and c: "find_conn nt k = Some c" and ready: "ready c"
    and "so_in (cn_socket c) = []" "\<not> so_eof (cn_socket c)"
  shows "receive_for_state E k nt = Some (Inr (), nt)"
proof -
  have between: "between c" and state: "cn_receive_state c = RECEIVE_HEADER" using ready by (simp_all add: ready_def between_def)
  have "receive_pass E k nt = (Inr False, nt)"
    using assms(4,5) by (simp add: receive_pass_eq [OF c] state receive_header_eq [OF c between_net_ok [OF conns c between] state])
  then show ?thesis by (subst receive_for_state.simps) simp
qed

text \<open>A package to come: its header, its content, and the bytes that carry the content.\<close>

type_synonym incoming = "package_header \<times> bytes \<times> bytes"

definition incoming_ok :: "('p, 'k) net_env \<Rightarrow> 'k secure option \<Rightarrow> incoming \<Rightarrow> bool" where
  "incoming_ok E s = (\<lambda>(h, content, wire). regular h content \<and> carries E s content wire \<and> length wire \<le> 65518)"

definition incoming_bytes :: "incoming list \<Rightarrow> bytes" where
  "incoming_bytes ps = concat (map (\<lambda>(h, _, wire). header_bytes h @ wire) ps)"

definition inbox :: "int \<Rightarrow> incoming list \<Rightarrow> ('k, 'd) net \<Rightarrow> ('k, 'd) net \<Rightarrow> bool" where
  "inbox k ps nt nt' \<longleftrightarrow> (let pid = pm_next_id (nt_packages nt) in
     queue_of IN_QUEUE (nt_queues nt') =
       queue_of IN_QUEUE (nt_queues nt) @ map (\<lambda>i. message_of k nt (pid + int i)) [0 ..< length ps] \<and>
     (\<forall>i < length ps. case ps ! i of (h, content, _) \<Rightarrow>
       holds_package h content (find_package (nt_packages nt') (pid + int i))))"

lemma message_of_services: "nt_services nt' = nt_services nt \<Longrightarrow> message_of k nt' = message_of k nt"
  by (simp add: message_of_def fun_eq_iff)

lemma inbox_Cons:
  assumes first: "takes k h content nt nt1" and rest: "inbox k ps nt1 nt'"
    and kept: "find_package (nt_packages nt') (pm_next_id (nt_packages nt)) = find_package (nt_packages nt1) (pm_next_id (nt_packages nt))"
  shows "inbox k ((h, content, wire) # ps) nt nt'"
proof -
  define pid where "pid = pm_next_id (nt_packages nt)"
  have t: "pm_next_id (nt_packages nt1) = pid + 1" "nt_services nt1 = nt_services nt"
    "queue_of IN_QUEUE (nt_queues nt1) = queue_of IN_QUEUE (nt_queues nt) @ [message_of k nt pid]"
    "holds_package h content (find_package (nt_packages nt1) pid)"
    using first by (simp_all add: takes_def Let_def pid_def)
  have "[message_of k nt pid] @ map (\<lambda>i. message_of k nt (pid + 1 + int i)) [0 ..< length ps] =
      map (\<lambda>i. message_of k nt (pid + int i)) [0 ..< Suc (length ps)]"
    by (subst map_upt_Suc) (simp add: add_ac)
  with rest t have "queue_of IN_QUEUE (nt_queues nt') =
      queue_of IN_QUEUE (nt_queues nt) @ map (\<lambda>i. message_of k nt (pid + int i)) [0 ..< Suc (length ps)]"
    by (simp add: inbox_def Let_def message_of_services [OF t(2)])
  moreover have "case ((h, content, wire) # ps) ! i of (h, content, _) \<Rightarrow>
      holds_package h content (find_package (nt_packages nt') (pid + int i))" if "i < Suc (length ps)" for i
    using that rest t kept by (cases i) (simp_all add: inbox_def Let_def add_ac flip: pid_def)
  ultimately show ?thesis by (simp add: inbox_def Let_def flip: pid_def)
qed

lemma loop_takes_all:
  assumes env: "env_ok E"
  shows "om_ok (nt_conns nt) \<Longrightarrow> find_conn nt k = Some c \<Longrightarrow> ready c \<Longrightarrow> so_in (cn_socket c) = incoming_bytes ps \<Longrightarrow>
    \<not> so_eof (cn_socket c) \<Longrightarrow> \<forall>p \<in> set ps. incoming_ok E (cn_secure c) p \<Longrightarrow> pm_inv (nt_packages nt) \<Longrightarrow>
    \<exists>nt'. receive_for_state E k nt = Some (Inr (), nt') \<and> inbox k ps nt nt' \<and>
      (\<forall>j < pm_next_id (nt_packages nt). find_package (nt_packages nt') j = find_package (nt_packages nt) j)"
proof (induction ps arbitrary: nt c)
  case Nil
  with nothing_left [OF Nil(1,2,3), of E] show ?case by (auto simp: incoming_bytes_def inbox_def)
next
  case (Cons p ps)
  obtain h content wire where p: "p = (h, content, wire)" by (cases p)
  have ok: "regular h content" "carries E (cn_secure c) content wire" "length wire \<le> 65518"
    using Cons.prems(6) by (simp_all add: p incoming_ok_def)
  have bytes: "so_in (cn_socket c) = header_bytes h @ wire @ incoming_bytes ps"
    using Cons.prems(4) by (simp add: incoming_bytes_def p)
  from package_arrives [OF Cons.prems(1-3) bytes ok env Cons.prems(7)] obtain nt1 c1
    where go: "receive_for_state E k nt = receive_for_state E k nt1" and conns: "om_ok (nt_conns nt1)"
      and c1: "find_conn nt1 k = Some c1" "ready c1" and same: "cn_secure c1 = cn_secure c"
        "so_in (cn_socket c1) = incoming_bytes ps" "so_eof (cn_socket c1) = so_eof (cn_socket c)"
      and takes: "takes k h content nt nt1" by blast
  have inv: "pm_inv (nt_packages nt1)" and pid: "pm_next_id (nt_packages nt1) = pm_next_id (nt_packages nt) + 1"
    and others: "\<And>j. j \<noteq> pm_next_id (nt_packages nt) \<Longrightarrow> find_package (nt_packages nt1) j = find_package (nt_packages nt) j"
    using takes by (simp_all add: takes_def Let_def)
  have "\<exists>nt'. receive_for_state E k nt1 = Some (Inr (), nt') \<and> inbox k ps nt1 nt' \<and>
      (\<forall>j < pm_next_id (nt_packages nt1). find_package (nt_packages nt') j = find_package (nt_packages nt1) j)"
    by (rule Cons.IH [OF conns c1 same(2)]) (use Cons.prems same inv in simp_all)
  then obtain nt' where run: "receive_for_state E k nt1 = Some (Inr (), nt')" "inbox k ps nt1 nt'"
    and kept: "\<And>j. j < pm_next_id (nt_packages nt) + 1 \<Longrightarrow> find_package (nt_packages nt') j = find_package (nt_packages nt1) j"
    unfolding pid by blast
  have "inbox k (p # ps) nt nt'" unfolding p by (rule inbox_Cons [OF takes run(2) kept]) simp
  with run(1) kept others show ?case by (auto simp: go)
qed

text \<open>
  C10. Any number of packages. When the bytes of a list of packages have arrived at a
  connection that is ready, the handler reads exactly those packages and then waits: the
  worker's queue has one message for each, in the order of their arrival and with ids that
  follow each other, and each message's package has the header and the content that were sent.
  This holds in the clear and, after the handshake, for the encrypted bytes. With
  \<open>receive_split\<close> the bytes may come in any pieces.
\<close>

theorem packages_arrive:
  assumes "om_ok (nt_conns nt)" and "pm_inv (nt_packages nt)" and "env_ok E"
    and "find_conn nt k = Some c" and "ready c" and "so_in (cn_socket c) = []" and "\<not> so_eof (cn_socket c)"
    and "\<forall>p \<in> set ps. incoming_ok E (cn_secure c) p"
  shows "\<exists>nt'. on_readable E k (arrive k (incoming_bytes ps) nt) = Some (Inr (), nt') \<and> inbox k ps nt nt'"
proof -
  let ?nt = "arrive k (incoming_bytes ps) nt" and ?c = "more (incoming_bytes ps) c"
  have c: "find_conn ?nt k = Some ?c" by (simp add: assms(4))
  have ready: "ready ?c" using assms(5) by (simp add: ready_def between_def)
  have "\<exists>nt'. receive_for_state E k ?nt = Some (Inr (), nt') \<and> inbox k ps ?nt nt' \<and>
      (\<forall>j < pm_next_id (nt_packages ?nt). find_package (nt_packages nt') j = find_package (nt_packages ?nt) j)"
    by (rule loop_takes_all [OF assms(3) _ c ready])
      (use assms in \<open>simp_all\<close>, simp add: arrive_def update_conn_def)
  moreover have "inbox k ps ?nt nt' = inbox k ps nt nt'" for nt'
    by (simp add: inbox_def message_of_def)
  moreover have "\<not> cn_is_closing ?c" using ready by (simp add: ready_def)
  ultimately show ?thesis using c by (auto simp: on_readable_def simp del: find_arrive)
qed

lemma some_env_ok: "env_ok some_env"
  by (simp add: env_ok_def some_env_def cipher_ok_map)

lemma some_packages: "om_ok (nt_conns some_net)" "pm_inv (nt_packages some_net)"
  by (simp_all add: some_net_def pm_inv_empty)

theorem packages_arrive_witness:
  "\<exists>nt'. on_readable some_env 1 (arrive 1 (incoming_bytes
      [(reset_header\<lparr>h_command := 110, h_content_length := 3\<rparr>, [5, 6, 7], [5, 6, 7]), (reset_header, [], [])]) some_net) =
        Some (Inr (), nt') \<and>
    inbox 1 [(reset_header\<lparr>h_command := 110, h_content_length := 3\<rparr>, [5, 6, 7], [5, 6, 7]), (reset_header, [], [])] some_net nt'"
proof -
  let ?c = "(new_conn 1 PASSIVE_OPEN \<lparr>so_in = [], so_eof = False, so_room = 1000, so_out = []\<rparr>)\<lparr>cn_is_opening := False\<rparr>"
  have c: "find_conn some_net 1 = Some ?c" by (simp add: some_net_def find_conn_def)
  show ?thesis
    by (rule packages_arrive [OF some_packages some_env_ok c])
      (simp_all add: ready_def between_def new_conn_def buffer_lengths_def package_consts incoming_ok_def regular_def carries_def
        header_fits_def fits_def reset_header_def NTF_SECURITY_SETTING_def PACKAGE_VERSION_def)
qed

text \<open>A connection whose handshake is over, and a package with five bytes that waits.\<close>

definition some_secure_conn :: "nat conn" where
  "some_secure_conn = (new_conn 1 ACTIVE_OPEN \<lparr>so_in = [], so_eof = False, so_room = 1000, so_out = []\<rparr>)
     \<lparr>cn_is_opening := False, cn_secure := Some \<lparr>sc_state = STARTED, sc_private_key = None,
       sc_aes_key = replicate 32 7, sc_pending = None\<rparr>\<rparr>"

definition some_full_package :: "bytes package" where
  "some_full_package = (new_package 5 1)\<lparr>p_header := reset_header\<lparr>h_command := 111, h_content_length := 5\<rparr>,
     p_content := Some [1, 2, 3, 4, 0]\<rparr>"

definition some_secure_net :: "(nat, nat) net" where
  "some_secure_net = some_net\<lparr>nt_conns := [(1, some_secure_conn)],
     nt_packages := \<lparr>m_package_list = [(1, some_full_package)], pm_next_id = 2\<rparr>\<rparr>"

text \<open>
  C11. From one end to the other. A connection that is open and has nothing to send takes a
  package with a content of its length, sends all of it and removes it. The bytes it has sent,
  arriving at a connection that is ready and has the same key, give the other program's worker
  one message with a package of the same header and the same content, encrypted or not.
\<close>

theorem package_crosses_connection:
  assumes "env_ok E" and "env_ok F" and "ne_enc F = ne_enc E"
    and "find_conn nt k = Some c" and "\<not> cn_is_closing c" and "\<not> cn_is_opening c" and "cn_send_list c = []"
    and "case cn_secure c of None \<Rightarrow> True | Some sc \<Rightarrow> sc_state sc = STARTED"
    and "find_package (nt_packages nt) pid = Some p" and "sendable pid h content p" and "regular h content"
    and "18 + (length content + 15) div 16 * 16 \<le> so_room (cn_socket c)"
    and "om_ok (nt_conns mt)" and "pm_inv (nt_packages mt)"
    and "find_conn mt j = Some d" and "ready d" and "so_in (cn_socket d) = []" and "\<not> so_eof (cn_socket d)"
    and "map_option sc_aes_key (cn_secure d) = map_option sc_aes_key (cn_secure c)"
  shows "\<exists>nt' c' bs mt'. conn_send_package E k pid nt = (Inr (), nt') \<and> find_package (nt_packages nt') pid = None \<and>
    find_conn nt' k = Some c' \<and> so_out (cn_socket c') = so_out (cn_socket c) @ bs \<and>
    on_readable F j (arrive j bs mt) = Some (Inr (), mt') \<and>
    queue_of IN_QUEUE (nt_queues mt') = queue_of IN_QUEUE (nt_queues mt) @ [message_of j mt (pm_next_id (nt_packages mt))] \<and>
    holds_package h content (find_package (nt_packages mt') (pm_next_id (nt_packages mt)))"
proof -
  from package_sent [OF assms(4-10,1,12)] obtain nt' c' wire where sent: "conn_send_package E k pid nt = (Inr (), nt')"
    "find_package (nt_packages nt') pid = None" "find_conn nt' k = Some c'"
    "so_out (cn_socket c') = so_out (cn_socket c) @ header_bytes h @ wire"
    and wire: "carries E (cn_secure c) content wire" "length wire \<le> 65504" by blast
  have "carries F (cn_secure d) content wire"
    using wire(1) assms(3,19) by (cases "cn_secure c"; cases "cn_secure d") (simp_all add: carries_def)
  then have ok: "\<forall>p \<in> set [(h, content, wire)]. incoming_ok F (cn_secure d) p"
    using wire(2) assms(11) by (simp add: incoming_ok_def)
  let ?bs = "incoming_bytes [(h, content, wire)]"
  have d: "find_conn (arrive j ?bs mt) j = Some (more ?bs d)" by (simp add: assms(15))
  have ready: "ready (more ?bs d)" using assms(16) by (simp add: ready_def between_def)
  have "\<exists>mt'. receive_for_state F j (arrive j ?bs mt) = Some (Inr (), mt') \<and>
      inbox j [(h, content, wire)] (arrive j ?bs mt) mt' \<and> (\<forall>i < pm_next_id (nt_packages (arrive j ?bs mt)).
        find_package (nt_packages mt') i = find_package (nt_packages (arrive j ?bs mt)) i)"
    by (rule loop_takes_all [OF assms(2) _ d ready])
      (use assms(13,14,17,18) ok in \<open>simp_all\<close>, simp add: arrive_def update_conn_def)
  then obtain mt' where run: "receive_for_state F j (arrive j ?bs mt) = Some (Inr (), mt')"
    and box: "inbox j [(h, content, wire)] (arrive j ?bs mt) mt'" by blast
  have "\<not> cn_is_closing (more ?bs d)" using ready by (simp add: ready_def)
  then have "on_readable F j (arrive j (header_bytes h @ wire) mt) = Some (Inr (), mt')"
    using d run by (simp add: on_readable_def incoming_bytes_def del: find_arrive)
  moreover have "queue_of IN_QUEUE (nt_queues mt') = queue_of IN_QUEUE (nt_queues mt) @ [message_of j mt (pm_next_id (nt_packages mt))]"
    "holds_package h content (find_package (nt_packages mt') (pm_next_id (nt_packages mt)))"
    using box by (simp_all add: inbox_def Let_def message_of_def)
  ultimately show ?thesis using sent by blast
qed

theorem package_crosses_connection_witness:
  "\<exists>nt' c' bs mt'. conn_send_package some_env 1 1 some_secure_net = (Inr (), nt') \<and> find_package (nt_packages nt') 1 = None \<and>
    find_conn nt' 1 = Some c' \<and> so_out (cn_socket c') = so_out (cn_socket some_secure_conn) @ bs \<and>
    on_readable some_env 1 (arrive 1 bs some_secure_net) = Some (Inr (), mt') \<and>
    queue_of IN_QUEUE (nt_queues mt') = queue_of IN_QUEUE (nt_queues some_secure_net) @ [message_of 1 some_secure_net 2] \<and>
    holds_package (reset_header\<lparr>h_command := 111, h_content_length := 5\<rparr>) [1, 2, 3, 4, 0] (find_package (nt_packages mt') 2)"
proof -
  have c: "find_conn some_secure_net 1 = Some some_secure_conn" by (simp add: some_secure_net_def find_conn_def)
  have p: "find_package (nt_packages some_secure_net) 1 = Some some_full_package"
    by (simp add: some_secure_net_def find_package_def)
  have pid: "pm_next_id (nt_packages some_secure_net) = 2" by (simp add: some_secure_net_def)
  have inv: "om_ok (nt_conns some_secure_net)" "pm_inv (nt_packages some_secure_net)"
    by (simp_all add: some_secure_net_def pm_inv_def ids_below_def some_full_package_def new_package_def)
  have s: "sendable 1 (reset_header\<lparr>h_command := 111, h_content_length := 5\<rparr>) [1, 2, 3, 4, 0] some_full_package"
    by (simp add: sendable_def some_full_package_def new_package_def)
  have r: "regular (reset_header\<lparr>h_command := 111, h_content_length := 5\<rparr>) [1, 2, 3, 4, 0]"
    by (simp add: regular_def header_fits_def fits_def reset_header_def NTF_SECURITY_SETTING_def PACKAGE_VERSION_def)
  show ?thesis
    by (rule package_crosses_connection [OF some_env_ok some_env_ok refl c _ _ _ _ p s r _ inv c, unfolded pid])
      (simp_all add: some_secure_conn_def new_conn_def ready_def between_def buffer_lengths_def package_consts)
qed

end
