(* ===== verification/Reactor.thy ===== *)
theory Reactor
  imports Delivery Worker
begin

text \<open>
  What the network thread does between the events of its sockets,
  \<open>NetworkReactor::process_out_message\<close> of \<open>foundation/details/network_impl.cpp\<close>, on the table of
  connections itself: \<open>register_connection\<close>, \<open>NetworkServiceManager::get_connection_id\<close> and
  \<open>stop_all\<close>. Theory \<open>Services\<close> has the same manager over the abstract \<open>conn_table\<close>, which
  knows of a connection only whether it is open; here it is refined.

  \<open>reach\<close> says whether the operating system opens a socket; \<open>run\<close> runs a delegated function.
\<close>

section \<open>Connections of services\<close>

definition opened_socket :: "('p, 'k) net_env \<Rightarrow> socket" where
  "opened_socket E = \<lparr>so_in = [], so_eof = False, so_room = ne_room E, so_out = []\<rparr>"

definition register_conn :: "('p, 'k) net_env \<Rightarrow> (string \<Rightarrow> 16 word \<Rightarrow> bool) \<Rightarrow> string \<Rightarrow> 16 word \<Rightarrow> ('k, 'd, int) net_exec" where
  "register_conn E reach host port =
     (if reach host port then create_connection E ACTIVE_OPEN [] (opened_socket E) else fail Std_exception)"

text \<open>\<open>NetworkManager::get_connection\<close>, which throws.\<close>

definition get_open_conn :: "int \<Rightarrow> ('k, 'd, 'k conn) net_exec" where
  "get_open_conn k = getsE (\<lambda>nt. case find_open_conn nt k of
     None \<Rightarrow> Inl (Thrown (Foundation ERR_NETWORK_CONNECTION_NOT_EXIST)) | Some c \<Rightarrow> Inr c)"

definition service_connection :: "('p, 'k) net_env \<Rightarrow> (string \<Rightarrow> 16 word \<Rightarrow> bool) \<Rightarrow> int \<Rightarrow> ('k, 'd, int) net_exec" where
  "service_connection E reach service_id = bindE (gets nt_services) (\<lambda>sm. case find_service sm service_id of
     None \<Rightarrow> fail (Thrown (Foundation ERR_NETWORK_SERVICE_NOT_EXIST))
   | Some s \<Rightarrow> (case map_of (m_conn_list sm) service_id of
       None \<Rightarrow>
         bindE (register_conn E reach (ns_ip s) (ns_port s)) (\<lambda>k.
         bindE (modify (\<lambda>nt. nt\<lparr>nt_services := (nt_services nt)\<lparr>
           m_conn_list := om_insert service_id k (m_conn_list (nt_services nt)),
           m_conn_service_list := om_insert k service_id (m_conn_service_list (nt_services nt))\<rparr>\<rparr>)) (\<lambda>_. ret k))
     | Some conn_id \<Rightarrow>
         bindE (gets (\<lambda>nt. find_open_conn nt conn_id \<noteq> None)) (\<lambda>valid. if valid then ret conn_id else
         bindE (register_conn E reach (ns_ip s) (ns_port s)) (\<lambda>k.
         bindE (modify (\<lambda>nt. nt\<lparr>nt_services := (nt_services nt)\<lparr>
           m_conn_list := om_put service_id k (m_conn_list (nt_services nt)),
           m_conn_service_list := om_insert k service_id (om_erase conn_id (m_conn_service_list (nt_services nt)))\<rparr>\<rparr>)) (\<lambda>_.
         ret k)))))"

section \<open>Messages of the worker\<close>

text \<open>\<open>NetworkReactor::send_package\<close>.\<close>

definition reactor_send_package ::
  "('p, 'k) net_env \<Rightarrow> (string \<Rightarrow> 16 word \<Rightarrow> bool) \<Rightarrow> int \<Rightarrow> int \<Rightarrow> int \<Rightarrow> ('k, 'd, unit) net_exec" where
  "reactor_send_package E reach conn_id service_id pid =
     bindE (if conn_id = 0 then service_connection E reach service_id else ret conn_id) (\<lambda>k.
     bindE (gets (\<lambda>nt. find_open_conn nt k \<noteq> None)) (\<lambda>conn.
     bindE (gets (\<lambda>nt. find_package (nt_packages nt) pid \<noteq> None)) (\<lambda>valid.
     if \<not> conn \<or> \<not> valid then if valid then drop_package pid else ret ()
     else conn_send_package E k pid)))"

definition REACTOR_MAX_MSG_PER_TIMES :: nat where "REACTOR_MAX_MSG_PER_TIMES = 10"

abbreviation on_net_queues where "on_net_queues \<equiv> zoom nt_queues (\<lambda>x nt. nt\<lparr>nt_queues := x\<rparr>)"

fun out_messages ::
  "('p, 'k) net_env \<Rightarrow> (string \<Rightarrow> 16 word \<Rightarrow> bool) \<Rightarrow> ('d \<Rightarrow> ('k, 'd, unit) net_exec) \<Rightarrow> nat \<Rightarrow> ('k, 'd, unit) net_exec" where
  "out_messages E reach run 0 = ret ()"
| "out_messages E reach run (Suc n) =
     bindE (gets (\<lambda>nt. queue_empty OUT_QUEUE (nt_queues nt))) (\<lambda>empty. if empty then ret () else
     bindE (on_net_queues (queue_pop OUT_QUEUE)) (\<lambda>m.
     bindE (case m of
         NETWORK_TYPE msg \<Rightarrow> reactor_send_package E reach (nm_conn_id msg) (nm_service_id msg) (nm_package_id msg)
       | DELEGATE_TYPE caller f \<Rightarrow> bindE (safe_call (run f)) (\<lambda>_. ret ())) (\<lambda>_.
     out_messages E reach run n)))"

definition process_out_message ::
  "('p, 'k) net_env \<Rightarrow> (string \<Rightarrow> 16 word \<Rightarrow> bool) \<Rightarrow> ('d \<Rightarrow> ('k, 'd, unit) net_exec) \<Rightarrow> ('k, 'd, unit) net_exec" where
  "process_out_message E reach run = out_messages E reach run REACTOR_MAX_MSG_PER_TIMES"

section \<open>The table of connections\<close>

text \<open>What the abstract table knows of the connections.\<close>

definition table_of :: "('k, 'd) net \<Rightarrow> conn_table" where
  "table_of nt = \<lparr>m_net_conns = map (\<lambda>(k, c). (k, \<not> cn_is_closing c)) (nt_conns nt), m_net_next_id = nt_next_id nt\<rparr>"

lemma map_of_table: "map_of (map (\<lambda>(k, c). (k, f c)) m) k = map_option f (map_of m k)"
  by (induction m) auto

lemma om_insert_values: "om_insert k (f v) (map (\<lambda>(k, c). (k, f c)) m) = map (\<lambda>(k, c). (k, f c)) (om_insert k v m)"
  by (induction k v m rule: om_insert.induct) auto

lemma find_open_refines: "find_open_connection (table_of nt) k \<longleftrightarrow> find_open_conn nt k \<noteq> None"
  by (auto simp: find_open_connection_def table_of_def map_of_table find_open_conn_def find_conn_def split: option.splits)

lemma register_refines:
  fixes nt :: "('k, 'd) net"
  shows "net_register_connection reach host port (table_of nt) =
    (fst (register_conn E reach host port nt), table_of (snd (register_conn E reach host port nt)))"
proof -
  have "om_insert k True (map (\<lambda>(k, c). (k, \<not> cn_is_closing c)) m) =
      map (\<lambda>(k, c). (k, \<not> cn_is_closing c)) (om_insert k (new_conn k t so) m)" for k :: int and t so and m :: "(int, 'k conn) omap"
    using om_insert_values [of k "\<lambda>c. \<not> cn_is_closing c" "new_conn k t so" m] by (simp add: new_conn_def)
  then show ?thesis
    by (simp add: net_register_connection_def register_conn_def create_connection_def on_create_connection_def
        table_of_def bindE_assoc)
qed

lemma register_conn_services: "nt_services (snd (register_conn E reach host port nt)) = nt_services nt"
  by (simp add: register_conn_def create_connection_def on_create_connection_def bindE_assoc)

lemma table_of_services [simp]: "table_of (nt\<lparr>nt_services := s\<rparr>) = table_of nt"
  by (simp add: table_of_def)

lemma close_refines:
  fixes nt :: "('k, 'd) net"
  assumes c: "find_conn nt k = Some c"
  shows "table_of (snd (close_conn k nt)) = net_remove_connection (\<lambda>_. cn_send_list c \<noteq> []) k (table_of nt)"
proof -
  have e: "(map (\<lambda>(k, c). (k, \<not> cn_is_closing c)) (om_erase k m)) = om_erase k (map (\<lambda>(k, c). (k, \<not> cn_is_closing c)) m)"
    for m :: "(int, 'k conn) omap" by (induction m) (auto simp: om_erase_def)
  have u: "map (\<lambda>(k, c). (k, \<not> cn_is_closing c)) (om_update k (\<lambda>c. c\<lparr>cn_is_closing := True\<rparr>) m) =
      om_update k (\<lambda>_. False) (map (\<lambda>(k, c). (k, \<not> cn_is_closing c)) m)"
    for m :: "(int, 'k conn) omap" by (induction m) (auto simp: om_update_def)
  show ?thesis
    by (simp add: close_conn_def destroy_conn_def bindE_get_conn [OF c] net_remove_connection_def table_of_def e)
      (simp add: set_conn_def update_conn_def u)
qed

section \<open>Where a package goes\<close>

text \<open>A connection has the package in one of its lists.\<close>

definition in_pending :: "int \<Rightarrow> int list option \<Rightarrow> bool" where
  "in_pending pid q \<longleftrightarrow> (\<exists>ids. q = Some ids \<and> pid \<in> set ids)"

definition waits_at :: "'k conn \<Rightarrow> int \<Rightarrow> bool" where
  "waits_at c pid \<longleftrightarrow> pid \<in> set (cn_send_list c) \<or> in_pending pid (cn_pending c) \<or>
     (\<exists>sc. cn_secure c = Some sc \<and> in_pending pid (sc_pending sc))"

definition accounted :: "int \<Rightarrow> int \<Rightarrow> ('k, 'd) net \<Rightarrow> bool" where
  "accounted k pid nt \<longleftrightarrow> find_package (nt_packages nt) pid = None \<or> (\<exists>c. find_conn nt k = Some c \<and> waits_at c pid)"

lemma in_pending_add [simp]: "in_pending pid (add_pending pid q)"
  by (simp add: in_pending_def add_pending_def)

lemma waits_at_simps [simp]:
  "waits_at (c\<lparr>cn_send_list := cn_send_list c @ [pid]\<rparr>) pid" "waits_at (c\<lparr>cn_send_list := cn_send_list c @ [pid], cn_watch := w\<rparr>) pid"
  "waits_at (c\<lparr>cn_pending := add_pending pid q\<rparr>) pid"
  "cn_secure c \<noteq> None \<Longrightarrow> waits_at (update_secure (\<lambda>sc. sc\<lparr>sc_pending := add_pending pid (sc_pending sc)\<rparr>) c) pid"
  by (auto simp: waits_at_def update_secure_def)

lemma send_bytes_cases:
  assumes c: "find_conn nt k = Some c" and run: "send_bytes E k p 0 len nt = (Inr n, nt')"
  shows "n \<le> len \<and> nt_packages nt' = nt_packages nt \<and> (\<exists>c'. find_conn nt' k = Some c')"
  using run c
  by (auto simp: send_bytes_def bindE_get_conn [OF c] bindE_getsE read_memory_def Let_def split: if_splits)

lemma drop_package_gone: "drop_package pid nt = (Inr (), nt') \<Longrightarrow> find_package (nt_packages nt') pid = None"
  by (auto simp: drop_package_def zoom_def find_package_remove)

lemma drop_package_accounted: "drop_package pid nt = (Inr (), nt') \<Longrightarrow> accounted k pid nt'"
  by (simp add: accounted_def drop_package_gone)

lemma send_raw_accounted:
  assumes c: "find_conn nt k = Some c" and run: "send_raw_package E k pid nt = (Inr (), nt')"
  shows "accounted k pid nt'"
proof (cases "cn_send_list c = []")
  case False
  with run c show ?thesis
    by (auto simp: send_raw_package_def bindE_get_conn [OF c] set_conn_def accounted_def)
next
  case True
  then obtain p where p: "find_package (nt_packages nt) pid = Some p"
    and run: "bindE (send_bytes E k p 0 (package_len p)) (\<lambda>n.
       bindE (set_conn k (\<lambda>c. c\<lparr>cn_send_len := n\<rparr>)) (\<lambda>_.
       if n = package_len p then bindE (set_conn k (\<lambda>c. c\<lparr>cn_send_len := 0\<rparr>)) (\<lambda>_. drop_package pid)
       else if n < package_len p then set_conn k (\<lambda>c. c\<lparr>cn_send_list := cn_send_list c @ [pid], cn_watch := True\<rparr>)
       else ret ())) nt = (Inr (), nt')"
    using run by (auto simp: send_raw_package_def bindE_get_conn [OF c] deref_package_def bindE_getsE Let_def split: option.splits)
  from run obtain n nt1 where n: "send_bytes E k p 0 (package_len p) nt = (Inr n, nt1)"
    and rest: "(if n = package_len p then drop_package pid (update_conn k (\<lambda>c. c\<lparr>cn_send_len := 0\<rparr>) (update_conn k (\<lambda>c. c\<lparr>cn_send_len := n\<rparr>) nt1))
       else if n < package_len p then set_conn k (\<lambda>c. c\<lparr>cn_send_list := cn_send_list c @ [pid], cn_watch := True\<rparr>) (update_conn k (\<lambda>c. c\<lparr>cn_send_len := n\<rparr>) nt1)
       else ret () (update_conn k (\<lambda>c. c\<lparr>cn_send_len := n\<rparr>) nt1)) = (Inr (), nt')"
    by (rule bindE_InrE) (auto split: if_splits)
  from send_bytes_cases [OF c n] obtain c1 where c1: "n \<le> package_len p" "find_conn nt1 k = Some c1" by blast
  with rest show ?thesis
    by (auto simp: set_conn_def accounted_def waits_at_def split: if_splits dest: drop_package_gone)
qed

lemma conn_send_accounted:
  assumes c: "find_conn nt k = Some c" and run: "conn_send_package E k pid nt = (Inr (), nt')"
  shows "accounted k pid nt'"
proof (cases "cn_is_closing c \<or> cn_secure c = None \<or> (\<exists>sc. cn_secure c = Some sc \<and> sc_state sc \<noteq> STARTED)")
  case True
  with run c show ?thesis
    by (auto simp: conn_send_package_def secure_send_package_def get_secure_def bindE_assoc bindE_get_conn [OF c]
      intro: drop_package_accounted send_raw_accounted [OF c] split: if_splits option.splits)
      (auto simp: set_conn_def accounted_def split: if_splits)
next
  case False
  then obtain sc where sc: "cn_secure c = Some sc" "sc_state sc = STARTED" and on: "\<not> cn_is_closing c" by auto
  from run on sc have "secure_send_package E k pid nt = (Inr (), nt')" by (simp add: conn_send_package_def bindE_get_conn [OF c])
  then obtain p cipher where p: "find_package (nt_packages nt) pid = Some p" "encrypt_content E (sc_aes_key sc) p = Inr cipher"
    by (auto simp: secure_send_package_def get_secure_def bindE_assoc bindE_get_conn [OF c] sc deref_package_def bindE_getsE
      split: option.splits sum.splits)
  have d: "find_conn (nt\<lparr>nt_packages := pm\<rparr>) k = Some c" for pm using c by (simp add: find_conn_def)
  from run on sc secure_send_run [OF c sc p] show ?thesis
    by (intro send_raw_accounted [OF d]) (simp add: conn_send_package_def bindE_get_conn [OF c])
qed

lemma reactor_send_accounted:
  assumes "reactor_send_package E reach conn_id service_id pid nt = (Inr (), nt')"
  shows "\<exists>k. (conn_id \<noteq> 0 \<longrightarrow> k = conn_id) \<and> accounted k pid nt'"
proof -
  from assms obtain k nt1 where named: "(if conn_id = 0 then service_connection E reach service_id else ret conn_id) nt = (Inr k, nt1)"
    and run: "(if find_open_conn nt1 k = None \<or> find_package (nt_packages nt1) pid = None
      then if find_package (nt_packages nt1) pid \<noteq> None then drop_package pid else ret () else conn_send_package E k pid) nt1 = (Inr (), nt')"
    unfolding reactor_send_package_def by (rule bindE_InrE) (auto split: if_splits)
  have k: "conn_id \<noteq> 0 \<longrightarrow> k = conn_id"
  proof
    assume "conn_id \<noteq> 0"
    then show "k = conn_id" using named by simp
  qed
  show ?thesis
  proof (cases "find_open_conn nt1 k = None \<or> find_package (nt_packages nt1) pid = None")
    case True
    with run k show ?thesis by (auto simp: accounted_def split: if_splits dest: drop_package_gone)
  next
    case False
    then obtain c where "find_conn nt1 k = Some c" by (auto simp: find_open_conn_def split: option.splits)
    from conn_send_accounted [OF this] run False k show ?thesis by auto
  qed
qed

section \<open>The stream of bytes\<close>

text \<open>The bytes of a package, and what a connection still has to send of its packages.\<close>

definition package_bytes :: "('p, 'k) net_env \<Rightarrow> ('k, 'd) net \<Rightarrow> int \<Rightarrow> bytes" where
  "package_bytes E nt pid = (case find_package (nt_packages nt) pid of None \<Rightarrow> []
     | Some p \<Rightarrow> take (nat (package_len p)) (package_memory (ne_junk E (p_id p)) p))"

definition unsent :: "('p, 'k) net_env \<Rightarrow> ('k, 'd) net \<Rightarrow> 'k conn \<Rightarrow> bytes" where
  "unsent E nt c = (case cn_send_list c of [] \<Rightarrow> []
     | pid # ids \<Rightarrow> drop (nat (cn_send_len c)) (package_bytes E nt pid) @ concat (map (package_bytes E nt) ids))"

text \<open>A registered package whose bytes lie inside its buffer.\<close>

definition whole :: "('p, 'k) net_env \<Rightarrow> ('k, 'd) net \<Rightarrow> int \<Rightarrow> bool" where
  "whole E nt pid \<longleftrightarrow> (\<exists>p. find_package (nt_packages nt) pid = Some p \<and> 0 < package_len p \<and>
     package_len p \<le> int (length (package_memory (ne_junk E (p_id p)) p)))"

text \<open>Between two events: every package to send is there, and \<open>m_send_len\<close> counts bytes of the first.\<close>

definition sending_ok :: "('p, 'k) net_env \<Rightarrow> ('k, 'd) net \<Rightarrow> 'k conn \<Rightarrow> bool" where
  "sending_ok E nt c \<longleftrightarrow> distinct (cn_send_list c) \<and> (\<forall>pid \<in> set (cn_send_list c). whole E nt pid) \<and> 0 \<le> cn_send_len c \<and>
     (case cn_send_list c of [] \<Rightarrow> True | pid # _ \<Rightarrow> cn_send_len c < int (length (package_bytes E nt pid)))"

lemma wholeD:
  assumes "whole E nt pid" and p: "find_package (nt_packages nt) pid = Some p"
  shows "package_len p = int (length (package_bytes E nt pid))"
    and "package_bytes E nt pid = take (nat (package_len p)) (package_memory (ne_junk E (p_id p)) p)"
    and "length (package_bytes E nt pid) \<le> length (package_memory (ne_junk E (p_id p)) p)"
proof -
  have len: "0 \<le> package_len p" "nat (package_len p) \<le> length (package_memory (ne_junk E (p_id p)) p)"
    using assms by (auto simp: whole_def)
  show bytes: "package_bytes E nt pid = take (nat (package_len p)) (package_memory (ne_junk E (p_id p)) p)"
    by (simp add: package_bytes_def p)
  show "package_len p = int (length (package_bytes E nt pid))" using len by (simp add: bytes min_absorb2)
  show "length (package_bytes E nt pid) \<le> length (package_memory (ne_junk E (p_id p)) p)" by (simp add: bytes)
qed

lemma send_bytes_run:
  assumes c: "find_conn nt k = Some c" and pid: "whole E nt pid" and p: "find_package (nt_packages nt) pid = Some p"
    and off: "0 \<le> off" "off \<le> int (length (package_bytes E nt pid))" and room: "so_room (cn_socket c) \<noteq> 0"
  defines "n \<equiv> min (length (package_bytes E nt pid) - nat off) (so_room (cn_socket c))"
  shows "send_bytes E k p off (package_len p - off) nt = (Inr (int n), update_conn k (on_socket (\<lambda>so. so\<lparr>
    so_out := so_out so @ take n (drop (nat off) (package_bytes E nt pid)), so_room := so_room so - n\<rparr>)) nt)"
proof -
  note len = wholeD(1) [OF pid p] and bytes = wholeD(2) [OF pid p] and le = wholeD(3) [OF pid p]
  have "nat (int (length (package_bytes E nt pid)) - off) = length (package_bytes E nt pid) - nat off"
    using off by (simp add: nat_diff_distrib)
  then have m: "take (nat (int (length (package_bytes E nt pid)) - off)) (drop (nat off) (package_memory (ne_junk E (p_id p)) p)) =
      drop (nat off) (package_bytes E nt pid)"
    using arg_cong [OF bytes, of "drop (nat off)"] by (simp add: drop_take len)
  have "read_memory (package_memory (ne_junk E (p_id p)) p) off (package_len p - off) = Inr (drop (nat off) (package_bytes E nt pid))"
    using off len le by (simp add: read_memory_def m)
  then show ?thesis
    using room by (simp add: send_bytes_def bindE_get_conn [OF c] bindE_getsE Let_def n_def)
qed

lemma package_bytes_packages: "nt_packages nt' = nt_packages nt \<Longrightarrow> package_bytes E nt' = package_bytes E nt"
  by (simp add: package_bytes_def fun_eq_iff)

lemma whole_packages: "nt_packages nt' = nt_packages nt \<Longrightarrow> whole E nt' = whole E nt"
  by (simp add: whole_def fun_eq_iff)

lemma whole_bytes: "whole E nt pid \<Longrightarrow> package_bytes E nt pid \<noteq> []"
  by (auto simp: whole_def package_bytes_def)

lemma other_package:
  assumes "nt_packages nt' = remove_package pid (nt_packages nt)" and "j \<noteq> pid"
  shows "package_bytes E nt' j = package_bytes E nt j" and "whole E nt' j = whole E nt j"
  using assms by (simp_all add: package_bytes_def whole_def find_package_remove)

lemma sending_rest:
  assumes ok: "sending_ok E nt c" and ids: "cn_send_list c = pid # rest"
    and nt': "nt_packages nt' = remove_package pid (nt_packages nt)"
    and c': "cn_send_list c' = rest" "cn_send_len c' = 0"
  shows "sending_ok E nt' c'" and "unsent E nt' c' = concat (map (package_bytes E nt) rest)"
proof -
  have d: "distinct rest" "pid \<notin> set rest" and w: "\<And>j. j \<in> set rest \<Longrightarrow> whole E nt j" using ok ids by (auto simp: sending_ok_def)
  have w': "\<And>j. j \<in> set rest \<Longrightarrow> whole E nt' j" using d w other_package(2) [OF nt'] by metis
  have bytes: "\<And>j. j \<in> set rest \<Longrightarrow> package_bytes E nt' j = package_bytes E nt j"
    using other_package(1) [OF nt'] d by metis
  have "\<And>j. j \<in> set rest \<Longrightarrow> package_bytes E nt' j \<noteq> []" using w' whole_bytes by blast
  then show "sending_ok E nt' c'" using d w' by (cases rest) (simp_all add: sending_ok_def c')
  show "unsent E nt' c' = concat (map (package_bytes E nt) rest)"
    using bytes by (cases rest) (simp_all add: unsent_def c' cong: map_cong)
qed

lemma find_conn_packages [simp]: "find_conn (nt\<lparr>nt_packages := pm\<rparr>) k = find_conn nt k"
  by (simp add: find_conn_def)

lemma on_writable_stream:
  assumes c: "find_conn nt k = Some c" and ok: "sending_ok E nt c" and ids: "cn_send_list c = pid # rest"
    and room: "so_room (cn_socket c) \<noteq> 0"
  shows "\<exists>nt'. on_writable E k nt = (Inr (), nt') \<and> (case find_conn nt' k of
      None \<Rightarrow> cn_is_closing c \<and> length (unsent E nt c) \<le> so_room (cn_socket c)
    | Some c' \<Rightarrow> so_out (cn_socket c') @ unsent E nt' c' = so_out (cn_socket c) @ unsent E nt c \<and> sending_ok E nt' c' \<and>
        length (unsent E nt' c') < length (unsent E nt c))"
proof -
  define bs off where "bs = package_bytes E nt pid" and "off = nat (cn_send_len c)"
  define n where "n = min (length bs - off) (so_room (cn_socket c))"
  have w: "whole E nt pid" and off: "cn_send_len c = int off" "off < length bs"
    using ok ids by (auto simp: sending_ok_def bs_def off_def)
  obtain p where p: "find_package (nt_packages nt) pid = Some p" using w by (auto simp: whole_def)
  have len: "package_len p = int (length bs)" using wholeD(1) [OF w p] by (simp add: bs_def)
  have n: "0 < n" "n \<le> length bs - off" using off room by (simp_all add: n_def)
  let ?nt0 = "update_conn k (\<lambda>c. c\<lparr>cn_send_list := pid # rest\<rparr>) nt"
  let ?sent = "on_socket (\<lambda>so. so\<lparr>so_out := so_out so @ take n (drop off bs), so_room := so_room so - n\<rparr>)"
  define nt1 where "nt1 = update_conn k (\<lambda>c. c\<lparr>cn_send_len := cn_send_len c + int n\<rparr>) (update_conn k ?sent ?nt0)"
  have c0: "find_conn ?nt0 k = Some c" using c ids by simp
  have bytes0: "package_bytes E ?nt0 pid = bs" by (simp add: bs_def package_bytes_def)
  have w0: "whole E ?nt0 pid" using w by (simp add: whole_def)
  have p0: "find_package (nt_packages ?nt0) pid = Some p" using p by simp
  have send: "send_bytes E k p (int off) (int (length bs) - int off) ?nt0 = (Inr (int n), update_conn k ?sent ?nt0)"
    using send_bytes_run [OF c0 w0 p0, of "int off"] off room by (simp add: bytes0 n_def len)
  define d where "d = (?sent c)\<lparr>cn_send_len := int (off + n)\<rparr>"
  have same: "c\<lparr>cn_send_list := pid # rest\<rparr> = c" using ids by (cases c) simp
  have d: "find_conn nt1 k = Some d" by (simp add: nt1_def c d_def same off on_socket_def)
  have dsimps: "cn_send_list d = pid # rest" "cn_is_closing d = cn_is_closing c" "cn_send_len d = int (off + n)"
    "so_out (cn_socket d) = so_out (cn_socket c) @ take n (drop off bs)"
    by (simp_all add: d_def on_socket_def ids)
  have unsent: "unsent E nt c = drop off bs @ concat (map (package_bytes E nt) rest)"
    by (simp add: unsent_def ids bs_def off_def)
  define nt3 where "nt3 = (update_conn k (\<lambda>c. c\<lparr>cn_send_len := 0, cn_send_list := rest\<rparr>) nt1)\<lparr>
    nt_packages := remove_package pid (nt_packages nt1)\<rparr>"
  have e: "find_conn nt3 k = Some (d\<lparr>cn_send_len := 0, cn_send_list := rest\<rparr>)"
    using found_update [OF d, of "\<lambda>c. c\<lparr>cn_send_len := 0, cn_send_list := rest\<rparr>"] by (simp only: find_conn_packages nt3_def)
  have run: "on_writable E k nt = (if off + n = length bs
      then if rest \<noteq> [] then (Inr (), nt3)
           else bindE (set_conn k (\<lambda>c. c\<lparr>cn_watch := False\<rparr>)) (\<lambda>_. if cn_is_closing c then destroy_conn k else ret ()) nt3
      else (Inr (), nt1))"
  proof -
    have "on_writable E k nt = bindE (if int off + int n = int (length bs)
        then bindE (set_conn k (\<lambda>c. c\<lparr>cn_send_len := 0, cn_send_list := rest\<rparr>)) (\<lambda>_. drop_package pid) else ret ()) (\<lambda>_.
      bindE (get_conn k) (\<lambda>c. if cn_send_list c \<noteq> [] then ret ()
        else bindE (set_conn k (\<lambda>c. c\<lparr>cn_watch := False\<rparr>)) (\<lambda>_. if cn_is_closing c then destroy_conn k else ret ()))) nt1"
      using p by (simp add: on_writable_def bindE_get_conn [OF c] ids deref_package_def bindE_getsE Let_def len off send nt1_def
        bindE_def [of "send_bytes _ _ _ _ _"])
    also have "\<dots> = (if off + n = length bs
      then if rest \<noteq> [] then (Inr (), nt3)
           else bindE (set_conn k (\<lambda>c. c\<lparr>cn_watch := False\<rparr>)) (\<lambda>_. if cn_is_closing c then destroy_conn k else ret ()) nt3
      else (Inr (), nt1))"
    proof (cases "off + n = length bs")
      case True
      then have eq: "int off + int n = int (length bs)" by linarith
      have "bindE (set_conn k (\<lambda>c. c\<lparr>cn_send_len := 0, cn_send_list := rest\<rparr>)) (\<lambda>_. drop_package pid) nt1 = (Inr (), nt3)"
        by (simp add: drop_package_def zoom_def nt3_def)
      then show ?thesis using True eq
        by (simp add: bindE_def [of "bindE _ _"] bindE_get_conn [OF e] dsimps del: bindE_set_conn)
    next
      case False
      then have "int off + int n \<noteq> int (length bs)" by linarith
      with False show ?thesis by (simp add: bindE_get_conn [OF d] dsimps)
    qed
    finally show ?thesis .
  qed
  have packages: "nt_packages nt1 = nt_packages nt" "nt_packages nt3 = remove_package pid (nt_packages nt)"
    by (simp_all add: nt1_def nt3_def)
  show ?thesis
  proof (cases "off + n = length bs")
    case False
    then have lt: "off + n < length bs" using n(2) off(2) by linarith
    have "unsent E nt1 d = drop (off + n) bs @ concat (map (package_bytes E nt) rest)"
      using package_bytes_packages [OF packages(1), of E] by (simp add: unsent_def dsimps bs_def nat_int_add)
    moreover have "take n (drop off bs) @ drop (off + n) bs = drop off bs" by (metis append_take_drop_id drop_drop add.commute)
    moreover have "sending_ok E nt1 d"
      using ok ids lt package_bytes_packages [OF packages(1), of E] whole_packages [OF packages(1), of E]
      by (simp add: sending_ok_def dsimps bs_def)
    ultimately show ?thesis using run False d lt n by (simp add: dsimps unsent)
  next
    case True
    then have all: "take n (drop off bs) = drop off bs" by simp
    define e' where "e' = d\<lparr>cn_send_len := 0, cn_send_list := rest\<rparr>"
    have e': "find_conn nt3 k = Some e'" using e by (simp add: e'_def)
    have rest: "sending_ok E mt c'" "unsent E mt c' = concat (map (package_bytes E nt) rest)"
      if "nt_packages mt = nt_packages nt3" "cn_send_list c' = rest" "cn_send_len c' = 0" for mt :: "('a, 'b) net" and c' :: "'a conn"
      using sending_rest [OF ok ids, of mt c'] that packages by simp_all
    have out: "so_out (cn_socket e') = so_out (cn_socket c) @ drop off bs" by (simp add: e'_def dsimps all)
    show ?thesis
    proof (cases "rest = [] \<and> cn_is_closing c")
      case gone: True
      have "length (unsent E nt c) \<le> so_room (cn_socket c)" using True gone by (simp add: unsent n_def)
      moreover have "find_conn (update_conn k (\<lambda>c. c\<lparr>cn_watch := False\<rparr>) nt3) k = Some (e'\<lparr>cn_watch := False\<rparr>)"
        by (rule found_update [OF e'])
      ultimately show ?thesis
        using run True gone by (simp add: destroy_conn_def bindE_get_conn) (simp add: find_conn_def)
    next
      case on: False
      define mt where "mt = (if rest = [] then update_conn k (\<lambda>c. c\<lparr>cn_watch := False\<rparr>) nt3 else nt3)"
      define c' where "c' = (if rest = [] then e'\<lparr>cn_watch := False\<rparr> else e')"
      have "on_writable E k nt = (Inr (), mt)" using run True on by (auto simp: mt_def)
      moreover have "find_conn mt k = Some c'" using e' by (simp add: mt_def c'_def)
      moreover have "nt_packages mt = nt_packages nt3" "cn_send_list c' = rest" "cn_send_len c' = 0"
        "so_out (cn_socket c') = so_out (cn_socket c) @ drop off bs"
        using out by (simp_all add: mt_def c'_def e'_def)
      ultimately show ?thesis using rest [of mt c'] off by (simp add: unsent)
    qed
  qed
qed

lemma send_raw_stream:
  fixes nt :: "('k, 'd) net"
  assumes c: "find_conn nt k = Some c" and ok: "sending_ok E nt c" and w: "whole E nt pid"
    and new: "pid \<notin> set (cn_send_list c)" and room: "so_room (cn_socket c) \<noteq> 0"
  shows "\<exists>nt' c'. send_raw_package E k pid nt = (Inr (), nt') \<and> find_conn nt' k = Some c' \<and> sending_ok E nt' c' \<and>
    so_out (cn_socket c') @ unsent E nt' c' = so_out (cn_socket c) @ unsent E nt c @ package_bytes E nt pid"
proof (cases "cn_send_list c")
  case (Cons j ids)
  let ?f = "\<lambda>c. c\<lparr>cn_send_list := cn_send_list c @ [pid]\<rparr>"
  have "send_raw_package E k pid nt = (Inr (), update_conn k ?f nt)"
    by (simp add: send_raw_package_def bindE_get_conn [OF c] Cons set_conn_def)
  moreover have "find_conn (update_conn k ?f nt) k = Some (?f c)" by (rule found_update [OF c])
  moreover have same: "package_bytes E (update_conn k ?f nt) = package_bytes E nt" "whole E (update_conn k ?f nt) = whole E nt"
    by (rule package_bytes_packages whole_packages, simp)+
  moreover have "sending_ok E (update_conn k ?f nt) (?f c)" using ok w new by (simp add: Cons sending_ok_def same)
  moreover have "so_out (cn_socket (?f c)) @ unsent E (update_conn k ?f nt) (?f c) =
      so_out (cn_socket c) @ unsent E nt c @ package_bytes E nt pid"
    by (simp add: Cons unsent_def same)
  ultimately show ?thesis by blast
next
  case Nil
  define bs where "bs = package_bytes E nt pid"
  define n where "n = min (length bs) (so_room (cn_socket c))"
  obtain p where p: "find_package (nt_packages nt) pid = Some p" using w by (auto simp: whole_def)
  have len: "package_len p = int (length bs)" using wholeD(1) [OF w p] by (simp add: bs_def)
  have pos: "0 < length bs" using whole_bytes [OF w] by (simp add: bs_def)
  have empty: "unsent E nt c = []" by (simp add: unsent_def Nil)
  define nt1 where "nt1 = update_conn k (\<lambda>c. c\<lparr>cn_send_len := int n\<rparr>) (update_conn k (on_socket (\<lambda>so. so\<lparr>
    so_out := so_out so @ take n bs, so_room := so_room so - n\<rparr>)) nt)"
  define d where "d = (on_socket (\<lambda>so. so\<lparr>so_out := so_out so @ take n bs, so_room := so_room so - n\<rparr>) c)\<lparr>cn_send_len := int n\<rparr>"
  have d: "find_conn nt1 k = Some d" by (simp add: nt1_def d_def c)
  have dsimps: "cn_send_list d = []" "so_out (cn_socket d) = so_out (cn_socket c) @ take n bs" "cn_send_len d = int n"
    by (simp_all add: d_def on_socket_def Nil)
  have packages: "nt_packages nt1 = nt_packages nt" by (simp add: nt1_def)
  have "send_bytes E k p 0 (int (length bs)) nt = (Inr (int n), update_conn k (on_socket (\<lambda>so. so\<lparr>
    so_out := so_out so @ take n bs, so_room := so_room so - n\<rparr>)) nt)"
    using send_bytes_run [OF c w p, of 0] room by (simp add: n_def len flip: bs_def)
  then have "bindE (send_bytes E k p 0 (int (length bs))) (\<lambda>n. bindE (set_conn k (\<lambda>c. c\<lparr>cn_send_len := n\<rparr>)) (g n)) nt =
      g (int n) () nt1" for g :: "int \<Rightarrow> unit \<Rightarrow> ('k, 'd, unit) net_exec"
    by (simp add: bindE_def [of "send_bytes _ _ _ _ _"] nt1_def)
  then have run: "send_raw_package E k pid nt =
      (if int n = int (length bs) then bindE (set_conn k (\<lambda>c. c\<lparr>cn_send_len := 0\<rparr>)) (\<lambda>_. drop_package pid)
       else if int n < int (length bs) then set_conn k (\<lambda>c. c\<lparr>cn_send_list := cn_send_list c @ [pid], cn_watch := True\<rparr>)
       else ret ()) nt1"
    by (simp only: send_raw_package_def bindE_get_conn [OF c] Nil deref_package_def bindE_getsE p Let_def len
      option.case sum.case simp_thms if_False not_True_eq_False)
  show ?thesis
  proof (cases "n = length bs")
    case True
    let ?nt = "(update_conn k (\<lambda>c. c\<lparr>cn_send_len := 0\<rparr>) nt1)\<lparr>nt_packages := remove_package pid (nt_packages nt)\<rparr>"
    have "send_raw_package E k pid nt = (Inr (), ?nt)"
      by (simp add: run True drop_package_def zoom_def packages)
    moreover have "find_conn ?nt k = Some (d\<lparr>cn_send_len := 0\<rparr>)"
      using found_update [OF d, of "\<lambda>c. c\<lparr>cn_send_len := 0\<rparr>"] by (simp only: find_conn_packages)
    moreover have "sending_ok E ?nt (d\<lparr>cn_send_len := 0\<rparr>)" by (simp add: sending_ok_def dsimps)
    moreover have "so_out (cn_socket (d\<lparr>cn_send_len := 0\<rparr>)) @ unsent E ?nt (d\<lparr>cn_send_len := 0\<rparr>) =
        so_out (cn_socket c) @ unsent E nt c @ package_bytes E nt pid"
      using True by (simp add: unsent_def dsimps Nil bs_def)
    ultimately show ?thesis by blast
  next
    case False
    then have lt: "n < length bs" by (simp add: n_def)
    let ?f = "\<lambda>c. c\<lparr>cn_send_list := cn_send_list c @ [pid], cn_watch := True\<rparr>"
    have "send_raw_package E k pid nt = (Inr (), update_conn k ?f nt1)"
      using lt by (simp add: run set_conn_def)
    moreover have "find_conn (update_conn k ?f nt1) k = Some (?f d)" by (rule found_update [OF d])
    moreover have same: "package_bytes E (update_conn k ?f nt1) = package_bytes E nt" "whole E (update_conn k ?f nt1) = whole E nt"
      by (rule package_bytes_packages whole_packages, simp add: packages)+
    moreover have "sending_ok E (update_conn k ?f nt1) (?f d)" using lt w by (simp add: sending_ok_def same dsimps bs_def)
    moreover have "so_out (cn_socket (?f d)) @ unsent E (update_conn k ?f nt1) (?f d) =
        so_out (cn_socket c) @ unsent E nt c @ package_bytes E nt pid"
      by (simp add: unsent_def same dsimps Nil bs_def)
    ultimately show ?thesis by blast
  qed
qed

section \<open>The properties\<close>

text \<open>
  The network manager implements the table that theory \<open>Services\<close> builds on: looking up the
  connection of a service, whether a connection is open, and removing a connection, at once or
  put off while packages are unsent.
\<close>

lemma service_connection_refines:
  "get_connection_id reach service_id (nt_services nt, table_of nt) =
     (case service_connection E reach service_id nt of (r, nt') \<Rightarrow> (r, (nt_services nt', table_of nt'))) \<and>
   (find_open_connection (table_of nt) k \<longleftrightarrow> find_open_conn nt k \<noteq> None) \<and>
   table_of (snd (remove_conn k nt)) =
     net_remove_connection (\<lambda>_. case find_conn nt k of None \<Rightarrow> False | Some c \<Rightarrow> cn_send_list c \<noteq> []) k (table_of nt)"
proof (intro conjI)
  show "get_connection_id reach service_id (nt_services nt, table_of nt) =
     (case service_connection E reach service_id nt of (r, nt') \<Rightarrow> (r, (nt_services nt', table_of nt')))"
  proof (cases "find_service (nt_services nt) service_id")
    case None
    then show ?thesis by (simp add: get_connection_id_def service_connection_def)
  next
    case (Some s)
    obtain r nt1 where run: "register_conn E reach (ns_ip s) (ns_port s) nt = (r, nt1)" by fastforce
    have "net_register_connection reach (ns_ip s) (ns_port s) (table_of nt) = (r, table_of nt1)"
      and "nt_services nt1 = nt_services nt"
      using register_refines [of reach "ns_ip s" "ns_port s" nt E] register_conn_services [of E reach "ns_ip s" "ns_port s" nt] run
      by simp_all
    then show ?thesis
      using Some run
      by (cases r; cases "map_of (m_conn_list (nt_services nt)) service_id")
        (simp_all add: get_connection_id_def service_connection_def find_open_refines bindE_def [of "register_conn _ _ _ _"])
  qed
  show "find_open_connection (table_of nt) k \<longleftrightarrow> find_open_conn nt k \<noteq> None" by (rule find_open_refines)
  show "table_of (snd (remove_conn k nt)) =
     net_remove_connection (\<lambda>_. case find_conn nt k of None \<Rightarrow> False | Some c \<Rightarrow> cn_send_list c \<noteq> []) k (table_of nt)"
  proof (cases "find_conn nt k")
    case None
    then have "om_erase k (map (\<lambda>(k, c). (k, \<not> cn_is_closing c)) (nt_conns nt)) = map (\<lambda>(k, c). (k, \<not> cn_is_closing c)) (nt_conns nt)"
      unfolding om_erase_def by (intro filter_True) (force simp: find_conn_def map_of_eq_None_iff)
    with None show ?thesis by (simp add: remove_conn_def net_remove_connection_def table_of_def)
  next
    case (Some c)
    with close_refines [OF Some] show ?thesis by (simp add: remove_conn_def)
  qed
qed

lemma register_conn_run:
  "register_conn E reach host port nt = (if reach host port
     then (Inr (nt_next_id nt), nt\<lparr>nt_next_id := nt_next_id nt + 1,
       nt_conns := om_insert (nt_next_id nt) (new_conn (nt_next_id nt) ACTIVE_OPEN (opened_socket E)) (nt_conns nt)\<rparr>)
     else (Inl Std_exception, nt))"
  by (simp add: register_conn_def create_connection_def on_create_connection_def bindE_assoc)

text \<open>What \<open>sm_inv\<close> says of the connection of a service.\<close>

lemma service_conn_unique:
  assumes "sm_inv (sm, ct)" and "map_of (m_conn_list sm) s = Some c"
  shows "map_of (m_conn_service_list sm) c = Some s" and "map_of (m_conn_list sm) t = Some c \<Longrightarrow> t = s"
    and "c < m_net_next_id ct"
  using assms by (auto simp: sm_inv_def) (metis option.inject)

lemma service_opened:
  fixes nt :: "('k, 'd) net"
  assumes inv: "sm_inv (nt_services nt, table_of nt)" and s: "find_service (nt_services nt) k = Some s"
    and none: "\<And>c. map_of (m_conn_list (nt_services nt)) k = Some c \<Longrightarrow> find_open_conn nt c = None"
    and reach: "reach (ns_ip s) (ns_port s)"
  shows "\<exists>nt'. service_connection E reach k nt = (Inr (nt_next_id nt), nt') \<and>
    find_conn nt' = (find_conn nt)(nt_next_id nt \<mapsto> new_conn (nt_next_id nt) ACTIVE_OPEN (opened_socket E)) \<and>
    map_of (m_conn_list (nt_services nt')) = (map_of (m_conn_list (nt_services nt)))(k \<mapsto> nt_next_id nt) \<and>
    m_service_list (nt_services nt') = m_service_list (nt_services nt) \<and>
    nt_packages nt' = nt_packages nt \<and> nt_queues nt' = nt_queues nt"
proof -
  have conns: "om_ok (nt_conns nt)" "map_of (nt_conns nt) (nt_next_id nt) = None"
  proof -
    have "ids_below (map (\<lambda>(k, c). (k, \<not> cn_is_closing c)) (nt_conns nt)) (nt_next_id nt)"
      using inv by (simp add: sm_inv_def table_of_def)
    then show "om_ok (nt_conns nt)" "map_of (nt_conns nt) (nt_next_id nt) = None"
      by (auto simp: ids_below_fresh om_ok_def ids_below_def comp_def case_prod_unfold map_of_eq_None_iff)
  qed
  have list: "om_ok (m_conn_list (nt_services nt))" using inv by (simp add: sm_inv_def)
  have entered: "find_conn (nt\<lparr>nt_next_id := n, nt_conns := om_insert (nt_next_id nt) d (nt_conns nt), nt_services := v\<rparr>) =
      (find_conn nt)(nt_next_id nt \<mapsto> d)" for n d v
    by (simp add: fun_eq_iff find_conn_def map_of_om_insert_fresh [OF conns])
  show ?thesis
  proof (cases "map_of (m_conn_list (nt_services nt)) k")
    case None
    then show ?thesis
      by (simp add: service_connection_def bindE_def [of "register_conn _ _ _ _"] s register_conn_run reach entered
          map_of_om_insert_fresh [OF list None] fun_eq_iff)
  next
    case (Some c)
    then show ?thesis
      by (simp add: service_connection_def bindE_def [of "register_conn _ _ _ _"] s none register_conn_run reach entered
          map_of_om_put list)
  qed
qed

text \<open>
  C21. The connection of a service. An unknown service is refused. A connection that was opened
  for the service and is still open is used again, and nothing changes. Otherwise a new one is
  opened under a fresh id, unless the address cannot be reached: it becomes the service's
  connection, the old one no longer leads to the service, the connections of the other
  services and all packages stay, and whoever asks next gets the new one.
\<close>

theorem service_connection_spec:
  fixes nt :: "('k, 'd) net"
  assumes inv: "sm_inv (nt_services nt, table_of nt)" and run: "service_connection E reach k nt = (r, nt')"
  shows "sm_inv (nt_services nt', table_of nt') \<and>
    (case find_service (nt_services nt) k of
       None \<Rightarrow> r = Inl (Thrown (Foundation ERR_NETWORK_SERVICE_NOT_EXIST)) \<and> nt' = nt
     | Some s \<Rightarrow>
         if \<exists>c. map_of (m_conn_list (nt_services nt)) k = Some c \<and> find_open_conn nt c \<noteq> None
         then r = Inr (the (map_of (m_conn_list (nt_services nt)) k)) \<and> nt' = nt
         else if \<not> reach (ns_ip s) (ns_port s) then r = Inl Std_exception \<and> nt' = nt
         else r = Inr (nt_next_id nt) \<and> find_conn nt (nt_next_id nt) = None \<and>
           find_conn nt' = (find_conn nt)(nt_next_id nt \<mapsto> new_conn (nt_next_id nt) ACTIVE_OPEN (opened_socket E)) \<and>
           find_service_by_connection (nt_services nt') (nt_next_id nt) = Some s \<and>
           (\<forall>c. map_of (m_conn_list (nt_services nt)) k = Some c \<longrightarrow> find_service_by_connection (nt_services nt') c = None) \<and>
           (\<forall>j. j \<noteq> k \<longrightarrow> map_of (m_conn_list (nt_services nt')) j = map_of (m_conn_list (nt_services nt)) j) \<and>
           nt_packages nt' = nt_packages nt \<and> nt_queues nt' = nt_queues nt \<and>
           service_connection E reach k nt' = (Inr (nt_next_id nt), nt'))" (is "_ \<and> ?P")
proof
  have "get_connection_id reach k (nt_services nt, table_of nt) = (r, (nt_services nt', table_of nt'))"
    using service_connection_refines [of reach k nt E] by (simp add: run)
  then show inv': "sm_inv (nt_services nt', table_of nt')" by (rule get_connection_id_inv [OF inv])
  show ?P
  proof (cases "find_service (nt_services nt) k")
    case None
    then show ?thesis using run by (simp add: service_connection_def)
  next
    case s: (Some s)
    let ?kept = "\<exists>c. map_of (m_conn_list (nt_services nt)) k = Some c \<and> find_open_conn nt c \<noteq> None"
    consider ?kept | "\<not> ?kept" "\<not> reach (ns_ip s) (ns_port s)" | "\<not> ?kept" "reach (ns_ip s) (ns_port s)" by blast
    then show ?thesis
    proof cases
      case 1
      with run s show ?thesis by (auto simp: service_connection_def)
    next
      case 2
      with run s show ?thesis
        by (cases "map_of (m_conn_list (nt_services nt)) k")
          (auto simp: service_connection_def bindE_def [of "register_conn _ _ _ _"] register_conn_run)
    next
      case 3
      let ?n = "nt_next_id nt"
      from service_opened [where reach = reach and E = E, OF inv s _ 3(2)] 3(1) run have opened: "r = Inr ?n"
        "find_conn nt' = (find_conn nt)(?n \<mapsto> new_conn ?n ACTIVE_OPEN (opened_socket E))"
        "map_of (m_conn_list (nt_services nt')) = (map_of (m_conn_list (nt_services nt)))(k \<mapsto> ?n)"
        "m_service_list (nt_services nt') = m_service_list (nt_services nt)"
        "nt_packages nt' = nt_packages nt" "nt_queues nt' = nt_queues nt" by auto
      have found: "map_of (m_conn_list (nt_services nt')) k = Some ?n" by (simp add: opened)
      have serv: "find_service (nt_services nt') k = Some s" using s by (simp add: find_service_def opened)
      have new: "find_service_by_connection (nt_services nt') ?n = Some s"
        using service_conn_unique(1) [OF inv' found] serv by (simp add: find_service_by_connection_def)
      have old: "find_service_by_connection (nt_services nt') c = None" if c: "map_of (m_conn_list (nt_services nt)) k = Some c" for c
      proof -
        have "c < ?n" using service_conn_unique(3) [OF inv c] by (simp add: table_of_def)
        then have "map_of (m_conn_list (nt_services nt')) t \<noteq> Some c" for t
          using service_conn_unique(2) [OF inv c, of t] by (auto simp: opened)
        moreover have "map_of (m_conn_service_list (nt_services nt')) c = Some t \<longleftrightarrow> map_of (m_conn_list (nt_services nt')) t = Some c" for t
          using inv' by (simp add: sm_inv_def)
        ultimately have "map_of (m_conn_service_list (nt_services nt')) c = None" by (metis not_None_eq)
        then show ?thesis by (simp add: find_service_by_connection_def)
      qed
      have fresh: "find_conn nt ?n = None"
        using inv by (force simp: sm_inv_def table_of_def ids_below_def find_conn_def map_of_eq_None_iff)
      have "find_open_conn nt' ?n \<noteq> None" by (simp add: find_open_conn_def opened new_conn_def)
      then have again: "service_connection E reach k nt' = (Inr ?n, nt')" using serv found by (simp add: service_connection_def)
      show ?thesis unfolding s option.case if_not_P [OF 3(1)] using 3(2) opened new old fresh again by simp
    qed
  qed
qed

text \<open>A service whose connection is gone.\<close>

definition service_net :: "(nat, nat) net" where
  "service_net = some_net\<lparr>nt_services := \<lparr>m_service_list = [(1, \<lparr>ns_service_id = 1, ns_ip = ''n'', ns_port = 9000\<rparr>)],
     m_conn_list = [(1, 0)], m_conn_service_list = [(0, 1)], sm_next_id = 2\<rparr>\<rparr>"

theorem service_connection_spec_witness:
  "\<exists>nt'. service_connection some_env (\<lambda>_ _. True) 1 service_net = (Inr 2, nt') \<and>
     find_conn nt' 2 = Some (new_conn 2 ACTIVE_OPEN (opened_socket some_env)) \<and> find_conn nt' 1 = find_conn service_net 1 \<and>
     find_service_by_connection (nt_services nt') 0 = None"
proof -
  obtain r nt' where run: "service_connection some_env (\<lambda>_ _. True) 1 service_net = (r, nt')" by fastforce
  have inv: "sm_inv (nt_services service_net, table_of service_net)"
    by (auto simp: sm_inv_def service_net_def some_net_def table_of_def ids_below_def om_ok_def split: if_splits)
  have s: "find_service (nt_services service_net) 1 = Some \<lparr>ns_service_id = 1, ns_ip = ''n'', ns_port = 9000\<rparr>"
    "map_of (m_conn_list (nt_services service_net)) 1 = Some 0" "find_open_conn service_net 0 = None" "nt_next_id service_net = 2"
    by (simp_all add: service_net_def some_net_def find_service_def find_open_conn_def find_conn_def)
  from service_connection_spec [OF inv run] run show ?thesis by (simp add: s)
qed

text \<open>
  C22. Stopping. \<open>stop_all\<close> returns, with no connection left and nothing else changed, exactly
  if no connection has a package that is not sent completely. Otherwise it never returns: the
  connection stays in the table until its packages are sent, and the thread that would send
  them is the one that waits.
\<close>

theorem stop_all_spec:
  assumes "om_ok (nt_conns nt)"
  shows "stop_all nt = (if \<forall>(k, c) \<in> set (nt_conns nt). cn_send_list c = [] then Some (nt\<lparr>nt_conns := []\<rparr>) else None)"
proof -
  have close: "close_conn k nt = (Inr (), if cn_send_list c = [] then nt\<lparr>nt_conns := rest\<rparr>
      else update_conn k (\<lambda>c. c\<lparr>cn_is_closing := True\<rparr>) nt)"
    if "nt_conns nt = (k, c) # rest" "om_ok (nt_conns nt)" for nt :: "('a, 'b) net" and k c rest
  proof -
    have "find_conn nt k = Some c" using that by (simp add: find_conn_def)
    moreover have "om_erase k (nt_conns nt) = rest" using that by (auto simp: om_erase_def filter_id_conv)
    ultimately show ?thesis
      by (simp add: close_conn_def bindE_get_conn destroy_conn_def) (simp add: set_conn_def)
  qed
  have all: "stop_all nt = Some (nt\<lparr>nt_conns := []\<rparr>)"
    if "om_ok (nt_conns nt)" "\<forall>(k, c) \<in> set (nt_conns nt). cn_send_list c = []" for nt :: "('a, 'b) net"
    using that
  proof (induction "nt_conns nt" arbitrary: nt)
    case Nil
    then show ?case by (subst stop_all.simps) simp
  next
    case (Cons e rest)
    obtain k c where e: "e = (k, c)" by (cases e)
    have "close_conn k nt = (Inr (), nt\<lparr>nt_conns := rest\<rparr>)"
      using close [of nt k c rest] Cons.hyps(2) Cons.prems by (simp add: e flip: Cons.hyps(2))
    moreover have "stop_all (nt\<lparr>nt_conns := rest\<rparr>) = Some (nt\<lparr>nt_conns := []\<rparr>)"
      using Cons.hyps(1) [of "nt\<lparr>nt_conns := rest\<rparr>"] Cons.prems by (simp add: e flip: Cons.hyps(2))
    ultimately show ?case by (subst stop_all.simps) (simp add: e flip: Cons.hyps(2))
  qed
  have none: "om_ok (nt_conns nt) \<longrightarrow> (\<forall>(k, c) \<in> set (nt_conns nt). cn_send_list c = [])"
    if "stop_all nt = Some y" for nt y :: "('a, 'b) net"
  proof (rule stop_all.raw_induct [where P = "\<lambda>nt _. om_ok (nt_conns nt) \<longrightarrow> (\<forall>(k, c) \<in> set (nt_conns nt). cn_send_list c = [])", OF _ that])
    fix f and nt y :: "('a, 'b) net"
    assume 1: "\<And>nt y. f nt = Some y \<Longrightarrow> om_ok (nt_conns nt) \<longrightarrow> (\<forall>(k, c) \<in> set (nt_conns nt). cn_send_list c = [])"
      "(case nt_conns nt of [] \<Rightarrow> Some nt | (k, _) # _ \<Rightarrow> f (snd (close_conn k nt))) = Some y"
    show "om_ok (nt_conns nt) \<longrightarrow> (\<forall>(k, c) \<in> set (nt_conns nt). cn_send_list c = [])"
    proof (cases "nt_conns nt")
      case (Cons e rest)
      obtain k c where e: "e = (k, c)" by (cases e)
      from 1(2) have run: "f (snd (close_conn k nt)) = Some y" by (simp add: Cons e)
      show ?thesis
      proof
        assume ok: "om_ok (nt_conns nt)"
        note step = close [OF Cons [unfolded e] ok]
        show "\<forall>(k, c) \<in> set (nt_conns nt). cn_send_list c = []"
        proof (cases "cn_send_list c = []")
          case True
          with 1(1) [OF run] ok step show ?thesis by (simp add: Cons e)
        next
          case False
          let ?nt = "update_conn k (\<lambda>c. c\<lparr>cn_is_closing := True\<rparr>) nt"
          have "om_ok (nt_conns ?nt)" using ok by (simp add: update_conn_def)
          moreover have "(k, c\<lparr>cn_is_closing := True\<rparr>) \<in> set (nt_conns ?nt)"
            by (simp add: update_conn_def om_update_def Cons e)
          ultimately show ?thesis using 1(1) [OF run] step False by fastforce
        qed
      qed
    qed simp
  qed
  show ?thesis
  proof (cases "\<forall>(k, c) \<in> set (nt_conns nt). cn_send_list c = []")
    case True
    with all [OF assms] show ?thesis by simp
  next
    case False
    with none [of nt] assms show ?thesis by (cases "stop_all nt") auto
  qed
qed

theorem stop_all_spec_witness:
  "stop_all some_net = Some (some_net\<lparr>nt_conns := []\<rparr>) \<and>
   stop_all (update_conn 1 (\<lambda>c. c\<lparr>cn_send_list := [4]\<rparr>) some_net) = None"
  using stop_all_spec [of some_net] stop_all_spec [of "update_conn 1 (\<lambda>c. c\<lparr>cn_send_list := [4]\<rparr>) some_net"] some_net_ok
  by (simp add: net_ok_def) (simp add: some_net_def new_conn_def update_conn_def om_update_def)

text \<open>
  C20. No byte is lost, doubled or reordered on the way out. What a connection has sent,
  followed by what it still has to send, is a stream that \<open>send_raw_package\<close> extends by the bytes
  of its package and the handler of the writable event leaves as it is, as long as the socket
  takes at least one byte when it is written to. Each run of the handler makes what is left
  strictly shorter; the connection goes only when it was closing and the last byte was sent.
\<close>

theorem sending_conserves:
  assumes "find_conn nt k = Some c" and "sending_ok E nt c" and "so_room (cn_socket c) \<noteq> 0"
  shows "(whole E nt pid \<and> pid \<notin> set (cn_send_list c) \<longrightarrow>
      (\<exists>nt' c'. send_raw_package E k pid nt = (Inr (), nt') \<and> find_conn nt' k = Some c' \<and> sending_ok E nt' c' \<and>
        so_out (cn_socket c') @ unsent E nt' c' = so_out (cn_socket c) @ unsent E nt c @ package_bytes E nt pid)) \<and>
    (cn_send_list c \<noteq> [] \<longrightarrow> (\<exists>nt'. on_writable E k nt = (Inr (), nt') \<and> (case find_conn nt' k of
        None \<Rightarrow> cn_is_closing c \<and> length (unsent E nt c) \<le> so_room (cn_socket c)
      | Some c' \<Rightarrow> sending_ok E nt' c' \<and> length (unsent E nt' c') < length (unsent E nt c) \<and>
          so_out (cn_socket c') @ unsent E nt' c' = so_out (cn_socket c) @ unsent E nt c)))"
proof (intro conjI impI)
  assume "whole E nt pid \<and> pid \<notin> set (cn_send_list c)"
  then show "\<exists>nt' c'. send_raw_package E k pid nt = (Inr (), nt') \<and> find_conn nt' k = Some c' \<and> sending_ok E nt' c' \<and>
      so_out (cn_socket c') @ unsent E nt' c' = so_out (cn_socket c) @ unsent E nt c @ package_bytes E nt pid"
    using send_raw_stream [OF assms(1,2) _ _ assms(3), of pid] by simp
next
  assume "cn_send_list c \<noteq> []"
  then obtain pid ids where "cn_send_list c = pid # ids" by (cases "cn_send_list c") auto
  from on_writable_stream [OF assms(1,2) this assms(3)]
  show "\<exists>nt'. on_writable E k nt = (Inr (), nt') \<and> (case find_conn nt' k of
        None \<Rightarrow> cn_is_closing c \<and> length (unsent E nt c) \<le> so_room (cn_socket c)
      | Some c' \<Rightarrow> sending_ok E nt' c' \<and> length (unsent E nt' c') < length (unsent E nt c) \<and>
          so_out (cn_socket c') @ unsent E nt' c' = so_out (cn_socket c) @ unsent E nt c)"
    by (auto split: option.splits)
qed

text \<open>A socket that takes five bytes, and the package of theory \<open>Delivery\<close>, once queued.\<close>

definition slow_conn :: "nat conn" where
  "slow_conn = (new_conn 1 ACTIVE_OPEN \<lparr>so_in = [], so_eof = False, so_room = 5, so_out = []\<rparr>)
     \<lparr>cn_is_opening := False, cn_send_list := [1], cn_watch := True\<rparr>"

definition slow_net :: "(nat, nat) net" where
  "slow_net = some_secure_net\<lparr>nt_conns := [(1, slow_conn)]\<rparr>"

theorem sending_conserves_witness:
  "\<exists>nt' c'. on_writable some_env 1 slow_net = (Inr (), nt') \<and> find_conn nt' 1 = Some c' \<and> sending_ok some_env nt' c' \<and>
     length (unsent some_env nt' c') < length (unsent some_env slow_net slow_conn) \<and>
     so_out (cn_socket c') @ unsent some_env nt' c' = unsent some_env slow_net slow_conn"
proof -
  have c: "find_conn slow_net 1 = Some slow_conn" by (simp add: slow_net_def find_conn_def)
  have p: "find_package (nt_packages slow_net) 1 = Some some_full_package"
    by (simp add: slow_net_def some_secure_net_def find_package_def)
  have len: "package_len some_full_package = 23"
    by (simp add: package_len_def valid_length_def some_full_package_def new_package_def HEADER_LEN_def to_int_def)
  have mem: "length (package_memory (ne_junk some_env (p_id some_full_package)) some_full_package) = 34"
    by (simp add: package_memory_def length_content_memory some_full_package_def new_package_def HEADER_LEN_def
        aes_cipher_length_def AES_BLOCK_SIZE_def header_len_def)
  have w: "whole some_env slow_net 1" by (simp add: whole_def p len mem)
  have "length (package_bytes some_env slow_net 1) = 23" by (simp add: package_bytes_def p len mem)
  then have ok: "sending_ok some_env slow_net slow_conn"
    using w by (simp add: sending_ok_def slow_conn_def new_conn_def)
  have room: "so_room (cn_socket slow_conn) \<noteq> 0" and list: "cn_send_list slow_conn \<noteq> []"
    and open_conn: "\<not> cn_is_closing slow_conn" "so_out (cn_socket slow_conn) = []"
    by (simp_all add: slow_conn_def new_conn_def)
  from sending_conserves [OF c ok room, where pid = 0] list obtain nt' where "on_writable some_env 1 slow_net = (Inr (), nt')"
    "case find_conn nt' 1 of None \<Rightarrow> cn_is_closing slow_conn \<and> length (unsent some_env slow_net slow_conn) \<le> so_room (cn_socket slow_conn)
      | Some c' \<Rightarrow> sending_ok some_env nt' c' \<and> length (unsent some_env nt' c') < length (unsent some_env slow_net slow_conn) \<and>
          so_out (cn_socket c') @ unsent some_env nt' c' = so_out (cn_socket slow_conn) @ unsent some_env slow_net slow_conn" by blast
  with open_conn show ?thesis by (cases "find_conn nt' 1") auto
qed

text \<open>
  C23. Every package that the worker hands to the network thread is accounted for. When the call
  returns normally, the package is sent and removed, or dropped, or it waits in a list of one
  connection, the one that was named if one was. When the package is for a service that does
  not exist, the call throws and changes nothing: the package stays registered, and no list
  has it.
\<close>

theorem package_accounted:
  "(case reactor_send_package E reach conn_id service_id pid nt of
      (Inr _, nt') \<Rightarrow> \<exists>k. (conn_id \<noteq> 0 \<longrightarrow> k = conn_id) \<and> accounted k pid nt'
    | (Inl e, nt') \<Rightarrow> True) \<and>
   (conn_id = 0 \<and> find_service (nt_services nt) service_id = None \<longrightarrow>
     reactor_send_package E reach conn_id service_id pid nt = (Inl (Thrown (Foundation ERR_NETWORK_SERVICE_NOT_EXIST)), nt))"
proof (intro conjI impI)
  show "case reactor_send_package E reach conn_id service_id pid nt of
      (Inr _, nt') \<Rightarrow> \<exists>k. (conn_id \<noteq> 0 \<longrightarrow> k = conn_id) \<and> accounted k pid nt' | (Inl e, nt') \<Rightarrow> True"
    using reactor_send_accounted [of E reach conn_id service_id pid nt] by (auto split: prod.split sum.split)
  assume "conn_id = 0 \<and> find_service (nt_services nt) service_id = None"
  then show "reactor_send_package E reach conn_id service_id pid nt = (Inl (Thrown (Foundation ERR_NETWORK_SERVICE_NOT_EXIST)), nt)"
    by (simp add: reactor_send_package_def service_connection_def bindE_assoc)
qed

theorem package_accounted_witness:
  "reactor_send_package some_env (\<lambda>_ _. True) 0 3 1 some_secure_net =
     (Inl (Thrown (Foundation ERR_NETWORK_SERVICE_NOT_EXIST)), some_secure_net) \<and>
   find_package (nt_packages some_secure_net) 1 \<noteq> None"
proof -
  have "find_service (nt_services some_secure_net) 3 = None"
    by (simp add: some_secure_net_def some_net_def find_service_def empty_service_manager_def)
  with package_accounted [where E = some_env and reach = "\<lambda>_ _. True" and conn_id = 0 and service_id = 3 and pid = 1 and nt = some_secure_net] show ?thesis
    by (simp add: some_secure_net_def find_package_def)
qed

end
