(* ===== verification/Handshake.thy ===== *)
theory Handshake
  imports Reactor
begin

text \<open>
  The opening of a secure connection between two programs, from the accepted socket to the
  common key: the setting and the public key that the passive side sends, the encrypted key
  that the active side answers with, \<open>SecureConnection\<close> of \<open>foundation/details/network_impl.cpp\<close>.
\<close>

section \<open>Packages of the connection's own\<close>

definition own_header :: "int \<Rightarrow> bytes \<Rightarrow> package_header" where
  "own_header command content = reset_header\<lparr>h_command := command, h_content_length := int (length content)\<rparr>"

definition own_bytes :: "int \<Rightarrow> bytes \<Rightarrow> bytes" where
  "own_bytes command content = header_bytes (own_header command content) @ content"

text \<open>A connection that has sent all of some bytes at once, and a registry that has used up an id.\<close>

definition sent_all :: "bytes \<Rightarrow> 'k conn \<Rightarrow> 'k conn" where
  "sent_all bs c = (on_socket (\<lambda>so. so\<lparr>so_out := so_out so @ bs, so_room := so_room so - length bs\<rparr>) c)\<lparr>cn_send_len := 0\<rparr>"

definition skip_id :: "'c package_manager \<Rightarrow> 'c package_manager" where
  "skip_id pm = pm\<lparr>pm_next_id := pm_next_id pm + 1\<rparr>"

lemma sent_all_simps [simp]:
  "cn_id (sent_all bs c) = cn_id c" "cn_open_type (sent_all bs c) = cn_open_type c" "cn_header (sent_all bs c) = cn_header c"
  "cn_content (sent_all bs c) = cn_content c" "cn_length (sent_all bs c) = cn_length c"
  "cn_receive_len (sent_all bs c) = cn_receive_len c" "cn_receive_state (sent_all bs c) = cn_receive_state c"
  "cn_send_list (sent_all bs c) = cn_send_list c" "cn_is_opening (sent_all bs c) = cn_is_opening c"
  "cn_is_closing (sent_all bs c) = cn_is_closing c" "cn_secure (sent_all bs c) = cn_secure c"
  "cn_pending (sent_all bs c) = cn_pending c" "so_in (cn_socket (sent_all bs c)) = so_in (cn_socket c)"
  "so_eof (cn_socket (sent_all bs c)) = so_eof (cn_socket c)"
  "so_out (cn_socket (sent_all bs c)) = so_out (cn_socket c) @ bs"
  "so_room (cn_socket (sent_all bs c)) = so_room (cn_socket c) - length bs"
  by (simp_all add: sent_all_def on_socket_def)

lemma pm_inv_skip: "pm_inv pm \<Longrightarrow> pm_inv (skip_id pm)"
  by (auto simp: pm_inv_def skip_id_def ids_below_def)

lemma own_bytes_length: "length (own_bytes command content) = 18 + length content"
  by (simp add: own_bytes_def header_len_def)

lemma own_package_run:
  assumes inv: "pm_inv (nt_packages nt)" and alloc: "\<And>n. ne_alloc E n" and small: "length content \<le> 65504"
  shows "\<exists>p. sendable (pm_next_id (nt_packages nt)) (own_header command content) content p \<and>
    own_package E command content nt = (Inr (pm_next_id (nt_packages nt)), nt\<lparr>nt_packages :=
      (skip_id (nt_packages nt))\<lparr>m_package_list := om_insert (pm_next_id (nt_packages nt)) p (m_package_list (nt_packages nt))\<rparr>\<rparr>)"
proof -
  let ?pm = "nt_packages nt" and ?len = "int (length content)"
  let ?pid = "pm_next_id ?pm"
  let ?p = "(new_package ?len ?pid)\<lparr>p_header := own_header command content, p_content := Some content\<rparr>"
  have fresh: "om_ok (m_package_list ?pm)" "map_of (m_package_list ?pm) ?pid = None"
    using inv by (auto simp: pm_inv_def ids_below_fresh)
  have "register_package (ne_alloc E) ?len ?pm = (Inr (new_package ?len ?pid), enter_package ?len ?pm)"
    using small by (intro register_package_run inv alloc) simp_all
  then have "own_package E command content nt = (Inr ?pid, nt\<lparr>nt_packages := update_package ?pid (\<lambda>p. p\<lparr>
      p_header := (p_header p)\<lparr>h_command := command, h_content_length := ?len\<rparr>, p_content := Some content\<rparr>) (enter_package ?len ?pm)\<rparr>)"
    by (simp add: own_package_def bindE_def zoom_def new_package_def)
  moreover have "update_package ?pid (\<lambda>p. p\<lparr>p_header := (p_header p)\<lparr>h_command := command, h_content_length := ?len\<rparr>,
      p_content := Some content\<rparr>) (enter_package ?len ?pm) =
    (skip_id ?pm)\<lparr>m_package_list := om_insert ?pid ?p (m_package_list ?pm)\<rparr>"
    using fresh by (simp add: update_package_def enter_package_def skip_id_def om_update_insert_fresh new_package_def own_header_def)
  moreover have "sendable ?pid (own_header command content) content ?p"
    using small by (simp add: sendable_def new_package_def own_header_def)
  ultimately show ?thesis by auto
qed

lemma send_whole:
  fixes nt :: "('k, 'd) net"
  assumes c: "find_conn nt k = Some c" and empty: "cn_send_list c = []" and p: "find_package (nt_packages nt) pid = Some p"
    and s: "sendable pid h content p" and room: "18 + length content \<le> so_room (cn_socket c)"
  shows "send_raw_package E k pid nt = (Inr (), (update_conn k (sent_all (header_bytes h @ content)) nt)
    \<lparr>nt_packages := remove_package pid (nt_packages nt)\<rparr>)"
proof -
  define bs where "bs = header_bytes h @ content"
  have len: "length bs = 18 + length content" by (simp add: bs_def header_len_def)
  have h: "p_header p = h" "p_id p = pid" using s by (simp_all add: sendable_def)
  obtain rest where mem: "package_memory (ne_junk E pid) p = bs @ rest"
    using sendable_memory(1) [OF s, of "ne_junk E pid"] by (simp add: package_memory_def h bs_def)
  have plen: "package_len p = int (length bs)" using sendable_memory(2) [OF s] by (simp add: len)
  let ?g = "\<lambda>so. so\<lparr>so_out := so_out so @ bs, so_room := so_room so - length bs\<rparr>"
  have "send_bytes E k p 0 (int (length bs)) nt = (Inr (int (length bs)), update_conn k (on_socket ?g) nt)"
    using room len by (simp add: send_bytes_def bindE_get_conn [OF c] read_memory_def h mem bindE_getsE Let_def min_absorb1)
  then have "bindE (send_bytes E k p 0 (int (length bs))) g nt = g (int (length bs)) (update_conn k (on_socket ?g) nt)"
    for g :: "int \<Rightarrow> ('k, 'd, unit) net_exec"
    by (simp add: bindE_def [of "send_bytes _ _ _ _ _"])
  then have "send_raw_package E k pid nt = drop_package pid (update_conn k (\<lambda>c. c\<lparr>cn_send_len := 0\<rparr>)
      (update_conn k (\<lambda>c. c\<lparr>cn_send_len := int (length bs)\<rparr>) (update_conn k (on_socket ?g) nt)))"
    by (simp add: send_raw_package_def bindE_get_conn [OF c] empty deref_package_def bindE_getsE p Let_def plen)
  also have "\<dots> = (Inr (), (update_conn k (sent_all bs) nt)\<lparr>nt_packages := remove_package pid (nt_packages nt)\<rparr>)"
  proof -
    have "sent_all bs = (\<lambda>c :: 'k conn. (on_socket ?g c)\<lparr>cn_send_len := 0\<rparr>)" by (simp add: fun_eq_iff sent_all_def)
    then show ?thesis by (simp add: drop_package_def zoom_def update_conn_compose on_socket_def)
  qed
  finally show ?thesis by (simp add: bs_def)
qed

lemma own_package_sent:
  assumes c: "find_conn nt k = Some c" and empty: "cn_send_list c = []" and inv: "pm_inv (nt_packages nt)"
    and alloc: "\<And>n. ne_alloc E n" and small: "length content \<le> 65504" and room: "18 + length content \<le> so_room (cn_socket c)"
  shows "bindE (own_package E command content) (send_raw_package E k) nt = (Inr (),
    (update_conn k (sent_all (own_bytes command content)) nt)\<lparr>nt_packages := skip_id (nt_packages nt)\<rparr>)"
proof -
  let ?pid = "pm_next_id (nt_packages nt)"
  have fresh: "om_ok (m_package_list (nt_packages nt))" "map_of (m_package_list (nt_packages nt)) ?pid = None"
    using inv by (auto simp: pm_inv_def ids_below_fresh)
  from own_package_run [OF inv alloc small, of command] obtain p
    where s: "sendable ?pid (own_header command content) content p"
      and run: "own_package E command content nt = (Inr ?pid, nt\<lparr>nt_packages :=
        (skip_id (nt_packages nt))\<lparr>m_package_list := om_insert ?pid p (m_package_list (nt_packages nt))\<rparr>\<rparr>)" by blast
  let ?nt = "nt\<lparr>nt_packages := (skip_id (nt_packages nt))\<lparr>m_package_list := om_insert ?pid p (m_package_list (nt_packages nt))\<rparr>\<rparr>"
  have c': "find_conn ?nt k = Some c" using c by simp
  have p: "find_package (nt_packages ?nt) ?pid = Some p"
    by (simp add: find_package_def skip_id_def map_of_om_insert_fresh [OF fresh])
  have "remove_package ?pid (nt_packages ?nt) = skip_id (nt_packages nt)"
    by (simp add: remove_package_def skip_id_def om_erase_insert_fresh [OF fresh])
  then show ?thesis
    using send_whole [OF c' empty p s room, of E]
    by (simp add: bindE_def [of "own_package _ _ _"] run own_bytes_def) (simp add: update_conn_def)
qed

section \<open>The passive side\<close>

text \<open>What the handshake needs of a program's keys: RSA works, and its texts are whole blocks.\<close>

definition rsa_fits :: "('p, 'k) net_env \<Rightarrow> ('p, 'm) net_env \<Rightarrow> int \<Rightarrow> int \<Rightarrow> bool" where
  "rsa_fits F E j k \<longleftrightarrow> (case ne_key_pair F j of (pub, priv) \<Rightarrow>
     let shown = ne_save F pub; key = ne_aes_key E k in
     ne_load E shown = Some pub \<and> length key = 32 \<and> 16 dvd length shown \<and> length shown \<le> 65504 \<and>
     (case ne_rsa_encrypt E key pub of
        None \<Rightarrow> False
      | Some cipher \<Rightarrow> ne_rsa_decrypt F cipher priv = Some key \<and> 16 dvd length cipher \<and> length cipher \<le> 65504))"

definition starting :: "'k option \<Rightarrow> 'k secure" where
  "starting key = \<lparr>sc_state = STARTING, sc_private_key = key, sc_aes_key = aes_key_reset [] [] 32, sc_pending = None\<rparr>"

definition passive_conn :: "('p, 'k) net_env \<Rightarrow> int \<Rightarrow> socket \<Rightarrow> 'k conn" where
  "passive_conn F j so = (case ne_key_pair F j of (pub, priv) \<Rightarrow>
     (sent_all (own_bytes REQ_START_CRYPTO (ne_save F pub)) (sent_all (own_bytes NTF_SECURITY_SETTING [2]) (new_conn j PASSIVE_OPEN so)))
     \<lparr>cn_secure := Some (starting (Some priv)), cn_is_opening := False\<rparr>)"

lemma passive_opened:
  assumes ids: "ids_below (nt_conns mt) (nt_next_id mt)" and inv: "pm_inv (nt_packages mt)" and alloc: "\<And>n. ne_alloc F n"
    and secure: "address \<in> set (nt_listeners mt)" and j: "j = nt_next_id mt" and pub: "ne_key_pair F j = (pub, priv)"
    and small: "length (ne_save F pub) \<le> 65504" and room: "37 + length (ne_save F pub) \<le> so_room so"
  shows "\<exists>mt1. create_connection F PASSIVE_OPEN address so mt = (Inr j, mt1) \<and>
    find_conn mt1 j = Some (passive_conn F j so) \<and> om_ok (nt_conns mt1) \<and> pm_inv (nt_packages mt1) \<and>
    nt_queues mt1 = nt_queues mt"
proof -
  let ?c = "new_conn j PASSIVE_OPEN so"
  have fresh: "om_ok (nt_conns mt)" "map_of (nt_conns mt) j = None" using ids by (auto simp: ids_below_fresh j)
  define m0 where "m0 = mt\<lparr>nt_next_id := j + 1, nt_conns := om_insert j ?c (nt_conns mt)\<rparr>"
  define b1 b2 where "b1 = own_bytes NTF_SECURITY_SETTING [2]" and "b2 = own_bytes REQ_START_CRYPTO (ne_save F pub)"
  define m1 where "m1 = (update_conn j (sent_all b1) m0)\<lparr>nt_packages := skip_id (nt_packages m0)\<rparr>"
  define m2 where "m2 = (update_conn j (sent_all b2) m1)\<lparr>nt_packages := skip_id (nt_packages m1)\<rparr>"
  let ?s = "Some \<lparr>sc_state = STARTING, sc_private_key = Some priv, sc_aes_key = aes_key_reset [] [] 32, sc_pending = None\<rparr>"
  define m3 where "m3 = update_conn j (\<lambda>c. c\<lparr>cn_is_opening := False\<rparr>) (update_conn j (\<lambda>c. c\<lparr>cn_secure := ?s\<rparr>) m2)"
  have c0: "find_conn m0 j = Some ?c" by (simp add: find_conn_def m0_def map_of_om_insert_fresh [OF fresh])
  then have c1: "find_conn m1 j = Some (sent_all b1 ?c)" by (simp add: m1_def)
  then have c2: "find_conn m2 j = Some (sent_all b2 (sent_all b1 ?c))" by (simp add: m2_def)
  have room1: "18 + length [2 :: byte] \<le> so_room (cn_socket ?c)" using room by (simp add: new_conn_def)
  have inv0: "pm_inv (nt_packages m0)" using inv by (simp add: m0_def)
  have own1: "bindE (own_package F NTF_SECURITY_SETTING [2]) (send_raw_package F j) m0 = (Inr (), m1)"
    unfolding m1_def b1_def by (rule own_package_sent [OF c0 _ inv0 alloc _ room1]) (simp_all add: new_conn_def)
  have inv1: "pm_inv (nt_packages m1)" using inv0 by (simp add: m1_def pm_inv_skip)
  have room2: "18 + length (ne_save F pub) \<le> so_room (cn_socket (sent_all b1 ?c))"
    using room by (simp add: new_conn_def b1_def own_bytes_length)
  have own2: "bindE (own_package F REQ_START_CRYPTO (ne_save F pub)) (send_raw_package F j) m1 = (Inr (), m2)"
    unfolding m2_def b2_def by (rule own_package_sent [OF c1 _ inv1 alloc small room2]) (simp add: new_conn_def)
  have start: "start_secure F j m1 = (Inr (), update_conn j (\<lambda>c. c\<lparr>cn_secure := ?s\<rparr>) m2)"
    by (simp add: start_secure_def bindE_get_conn [OF c1] pub Let_def new_conn_def bindE_def [of "bindE _ _"] own2)
      (simp add: set_conn_def)
  have "get_security_setting m0 address = OPEN_SECURITY" using secure by (simp add: get_security_setting_def m0_def)
  then have "create_connection F PASSIVE_OPEN address so mt =
      bindE (bindE (own_package F NTF_SECURITY_SETTING [2]) (send_raw_package F j)) (\<lambda>_. bindE (start_secure F j) (\<lambda>_.
      bindE (set_conn j (\<lambda>c. c\<lparr>cn_is_opening := False\<rparr>)) (\<lambda>_. ret j))) m0"
    by (simp add: create_connection_def on_create_connection_def bindE_assoc m0_def flip: j del: bindE_set_conn)
  also have "\<dots> = (Inr j, m3)"
    by (simp add: bindE_def [of "bindE _ _"] own1 bindE_def [of "start_secure _ _"] start m3_def)
  finally have "create_connection F PASSIVE_OPEN address so mt = (Inr j, m3)" .
  moreover have "find_conn m3 j = Some (passive_conn F j so)"
    using c2 by (simp add: m3_def passive_conn_def starting_def pub b1_def b2_def)
  moreover have "om_ok (nt_conns m3)" using fresh by (simp add: m3_def m2_def m1_def m0_def update_conn_def)
  moreover have "pm_inv (nt_packages m3)" using inv1 by (simp add: m3_def m2_def pm_inv_skip)
  moreover have "nt_queues m3 = nt_queues mt" by (simp add: m3_def m2_def m1_def m0_def)
  ultimately show ?thesis by blast
qed

section \<open>The active side\<close>

text \<open>Connections that are done with the handshake and hold a key.\<close>

definition started_with :: "bytes \<Rightarrow> 'k conn \<Rightarrow> bool" where
  "started_with key c \<longleftrightarrow> ready c \<and> (\<exists>sc. cn_secure c = Some sc \<and> sc_aes_key sc = key)"

lemma own_header_read:
  assumes "length content \<le> 65504" and "command \<in> {NTF_SECURITY_SETTING, REQ_START_CRYPTO, RSP_START_CRYPTO}"
  shows "header_fits (own_header command content)" "h_version (own_header command content) = PACKAGE_VERSION"
    "h_command (own_header command content) = command" "h_content_length (own_header command content) = int (length content)"
    "read_header (header_bytes (own_header command content)) = own_header command content"
proof -
  show fits: "header_fits (own_header command content)"
    using assms by (auto simp: header_fits_def fits_def own_header_def reset_header_def PACKAGE_VERSION_def build_in_commands)
  show "h_version (own_header command content) = PACKAGE_VERSION" "h_command (own_header command content) = command"
    "h_content_length (own_header command content) = int (length content)"
    by (simp_all add: own_header_def reset_header_def)
  show "read_header (header_bytes (own_header command content)) = own_header command content"
    using read_header_bytes [OF fits, of "[]"] by simp
qed

lemma setting_opens:
  assumes c: "find_conn nt k = Some c" and h: "read_header (cn_header c) = own_header NTF_SECURITY_SETTING [2]"
    and got: "cn_content c = 2 # old" and active: "cn_open_type c = ACTIVE_OPEN" "cn_is_opening c" "cn_secure c = None" "cn_pending c = None"
  shows "on_receive_complete_package E k nt = (Inr True,
    update_conn k (\<lambda>c. c\<lparr>cn_is_opening := False, cn_secure := Some (starting None)\<rparr>) nt)"
proof -
  have setting: "buffer_content c = [2]" by (simp add: buffer_content_def h got own_header_def)
  define m where "m = update_conn k (\<lambda>c. c\<lparr>cn_is_opening := False\<rparr>) nt"
  define m1 where "m1 = update_conn k (\<lambda>c. c\<lparr>cn_secure := Some (starting None)\<rparr>) m"
  have m: "find_conn m k = Some (c\<lparr>cn_is_opening := False\<rparr>)" unfolding m_def by (rule found_update [OF c])
  have m1: "find_conn m1 k = Some (c\<lparr>cn_is_opening := False, cn_secure := Some (starting None)\<rparr>)"
    unfolding m1_def using found_update [OF m] by simp
  have secure: "start_secure E k m = (Inr (), m1)"
    by (simp add: start_secure_def bindE_get_conn [OF m] active Let_def split: prod.split)
      (simp add: set_conn_def m1_def starting_def)
  have pending: "send_all_pending_package E k m1 = (Inr (), m1)"
    by (simp add: send_all_pending_package_def bindE_get_conn [OF m1] active)
  have "on_receive_complete_package E k nt = bindE (start_secure E k) (\<lambda>_. bindE (send_all_pending_package E k) (\<lambda>_. ret True)) m"
    using active by (simp add: on_receive_complete_package_def bindE_get_conn [OF c] h setting own_header_def m_def)
  also have "\<dots> = (Inr True, m1)" by (simp add: bindE_def secure pending)
  finally show ?thesis by (simp add: m1_def m_def update_conn_compose)
qed

lemma key_answered:
  assumes c: "find_conn nt k = Some c" and h: "read_header (cn_header c) = own_header REQ_START_CRYPTO shown"
    and got: "cn_content c = shown @ old" and active: "cn_open_type c = ACTIVE_OPEN" "\<not> cn_is_opening c" "cn_secure c = Some (starting None)"
    and empty: "cn_send_list c = []" and load: "ne_load E shown = Some pub" and cipher: "ne_rsa_encrypt E (ne_aes_key E k) pub = Some cipher"
    and inv: "pm_inv (nt_packages nt)" and alloc: "\<And>n. ne_alloc E n" and small: "length cipher \<le> 65504"
    and room: "18 + length cipher \<le> so_room (cn_socket c)"
    and conns: "om_ok (nt_conns nt)"
  shows "\<exists>nt'. on_receive_complete_package E k nt = (Inr True, nt') \<and> om_ok (nt_conns nt') \<and>
    find_conn nt' k = Some ((sent_all (own_bytes RSP_START_CRYPTO cipher) c)\<lparr>cn_secure :=
       Some ((starting None)\<lparr>sc_aes_key := ne_aes_key E k, sc_state := STARTED\<rparr>)\<rparr>) \<and>
    nt_packages nt' = skip_id (nt_packages nt) \<and> nt_queues nt' = nt_queues nt"
proof -
  have content: "buffer_content c = shown" by (simp add: buffer_content_def h got own_header_def)
  let ?keyed = "update_secure (\<lambda>sc. sc\<lparr>sc_aes_key := ne_aes_key E k\<rparr>)"
  let ?started = "update_secure (\<lambda>sc. sc\<lparr>sc_state := STARTED\<rparr>)"
  let ?sent = "sent_all (own_bytes RSP_START_CRYPTO cipher)"
  define m where "m = update_conn k ?keyed nt"
  define m1 where "m1 = (update_conn k ?sent m)\<lparr>nt_packages := skip_id (nt_packages m)\<rparr>"
  define m2 where "m2 = update_conn k ?started m1"
  have m: "find_conn m k = Some (?keyed c)" unfolding m_def by (rule found_update [OF c])
  have m2: "find_conn m2 k = Some (?started (?sent (?keyed c)))"
    unfolding m2_def m1_def by (intro found_update) (simp add: m)
  have sent: "bindE (own_package E RSP_START_CRYPTO cipher) (send_raw_package E k) m = (Inr (), m1)"
    unfolding m1_def
    by (rule own_package_sent [OF m _ _ alloc small]) (use empty inv room in \<open>simp_all add: m_def update_secure_def\<close>)
  have pending: "secure_send_all_pending E k m2 = (Inr (), m2)"
    by (simp add: secure_send_all_pending_def get_secure_def bindE_get_conn [OF m2] bindE_assoc active update_secure_def starting_def)
  have "on_receive_complete_package E k nt = bindE (bindE (own_package E RSP_START_CRYPTO cipher) (send_raw_package E k)) (\<lambda>_.
      bindE (set_conn k ?started) (\<lambda>_. bindE (secure_send_all_pending E k) (\<lambda>_. ret True))) m"
    using active
    by (simp add: on_receive_complete_package_def secure_receive_def get_secure_def bindE_get_conn [OF c] h content own_header_def
        build_in_commands starting_def load Let_def bindE_assoc m_def cipher)
  also have "\<dots> = (Inr True, m2)"
    by (simp add: bindE_def [of "bindE _ _"] sent) (simp add: bindE_def pending flip: m2_def)
  finally have run: "on_receive_complete_package E k nt = (Inr True, m2)" .
  have "?started (?sent (?keyed c)) = (?sent c)\<lparr>cn_secure := Some ((starting None)\<lparr>sc_aes_key := ne_aes_key E k, sc_state := STARTED\<rparr>)\<rparr>"
    using active by (cases c) (simp add: update_secure_def sent_all_def on_socket_def)
  with m2 have "find_conn m2 k = Some ((?sent c)\<lparr>cn_secure := Some ((starting None)\<lparr>sc_aes_key := ne_aes_key E k, sc_state := STARTED\<rparr>)\<rparr>)" by simp
  moreover have "om_ok (nt_conns m2)" using conns by (simp add: m2_def m1_def m_def) (simp add: update_conn_def)
  ultimately show ?thesis using run by (auto simp: m2_def m1_def m_def)
qed

text \<open>The setting arrives.\<close>

lemma setting_arrives:
  fixes nt :: "('k, 'd) net" and c :: "'k conn"
  assumes conns: "om_ok (nt_conns nt)" and c: "find_conn nt k = Some c" and between: "between c"
    and bytes: "so_in (cn_socket c) = own_bytes NTF_SECURITY_SETTING [2] @ rest"
    and active: "cn_open_type c = ACTIVE_OPEN" "cn_is_opening c" "cn_secure c = None" "cn_pending c = None"
  shows "\<exists>l hb ct. l \<in> set buffer_lengths \<and> receive_for_state E k nt = receive_for_state E k (update_conn k (\<lambda>_.
    c\<lparr>cn_socket := (cn_socket c)\<lparr>so_in := rest\<rparr>, cn_header := hb, cn_content := ct, cn_length := l,
      cn_is_opening := False, cn_secure := Some (starting None)\<rparr>) nt)"
proof -
  let ?h = "own_header NTF_SECURITY_SETTING [2]"
  note h = own_header_read [of "[2]" NTF_SECURITY_SETTING, simplified]
  have split: "so_in (cn_socket c) = header_bytes ?h @ [2] @ rest" by (simp add: bytes own_bytes_def)
  have "(if cn_secure c = None then h_content_length ?h else get_content_length (h_content_length ?h)) = int (length [2 :: byte])"
    using h active by simp
  from package_read [OF conns c between split h(1,2) this, of E] obtain l old where l: "l \<in> set buffer_lengths"
    and run: "receive_for_state E k nt = go_on E k (on_receive_complete_package E k (update_conn k (\<lambda>_. c
      \<lparr>cn_socket := (cn_socket c)\<lparr>so_in := rest\<rparr>, cn_header := header_bytes ?h, cn_content := 2 # old, cn_length := l\<rparr>) nt))"
    by auto
  define d where "d = c\<lparr>cn_socket := (cn_socket c)\<lparr>so_in := rest\<rparr>, cn_header := header_bytes ?h, cn_content := 2 # old, cn_length := l\<rparr>"
  have d: "find_conn (update_conn k (\<lambda>_. d) nt) k = Some d" by (rule found_update [OF c])
  have "on_receive_complete_package E k (update_conn k (\<lambda>_. d) nt) = (Inr True,
      update_conn k (\<lambda>c. c\<lparr>cn_is_opening := False, cn_secure := Some (starting None)\<rparr>) (update_conn k (\<lambda>_. d) nt))"
    by (rule setting_opens [OF d]) (use h active in \<open>simp_all add: d_def\<close>)
  then have "receive_for_state E k nt =
      receive_for_state E k (update_conn k (\<lambda>_. d\<lparr>cn_is_opening := False, cn_secure := Some (starting None)\<rparr>) nt)"
    using run [folded d_def] by (simp add: go_on_def update_conn_compose)
  then show ?thesis using l unfolding d_def
    by (intro exI [of _ l] exI [of _ "header_bytes ?h"] exI [of _ "2 # old"]) simp
qed

text \<open>A package of the handshake arrives at a secure connection: what is left is its handling.\<close>

lemma secure_package_read:
  fixes nt :: "('k, 'd) net" and c :: "'k conn"
  assumes conns: "om_ok (nt_conns nt)" and c: "find_conn nt k = Some c" and between: "between c" and secure: "cn_secure c \<noteq> None"
    and bytes: "so_in (cn_socket c) = own_bytes command content" and command: "command \<in> {REQ_START_CRYPTO, RSP_START_CRYPTO}"
    and small: "16 dvd length content" "length content \<le> 65504"
  shows "\<exists>d l old. find_conn (update_conn k (\<lambda>_. d) nt) k = Some d \<and> om_ok (nt_conns (update_conn k (\<lambda>_. d) nt)) \<and>
    l \<in> set buffer_lengths \<and> read_header (cn_header d) = own_header command content \<and> cn_content d = content @ old \<and>
    d = c\<lparr>cn_socket := (cn_socket c)\<lparr>so_in := []\<rparr>, cn_header := cn_header d, cn_content := cn_content d, cn_length := l\<rparr> \<and>
    receive_for_state E k nt = go_on E k (on_receive_complete_package E k (update_conn k (\<lambda>_. d) nt))"
proof -
  let ?h = "own_header command content"
  have "command \<in> {NTF_SECURITY_SETTING, REQ_START_CRYPTO, RSP_START_CRYPTO}" using command by auto
  note h = own_header_read [OF small(2) this]
  have split: "so_in (cn_socket c) = header_bytes ?h @ content @ []" by (simp add: bytes own_bytes_def)
  have "(length content + 15) div 16 * 16 = length content" using small(1) by auto
  then have "(if cn_secure c = None then h_content_length ?h else get_content_length (h_content_length ?h)) = int (length content)"
    using h get_content_length_nat [of "length content"] small(2) secure by simp
  from package_read [OF conns c between split h(1,2) this, of E] small(2) obtain l old where l: "l \<in> set buffer_lengths"
    and run: "receive_for_state E k nt = go_on E k (on_receive_complete_package E k (update_conn k (\<lambda>_. c
      \<lparr>cn_socket := (cn_socket c)\<lparr>so_in := []\<rparr>, cn_header := header_bytes ?h, cn_content := content @ old, cn_length := l\<rparr>) nt))"
    by auto
  have "om_ok (nt_conns (update_conn k f nt))" for f using conns by (simp add: update_conn_def)
  then show ?thesis using l run h(5) c
    by (intro exI [of _ "c\<lparr>cn_socket := (cn_socket c)\<lparr>so_in := []\<rparr>, cn_header := header_bytes ?h, cn_content := content @ old, cn_length := l\<rparr>"]
      exI [of _ l] exI [of _ old]) simp
qed

lemma active_side:
  fixes nt :: "('k, 'd) net"
  assumes conns: "om_ok (nt_conns nt)" and c: "find_conn nt k = Some (new_conn k ACTIVE_OPEN so)"
    and so: "so_in so = []" "\<not> so_eof so" and inv: "pm_inv (nt_packages nt)" and alloc: "\<And>n. ne_alloc E n"
    and load: "ne_load E shown = Some pub" and cipher: "ne_rsa_encrypt E (ne_aes_key E k) pub = Some cipher"
    and small: "16 dvd length shown" "length shown \<le> 65504" "length cipher \<le> 65504" and room: "18 + length cipher \<le> so_room so"
  shows "\<exists>nt' c. on_readable E k (arrive k (own_bytes NTF_SECURITY_SETTING [2] @ own_bytes REQ_START_CRYPTO shown) nt) = Some (Inr (), nt') \<and>
    find_conn nt' k = Some c \<and> started_with (ne_aes_key E k) c \<and>
    so_out (cn_socket c) = so_out so @ own_bytes RSP_START_CRYPTO cipher \<and> nt_queues nt' = nt_queues nt"
proof -
  let ?b2 = "own_bytes REQ_START_CRYPTO shown"
  define m0 where "m0 = arrive k (own_bytes NTF_SECURITY_SETTING [2] @ ?b2) nt"
  define c0 :: "'k conn" where "c0 = Receive.more (own_bytes NTF_SECURITY_SETTING [2] @ ?b2) (new_conn k ACTIVE_OPEN so)"
  have c0: "find_conn m0 k = Some c0" by (simp add: m0_def c0_def c)
  have conns0: "om_ok (nt_conns m0)" using conns by (simp add: m0_def arrive_def) (simp add: update_conn_def)
  have fields: "cn_open_type c0 = ACTIVE_OPEN" "cn_is_opening c0" "cn_secure c0 = None" "cn_pending c0 = None" "cn_send_list c0 = []"
      "\<not> cn_is_closing c0" "cn_receive_state c0 = RECEIVE_HEADER" "cn_receive_len c0 = 0" "\<not> so_eof (cn_socket c0)"
      "so_room (cn_socket c0) = so_room so" "so_out (cn_socket c0) = so_out so"
      "so_in (cn_socket c0) = own_bytes NTF_SECURITY_SETTING [2] @ ?b2" "cn_length c0 \<in> set buffer_lengths"
    using so by (simp_all add: c0_def new_conn_def buffer_lengths_def package_consts)
  have "between c0" using fields by (simp add: between_def)
  from setting_arrives [OF conns0 c0 this fields(12,1-4), of E] obtain l hb ct where l: "l \<in> set buffer_lengths"
    and go1: "receive_for_state E k m0 = receive_for_state E k (update_conn k (\<lambda>_. c0\<lparr>cn_socket := (cn_socket c0)\<lparr>so_in := ?b2\<rparr>,
      cn_header := hb, cn_content := ct, cn_length := l, cn_is_opening := False, cn_secure := Some (starting None)\<rparr>) m0)" by blast
  define c2 where "c2 = c0\<lparr>cn_socket := (cn_socket c0)\<lparr>so_in := ?b2\<rparr>, cn_header := hb, cn_content := ct, cn_length := l,
    cn_is_opening := False, cn_secure := Some (starting None)\<rparr>"
  define m2 where "m2 = update_conn k (\<lambda>_. c2) m0"
  have c2: "find_conn m2 k = Some c2" unfolding m2_def by (rule found_update [OF c0])
  have conns2: "om_ok (nt_conns m2)" using conns0 by (simp add: m2_def) (simp add: update_conn_def)
  have fields2: "cn_open_type c2 = ACTIVE_OPEN" "\<not> cn_is_opening c2" "cn_secure c2 = Some (starting None)" "cn_send_list c2 = []"
      "\<not> cn_is_closing c2" "between c2" "\<not> so_eof (cn_socket c2)" "so_in (cn_socket c2) = ?b2"
      "so_room (cn_socket c2) = so_room so" "so_out (cn_socket c2) = so_out so"
    using fields l by (simp_all add: c2_def between_def)
  have secure: "cn_secure c2 \<noteq> None" using fields2 by simp
  from secure_package_read [OF conns2 c2 fields2(6) secure fields2(8) _ small(1,2), of E] obtain d l' old
    where d: "find_conn (update_conn k (\<lambda>_. d) m2) k = Some d" "om_ok (nt_conns (update_conn k (\<lambda>_. d) m2))" "l' \<in> set buffer_lengths"
      and got: "read_header (cn_header d) = own_header REQ_START_CRYPTO shown" "cn_content d = shown @ old"
      and eq: "d = c2\<lparr>cn_socket := (cn_socket c2)\<lparr>so_in := []\<rparr>, cn_header := cn_header d, cn_content := cn_content d, cn_length := l'\<rparr>"
      and go2: "receive_for_state E k m2 = go_on E k (on_receive_complete_package E k (update_conn k (\<lambda>_. d) m2))"
    by blast
  have "cn_open_type d = cn_open_type c2" "cn_is_opening d = cn_is_opening c2" "cn_secure d = cn_secure c2" "cn_send_list d = cn_send_list c2"
      "cn_is_closing d = cn_is_closing c2" "cn_receive_state d = cn_receive_state c2" "cn_receive_len d = cn_receive_len c2"
      "cn_length d = l'" "cn_socket d = (cn_socket c2)\<lparr>so_in := []\<rparr>"
    by (subst eq, simp)+
  then have fieldsd: "cn_open_type d = ACTIVE_OPEN" "\<not> cn_is_opening d" "cn_secure d = Some (starting None)" "cn_send_list d = []"
      "\<not> cn_is_closing d" "between d" "\<not> so_eof (cn_socket d)" "so_in (cn_socket d) = []"
      "so_room (cn_socket d) = so_room so" "so_out (cn_socket d) = so_out so"
    using fields2 d(3) by (simp_all add: between_def)
  let ?m3 = "update_conn k (\<lambda>_. d) m2"
  have same3: "nt_packages ?m3 = nt_packages nt" "nt_queues ?m3 = nt_queues nt" by (simp_all add: m2_def m0_def)
  let ?c4 = "(sent_all (own_bytes RSP_START_CRYPTO cipher) d)\<lparr>cn_secure := Some ((starting None)\<lparr>sc_aes_key := ne_aes_key E k, sc_state := STARTED\<rparr>)\<rparr>"
  have inv3: "pm_inv (nt_packages ?m3)" using inv by (simp only: same3)
  have room3: "18 + length cipher \<le> so_room (cn_socket d)" using room fieldsd by simp
  from key_answered [OF d(1) got fieldsd(1-4) load cipher inv3 alloc small(3) room3 d(2)] same3 obtain m4
    where m4: "on_receive_complete_package E k ?m3 = (Inr True, m4)" "om_ok (nt_conns m4)" "find_conn m4 k = Some ?c4"
      "nt_queues m4 = nt_queues nt" by auto
  have rd: "ready ?c4" using fieldsd by (simp add: ready_def between_def)
  have "receive_for_state E k m4 = Some (Inr (), m4)"
    by (rule nothing_left [OF m4(2,3) rd]) (simp_all add: fieldsd)
  then have "receive_for_state E k m0 = Some (Inr (), m4)" using go1 [folded c2_def, folded m2_def] go2 m4(1) by (simp add: go_on_def)
  then have "on_readable E k m0 = Some (Inr (), m4)" using c0 fields by (simp add: on_readable_def)
  moreover have "started_with (ne_aes_key E k) ?c4" using rd by (simp add: started_with_def)
  ultimately show ?thesis
    using m4 fieldsd unfolding m0_def by (intro exI [of _ m4] exI [of _ ?c4]) simp
qed

text \<open>The encrypted key arrives at the connection that made the key pair.\<close>

lemma key_taken:
  assumes c: "find_conn nt k = Some c" and h: "read_header (cn_header c) = own_header RSP_START_CRYPTO cipher"
    and got: "cn_content c = cipher @ old" and was_passive: "cn_open_type c = PASSIVE_OPEN" "\<not> cn_is_opening c" "cn_secure c = Some (starting (Some priv))"
    and plain: "ne_rsa_decrypt E cipher priv = Some key" and len: "length key = 32" and conns: "om_ok (nt_conns nt)"
  shows "\<exists>sc nt'. sc_state sc = STARTED \<and> sc_aes_key sc = key \<and> on_receive_complete_package E k nt = (Inr True, nt') \<and>
    om_ok (nt_conns nt') \<and> find_conn nt' k = Some (c\<lparr>cn_secure := Some sc\<rparr>) \<and> nt_queues nt' = nt_queues nt"
proof -
  have content: "buffer_content c = cipher" by (simp add: buffer_content_def h got own_header_def)
  let ?f = "\<lambda>sc. sc\<lparr>sc_aes_key := aes_key_reset (sc_aes_key sc) key 32, sc_private_key := None, sc_state := STARTED\<rparr>"
  let ?sc = "?f (starting (Some priv))"
  have key: "aes_key_reset old key 32 = key" for old using len by (simp add: aes_key_reset_def Let_def)
  define m where "m = update_conn k (update_secure ?f) nt"
  have m: "find_conn m k = Some (update_secure ?f c)" unfolding m_def by (rule found_update [OF c])
  have pending: "secure_send_all_pending E k m = (Inr (), m)"
    by (simp add: secure_send_all_pending_def get_secure_def bindE_get_conn [OF m] bindE_assoc was_passive update_secure_def starting_def)
  have "on_receive_complete_package E k nt = bindE (secure_send_all_pending E k) (\<lambda>_. ret True) m"
    using was_passive
    by (simp add: on_receive_complete_package_def secure_receive_def get_secure_def bindE_get_conn [OF c] h content own_header_def
        build_in_commands starting_def plain Let_def bindE_assoc m_def)
  also have "\<dots> = (Inr True, m)" by (simp add: bindE_def pending)
  finally have "on_receive_complete_package E k nt = (Inr True, m)" .
  moreover have "find_conn m k = Some (c\<lparr>cn_secure := Some ?sc\<rparr>)" using m was_passive by (simp add: update_secure_def)
  moreover have "om_ok (nt_conns m)" "nt_queues m = nt_queues nt" using conns by (simp_all add: m_def) (simp add: update_conn_def)
  ultimately show ?thesis by (intro exI [of _ ?sc] exI [of _ m]) (simp add: key)
qed

lemma passive_side:
  assumes conns: "om_ok (nt_conns mt)" and c: "find_conn mt j = Some (passive_conn F j so)" and pub: "ne_key_pair F j = (pub, priv)"
    and so: "so_in so = []" "\<not> so_eof so" and plain: "ne_rsa_decrypt F cipher priv = Some key" and len: "length key = 32"
    and small: "16 dvd length cipher" "length cipher \<le> 65504"
  shows "\<exists>mt' d. on_readable F j (arrive j (own_bytes RSP_START_CRYPTO cipher) mt) = Some (Inr (), mt') \<and>
    find_conn mt' j = Some d \<and> started_with key d \<and> nt_queues mt' = nt_queues mt"
proof -
  define m0 where "m0 = arrive j (own_bytes RSP_START_CRYPTO cipher) mt"
  define c0 where "c0 = Receive.more (own_bytes RSP_START_CRYPTO cipher) (passive_conn F j so)"
  have c0: "find_conn m0 j = Some c0" by (simp add: m0_def c0_def c)
  have conns0: "om_ok (nt_conns m0)" using conns by (simp add: m0_def arrive_def) (simp add: update_conn_def)
  have fields: "cn_open_type c0 = PASSIVE_OPEN" "\<not> cn_is_opening c0" "cn_secure c0 = Some (starting (Some priv))" "\<not> cn_is_closing c0"
      "between c0" "\<not> so_eof (cn_socket c0)" "so_in (cn_socket c0) = own_bytes RSP_START_CRYPTO cipher"
    using so by (simp_all add: c0_def passive_conn_def pub new_conn_def between_def buffer_lengths_def package_consts)
  have secure: "cn_secure c0 \<noteq> None" using fields by simp
  from secure_package_read [OF conns0 c0 fields(5) secure fields(7) _ small, of F] obtain d l old
    where d: "find_conn (update_conn j (\<lambda>_. d) m0) j = Some d" "om_ok (nt_conns (update_conn j (\<lambda>_. d) m0))" "l \<in> set buffer_lengths"
      and got: "read_header (cn_header d) = own_header RSP_START_CRYPTO cipher" "cn_content d = cipher @ old"
      and eq: "d = c0\<lparr>cn_socket := (cn_socket c0)\<lparr>so_in := []\<rparr>, cn_header := cn_header d, cn_content := cn_content d, cn_length := l\<rparr>"
      and go: "receive_for_state F j m0 = go_on F j (on_receive_complete_package F j (update_conn j (\<lambda>_. d) m0))"
    by blast
  have "cn_open_type d = cn_open_type c0" "cn_is_opening d = cn_is_opening c0" "cn_secure d = cn_secure c0"
      "cn_is_closing d = cn_is_closing c0" "cn_receive_state d = cn_receive_state c0" "cn_receive_len d = cn_receive_len c0"
      "cn_length d = l" "cn_socket d = (cn_socket c0)\<lparr>so_in := []\<rparr>"
    by (subst eq, simp)+
  then have fieldsd: "cn_open_type d = PASSIVE_OPEN" "\<not> cn_is_opening d" "cn_secure d = Some (starting (Some priv))"
      "\<not> cn_is_closing d" "between d" "\<not> so_eof (cn_socket d)" "so_in (cn_socket d) = []"
    using fields d(3) by (simp_all add: between_def)
  from key_taken [OF d(1) got fieldsd(1-3) plain len d(2)] obtain sc mt' where sc: "sc_state sc = STARTED" "sc_aes_key sc = key"
    and run: "on_receive_complete_package F j (update_conn j (\<lambda>_. d) m0) = (Inr True, mt')" "om_ok (nt_conns mt')"
      "find_conn mt' j = Some (d\<lparr>cn_secure := Some sc\<rparr>)" "nt_queues mt' = nt_queues mt"
    by (auto simp: m0_def)
  have rd: "ready (d\<lparr>cn_secure := Some sc\<rparr>)" using fieldsd sc by (simp add: ready_def between_def)
  have "receive_for_state F j mt' = Some (Inr (), mt')"
    by (rule nothing_left [OF run(2,3) rd]) (simp_all add: fieldsd)
  then have "on_readable F j m0 = Some (Inr (), mt')" using go run(1) c0 fields by (simp add: go_on_def on_readable_def)
  moreover have "started_with key (d\<lparr>cn_secure := Some sc\<rparr>)" using rd sc by (simp add: started_with_def)
  ultimately show ?thesis using run unfolding m0_def by blast
qed

section \<open>The property\<close>

lemma opened_socket_simps [simp]:
  "so_in (opened_socket E) = []" "so_eof (opened_socket E) = False" "so_out (opened_socket E) = []" "so_room (opened_socket E) = ne_room E"
  by (simp_all add: opened_socket_def)

lemma active_opened:
  assumes ids: "ids_below (nt_conns nt) (nt_next_id nt)" and k: "k = nt_next_id nt"
  shows "\<exists>nt1. create_connection E ACTIVE_OPEN host so nt = (Inr k, nt1) \<and> find_conn nt1 k = Some (new_conn k ACTIVE_OPEN so) \<and>
    om_ok (nt_conns nt1) \<and> nt_packages nt1 = nt_packages nt \<and> nt_queues nt1 = nt_queues nt"
proof -
  have fresh: "om_ok (nt_conns nt)" "map_of (nt_conns nt) k = None" using ids by (auto simp: ids_below_fresh k)
  show ?thesis
    by (simp add: create_connection_def on_create_connection_def bindE_assoc find_conn_def map_of_om_insert_fresh [OF fresh] fresh flip: k)
qed

lemma passive_conn_out:
  assumes "ne_key_pair F j = (pub, priv)" and "so_out so = []"
  shows "so_out (cn_socket (passive_conn F j so)) = own_bytes NTF_SECURITY_SETTING [2] @ own_bytes REQ_START_CRYPTO (ne_save F pub)"
  using assms by (simp add: passive_conn_def new_conn_def)

text \<open>
  C12. The handshake ends with a common key. A program that connects and a program that accepts on
  a secured listener, each running the constructor of its connection and then the handler of the
  readable event on the bytes that the other has sent, end with two connections that are ready
  for packages and hold the same AES key, the one that the connecting side made; the worker of
  neither sees anything of it. Needed is that RSA inverts and saves its keys, that both of its
  texts are whole blocks, since the secure side reads them as if they were encrypted, and that
  the sockets take the few packages at once.
\<close>

theorem handshake_agrees:
  assumes "ids_below (nt_conns nt) (nt_next_id nt)" and "pm_inv (nt_packages nt)" and "\<And>n. ne_alloc E n"
    and "ids_below (nt_conns mt) (nt_next_id mt)" and "pm_inv (nt_packages mt)" and "\<And>n. ne_alloc F n"
    and "k = nt_next_id nt" and "j = nt_next_id mt" and "rsa_fits F E j k" and "address \<in> set (nt_listeners mt)"
    and "37 + length (ne_save F (fst (ne_key_pair F j))) \<le> ne_room F"
    and "\<And>cipher. ne_rsa_encrypt E (ne_aes_key E k) (fst (ne_key_pair F j)) = Some cipher \<Longrightarrow> 18 + length cipher \<le> ne_room E"
  shows "\<exists>nt1 mt1 nt2 mt2 c d1 d.
    create_connection E ACTIVE_OPEN host (opened_socket E) nt = (Inr k, nt1) \<and>
    create_connection F PASSIVE_OPEN address (opened_socket F) mt = (Inr j, mt1) \<and> find_conn mt1 j = Some d1 \<and>
    on_readable E k (arrive k (so_out (cn_socket d1)) nt1) = Some (Inr (), nt2) \<and> find_conn nt2 k = Some c \<and>
    on_readable F j (arrive j (so_out (cn_socket c)) mt1) = Some (Inr (), mt2) \<and> find_conn mt2 j = Some d \<and>
    started_with (ne_aes_key E k) c \<and> started_with (ne_aes_key E k) d \<and>
    nt_queues nt2 = nt_queues nt \<and> nt_queues mt2 = nt_queues mt"
proof -
  obtain pub priv where pub: "ne_key_pair F j = (pub, priv)" by (cases "ne_key_pair F j")
  obtain cipher where cipher: "ne_rsa_encrypt E (ne_aes_key E k) pub = Some cipher"
    using assms(9) by (auto simp: rsa_fits_def pub Let_def split: option.splits)
  have fits: "ne_load E (ne_save F pub) = Some pub" "ne_rsa_decrypt F cipher priv = Some (ne_aes_key E k)" "length (ne_aes_key E k) = 32"
    "16 dvd length (ne_save F pub)" "length (ne_save F pub) \<le> 65504" "16 dvd length cipher" "length cipher \<le> 65504"
    using assms(9) by (simp_all add: rsa_fits_def pub Let_def cipher)
  from active_opened [OF assms(1,7), of E host "opened_socket E"] obtain nt1
    where active: "create_connection E ACTIVE_OPEN host (opened_socket E) nt = (Inr k, nt1)"
      "find_conn nt1 k = Some (new_conn k ACTIVE_OPEN (opened_socket E))" "om_ok (nt_conns nt1)"
      "nt_packages nt1 = nt_packages nt" "nt_queues nt1 = nt_queues nt" by blast
  have room: "37 + length (ne_save F pub) \<le> so_room (opened_socket F)" "18 + length cipher \<le> so_room (opened_socket E)"
    using assms(11) assms(12) [of cipher] by (simp_all add: pub cipher)
  from passive_opened [OF assms(4,5,6,10,8) pub fits(5) room(1)] obtain mt1
    where opened: "create_connection F PASSIVE_OPEN address (opened_socket F) mt = (Inr j, mt1)"
      "find_conn mt1 j = Some (passive_conn F j (opened_socket F))" "om_ok (nt_conns mt1)" "nt_queues mt1 = nt_queues mt" by blast
  have inv1: "pm_inv (nt_packages nt1)" using assms(2) active by simp
  from active_side [OF active(3,2) _ _ inv1 assms(3) fits(1) cipher fits(4,5,7) room(2)] obtain nt2 c
    where ran: "on_readable E k (arrive k (own_bytes NTF_SECURITY_SETTING [2] @ own_bytes REQ_START_CRYPTO (ne_save F pub)) nt1) = Some (Inr (), nt2)"
      "find_conn nt2 k = Some c" "started_with (ne_aes_key E k) c" "so_out (cn_socket c) = own_bytes RSP_START_CRYPTO cipher"
      "nt_queues nt2 = nt_queues nt" using active by auto
  from passive_side [OF opened(3,2) pub _ _ fits(2,3,6,7)] opened obtain mt2 d
    where took: "on_readable F j (arrive j (own_bytes RSP_START_CRYPTO cipher) mt1) = Some (Inr (), mt2)" "find_conn mt2 j = Some d"
      "started_with (ne_aes_key E k) d" "nt_queues mt2 = nt_queues mt" by auto
  have out: "so_out (cn_socket (passive_conn F j (opened_socket F))) =
      own_bytes NTF_SECURITY_SETTING [2] @ own_bytes REQ_START_CRYPTO (ne_save F pub)"
    by (rule passive_conn_out [OF pub]) simp
  show ?thesis
    by (intro exI [of _ nt1] exI [of _ mt1] exI [of _ nt2] exI [of _ mt2] exI [of _ c]
        exI [of _ "passive_conn F j (opened_socket F)"] exI [of _ d])
      (simp add: out active opened ran took)
qed

definition secured_net :: "(nat, nat) net" where
  "secured_net = some_net\<lparr>nt_listeners := [''here'']\<rparr>"

theorem handshake_agrees_witness:
  "\<exists>nt1 mt1 nt2 mt2 c d1 d.
    create_connection some_env ACTIVE_OPEN [] (opened_socket some_env) some_net = (Inr 2, nt1) \<and>
    create_connection some_env PASSIVE_OPEN ''here'' (opened_socket some_env) secured_net = (Inr 2, mt1) \<and> find_conn mt1 2 = Some d1 \<and>
    on_readable some_env 2 (arrive 2 (so_out (cn_socket d1)) nt1) = Some (Inr (), nt2) \<and> find_conn nt2 2 = Some c \<and>
    on_readable some_env 2 (arrive 2 (so_out (cn_socket c)) mt1) = Some (Inr (), mt2) \<and> find_conn mt2 2 = Some d \<and>
    started_with (replicate 32 2) c \<and> started_with (replicate 32 2) d"
proof -
  have ids: "ids_below (nt_conns some_net) (nt_next_id some_net)" "ids_below (nt_conns secured_net) (nt_next_id secured_net)"
    by (simp_all add: secured_net_def some_net_def ids_below_def om_ok_def)
  have inv: "pm_inv (nt_packages some_net)" "pm_inv (nt_packages secured_net)"
    using some_packages(2) by (simp_all add: secured_net_def)
  have alloc: "\<And>n. ne_alloc some_env n" by (simp add: some_env_def)
  have k: "2 = nt_next_id some_net" "2 = nt_next_id secured_net" by (simp_all add: secured_net_def some_net_def)
  have fits: "rsa_fits some_env some_env 2 2" by (simp add: rsa_fits_def some_env_def Let_def)
  have here: "''here'' \<in> set (nt_listeners secured_net)" by (simp add: secured_net_def)
  have room: "37 + length (ne_save some_env (fst (ne_key_pair some_env 2))) \<le> ne_room some_env"
    "\<And>cipher. ne_rsa_encrypt some_env (ne_aes_key some_env 2) (fst (ne_key_pair some_env 2)) = Some cipher \<Longrightarrow> 18 + length cipher \<le> ne_room some_env"
    by (auto simp: some_env_def)
  have "ne_aes_key some_env 2 = replicate 32 2" by (simp add: some_env_def)
  with handshake_agrees [OF ids(1) inv(1) alloc ids(2) inv(2) alloc k fits here room, of "[]"] show ?thesis by simp metis
qed

end
