(* ===== verification/Istream.thy ===== *)
theory Istream
  imports Prelude
begin

text \<open>
  What the client uses of \<open>std::istream\<close>: the extraction of words and numbers from the console
  and from its own files, as libstdc++ does it, \<open>std::stoi\<close>, and the decimal digits that
  \<open>lights::format\<close> writes. An extraction on a stream that has failed, or that has nothing left
  but white space, does not touch its variable: it gives \<open>None\<close>.
\<close>

section \<open>Characters\<close>

definition is_space :: "char \<Rightarrow> bool" where
  "is_space c \<longleftrightarrow> of_char c \<in> {9, 10, 11, 12, 13, 32 :: nat}"

definition is_digit :: "char \<Rightarrow> bool" where
  "is_digit c \<longleftrightarrow> 48 \<le> (of_char c :: nat) \<and> (of_char c :: nat) \<le> 57"

definition digit :: "nat \<Rightarrow> char" where
  "digit n = char_of (48 + n)"

fun decimal :: "nat \<Rightarrow> string" where
  "decimal n = (if n < 10 then [digit n] else decimal (n div 10) @ [digit (n mod 10)])"

declare decimal.simps [simp del]

definition format_int :: "int \<Rightarrow> string" where
  "format_int n = (if n < 0 then CHR ''-'' # decimal (nat (- n)) else decimal (nat n))"

definition digits_value :: "string \<Rightarrow> int" where
  "digits_value ds = foldl (\<lambda>n c. 10 * n + int (of_char c - 48)) 0 ds"

section \<open>Extraction\<close>

record istream =
  is_rest :: string
  is_fail :: bool

definition read_word :: "istream \<Rightarrow> string option \<times> istream" where
  "read_word s = (let cs = dropWhile is_space (is_rest s) in
     if is_fail s then (None, s)
     else if cs = [] then (None, s\<lparr>is_rest := [], is_fail := True\<rparr>)
     else (Some (takeWhile (\<lambda>c. \<not> is_space c) cs), s\<lparr>is_rest := dropWhile (\<lambda>c. \<not> is_space c) cs\<rparr>))"

text \<open>The sign, the digits behind it, and the rest.\<close>

definition scan_number :: "string \<Rightarrow> bool \<times> string \<times> string" where
  "scan_number cs = (case cs of
     [] \<Rightarrow> (False, [], [])
   | c # cs' \<Rightarrow> let body = (if c = CHR ''-'' \<or> c = CHR ''+'' then cs' else cs)
       in (c = CHR ''-'', takeWhile is_digit body, dropWhile is_digit body))"

text \<open>
  The value is 0 where there are no digits, and the nearest bound where it is out of range;
  both fail. \<open>fit\<close> gives the value and whether it is in range, for a sign and a magnitude.
\<close>

definition read_number :: "(bool \<Rightarrow> int \<Rightarrow> int \<times> bool) \<Rightarrow> istream \<Rightarrow> int option \<times> istream" where
  "read_number fit s = (let cs = dropWhile is_space (is_rest s) in
     if is_fail s then (None, s)
     else if cs = [] then (None, s\<lparr>is_rest := [], is_fail := True\<rparr>)
     else case scan_number cs of (negative, ds, rest) \<Rightarrow>
       if ds = [] then (Some 0, s\<lparr>is_rest := rest, is_fail := True\<rparr>)
       else case fit negative (digits_value ds) of (n, good) \<Rightarrow> (Some n, s\<lparr>is_rest := rest, is_fail := \<not> good\<rparr>))"

definition fit_signed :: "nat \<Rightarrow> bool \<Rightarrow> int \<Rightarrow> int \<times> bool" where
  "fit_signed w negative m = (let n = (if negative then - m else m) in
     if n < - (2 ^ (w - 1)) then (- (2 ^ (w - 1)), False)
     else if 2 ^ (w - 1) \<le> n then (2 ^ (w - 1) - 1, False) else (n, True))"

text \<open>A sign before an unsigned number negates it modulo the width.\<close>

definition fit_unsigned :: "nat \<Rightarrow> bool \<Rightarrow> int \<Rightarrow> int \<times> bool" where
  "fit_unsigned w negative m =
     (if 2 ^ w \<le> m then (2 ^ w - 1, False) else (if negative then - m mod 2 ^ w else m, True))"

definition read_int :: "istream \<Rightarrow> int option \<times> istream" where
  "read_int = read_number (fit_signed 32)"

text \<open>A \<open>bool\<close> is read as a \<open>long\<close>; other numbers than 0 and 1 are true and fail.\<close>

definition read_bool :: "istream \<Rightarrow> bool option \<times> istream" where
  "read_bool s = (case read_number (fit_signed 64) s of (n, s') \<Rightarrow>
     (map_option (\<lambda>n. n \<noteq> 0) n, if n \<noteq> None \<and> n \<noteq> Some 0 \<and> n \<noteq> Some 1 then s'\<lparr>is_fail := True\<rparr> else s'))"

text \<open>\<open>std::stoi\<close> reads the number at the front of a string and throws where there is none.\<close>

definition stoi :: "string \<Rightarrow> int res" where
  "stoi input = (case scan_number (dropWhile is_space input) of (negative, ds, rest) \<Rightarrow>
     if ds = [] then Inl Std_exception
     else case fit_signed 32 negative (digits_value ds) of (n, good) \<Rightarrow> if good then Inr n else Inl Std_exception)"

section \<open>What was written is read back\<close>

lemma digit_props:
  assumes "n < 10"
  shows "is_digit (digit n)" "\<not> is_space (digit n)" "(of_char (digit n) :: nat) = 48 + n"
    "digit n \<noteq> CHR ''-''" "digit n \<noteq> CHR ''+''"
proof -
  have code: "(of_char (digit n) :: nat) = 48 + n" using assms by (simp add: digit_def)
  then show "(of_char (digit n) :: nat) = 48 + n" .
  show "is_digit (digit n)" "\<not> is_space (digit n)" using assms code by (auto simp: is_digit_def is_space_def)
  have "(of_char (digit n) :: nat) = 45" if "digit n = CHR ''-''" unfolding that by simp
  moreover have "(of_char (digit n) :: nat) = 43" if "digit n = CHR ''+''" unfolding that by simp
  ultimately show "digit n \<noteq> CHR ''-''" "digit n \<noteq> CHR ''+''" unfolding code by auto
qed

lemma digits_value_snoc: "digits_value (ds @ [c]) = 10 * digits_value ds + int (of_char c - 48)"
  by (simp add: digits_value_def)

lemma decimal_props:
  "decimal n \<noteq> []" "\<forall>c \<in> set (decimal n). is_digit c \<and> \<not> is_space c \<and> c \<noteq> CHR ''-'' \<and> c \<noteq> CHR ''+''"
  "digits_value (decimal n) = int n"
proof (induction n rule: decimal.induct)
  case (1 n)
  have last: "is_digit (digit (n mod 10))" "\<not> is_space (digit (n mod 10))" "(of_char (digit (n mod 10)) :: nat) = 48 + n mod 10"
    "digit (n mod 10) \<noteq> CHR ''-''" "digit (n mod 10) \<noteq> CHR ''+''"
    by (rule digit_props; simp)+
  { case 1 show ?case by (subst decimal.simps) simp
  next
    case 2
    show ?case
    proof (cases "n < 10")
      case True
      with last show ?thesis by (subst decimal.simps) simp
    next
      case False
      with "1.IH"(2) last show ?thesis by (subst decimal.simps) simp
    qed
  next
    case 3
    show ?case
    proof (cases "n < 10")
      case True
      with last show ?thesis by (subst decimal.simps) (simp add: digits_value_def)
    next
      case False
      have "int n = 10 * int (n div 10) + int (n mod 10)" by presburger
      with False "1.IH"(3) last show ?thesis by (subst decimal.simps) (simp add: digits_value_snoc)
    qed }
qed

section \<open>Reading to the end\<close>

lemma read_number_shorter:
  assumes "read_number fit s = (v, s')" and "\<not> is_fail s"
  shows "is_fail s' \<or> length (is_rest s') < length (is_rest s)"
proof -
  let ?cs = "dropWhile is_space (is_rest s)"
  obtain negative ds rest where scan: "scan_number ?cs = (negative, ds, rest)" by (cases "scan_number ?cs")
  have "length rest < length ?cs" if "ds \<noteq> []"
  proof -
    have "length (takeWhile is_digit body) + length (dropWhile is_digit body) = length body" for body
      by (simp flip: length_append)
    with scan that show ?thesis
      by (auto simp: scan_number_def Let_def split: list.splits if_splits) (metis add.commute less_Suc_eq_le le_add1 length_greater_0_conv less_add_same_cancel1 length_Cons less_SucI)+
  qed
  then show ?thesis
    using assms scan length_dropWhile_le [of is_space "is_rest s"]
    by (auto simp: read_number_def Let_def split: if_splits prod.splits)
qed

text \<open>\<open>while (file) file >> n;\<close> with what \<open>n\<close> was before.\<close>

function read_last :: "istream \<Rightarrow> int \<Rightarrow> int" where
  "read_last s n = (if is_fail s then n
     else case read_int s of (v, s') \<Rightarrow> read_last s' (case v of None \<Rightarrow> n | Some m \<Rightarrow> m))"
  by pat_completeness auto
termination
  by (relation "measure (\<lambda>(s, n). if is_fail s then 0 else Suc (length (is_rest s)))")
    (auto simp: read_int_def dest!: read_number_shorter [OF sym])

declare read_last.simps [simp del]

text \<open>Lines with one number each: the last one is what remains.\<close>

definition number_lines :: "nat list \<Rightarrow> string" where
  "number_lines ns = concat (map (\<lambda>n. decimal n @ [CHR 0x0A]) ns)"

lemma newline_space: "is_space (CHR 0x0A)" "\<not> is_digit (CHR 0x0A)"
  by (simp_all add: is_space_def is_digit_def)

lemma read_int_line:
  assumes "n < 2 ^ 31" and "\<forall>c \<in> set ws. is_space c"
  shows "read_int \<lparr>is_rest = ws @ decimal n @ CHR 0x0A # cs, is_fail = False\<rparr> = (Some (int n), \<lparr>is_rest = CHR 0x0A # cs, is_fail = False\<rparr>)"
proof -
  obtain d ds where d: "decimal n = d # ds" using decimal_props(1) [of n] by (cases "decimal n") auto
  have props: "is_digit d" "\<not> is_space d" "d \<noteq> CHR ''-''" "d \<noteq> CHR ''+''" "\<forall>c \<in> set ds. is_digit c"
    using decimal_props(2) [of n] by (simp_all add: d)
  have val: "digits_value (d # ds) = int n" using decimal_props(3) [of n] by (simp add: d)
  have skip: "dropWhile is_space (ws @ decimal n @ CHR 0x0A # cs) = d # ds @ CHR 0x0A # cs"
    using assms(2) props(2) by (simp add: d dropWhile_append)
  have "scan_number (d # ds @ CHR 0x0A # cs) = (False, d # ds, CHR 0x0A # cs)"
    using props newline_space(2) by (simp add: scan_number_def takeWhile_append dropWhile_append)
  with skip val assms(1) show ?thesis
    by (simp add: read_int_def read_number_def fit_signed_def Let_def)
qed

lemma read_last_lines:
  assumes "\<forall>n \<in> set ns. n < 2 ^ 31" and "\<forall>c \<in> set ws. is_space c"
  shows "read_last \<lparr>is_rest = ws @ number_lines ns, is_fail = False\<rparr> k = (if ns = [] then k else int (last ns))"
  using assms
proof (induction ns arbitrary: ws k)
  case Nil
  then have "dropWhile is_space ws = []" by simp
  then show ?case by (subst read_last.simps) (simp add: number_lines_def read_int_def read_number_def Let_def read_last.simps)
next
  case (Cons n ns)
  have "read_last \<lparr>is_rest = ws @ number_lines (n # ns), is_fail = False\<rparr> k =
      read_last \<lparr>is_rest = [CHR 0x0A] @ number_lines ns, is_fail = False\<rparr> (int n)"
    using Cons.prems by (subst read_last.simps) (simp add: number_lines_def read_int_line)
  also have "\<dots> = (if ns = [] then int n else int (last ns))"
    by (rule Cons.IH) (use Cons.prems newline_space in simp_all)
  finally show ?case by simp
qed

end
