(* ===== verification/Client.thy ===== *)
theory Client
  imports Istream Services Storage_Files
begin

text \<open>
  The client, \<open>client/core.{h,cpp}\<close> and \<open>client/main.cpp\<close>: the requests it sends, the handler
  of every response, the transfers of files with their notes on the disk, and the heartbeat.
  The operations are called by two threads, the console's and the worker's; each is a step of
  its own here. What goes to \<open>std::cout\<close> is the list of the values that are printed.
\<close>

section \<open>State\<close>

record transfer =
  tf_session_id :: int
  tf_local_path :: string
  tf_group_id :: int
  tf_remote_path :: string
  tf_max_fragment :: int
  tf_fragment_index :: int
  tf_start_time :: precise_time
  tf_fragment_state :: "(int, bool) omap"

definition new_transfer :: transfer where
  "new_transfer = \<lparr>tf_session_id = 0, tf_local_path = [], tf_group_id = 0, tf_remote_path = [], tf_max_fragment = 0,
     tf_fragment_index = 0, tf_start_time = pt_seconds 0, tf_fragment_state = []\<rparr>"

datatype console_line =
    Failure_line int int int   \<comment> \<open>category, code, command\<close>
  | User_id_line int
  | User_line int string
  | Group_id_line int
  | Group_line int string int "int list" "int list"
  | File_line string proto_file_type
  | Empty_line
  | Put_finish_line string precise_time
  | Get_finish_line string precise_time
  | Index_line nat
  | Invalid_connection_line
  | Out_of_range_line
  | Unknown_command_line

record client =
  cl_conn_id :: int
  cl_conn_list :: "int list"
  cl_conns :: conn_table
  cl_put :: transfer
  cl_get :: transfer
  cl_last_delay :: precise_time
  cl_total_delay :: precise_time
  cl_heartbeat_times :: int
  cl_timer_id :: int
  cl_disk :: "string \<rightharpoonup> bytes"
  cl_output :: "console_line list"

definition new_client :: "(string \<rightharpoonup> bytes) \<Rightarrow> client" where
  "new_client disk = \<lparr>cl_conn_id = 0, cl_conn_list = [], cl_conns = \<lparr>m_net_conns = [], m_net_next_id = 1\<rparr>,
     cl_put = new_transfer, cl_get = new_transfer, cl_last_delay = pt_seconds 0, cl_total_delay = pt_seconds 0,
     cl_heartbeat_times = 0, cl_timer_id = 0, cl_disk = disk, cl_output = []\<rparr>"

text \<open>The worker runs \<open>read_handler\<close> and the lambda of \<open>start_heartbeat\<close>.\<close>

datatype client_fun = Read_handler | Send_ping

type_synonym 'c cl_world = "('c, client_fun, unit, client) world"

text \<open>\<open>ce_openable\<close>: whether a path can be opened for appending; \<open>ce_reach\<close>: whether an address can be connected to.\<close>

record 'c client_env =
  ce_codec :: "'c codec"
  ce_alloc :: "size_t \<Rightarrow> bool"
  ce_openable :: "string \<Rightarrow> bool"
  ce_reach :: "string \<Rightarrow> 16 word \<Rightarrow> bool"

definition HEARTBEAT_PER_SEC :: int where "HEARTBEAT_PER_SEC = 50"
definition META_FILE_PREFIX :: string where "META_FILE_PREFIX = ''.meta''"

section \<open>Requests\<close>

definition cl_send :: "'c client_env \<Rightarrow> message \<Rightarrow> ('c cl_world, unit) exec" where
  "cl_send E request = bindE (gets (\<lambda>w. cl_conn_id (w_app w))) (\<lambda>conn_id.
     send_protocol (ce_codec E) (ce_alloc E) conn_id request 0 0 0 0)"

text \<open>A field that is not set has its default.\<close>

definition cl_register_user :: "'c client_env \<Rightarrow> string \<Rightarrow> string \<Rightarrow> ('c cl_world, unit) exec" where
  "cl_register_user E username password = cl_send E (ReqRegisterUser username password)"
definition cl_login_user :: "'c client_env \<Rightarrow> int \<Rightarrow> string \<Rightarrow> ('c cl_world, unit) exec" where
  "cl_login_user E user_id password = cl_send E (ReqLoginUser user_id password)"
definition cl_remove_user :: "'c client_env \<Rightarrow> int \<Rightarrow> ('c cl_world, unit) exec" where
  "cl_remove_user E user_id = cl_send E (ReqRemoveUser user_id)"
definition cl_find_user :: "'c client_env \<Rightarrow> int \<Rightarrow> ('c cl_world, unit) exec" where
  "cl_find_user E user_id = cl_send E (ReqFindUser user_id [])"
definition cl_find_user_by_name :: "'c client_env \<Rightarrow> string \<Rightarrow> ('c cl_world, unit) exec" where
  "cl_find_user_by_name E username = cl_send E (ReqFindUser 0 username)"
definition cl_register_group :: "'c client_env \<Rightarrow> string \<Rightarrow> ('c cl_world, unit) exec" where
  "cl_register_group E group_name = cl_send E (ReqRegisterGroup group_name)"
definition cl_remove_group :: "'c client_env \<Rightarrow> int \<Rightarrow> ('c cl_world, unit) exec" where
  "cl_remove_group E group_id = cl_send E (ReqRemoveGroup group_id)"
definition cl_find_group :: "'c client_env \<Rightarrow> int \<Rightarrow> ('c cl_world, unit) exec" where
  "cl_find_group E group_id = cl_send E (ReqFindGroup group_id [])"
definition cl_find_group_by_name :: "'c client_env \<Rightarrow> string \<Rightarrow> ('c cl_world, unit) exec" where
  "cl_find_group_by_name E group_name = cl_send E (ReqFindGroup 0 group_name)"
definition cl_join_group :: "'c client_env \<Rightarrow> int \<Rightarrow> ('c cl_world, unit) exec" where
  "cl_join_group E group_id = cl_send E (ReqJoinGroup group_id)"
definition cl_assign_as_manager :: "'c client_env \<Rightarrow> int \<Rightarrow> int \<Rightarrow> ('c cl_world, unit) exec" where
  "cl_assign_as_manager E group_id user_id = cl_send E (ReqAssignAsManager group_id user_id)"
definition cl_assign_as_member :: "'c client_env \<Rightarrow> int \<Rightarrow> int \<Rightarrow> ('c cl_world, unit) exec" where
  "cl_assign_as_member E group_id user_id = cl_send E (ReqAssignAsMember group_id user_id)"
definition cl_kick_out_user :: "'c client_env \<Rightarrow> int \<Rightarrow> int \<Rightarrow> ('c cl_world, unit) exec" where
  "cl_kick_out_user E group_id user_id = cl_send E (ReqKickOutUser group_id user_id)"
definition cl_list_file :: "'c client_env \<Rightarrow> int \<Rightarrow> string \<Rightarrow> ('c cl_world, unit) exec" where
  "cl_list_file E group_id file_path = cl_send E (ReqListFile group_id file_path)"
definition cl_create_path :: "'c client_env \<Rightarrow> int \<Rightarrow> string \<Rightarrow> ('c cl_world, unit) exec" where
  "cl_create_path E group_id path = cl_send E (ReqCreatePath group_id path)"
definition cl_remove_path :: "'c client_env \<Rightarrow> int \<Rightarrow> string \<Rightarrow> bool \<Rightarrow> ('c cl_world, unit) exec" where
  "cl_remove_path E group_id path force_remove_all = cl_send E (ReqRemovePath group_id path force_remove_all)"

lemmas request_defs = cl_register_user_def cl_login_user_def cl_remove_user_def cl_find_user_def cl_find_user_by_name_def
  cl_register_group_def cl_remove_group_def cl_find_group_def cl_find_group_by_name_def cl_join_group_def
  cl_assign_as_manager_def cl_assign_as_member_def cl_kick_out_user_def cl_list_file_def cl_create_path_def cl_remove_path_def

section \<open>Uploads\<close>

definition update_put_session :: "(transfer \<Rightarrow> transfer) \<Rightarrow> ('c cl_world, unit) exec" where
  "update_put_session f = on_app (modify (\<lambda>a. a\<lparr>cl_put := f (cl_put a)\<rparr>))"

definition update_get_session :: "(transfer \<Rightarrow> transfer) \<Rightarrow> ('c cl_world, unit) exec" where
  "update_get_session f = on_app (modify (\<lambda>a. a\<lparr>cl_get := f (cl_get a)\<rparr>))"

text \<open>A file that is opened for reading, by its content.\<close>

definition open_read :: "string \<Rightarrow> ('c cl_world, bytes) exec" where
  "open_read path = getsE (\<lambda>w. case cl_disk (w_app w) path of None \<Rightarrow> Inl Open_file_error | Some c \<Rightarrow> Inr c)"

definition cl_put_file :: "'c client_env \<Rightarrow> int \<Rightarrow> string \<Rightarrow> string \<Rightarrow> ('c cl_world, unit) exec" where
  "cl_put_file E group_id local_path remote_path =
     bindE (gets w_now) (\<lambda>now.
     bindE (update_put_session (\<lambda>t. t\<lparr>tf_local_path := local_path, tf_group_id := group_id, tf_remote_path := remote_path,
       tf_start_time := now\<rparr>)) (\<lambda>_.
     bindE (open_read local_path) (\<lambda>c.
     bindE (getsE (\<lambda>_. fragment_count (length c) MAX_FRAGMENT_CONTENT_LEN)) (\<lambda>max_fragment.
     bindE (update_put_session (\<lambda>t. t\<lparr>tf_max_fragment := max_fragment\<rparr>)) (\<lambda>_.
     cl_send E (ReqPutFileSession group_id remote_path max_fragment))))))"

text \<open>The loop of \<open>start_put_file\<close>, with the position of the stream; a seek before the start fails.\<close>

fun put_fragments :: "'c client_env \<Rightarrow> bytes \<Rightarrow> nat \<Rightarrow> int \<Rightarrow> nat \<Rightarrow> ('c cl_world, unit) exec" where
  "put_fragments E c pos fragment_index 0 = ret ()"
| "put_fragments E c pos fragment_index (Suc n) =
     bindE (getsE (\<lambda>_. int_mult fragment_index MAX_FRAGMENT_CONTENT_LEN)) (\<lambda>off.
     let pos = (if off < 0 then pos else nat off); content = take (nat MAX_FRAGMENT_CONTENT_LEN) (drop pos c) in
     bindE (gets (\<lambda>w. tf_session_id (cl_put (w_app w)))) (\<lambda>session_id.
     bindE (cl_send E (ReqPutFile session_id fragment_index content)) (\<lambda>_.
     bindE (update_put_session (\<lambda>t. t\<lparr>tf_fragment_state := om_put fragment_index True (tf_fragment_state t)\<rparr>)) (\<lambda>_.
     put_fragments E c (pos + length content) (fragment_index + 1) n))))"

definition start_put_file :: "'c client_env \<Rightarrow> int \<Rightarrow> ('c cl_world, unit) exec" where
  "start_put_file E next_fragment =
     bindE (gets (\<lambda>w. cl_put (w_app w))) (\<lambda>t.
     bindE (open_read (tf_local_path t)) (\<lambda>c.
     put_fragments E c 0 next_fragment (nat (tf_max_fragment t - next_fragment))))"

section \<open>Downloads\<close>

definition cl_get_file :: "'c client_env \<Rightarrow> int \<Rightarrow> string \<Rightarrow> string \<Rightarrow> ('c cl_world, unit) exec" where
  "cl_get_file E group_id remote_path local_path =
     bindE (gets w_now) (\<lambda>now.
     bindE (update_get_session (\<lambda>t. t\<lparr>tf_local_path := local_path, tf_group_id := group_id, tf_remote_path := remote_path,
       tf_start_time := now\<rparr>)) (\<lambda>_.
     cl_send E (ReqGetFileSession group_id remote_path)))"

definition chars_of :: "bytes \<Rightarrow> string" where
  "chars_of bs = map (\<lambda>b. char_of (unat b)) bs"

definition bytes_of :: "string \<Rightarrow> bytes" where
  "bytes_of cs = map (\<lambda>c. word_of_nat (of_char c)) cs"

text \<open>Both name their file after the session's path, whatever path they are given.\<close>

definition get_next_fragment :: "client \<Rightarrow> int" where
  "get_next_fragment a = (case cl_disk a (tf_local_path (cl_get a) @ META_FILE_PREFIX) of
     None \<Rightarrow> 0 | Some c \<Rightarrow> read_last \<lparr>is_rest = chars_of c, is_fail = False\<rparr> 0)"

text \<open>A stream that is opened with the mode \<open>a\<close> writes at the end, wherever it is sought to.\<close>

definition append_file :: "'c client_env \<Rightarrow> string \<Rightarrow> bytes \<Rightarrow> ('c cl_world, unit) exec" where
  "append_file E path bs = (if ce_openable E path
     then on_app (modify (\<lambda>a. a\<lparr>cl_disk := (cl_disk a)(path \<mapsto> (case cl_disk a path of None \<Rightarrow> [] | Some c \<Rightarrow> c) @ bs)\<rparr>))
     else fail Open_file_error)"

definition set_next_fragment :: "'c client_env \<Rightarrow> int \<Rightarrow> ('c cl_world, unit) exec" where
  "set_next_fragment E next_fragment =
     bindE (gets (\<lambda>w. tf_local_path (cl_get (w_app w)) @ META_FILE_PREFIX)) (\<lambda>meta_filename.
     append_file E meta_filename (bytes_of (format_int next_fragment @ [CHR 0x0A])))"

fun ask_fragments :: "'c client_env \<Rightarrow> int \<Rightarrow> nat \<Rightarrow> ('c cl_world, unit) exec" where
  "ask_fragments E fragment_index 0 = ret ()"
| "ask_fragments E fragment_index (Suc n) =
     bindE (gets (\<lambda>w. tf_session_id (cl_get (w_app w)))) (\<lambda>session_id.
     bindE (cl_send E (ReqGetFile session_id fragment_index)) (\<lambda>_.
     ask_fragments E (fragment_index + 1) n))"

definition start_get_file :: "'c client_env \<Rightarrow> ('c cl_world, unit) exec" where
  "start_get_file E =
     bindE (gets (\<lambda>w. (get_next_fragment (w_app w), tf_max_fragment (cl_get (w_app w))))) (\<lambda>(next_fragment, max_fragment).
     ask_fragments E next_fragment (nat (max_fragment - next_fragment)))"

section \<open>The heartbeat\<close>

text \<open>A cast to \<open>int32_t\<close>.\<close>

definition to_int32 :: "int \<Rightarrow> int" where
  "to_int32 n = sint (word_of_int n :: 32 word)"

definition send_ping :: "'c client_env \<Rightarrow> ('c cl_world, unit) exec" where
  "send_ping E = bindE (gets w_now) (\<lambda>time.
     cl_send E (ReqPing (to_int32 (seconds time)) (to_int32 (nanoseconds time div 1000))))"

definition start_heartbeat :: "('c cl_world, unit) exec" where
  "start_heartbeat =
     bindE (gets (\<lambda>w. register_frequent_timer ''start_heartbeat'' (pt_seconds HEARTBEAT_PER_SEC) (Timer_call Send_ping)
       (pt_seconds 0) (w_now w) (w_timers w))) (\<lambda>(timer_id, timers).
     modify (\<lambda>w. w\<lparr>w_timers := timers, w_app := (w_app w)\<lparr>cl_timer_id := timer_id\<rparr>\<rparr>))"

definition stop_heartbeat :: "('c cl_world, unit) exec" where
  "stop_heartbeat = modify (\<lambda>w. w\<lparr>w_timers := remove_timer (cl_timer_id (w_app w)) (w_timers w)\<rparr>)"

text \<open>\<open>rtt / 2\<close> of \<open>PreciseTime\<close>, whose \<open>double\<close> is exact for a divisor of 2: half a second is
  500000000 nanoseconds. The integer divisions truncate.\<close>

definition pt_half :: "precise_time \<Rightarrow> precise_time" where
  "pt_half t = (let s = sgn (seconds t) * (\<bar>seconds t\<bar> div 2) in
     \<lparr>seconds = s, nanoseconds = sgn (nanoseconds t) * (\<bar>nanoseconds t\<bar> div 2) + (seconds t - 2 * s) * 500000000\<rparr>)"

definition on_receive_response :: "int \<Rightarrow> int \<Rightarrow> ('c cl_world, unit) exec" where
  "on_receive_response second microsecond =
     bindE (gets w_now) (\<lambda>now.
     let last_delay = pt_half (pt_sub now \<lparr>seconds = second, nanoseconds = microsecond * 1000\<rparr>) in
     on_app (modify (\<lambda>a. a\<lparr>cl_last_delay := last_delay, cl_total_delay := pt_add (cl_total_delay a) last_delay,
       cl_heartbeat_times := cl_heartbeat_times a + 1\<rparr>)))"

section \<open>Responses\<close>

definition cmd_is :: "string \<Rightarrow> int \<Rightarrow> bool" where
  "cmd_is name command \<longleftrightarrow> get_command name = Inr command"

definition print_line :: "console_line \<Rightarrow> ('c cl_world, unit) exec" where
  "print_line l = on_app (modify (\<lambda>a. a\<lparr>cl_output := cl_output a @ [l]\<rparr>))"

definition parsed :: "'c client_env \<Rightarrow> string \<Rightarrow> 'c package \<Rightarrow> (message \<Rightarrow> 'm option) \<Rightarrow> ('c cl_world, 'm) exec" where
  "parsed E name package members = getsE (\<lambda>_. parse_to_protocol (ce_codec E) name
     (\<lambda>m. case members m of None \<Rightarrow> Inl Undefined | Some x \<Rightarrow> Inr x) package)"

text \<open>A sub-message that is not set reads as its default instance.\<close>

definition default_user :: proto_user where
  "default_user = \<lparr>pu_user_id = 0, pu_user_name = [], pu_group_list = []\<rparr>"

definition default_group :: proto_group where
  "default_group = \<lparr>pg_group_id = 0, pg_group_name = [], pg_owner_id = 0, pg_root_dir_id = 0, pg_manager_list = [], pg_member_list = []\<rparr>"

definition of_default :: "'a \<Rightarrow> 'a option \<Rightarrow> 'a" where
  "of_default d x = (case x of None \<Rightarrow> d | Some a \<Rightarrow> a)"

definition on_put_response :: "int \<Rightarrow> ('c cl_world, unit) exec" where
  "on_put_response fragment_index =
     bindE (gets (\<lambda>w. (cl_put (w_app w), w_now w))) (\<lambda>(session, now).
     if fragment_index + 1 \<ge> tf_max_fragment session
     then print_line (Put_finish_line (tf_remote_path session) (pt_sub now (tf_start_time session)))
     else ret ())"

definition on_get_response :: "'c client_env \<Rightarrow> int \<Rightarrow> bytes \<Rightarrow> ('c cl_world, unit) exec" where
  "on_get_response E fragment_index content =
     bindE (gets (\<lambda>w. (cl_get (w_app w), w_now w))) (\<lambda>(session, now).
     bindE (if ce_openable E (tf_local_path session) then ret () else fail Open_file_error) (\<lambda>_.
     bindE (getsE (\<lambda>_. int_mult fragment_index MAX_FRAGMENT_CONTENT_LEN)) (\<lambda>offset.
     bindE (append_file E (tf_local_path session) content) (\<lambda>_.
     if fragment_index + 1 < tf_max_fragment session then set_next_fragment E (fragment_index + 1)
     else print_line (Get_finish_line (tf_remote_path session) (pt_sub now (tf_start_time session)))))))"

definition handle_response :: "'c client_env \<Rightarrow> int \<Rightarrow> 'c package \<Rightarrow> ('c cl_world, unit) exec" where
  "handle_response E command package =
     (if cmd_is ''RspRegisterUser'' command then
        bindE (parsed E ''RspRegisterUser'' package (\<lambda>m. case m of RspRegisterUser e u \<Rightarrow> Some (of_default default_user u) | _ \<Rightarrow> None))
          (\<lambda>user. print_line (User_id_line (pu_user_id user)))
      else if cmd_is ''RspLoginUser'' command then start_heartbeat
      else if cmd_is ''RspFindUser'' command then
        bindE (parsed E ''RspFindUser'' package (\<lambda>m. case m of RspFindUser e u \<Rightarrow> Some (of_default default_user u) | _ \<Rightarrow> None))
          (\<lambda>user. print_line (User_line (pu_user_id user) (pu_user_name user)))
      else if cmd_is ''RspRegisterGroup'' command then
        bindE (parsed E ''RspRegisterGroup'' package (\<lambda>m. case m of RspRegisterGroup e g \<Rightarrow> Some g | _ \<Rightarrow> None))
          (\<lambda>group_id. print_line (Group_id_line group_id))
      else if cmd_is ''RspFindGroup'' command then
        bindE (parsed E ''RspFindGroup'' package (\<lambda>m. case m of RspFindGroup e g \<Rightarrow> Some (of_default default_group g) | _ \<Rightarrow> None))
          (\<lambda>g. print_line (Group_line (pg_group_id g) (pg_group_name g) (pg_owner_id g) (pg_manager_list g) (pg_member_list g)))
      else if cmd_is ''RspListFile'' command then
        bindE (parsed E ''RspListFile'' package (\<lambda>m. case m of RspListFile e fs \<Rightarrow> Some fs | _ \<Rightarrow> None)) (\<lambda>fs.
        on_app (modify (\<lambda>a. a\<lparr>cl_output := cl_output a @ map (\<lambda>f. File_line (pf_filename f) (pf_type f)) fs @ [Empty_line]\<rparr>)))
      else if cmd_is ''RspPutFileSession'' command then
        bindE (parsed E ''RspPutFileSession'' package (\<lambda>m. case m of RspPutFileSession e s n \<Rightarrow> Some (s, n) | _ \<Rightarrow> None))
          (\<lambda>(session_id, next_fragment).
        bindE (update_put_session (\<lambda>t. t\<lparr>tf_session_id := session_id\<rparr>)) (\<lambda>_. start_put_file E next_fragment))
      else if cmd_is ''RspPutFile'' command then
        bindE (parsed E ''RspPutFile'' package (\<lambda>m. case m of RspPutFile e s i \<Rightarrow> Some i | _ \<Rightarrow> None))
          on_put_response
      else if cmd_is ''RspGetFileSession'' command then
        bindE (parsed E ''RspGetFileSession'' package (\<lambda>m. case m of RspGetFileSession e s n \<Rightarrow> Some (s, n) | _ \<Rightarrow> None))
          (\<lambda>(session_id, max_fragment).
        bindE (update_get_session (\<lambda>t. t\<lparr>tf_session_id := session_id, tf_max_fragment := max_fragment\<rparr>)) (\<lambda>_. start_get_file E))
      else if cmd_is ''RspGetFile'' command then
        bindE (parsed E ''RspGetFile'' package (\<lambda>m. case m of RspGetFile e s i c \<Rightarrow> Some (i, c) | _ \<Rightarrow> None))
          (\<lambda>(fragment_index, content). on_get_response E fragment_index content)
      else if cmd_is ''RspPing'' command then
        bindE (parsed E ''RspPing'' package (\<lambda>m. case m of RspPing e s u \<Rightarrow> Some (e, s, u) | _ \<Rightarrow> None)) (\<lambda>(error, second, microsecond).
        if error \<noteq> None then stop_heartbeat else on_receive_response second microsecond)
      else ret ())"

text \<open>Every response is first read as an \<open>RspError\<close>, which shares its first field.\<close>

definition read_handler :: "'c client_env \<Rightarrow> int \<Rightarrow> 'c package \<Rightarrow> ('c cl_world, unit) exec" where
  "read_handler E conn_id package =
     (let command = h_command (p_header package) in
      bindE (parsed E ''RspError'' package (\<lambda>m. case m of RspError e \<Rightarrow> Some e | _ \<Rightarrow> None)) (\<lambda>error. case error of
        None \<Rightarrow> handle_response E command package
      | Some (category, code) \<Rightarrow>
          bindE (print_line (Failure_line category code command)) (\<lambda>_.
          if cmd_is ''RspPing'' command then handle_response E command package else ret ())))"

section \<open>The program\<close>

fun register_responses :: "string list \<Rightarrow> ((int, client_fun transaction) omap, unit) exec" where
  "register_responses [] = ret ()"
| "register_responses (n # ns) = bindE (register_one_phase_transaction n Read_handler) (\<lambda>_. register_responses ns)"

definition client_responses :: "string list" where
  "client_responses = [''RspPing'', ''RspRegisterUser'', ''RspLoginUser'', ''RspRemoveUser'', ''RspFindUser'',
     ''RspRegisterGroup'', ''RspRemoveGroup'', ''RspFindGroup'', ''RspJoinGroup'', ''RspAssignAsManager'',
     ''RspAssignAsMember'', ''RspKickOutUser'', ''RspListFile'', ''RspPutFileSession'', ''RspPutFile'',
     ''RspGetFileSession'', ''RspGetFile'', ''RspCreatePath'', ''RspRemovePath'']"

definition client_program :: "'c client_env \<Rightarrow> ('c, client_fun, unit, client) program" where
  "client_program E = \<lparr>pr_codec = ce_codec E, pr_alloc = ce_alloc E,
     pr_handler = (\<lambda>f conn p. case f of Read_handler \<Rightarrow> read_handler E conn p | Send_ping \<Rightarrow> fail Undefined),
     pr_factory = (\<lambda>_. ()), pr_on_init = (\<lambda>k conn p. fail Undefined), pr_callback = (\<lambda>f k conn p. fail Undefined),
     pr_on_error = (\<lambda>k conn e. multi_on_error (ce_codec E) (ce_alloc E) k e),
     pr_call = (\<lambda>f. case f of Send_ping \<Rightarrow> send_ping E | Read_handler \<Rightarrow> fail Undefined)\<rparr>"

definition cl_register_connection :: "'c client_env \<Rightarrow> string \<Rightarrow> 16 word \<Rightarrow> ('c cl_world, int) exec" where
  "cl_register_connection E host port =
     bindE (on_app (zoom cl_conns (\<lambda>x a. a\<lparr>cl_conns := x\<rparr>) (net_register_connection (ce_reach E) host port))) (\<lambda>conn_id.
     bindE (on_app (modify (\<lambda>a. a\<lparr>cl_conn_list := cl_conn_list a @ [conn_id]\<rparr>))) (\<lambda>_. ret conn_id))"

definition client_begin :: "'c client_env \<Rightarrow> ('c cl_world, unit) exec" where
  "client_begin E =
     bindE (zoom w_trans_list (\<lambda>x w. w\<lparr>w_trans_list := x\<rparr>) (register_responses client_responses)) (\<lambda>_.
     bindE (cl_register_connection E ''127.0.0.1'' 10240) (\<lambda>conn_id.
     bindE (on_app (modify (\<lambda>a. a\<lparr>cl_conn_id := conn_id\<rparr>))) (\<lambda>_.
     cl_login_user E 1 ''pwd'')))"

lemma on_app_modify [simp]:
  "on_app (modify f) w = (Inr (), w\<lparr>w_app := f (w_app w)\<rparr>)" "bindE (on_app (modify f)) g w = g () (w\<lparr>w_app := f (w_app w)\<rparr>)"
  by (simp_all add: bindE_def zoom_def)

lemma session_writes [simp]:
  "update_put_session f w = (Inr (), w\<lparr>w_app := (w_app w)\<lparr>cl_put := f (cl_put (w_app w))\<rparr>\<rparr>)"
  "bindE (update_put_session f) g w = g () (w\<lparr>w_app := (w_app w)\<lparr>cl_put := f (cl_put (w_app w))\<rparr>\<rparr>)"
  "update_get_session f w = (Inr (), w\<lparr>w_app := (w_app w)\<lparr>cl_get := f (cl_get (w_app w))\<rparr>\<rparr>)"
  "bindE (update_get_session f) g w = g () (w\<lparr>w_app := (w_app w)\<lparr>cl_get := f (cl_get (w_app w))\<rparr>\<rparr>)"
  "print_line l w = (Inr (), w\<lparr>w_app := (w_app w)\<lparr>cl_output := cl_output (w_app w) @ [l]\<rparr>\<rparr>)"
  "bindE (print_line l) g w = g () (w\<lparr>w_app := (w_app w)\<lparr>cl_output := cl_output (w_app w) @ [l]\<rparr>\<rparr>)"
  by (simp_all add: update_put_session_def update_get_session_def print_line_def)

end
