(* ===== verification/Client_Transfers.thy ===== *)
theory Client_Transfers
  imports Client
begin

text \<open>
  What the client's transfers achieve: the fragments that an upload sends make up the file on a
  storage node, and a download that was interrupted goes on where it stopped.
\<close>

section \<open>The messages on their way\<close>

text \<open>The messages that the network thread has still to send, each with its connection.\<close>

definition sent_message :: "'c client_env \<Rightarrow> 'c package_manager \<Rightarrow> client_fun actor_message \<Rightarrow> (int \<times> message option) option" where
  "sent_message E pm q = (case q of
     NETWORK_TYPE n \<Rightarrow> Some (nm_conn_id n, case find_package pm (nm_package_id n) of
         None \<Rightarrow> None
       | Some p \<Rightarrow> (case get_name (h_command (p_header p)) of
           Inl e \<Rightarrow> None
         | Inr name \<Rightarrow> (case parse_to_protocol (ce_codec E) name Inr p of Inl e \<Rightarrow> None | Inr m \<Rightarrow> Some m)))
   | DELEGATE_TYPE caller f \<Rightarrow> None)"

definition mail :: "'c client_env \<Rightarrow> 'c cl_world \<Rightarrow> (int \<times> message option) list" where
  "mail E w = List.map_filter (sent_message E (w_packages w)) (queue_of OUT_QUEUE (w_queues w))"

text \<open>Queued packages were registered before: their ids are not used again.\<close>

definition mail_ok :: "'c cl_world \<Rightarrow> bool" where
  "mail_ok w \<longleftrightarrow> world_inv w \<and>
     (\<forall>n. NETWORK_TYPE n \<in> set (queue_of OUT_QUEUE (w_queues w)) \<longrightarrow> nm_package_id n < pm_next_id (w_packages w))"

text \<open>
  What protobuf and the memory do for the client: messages come back as they were, a response
  reads as an \<open>RspError\<close> with its own error, and a fragment fits a package.
\<close>

fun error_of :: "message \<Rightarrow> error_info option" where
  "error_of (RspError e) = e" | "error_of (RspPing e _ _) = e" | "error_of (RspRegisterUser e _) = e"
| "error_of (RspLoginUser e) = e" | "error_of (RspRemoveUser e) = e" | "error_of (RspFindUser e _) = e"
| "error_of (RspRegisterGroup e _) = e" | "error_of (RspFindGroup e _) = e" | "error_of (RspJoinGroup e) = e"
| "error_of (RspAssignAsManager e) = e" | "error_of (RspAssignAsMember e) = e" | "error_of (RspKickOutUser e) = e"
| "error_of (RspListFile e _) = e" | "error_of (RspPutFileSession e _ _) = e" | "error_of (RspNodePutFileSession e _) = e"
| "error_of (RspPutFile e _ _) = e" | "error_of (RspGetFileSession e _ _) = e" | "error_of (RspNodeGetFileSession e _ _) = e"
| "error_of (RspGetFile e _ _ _) = e" | "error_of (RspCreatePath e) = e" | "error_of (RspRemovePath e) = e"
| "error_of _ = None"

definition is_response :: "message \<Rightarrow> bool" where
  "is_response m \<longleftrightarrow> take 3 (msg_name m) = ''Rsp''"

definition small_request :: "message \<Rightarrow> bool" where
  "small_request m \<longleftrightarrow> (case m of ReqPutFile k i c \<Rightarrow> length c \<le> 50000 | ReqGetFile k i \<Rightarrow> True | ReqPutFileSession g p n \<Rightarrow> length p \<le> 1000
     | ReqGetFileSession g p \<Rightarrow> length p \<le> 1000 | _ \<Rightarrow> False)"

definition client_env_ok :: "'c client_env \<Rightarrow> bool" where
  "client_env_ok E \<longleftrightarrow> codec_ok (ce_codec E) \<and> sizes_ok (ce_codec E) \<and> (\<forall>n. ce_alloc E n) \<and>
     (\<forall>m. small_request m \<longrightarrow> to_content (ce_codec E) m \<noteq> None \<and> size_of (ce_codec E) m \<le> 65518) \<and>
     (\<forall>m c. is_response m \<and> to_content (ce_codec E) m = Some c \<longrightarrow>
        of_content (ce_codec E) ''RspError'' c = Some (RspError (error_of m)))"

lemma small_command:
  assumes "small_request m"
  shows "\<exists>c. send_command m 0 = Inr c \<and> get_name c = Inr (msg_name m)"
  using assms
  by (cases m) (simp_all add: small_request_def send_command_def send_name_def get_command_def get_name_def
      find_command_iff [THEN iffD2] find_name_iff [THEN iffD2] default_command_name_map_def)

lemma map_filter_append: "List.map_filter f (xs @ ys) = List.map_filter f xs @ List.map_filter f ys"
  by (simp add: map_filter_def)

lemma map_filter_cong': "(\<And>x. x \<in> set xs \<Longrightarrow> f x = g x) \<Longrightarrow> List.map_filter f xs = List.map_filter g xs"
  by (induction xs) (simp_all add: map_filter_simps split: option.split)

lemma request_sent:
  assumes env: "client_env_ok E" and ok: "mail_ok w" and small: "small_request m"
  shows "\<exists>w'. cl_send E m w = (Inr (), w') \<and> mail_ok w' \<and> mail E w' = mail E w @ [(cl_conn_id (w_app w), Some m)] \<and>
    w_app w' = w_app w \<and> w_timers w' = w_timers w \<and> w_now w' = w_now w"
proof -
  let ?C = "ce_codec E" and ?pm = "w_packages w" and ?conn = "cl_conn_id (w_app w)"
  obtain content where content: "to_content ?C m = Some content" and size: "size_of ?C m \<le> 65518"
    using env small by (fastforce simp: client_env_ok_def)
  have codec: "codec_ok ?C" and sizes: "size_ok ?C m" and alloc: "\<And>n. ce_alloc E n"
    using env by (auto simp: client_env_ok_def sizes_ok_def)
  have world: "world_inv w" and pm: "pm_inv ?pm" using ok by (auto simp: mail_ok_def world_inv_def)
  obtain c where c: "send_command m 0 = Inr c" "get_name c = Inr (msg_name m)" using small_command [OF small] by blast
  define p where "p = outgoing (pm_next_id ?pm) (size_of ?C m) c 0 content"
  define w' where "w' = sent ?conn 0 p 0 w"
  have run: "cl_send E m w = (Inr (), w')"
    unfolding cl_send_def bindE_gets w'_def p_def by (rule send_protocol_sent [OF world sizes size alloc c(1) content])
  have p: "p_id p = pm_next_id ?pm" "h_command (p_header p) = c" "p_content p = Some content"
    by (simp_all add: p_def outgoing_def new_package_def)
  have fields: "w_app w' = w_app w" "w_timers w' = w_timers w" "w_now w' = w_now w" "w_packages w' = ?pm\<lparr>pm_next_id := pm_next_id ?pm + 1,
      m_package_list := om_insert (pm_next_id ?pm) p (m_package_list ?pm)\<rparr>"
    "queue_of OUT_QUEUE (w_queues w') = queue_of OUT_QUEUE (w_queues w) @
      [NETWORK_TYPE \<lparr>nm_conn_id = ?conn, nm_service_id = 0, nm_package_id = pm_next_id ?pm\<rparr>]"
    by (simp_all add: w'_def sent_def queue_push_def)
  note found = sent_packages [OF pm p(1) fields(4)]
  have "infra_step 0 w w'" unfolding w'_def by (rule infra_step_sent [OF world p(1)])
  then have "mail_ok w'" unfolding mail_ok_def fields(5) using ok by (auto simp: mail_ok_def fields(4) infra_step_inv)
  have "sent_message E (w_packages w') q = sent_message E ?pm q" if "q \<in> set (queue_of OUT_QUEUE (w_queues w))" for q
    using ok that by (cases q) (auto simp: sent_message_def found(2) mail_ok_def)
  then have old: "List.map_filter (sent_message E (w_packages w')) (queue_of OUT_QUEUE (w_queues w)) = mail E w"
    unfolding mail_def by (rule map_filter_cong')
  have new: "sent_message E (w_packages w') (NETWORK_TYPE \<lparr>nm_conn_id = ?conn, nm_service_id = 0, nm_package_id = pm_next_id ?pm\<rparr>) =
      Some (?conn, Some m)"
    using codec content by (simp add: sent_message_def found(2) p c parse_to_protocol_def codec_ok_def)
  have "mail E w' = mail E w @ [(?conn, Some m)]"
    unfolding mail_def [of E w'] fields(5) map_filter_append old by (simp add: map_filter_simps new)
  with run \<open>mail_ok w'\<close> fields show ?thesis by blast
qed

section \<open>Uploads\<close>

definition put_messages :: "client \<Rightarrow> bytes \<Rightarrow> nat \<Rightarrow> nat \<Rightarrow> (int \<times> message option) list" where
  "put_messages a c i n = map (\<lambda>j. (cl_conn_id a, Some (ReqPutFile (tf_session_id (cl_put a)) (int j) (frag c j)))) [i ..< i + n]"

lemma mail_ok_app: "mail_ok (w\<lparr>w_app := a\<rparr>) = mail_ok w" "mail E (w\<lparr>w_app := a\<rparr>) = mail E w"
  by (simp_all add: mail_ok_def world_inv_def mail_def)

lemma offset_run:
  assumes "i * 50000 < 2 ^ 31"
  shows "int_mult (int i) MAX_FRAGMENT_CONTENT_LEN = Inr (int (i * 50000))"
  using assms by (simp add: int_mult_def MAX_FRAGMENT_CONTENT_LEN_def)

lemma put_fragments_run:
  assumes env: "client_env_ok E"
  shows "mail_ok w \<Longrightarrow> (i + n) * 50000 \<le> 2 ^ 31 \<Longrightarrow> \<exists>w' st. put_fragments E c pos (int i) n w = (Inr (), w') \<and>
    mail_ok w' \<and> mail E w' = mail E w @ put_messages (w_app w) c i n \<and>
    w_app w' = (w_app w)\<lparr>cl_put := (cl_put (w_app w))\<lparr>tf_fragment_state := st\<rparr>\<rparr> \<and> w_timers w' = w_timers w \<and> w_now w' = w_now w"
proof (induction n arbitrary: i pos w)
  case 0
  then show ?case by (intro exI [of _ w] exI [of _ "tf_fragment_state (cl_put (w_app w))"]) (simp add: put_messages_def)
next
  case (Suc n)
  let ?a = "w_app w" and ?pos = "i * 50000"
  have off: "int_mult (int i) MAX_FRAGMENT_CONTENT_LEN = Inr (int ?pos)" using Suc.prems(2) by (intro offset_run) simp
  have pos: "nat (int i * 50000) = ?pos" by simp
  have cut: "take (nat MAX_FRAGMENT_CONTENT_LEN) (drop ?pos c) = frag c i" by (simp add: frag_def MAX_FRAGMENT_CONTENT_LEN_def)
  have "small_request (ReqPutFile (tf_session_id (cl_put ?a)) (int i) (frag c i))" by (simp add: small_request_def frag_def)
  from request_sent [OF env Suc.prems(1) this] obtain w1
    where send: "cl_send E (ReqPutFile (tf_session_id (cl_put ?a)) (int i) (frag c i)) w = (Inr (), w1)"
      and w1: "mail_ok w1" "mail E w1 = mail E w @ [(cl_conn_id ?a, Some (ReqPutFile (tf_session_id (cl_put ?a)) (int i) (frag c i)))]"
        "w_app w1 = ?a" "w_timers w1 = w_timers w" "w_now w1 = w_now w" by blast
  define w2 where "w2 = w1\<lparr>w_app := ?a\<lparr>cl_put := (cl_put ?a)\<lparr>tf_fragment_state := om_put (int i) True (tf_fragment_state (cl_put ?a))\<rparr>\<rparr>\<rparr>"
  have step: "put_fragments E c pos (int i) (Suc n) w = put_fragments E c (?pos + length (frag c i)) (int (Suc i)) n w2"
    by (simp add: bindE_getsE off pos cut Let_def bindE_def [of "cl_send _ _"] send w1 w2_def add.commute)
  have "mail_ok w2" "mail E w2 = mail E w1" "w_timers w2 = w_timers w" "w_now w2 = w_now w"
    using w1 by (simp_all add: w2_def mail_ok_app)
  moreover have "put_messages (w_app w2) c (Suc i) n = put_messages ?a c (Suc i) n" by (simp add: w2_def put_messages_def)
  moreover have "put_messages ?a c i (Suc n) =
      (cl_conn_id ?a, Some (ReqPutFile (tf_session_id (cl_put ?a)) (int i) (frag c i))) # put_messages ?a c (Suc i) n"
    by (simp add: put_messages_def upt_conv_Cons del: upt_Suc)
  ultimately show ?case
    using Suc.IH [of w2 "Suc i" "?pos + length (frag c i)"] Suc.prems(2) w1(2)
    by (fastforce simp: step w2_def simp del: put_fragments.simps)
qed

text \<open>A package with a response in it.\<close>

definition response_package :: "'c client_env \<Rightarrow> message \<Rightarrow> 'c package \<Rightarrow> bool" where
  "response_package E m p \<longleftrightarrow> (\<exists>content. p_content p = Some content \<and> to_content (ce_codec E) m = Some content \<and>
     message_command m = Inr (h_command (p_header p)) \<and> is_response m)"

lemma parsed_response:
  assumes "client_env_ok E" and "response_package E m p"
  shows "parsed E (msg_name m) p members = getsE (\<lambda>_. case members m of None \<Rightarrow> Inl Undefined | Some x \<Rightarrow> Inr x)"
    and "parsed E ''RspError'' p members = getsE (\<lambda>_. case members (RspError (error_of m)) of None \<Rightarrow> Inl Undefined | Some x \<Rightarrow> Inr x)"
  using assms by (auto simp: parsed_def response_package_def client_env_ok_def codec_ok_def parse_to_protocol_def)

lemma cmd_is_eval:
  assumes "message_command m = Inr c"
  shows "cmd_is n c \<longleftrightarrow> n = msg_name m"
proof -
  have m: "find_command (msg_name m) = Some c" using assms by (simp add: message_command_def get_command_def split: option.splits)
  have "n = msg_name m" if "find_command n = Some c"
    using m that by (metis find_command_iff find_name_iff option.inject)
  with m show ?thesis by (auto simp: cmd_is_def get_command_def split: option.splits)
qed

lemma response_handled:
  assumes env: "client_env_ok E" and p: "response_package E m p" and good: "error_of m = None"
  shows "read_handler E conn p = handle_response E (h_command (p_header p)) p"
    and "cmd_is n (h_command (p_header p)) \<longleftrightarrow> n = msg_name m"
proof -
  show "read_handler E conn p = handle_response E (h_command (p_header p)) p"
    by (rule ext) (simp add: read_handler_def Let_def parsed_response(2) [OF env p] good bindE_getsE)
  show "cmd_is n (h_command (p_header p)) \<longleftrightarrow> n = msg_name m" using p by (auto simp: response_package_def cmd_is_eval)
qed

lemma concat_frags: "concat (map (frag c) [0 ..< n]) = take (n * 50000) c"
proof (induction n)
  case (Suc n)
  have "take (n * 50000 + 50000) c = take (n * 50000) c @ frag c n" by (simp only: take_add frag_def)
  with Suc show ?case by (simp add: add.commute)
qed simp

lemma frags_of_file:
  assumes "c \<noteq> []" and n: "n = (length c + 49999) div 50000"
  shows "concat (map (frag c) [0 ..< n]) = c" "map (frag c) [0 ..< n] \<noteq> []"
    "\<forall>f \<in> set (butlast (map (frag c) [0 ..< n])). length f = 50000"
proof -
  have pos: "0 < length c" using assms(1) by simp
  have bounds: "length c \<le> n * 50000" "(n - 1) * 50000 < length c" "0 < n" 
  proof -
    have "n * 50000 + (length c + 49999) mod 50000 = length c + 49999" unfolding n by (rule div_mult_mod_eq)
    moreover have "(length c + 49999) mod 50000 < 50000" by simp
    ultimately have "length c \<le> n * 50000" and lt: "n * 50000 < length c + 50000" by linarith+
    then show "length c \<le> n * 50000" "0 < n" using pos by (cases n; simp)+
    then show "(n - 1) * 50000 < length c" using lt by (cases n) simp_all
  qed
  then show "concat (map (frag c) [0 ..< n]) = c" "map (frag c) [0 ..< n] \<noteq> []" by (simp_all add: concat_frags)
  obtain k where k: "n = Suc k" using bounds(3) by (cases n) auto
  then have "butlast (map (frag c) [0 ..< n]) = map (frag c) [0 ..< k]" by simp
  moreover have "length (frag c j) = 50000" if "j < k" for j
  proof -
    have "j * 50000 + 50000 \<le> k * 50000" using that by simp
    then show ?thesis using bounds(2) by (simp add: frag_def k)
  qed
  ultimately show "\<forall>f \<in> set (butlast (map (frag c) [0 ..< n])). length f = 50000" by simp
qed

text \<open>The contents of the fragments among some messages.\<close>

definition fragments :: "(int \<times> message option) list \<Rightarrow> bytes list" where
  "fragments ms = List.map_filter (\<lambda>(conn, m). case m of Some (ReqPutFile k i f) \<Rightarrow> Some f | _ \<Rightarrow> None) ms"

lemma start_put_run:
  assumes env: "client_env_ok E" and ok: "mail_ok w" and p: "response_package E (RspPutFileSession None sid next) p"
    and disk: "cl_disk (w_app w) (tf_local_path (cl_put (w_app w))) = Some c"
    and range: "0 \<le> next" "next \<le> tf_max_fragment (cl_put (w_app w))" "tf_max_fragment (cl_put (w_app w)) * 50000 \<le> 2 ^ 31"
  shows "\<exists>w'. read_handler E k p w = (Inr (), w') \<and> mail_ok w' \<and> mail E w' = mail E w @
    map (\<lambda>j. (cl_conn_id (w_app w), Some (ReqPutFile sid (int j) (frag c j)))) [nat next ..< nat (tf_max_fragment (cl_put (w_app w)))]"
proof -
  let ?a = "(w_app w)\<lparr>cl_put := (cl_put (w_app w))\<lparr>tf_session_id := sid\<rparr>\<rparr>" and ?n = "tf_max_fragment (cl_put (w_app w))"
  define w1 where "w1 = w\<lparr>w_app := ?a\<rparr>"
  have good: "error_of (RspPutFileSession None sid next) = None" by simp
  note name = response_handled(2) [OF env p good] and fields = parsed_response(1) [OF env p, simplified]
  have "read_handler E k p w = start_put_file E next w1"
    by (simp add: response_handled(1) [OF env p good] handle_response_def name fields bindE_getsE w1_def)
  also have "\<dots> = put_fragments E c 0 (int (nat next)) (nat (?n - next)) w1"
    using disk range(1) by (simp add: start_put_file_def open_read_def bindE_getsE w1_def)
  finally have run: "read_handler E k p w = put_fragments E c 0 (int (nat next)) (nat (?n - next)) w1" .
  have ok1: "mail_ok w1" "mail E w1 = mail E w" using ok by (simp_all add: w1_def mail_ok_app)
  have "(nat next + nat (?n - next)) * 50000 \<le> 2 ^ 31" using range by (simp add: nat_diff_distrib)
  from put_fragments_run [OF env ok1(1) this, of c 0] run ok1(2) range show ?thesis
    by (auto simp: put_messages_def w1_def nat_diff_distrib)
qed

text \<open>
  C13. An upload stores the file, if the file is not empty and below 16 MB: above, the number of
  fragments can be wrong, and for an empty file nothing is sent. \<open>put_file\<close> asks for a session
  with as many fragments as the file has; when the answer comes, the client sends exactly those
  fragments, under the session it got, in order - and a storage node that stores them in this
  order, in a session of its own, ends with the client's file, if it has no bytes in a file of
  that name from before: it would keep what is longer. The session is granted from the first
  fragment on.
\<close>

theorem upload_stores_file:
  assumes env: "client_env_ok E" and ok: "mail_ok w" "mail E w = []" and local: "cl_disk (w_app w) local_path = Some c" "c \<noteq> []" "length c < 2 ^ 24"
    and path: "length remote_path \<le> 1000" and p: "response_package E (RspPutFileSession None sid 0) p"
    and node: "sn_inv s" "sn_find_session_at s name = None" "m_file_cache s (get_absolute_path s name) \<noteq> None \<or> openable (get_absolute_path s name)"
      "opened s (get_absolute_path s name) = []" and n: "n = (length c + 49999) div 50000"
  shows "\<exists>w1 w2 x s1 s2. cl_put_file E g local_path remote_path w = (Inr (), w1) \<and>
    mail E w1 = [(cl_conn_id (w_app w), Some (ReqPutFileSession g remote_path (int n)))] \<and>
    read_handler E k p w1 = (Inr (), w2) \<and>
    mail E w2 = mail E w1 @ map (\<lambda>j. (cl_conn_id (w_app w), Some (ReqPutFile sid (int j) (frag c j)))) [0 ..< n] \<and>
    open_put_session name (int n) s = (Inr x, s1) \<and>
    store_all openable (fs_session_id x) 0 (fragments (mail E w2)) s1 = (Inr (), s2) \<and>
    file_content s2 (get_absolute_path s name) = c"
proof -
  let ?a = "w_app w" and ?conn = "cl_conn_id (w_app w)"
  define a1 where "a1 = ?a\<lparr>cl_put := (cl_put ?a)\<lparr>tf_local_path := local_path, tf_group_id := g, tf_remote_path := remote_path,
    tf_start_time := w_now w, tf_max_fragment := int n\<rparr>\<rparr>"
  have count: "fragment_count (length c) MAX_FRAGMENT_CONTENT_LEN = Inr (int n)" using fragment_count_exact [OF local(3)] n by simp
  have put: "cl_put_file E g local_path remote_path w = cl_send E (ReqPutFileSession g remote_path (int n)) (w\<lparr>w_app := a1\<rparr>)"
    using local(1) count by (simp add: cl_put_file_def open_read_def bindE_getsE a1_def)
  have "small_request (ReqPutFileSession g remote_path (int n))" using path by (simp add: small_request_def)
  from request_sent [OF env _ this, of "w\<lparr>w_app := a1\<rparr>"] ok obtain w1 where w1: "cl_put_file E g local_path remote_path w = (Inr (), w1)"
    "mail_ok w1" "mail E w1 = [(?conn, Some (ReqPutFileSession g remote_path (int n)))]" "w_app w1 = a1"
    by (auto simp: put mail_ok_app a1_def)
  have small: "n * 50000 \<le> 2 ^ 31" using local(3) unfolding n by simp
  have "\<exists>w2. read_handler E k p w1 = (Inr (), w2) \<and> mail_ok w2 \<and> mail E w2 = mail E w1 @
      map (\<lambda>j. (cl_conn_id (w_app w1), Some (ReqPutFile sid (int j) (frag c j)))) [nat 0 ..< nat (tf_max_fragment (cl_put (w_app w1)))]"
    by (rule start_put_run [OF env w1(2) p]) (use local(1) small in \<open>simp_all add: w1(4) a1_def\<close>)
  then obtain w2 where w2: "read_handler E k p w1 = (Inr (), w2)"
    "mail E w2 = mail E w1 @ map (\<lambda>j. (?conn, Some (ReqPutFile sid (int j) (frag c j)))) [0 ..< n]"
    by (auto simp: w1(4) a1_def)
  have "List.map_filter (\<lambda>(conn, m). case m of Some (ReqPutFile k i f) \<Rightarrow> Some f | _ \<Rightarrow> None)
      (map (\<lambda>j. (?conn, Some (ReqPutFile sid (int j) (frag c j)))) js) = map (frag c) js" for js
    by (induction js) (simp_all add: map_filter_simps)
  then have frags: "fragments (mail E w2) = map (frag c) [0 ..< n]"
    by (simp add: fragments_def w2(2) w1(3) map_filter_simps)
  have sized: "int (length (map (frag c) [0 ..< n])) * 50000 \<le> 2 ^ 31" using small by simp
  show ?thesis
  proof (rule upload_run [where openable = openable, OF node(1,2) refl node(3) frags_of_file(2,3) [OF local(2) n] sized])
    fix x s1 s2
    assume up: "open_put_session name (int (length (map (frag c) [0 ..< n]))) s = (Inr x, s1)"
      "store_all openable (fs_session_id x) 0 (map (frag c) [0 ..< n]) s1 = (Inr (), s2)"
      and "file_content s2 (get_absolute_path s name) = concat (map (frag c) [0 ..< n]) @
        drop (length (concat (map (frag c) [0 ..< n]))) (opened s (get_absolute_path s name))"
    then have "file_content s2 (get_absolute_path s name) = c" by (simp only: frags_of_file(1) [OF local(2) n] node(4)) simp
    with w1 w2 frags up show ?thesis by auto
  qed
qed

text \<open>A codec that keeps messages as they are, but reads a response as an \<open>RspError\<close>, too.\<close>

definition plain_codec :: "message codec" where
  "plain_codec = \<lparr>to_content = Some, of_content = (\<lambda>n m. if msg_name m = n then Some m
       else if n = ''RspError'' \<and> is_response m then Some (RspError (error_of m)) else None), size_of = (\<lambda>_. 0)\<rparr>"

definition plain_client :: "message client_env" where
  "plain_client = \<lparr>ce_codec = plain_codec, ce_alloc = (\<lambda>_. True), ce_openable = (\<lambda>_. True), ce_reach = (\<lambda>_ _. True)\<rparr>"

lemma rsp_error_name: "msg_name m = ''RspError'' \<longleftrightarrow> m = RspError (error_of m)"
  by (cases m) simp_all

lemma plain_client_ok: "client_env_ok plain_client"
  using rsp_error_name
  by (auto simp: client_env_ok_def plain_client_def plain_codec_def codec_ok_def sizes_ok_def size_ok_def)

definition client_world :: "(string \<rightharpoonup> bytes) \<Rightarrow> message cl_world" where
  "client_world disk = empty_world ((new_client disk)\<lparr>cl_conn_id := 1\<rparr>)"

lemma client_world_mail: "mail_ok (client_world disk)" "mail E (client_world disk) = []"
  using world_inv_empty [of "(new_client disk)\<lparr>cl_conn_id := 1\<rparr>"]
  by (simp_all add: mail_ok_def client_world_def mail_def empty_world_def empty_queues_def map_filter_simps)

definition response :: "int \<Rightarrow> message \<Rightarrow> message package" where
  "response c m = (new_package 0 1)\<lparr>p_header := reset_header\<lparr>h_command := c\<rparr>, p_content := Some m\<rparr>"

lemma response_package_plain:
  "message_command m = Inr c \<Longrightarrow> is_response m \<Longrightarrow> response_package plain_client m (response c m)"
  by (simp add: response_package_def plain_client_def plain_codec_def response_def)

lemma message_command_eval: "(c, msg_name m) \<in> set default_command_name_map \<Longrightarrow> message_command m = Inr c"
  by (simp add: message_command_def get_command_def find_command_iff [THEN iffD2])

theorem upload_stores_file_witness:
  "\<exists>w2 s1 s2 x. mail plain_client w2 =
      [(1, Some (ReqPutFileSession 7 ''r'' 1)), (1, Some (ReqPutFile 4 0 [1, 2, 3]))] \<and>
    open_put_session ''a'' 1 (empty_storage Map.empty) = (Inr x, s1) \<and>
    store_all (\<lambda>_. True) (fs_session_id x) 0 (fragments (mail plain_client w2)) s1 = (Inr (), s2) \<and>
    file_content s2 ''/a'' = [1, 2, 3]"
proof -
  let ?w = "client_world [''l'' \<mapsto> [1, 2, 3]]" and ?s = "empty_storage Map.empty"
  have local: "cl_disk (w_app ?w) ''l'' = Some [1, 2, 3]" and conn: "cl_conn_id (w_app ?w) = 1"
    by (simp_all add: client_world_def empty_world_def new_client_def)
  have m: "message_command (RspPutFileSession None 4 0) = Inr 1028"
    by (rule message_command_eval) (simp add: default_command_name_map_def)
  have p: "response_package plain_client (RspPutFileSession None 4 0) (response 1028 (RspPutFileSession None 4 0))"
    by (rule response_package_plain [OF m]) (simp add: is_response_def)
  have path: "get_absolute_path ?s ''a'' = ''/a''" by (simp add: get_absolute_path_def empty_storage_def)
  have opened: "opened ?s (get_absolute_path ?s ''a'') = []" by (simp add: opened_def empty_storage_def)
  have frag: "frag [1, 2, 3] 0 = [1, 2, 3]" by (simp add: frag_def)
  show ?thesis
    using upload_stores_file [where w = ?w and E = plain_client and openable = "\<lambda>_. True" and g = 7 and k = 1 and remote_path = "''r''" and n = 1,
        OF plain_client_ok client_world_mail local _ _ _ p sn_inv_empty find_at_empty _ opened]
    by (auto simp: conn frag path)
qed

section \<open>Downloads\<close>

text \<open>
  A download of the fragments \<open>fs\<close> of which the first \<open>k\<close> have arrived: the local file holds
  them, and the notes behind its path say which one comes next - after the last they still name
  the last.
\<close>

definition progress :: "string \<Rightarrow> bytes list \<Rightarrow> nat \<Rightarrow> client \<Rightarrow> bool" where
  "progress path fs k a \<longleftrightarrow> tf_local_path (cl_get a) = path \<and>
     cl_disk a path = (if k = 0 then None else Some (concat (take k fs))) \<and>
     (let j = min k (length fs - 1) in cl_disk a (path @ META_FILE_PREFIX) =
        (if j = 0 then None else Some (bytes_of (number_lines [1 ..< Suc j]))))"

lemma meta_path [simp]: "META_FILE_PREFIX \<noteq> []" "path @ META_FILE_PREFIX \<noteq> path"
  by (simp_all add: META_FILE_PREFIX_def)

lemma chars_bytes [simp]: "chars_of (bytes_of cs) = cs"
proof -
  have "char_of (unat (word_of_nat (of_char c) :: byte)) = c" for c
  proof -
    have "(of_char c :: nat) < 256" by simp
    then have "unat (word_of_nat (of_char c) :: byte) = of_char c" by (simp add: unat_of_nat)
    then show ?thesis by simp
  qed
  then show ?thesis by (simp add: chars_of_def bytes_of_def comp_def)
qed

lemma noted_next:
  assumes "progress path fs k a" and "length fs \<noteq> 0" and "length fs < 2 ^ 31" and "k \<le> length fs"
  shows "get_next_fragment a = int (min k (length fs - 1))"
proof -
  let ?j = "min k (length fs - 1)"
  have "read_last \<lparr>is_rest = [] @ number_lines [1 ..< Suc ?j], is_fail = False\<rparr> 0 = (if [1 ..< Suc ?j] = [] then 0 else int (last [1 ..< Suc ?j]))"
    by (rule read_last_lines) (use assms(2-4) in auto)
  moreover have "last [1 ..< Suc j] = j" if "j \<noteq> 0" for j using that by simp
  ultimately show ?thesis using assms(1) by (auto simp: progress_def get_next_fragment_def Let_def)
qed

definition ask_messages :: "int \<Rightarrow> int \<Rightarrow> nat \<Rightarrow> nat \<Rightarrow> (int \<times> message option) list" where
  "ask_messages conn sid i n = map (\<lambda>j. (conn, Some (ReqGetFile sid (int j)))) [i ..< i + n]"

lemma ask_fragments_run:
  assumes env: "client_env_ok E"
  shows "mail_ok w \<Longrightarrow> \<exists>w'. ask_fragments E (int i) n w = (Inr (), w') \<and> mail_ok w' \<and> w_app w' = w_app w \<and>
    mail E w' = mail E w @ ask_messages (cl_conn_id (w_app w)) (tf_session_id (cl_get (w_app w))) i n"
proof (induction n arbitrary: i w)
  case 0
  then show ?case by (simp add: ask_messages_def)
next
  case (Suc n)
  let ?a = "w_app w" and ?m = "ReqGetFile (tf_session_id (cl_get (w_app w))) (int i)"
  have "small_request ?m" by (simp add: small_request_def)
  from request_sent [OF env Suc.prems this] obtain w1 where send: "cl_send E ?m w = (Inr (), w1)"
    and w1: "mail_ok w1" "mail E w1 = mail E w @ [(cl_conn_id ?a, Some ?m)]" "w_app w1 = ?a" by blast
  have "ask_fragments E (int i) (Suc n) w = ask_fragments E (int (Suc i)) n w1"
    by (simp add: bindE_def [of "cl_send _ _"] send add.commute)
  moreover have "ask_messages (cl_conn_id ?a) (tf_session_id (cl_get ?a)) i (Suc n) =
      (cl_conn_id ?a, Some ?m) # ask_messages (cl_conn_id ?a) (tf_session_id (cl_get ?a)) (Suc i) n"
    by (simp add: ask_messages_def upt_conv_Cons del: upt_Suc)
  ultimately show ?case using Suc.IH [OF w1(1), of "Suc i"] w1 by (fastforce simp del: ask_fragments.simps)
qed

text \<open>The answer to the request for a session.\<close>

lemma download_asked:
  assumes env: "client_env_ok E" and ok: "mail_ok w" and p: "response_package E (RspGetFileSession None sid (int (length fs))) p"
    and prog: "progress path fs k (w_app w)" and fs: "length fs \<noteq> 0" "length fs < 2 ^ 31" "k \<le> length fs"
  shows "\<exists>w'. read_handler E conn p w = (Inr (), w') \<and> mail_ok w' \<and> progress path fs k (w_app w') \<and>
    tf_max_fragment (cl_get (w_app w')) = int (length fs) \<and>
    mail E w' = mail E w @ map (\<lambda>j. (cl_conn_id (w_app w), Some (ReqGetFile sid (int j)))) [min k (length fs - 1) ..< length fs]"
proof -
  let ?n = "int (length fs)" and ?j = "min k (length fs - 1)"
  let ?a = "(w_app w)\<lparr>cl_get := (cl_get (w_app w))\<lparr>tf_session_id := sid, tf_max_fragment := ?n\<rparr>\<rparr>"
  define w1 where "w1 = w\<lparr>w_app := ?a\<rparr>"
  have good: "error_of (RspGetFileSession None sid ?n) = None" by simp
  note name = response_handled(2) [OF env p good] and fields = parsed_response(1) [OF env p, simplified]
  have prog1: "progress path fs k (w_app w1)" using prog by (simp add: w1_def progress_def Let_def)
  have "read_handler E conn p w = start_get_file E w1"
    by (simp add: response_handled(1) [OF env p good] handle_response_def name fields bindE_getsE w1_def)
  also have "\<dots> = ask_fragments E (int ?j) (length fs - ?j) w1"
  proof -
    have "nat (int (length fs) - int ?j) = length fs - ?j" by linarith
    then show ?thesis using noted_next [OF prog1 fs] by (simp add: start_get_file_def w1_def)
  qed
  finally have run: "read_handler E conn p w = ask_fragments E (int ?j) (length fs - ?j) w1" .
  have ok1: "mail_ok w1" "mail E w1 = mail E w" using ok by (simp_all add: w1_def mail_ok_app)
  have "?j \<le> length fs" by simp
  with ask_fragments_run [OF env ok1(1), of ?j "length fs - ?j"] run ok1(2) prog1 show ?thesis
    by (auto simp: ask_messages_def w1_def)
qed

text \<open>A fragment arrives.\<close>

lemma fragment_taken:
  assumes env: "client_env_ok E" and ok: "mail_ok w" and p: "response_package E (RspGetFile None sid (int i) bs) p"
    and disk: "tf_local_path (cl_get (w_app w)) = path" "ce_openable E path" "ce_openable E (path @ META_FILE_PREFIX)"
    and i: "i * 50000 < 2 ^ 31" and n: "tf_max_fragment (cl_get (w_app w)) = int n"
  shows "\<exists>w'. read_handler E conn p w = (Inr (), w') \<and> mail_ok w' \<and> mail E w' = mail E w \<and> cl_get (w_app w') = cl_get (w_app w) \<and>
    cl_disk (w_app w') path = Some ((case cl_disk (w_app w) path of None \<Rightarrow> [] | Some c \<Rightarrow> c) @ bs) \<and>
    cl_disk (w_app w') (path @ META_FILE_PREFIX) = (if i + 1 < n
      then Some ((case cl_disk (w_app w) (path @ META_FILE_PREFIX) of None \<Rightarrow> [] | Some c \<Rightarrow> c) @ bytes_of (number_lines [i + 1]))
      else cl_disk (w_app w) (path @ META_FILE_PREFIX))"
proof -
  let ?a = "w_app w"
  define w1 where "w1 = w\<lparr>w_app := ?a\<lparr>cl_disk := (cl_disk ?a)(path \<mapsto> (case cl_disk ?a path of None \<Rightarrow> [] | Some c \<Rightarrow> c) @ bs)\<rparr>\<rparr>"
  let ?l = "Get_finish_line (tf_remote_path (cl_get ?a)) (pt_sub (w_now w) (tf_start_time (cl_get ?a)))"
  have good: "error_of (RspGetFile None sid (int i) bs) = None" by simp
  note name = response_handled(2) [OF env p good] and fields = parsed_response(1) [OF env p, simplified]
  have "read_handler E conn p w = on_get_response E (int i) bs w"
    by (simp add: response_handled(1) [OF env p good] handle_response_def name fields bindE_getsE)
  also have "\<dots> = (if i + 1 < n then set_next_fragment E (int (i + 1)) w1 else print_line ?l w1)"
    using disk n by (simp add: on_get_response_def bindE_getsE offset_run [OF i] append_file_def w1_def add.commute)
  finally have run: "read_handler E conn p w = (if i + 1 < n then set_next_fragment E (int (i + 1)) w1 else print_line ?l w1)" .
  have ok1: "mail_ok w1" "mail E w1 = mail E w" "cl_get (w_app w1) = cl_get ?a" using ok by (simp_all add: w1_def mail_ok_app)
  have "number_lines [i + 1] = format_int (int (i + 1)) @ [CHR 0x0A]" by (simp add: number_lines_def format_int_def nat_add_distrib)
  with ok1 disk show ?thesis
    by (simp add: run set_next_fragment_def append_file_def mail_ok_app) (simp add: w1_def)
qed

lemma number_lines_snoc: "number_lines (ns @ [n]) = number_lines ns @ number_lines [n]"
  by (simp add: number_lines_def)

lemma bytes_of_append: "bytes_of (as @ bs) = bytes_of as @ bytes_of bs"
  by (simp add: bytes_of_def)

lemma next_fragment_taken:
  assumes env: "client_env_ok E" and ok: "mail_ok w" and p: "response_package E (RspGetFile None sid (int k) (fs ! k)) p"
    and openable: "ce_openable E path" "ce_openable E (path @ META_FILE_PREFIX)" and prog: "progress path fs k (w_app w)"
    and k: "k < length fs" "length fs * 50000 \<le> 2 ^ 31" and n: "tf_max_fragment (cl_get (w_app w)) = int (length fs)"
  shows "\<exists>w'. read_handler E conn p w = (Inr (), w') \<and> mail_ok w' \<and> mail E w' = mail E w \<and> progress path fs (Suc k) (w_app w') \<and>
    tf_max_fragment (cl_get (w_app w')) = int (length fs)"
proof -
  have path: "tf_local_path (cl_get (w_app w)) = path" using prog by (simp add: progress_def)
  have small: "k * 50000 < 2 ^ 31" using k by simp
  from fragment_taken [OF env ok p path openable small n] obtain w'
    where run: "read_handler E conn p w = (Inr (), w')" "mail_ok w'" "mail E w' = mail E w" "cl_get (w_app w') = cl_get (w_app w)"
      and disk: "cl_disk (w_app w') path = Some ((case cl_disk (w_app w) path of None \<Rightarrow> [] | Some c \<Rightarrow> c) @ fs ! k)"
      and meta: "cl_disk (w_app w') (path @ META_FILE_PREFIX) = (if k + 1 < length fs
        then Some ((case cl_disk (w_app w) (path @ META_FILE_PREFIX) of None \<Rightarrow> [] | Some c \<Rightarrow> c) @ bytes_of (number_lines [k + 1]))
        else cl_disk (w_app w) (path @ META_FILE_PREFIX))" by blast
  have "cl_disk (w_app w') path = Some (concat (take (Suc k) fs))"
    using prog k(1) by (simp add: disk progress_def take_Suc_conv_app_nth split: if_splits)
  moreover have "cl_disk (w_app w') (path @ META_FILE_PREFIX) = Some (bytes_of (number_lines [1 ..< Suc (Suc k)]))" if "k + 1 < length fs"
  proof -
    have "min k (length fs - 1) = k" "[1 ..< Suc (Suc k)] = [1 ..< Suc k] @ [k + 1]" using that by simp_all
    then show ?thesis using prog that by (auto simp: meta progress_def Let_def number_lines_snoc bytes_of_append number_lines_def [of "[]"] bytes_of_def [of "[]"])
  qed
  moreover have "cl_disk (w_app w') (path @ META_FILE_PREFIX) = cl_disk (w_app w) (path @ META_FILE_PREFIX)"
    "min (Suc k) (length fs - 1) = min k (length fs - 1)" if "\<not> k + 1 < length fs" using that k(1) by (simp_all add: meta)
  moreover have "min (Suc k) (length fs - 1) = Suc k" if "k + 1 < length fs" using that by simp
  ultimately have "progress path fs (Suc k) (w_app w')"
    using prog by (cases "k + 1 < length fs") (simp_all add: progress_def Let_def run(4))
  with run n show ?thesis by auto
qed

text \<open>The responses to come, one after the other.\<close>

fun handle_all :: "'c client_env \<Rightarrow> int \<Rightarrow> 'c package list \<Rightarrow> ('c cl_world, unit) exec" where
  "handle_all E conn [] = ret ()"
| "handle_all E conn (p # ps) = bindE (read_handler E conn p) (\<lambda>_. handle_all E conn ps)"

definition fragment_packages :: "'c client_env \<Rightarrow> bytes list \<Rightarrow> nat \<Rightarrow> 'c package list \<Rightarrow> bool" where
  "fragment_packages E fs k ps \<longleftrightarrow> k + length ps \<le> length fs \<and>
     (\<forall>i < length ps. \<exists>sid. response_package E (RspGetFile None sid (int (k + i)) (fs ! (k + i))) (ps ! i))"

lemma fragments_taken:
  assumes env: "client_env_ok E" and openable: "ce_openable E path" "ce_openable E (path @ META_FILE_PREFIX)"
    and size: "length fs * 50000 \<le> 2 ^ 31"
  shows "mail_ok w \<Longrightarrow> progress path fs k (w_app w) \<Longrightarrow> tf_max_fragment (cl_get (w_app w)) = int (length fs) \<Longrightarrow> fragment_packages E fs k ps \<Longrightarrow>
    \<exists>w'. handle_all E conn ps w = (Inr (), w') \<and> mail_ok w' \<and> mail E w' = mail E w \<and> progress path fs (k + length ps) (w_app w') \<and>
      tf_max_fragment (cl_get (w_app w')) = int (length fs)"
proof (induction ps arbitrary: k w)
  case (Cons p ps)
  have packages: "\<exists>sid. response_package E (RspGetFile None sid (int (k + i)) (fs ! (k + i))) ((p # ps) ! i)" if "i < Suc (length ps)" for i
    using Cons.prems(4) that by (simp add: fragment_packages_def)
  from packages [of 0] obtain sid where p: "response_package E (RspGetFile None sid (int k) (fs ! k)) p" by auto
  have k: "k < length fs" and "Suc k + length ps \<le> length fs" using Cons.prems(4) by (simp_all add: fragment_packages_def)
  then have rest: "fragment_packages E fs (Suc k) ps" using packages [of "Suc i" for i] by (auto simp: fragment_packages_def)
  from next_fragment_taken [OF env Cons.prems(1) p openable Cons.prems(2) k size Cons.prems(3)] obtain w1
    where w1: "read_handler E conn p w = (Inr (), w1)" "mail_ok w1" "mail E w1 = mail E w" "progress path fs (Suc k) (w_app w1)"
      "tf_max_fragment (cl_get (w_app w1)) = int (length fs)" by blast
  from Cons.IH [OF w1(2,4,5) rest] w1(1,3) show ?case by (simp add: bindE_def)
qed simp

text \<open>
  C14. An interrupted download goes on. When the first \<open>k\<close> fragments of a file have been stored,
  by this run of the client or an earlier one, and a new session is granted, the client asks
  for exactly the others, in order; and after any number of answers, the file holds what has
  arrived so far and the notes are those from which it would go on again. With the last answer
  the local file is the whole file.
\<close>

theorem download_resumes:
  assumes env: "client_env_ok E" and ok: "mail_ok w" and openable: "ce_openable E path" "ce_openable E (path @ META_FILE_PREFIX)"
    and prog: "progress path fs k (w_app w)" and k: "k < length fs" "length fs * 50000 \<le> 2 ^ 31"
    and p: "response_package E (RspGetFileSession None sid (int (length fs))) p" and ps: "fragment_packages E fs k ps"
  shows "\<exists>w1 w2. read_handler E conn p w = (Inr (), w1) \<and>
    mail E w1 = mail E w @ map (\<lambda>j. (cl_conn_id (w_app w), Some (ReqGetFile sid (int j)))) [k ..< length fs] \<and>
    handle_all E conn ps w1 = (Inr (), w2) \<and> progress path fs (k + length ps) (w_app w2) \<and>
    (k + length ps = length fs \<longrightarrow> cl_disk (w_app w2) path = Some (concat fs))"
proof -
  have fs: "length fs \<noteq> 0" "length fs < 2 ^ 31" "k \<le> length fs" and now: "min k (length fs - 1) = k" using k by (cases fs; simp)+
  from download_asked [OF env ok p prog fs] obtain w1 where w1: "read_handler E conn p w = (Inr (), w1)" "mail_ok w1"
    "progress path fs k (w_app w1)" "tf_max_fragment (cl_get (w_app w1)) = int (length fs)"
    "mail E w1 = mail E w @ map (\<lambda>j. (cl_conn_id (w_app w), Some (ReqGetFile sid (int j)))) [k ..< length fs]"
    unfolding now by blast
  from fragments_taken [OF env openable k(2) w1(2,3,4) ps] obtain w2 where w2: "handle_all E conn ps w1 = (Inr (), w2)"
    "progress path fs (k + length ps) (w_app w2)" by blast
  have "cl_disk (w_app w2) path = Some (concat fs)" if "k + length ps = length fs"
    using w2(2) that k(1) by (cases fs) (simp_all add: progress_def)
  with w1 w2 show ?thesis by blast
qed

text \<open>A client whose download of two fragments was interrupted after the first.\<close>

definition two_fragments :: "bytes list" where
  "two_fragments = [replicate 50000 1, [2]]"

definition interrupted :: "message cl_world" where
  "interrupted = (let a = w_app (client_world [''l'' \<mapsto> replicate 50000 1, ''l.meta'' \<mapsto> bytes_of (number_lines [1])])
     in (client_world Map.empty)\<lparr>w_app := a\<lparr>cl_get := (cl_get a)\<lparr>tf_local_path := ''l''\<rparr>\<rparr>\<rparr>)"

lemma interrupted_ok: "mail_ok interrupted" "mail E interrupted = []" "progress ''l'' two_fragments 1 (w_app interrupted)"
  "cl_conn_id (w_app interrupted) = 1"
  using client_world_mail by (simp_all add: interrupted_def Let_def mail_ok_app)
    (simp_all add: progress_def client_world_def empty_world_def new_client_def META_FILE_PREFIX_def two_fragments_def)

lemma plain_responses:
  "response_package plain_client (RspGetFileSession None sid n) (response 1034 (RspGetFileSession None sid n))"
  "response_package plain_client (RspGetFile None sid i bs) (response 1038 (RspGetFile None sid i bs))"
  by (rule response_package_plain, simp_all add: is_response_def message_command_def get_command_def
      find_command_iff [THEN iffD2] default_command_name_map_def)+

lemma plain_openable: "ce_openable plain_client path"
  by (simp add: plain_client_def)

theorem download_resumes_witness:
  "\<exists>w1 w2. read_handler plain_client 1 (response 1034 (RspGetFileSession None 9 2)) interrupted = (Inr (), w1) \<and>
    mail plain_client w1 = [(1, Some (ReqGetFile 9 1))] \<and>
    handle_all plain_client 1 [response 1038 (RspGetFile None 9 1 [2])] w1 = (Inr (), w2) \<and>
    cl_disk (w_app w2) ''l'' = Some (concat two_fragments)"
proof -
  have two: "length two_fragments = 2" "two_fragments ! Suc 0 = [2]" by (simp_all add: two_fragments_def)
  have ps: "fragment_packages plain_client two_fragments 1 [response 1038 (RspGetFile None 9 1 [2])]"
    using plain_responses(2) [of 9 1 "[2]"] by (auto simp: fragment_packages_def two)
  have p: "response_package plain_client (RspGetFileSession None 9 (int (length two_fragments))) (response 1034 (RspGetFileSession None 9 2))"
    using plain_responses(1) [of 9 2] by (simp add: two)
  have k: "1 < length two_fragments" "length two_fragments * 50000 \<le> 2 ^ 31" by (simp_all add: two)
  from download_resumes [OF plain_client_ok interrupted_ok(1) plain_openable plain_openable interrupted_ok(3) k p ps, of 1]
  show ?thesis by (auto simp: interrupted_ok two upt_rec)
qed

text \<open>
  C15. A download is not forgotten when it is complete. The notes still name the last fragment:
  a second download to the same path asks for that fragment only, and appends it to the file
  once more, which then is not the file that was asked for.
\<close>

theorem second_download_corrupts:
  assumes env: "client_env_ok E" and ok: "mail_ok w" and openable: "ce_openable E path" "ce_openable E (path @ META_FILE_PREFIX)"
    and finished: "progress path fs (length fs) (w_app w)" and fs: "fs \<noteq> []" "length fs * 50000 \<le> 2 ^ 31"
    and p: "response_package E (RspGetFileSession None sid (int (length fs))) p"
    and q: "response_package E (RspGetFile None sid' (int (length fs - 1)) (last fs)) q"
  shows "\<exists>w1 w2. read_handler E conn p w = (Inr (), w1) \<and>
    mail E w1 = mail E w @ [(cl_conn_id (w_app w), Some (ReqGetFile sid (int (length fs - 1))))] \<and>
    read_handler E conn q w1 = (Inr (), w2) \<and> cl_disk (w_app w) path = Some (concat fs) \<and>
    cl_disk (w_app w2) path = Some (concat fs @ last fs)"
proof -
  have len: "length fs \<noteq> 0" "length fs < 2 ^ 31" "length fs \<le> length fs" and small: "(length fs - 1) * 50000 < 2 ^ 31"
    using fs by (cases fs; simp)+
  have now: "min (length fs) (length fs - 1) = length fs - 1" "[length fs - 1 ..< length fs] = [length fs - 1]"
    using len(1) by (simp_all add: upt_rec)
  from download_asked [OF env ok p finished len] obtain w1 where w1: "read_handler E conn p w = (Inr (), w1)" "mail_ok w1"
    "progress path fs (length fs) (w_app w1)" "tf_max_fragment (cl_get (w_app w1)) = int (length fs)"
    "mail E w1 = mail E w @ [(cl_conn_id (w_app w), Some (ReqGetFile sid (int (length fs - 1))))]"
    unfolding now by auto
  have path: "tf_local_path (cl_get (w_app w1)) = path" using w1(3) by (simp add: progress_def)
  have disk: "cl_disk (w_app v) path = Some (concat fs)" if "progress path fs (length fs) (w_app v)" for v :: "'a cl_world"
    using that len(1) by (simp add: progress_def)
  from fragment_taken [OF env w1(2) q path openable small w1(4)] disk [OF w1(3)] obtain w2
    where "read_handler E conn q w1 = (Inr (), w2)" "cl_disk (w_app w2) path = Some (concat fs @ last fs)" by auto
  with w1 disk [OF finished] show ?thesis by blast
qed

theorem second_download_corrupts_witness:
  "\<exists>w1 w2 w3. handle_all plain_client 1 [response 1034 (RspGetFileSession None 9 2), response 1038 (RspGetFile None 9 1 [2])] interrupted = (Inr (), w1) \<and>
    read_handler plain_client 1 (response 1034 (RspGetFileSession None 9 2)) w1 = (Inr (), w2) \<and>
    read_handler plain_client 1 (response 1038 (RspGetFile None 9 1 [2])) w2 = (Inr (), w3) \<and>
    cl_disk (w_app w1) ''l'' = Some (concat two_fragments) \<and> cl_disk (w_app w3) ''l'' = Some (concat two_fragments @ [2])"
proof -
  have two: "length two_fragments = 2" "two_fragments ! Suc 0 = [2]" "last two_fragments = [2]" "two_fragments \<noteq> []"
    by (simp_all add: two_fragments_def)
  have ps: "fragment_packages plain_client two_fragments 1 [response 1038 (RspGetFile None 9 1 [2])]"
    using plain_responses(2) [of 9 1 "[2]"] by (auto simp: fragment_packages_def two)
  have p: "response_package plain_client (RspGetFileSession None 9 (int (length two_fragments))) (response 1034 (RspGetFileSession None 9 2))"
    using plain_responses(1) [of 9 2] by (simp add: two)
  have q: "response_package plain_client (RspGetFile None 9 (int (length two_fragments - 1)) (last two_fragments)) (response 1038 (RspGetFile None 9 1 [2]))"
    using plain_responses(2) [of 9 1 "[2]"] by (simp add: two)
  have len: "length two_fragments * 50000 \<le> 2 ^ 31" "length two_fragments \<noteq> 0" "length two_fragments < 2 ^ 31" "1 \<le> length two_fragments"
    by (simp_all add: two)
  from download_asked [OF plain_client_ok interrupted_ok(1) p interrupted_ok(3) len(2-4), of 1] obtain v
    where v: "read_handler plain_client 1 (response 1034 (RspGetFileSession None 9 2)) interrupted = (Inr (), v)" "mail_ok v"
      "progress ''l'' two_fragments 1 (w_app v)" "tf_max_fragment (cl_get (w_app v)) = int (length two_fragments)" by blast
  from fragments_taken [OF plain_client_ok plain_openable plain_openable len(1) v(2-4) ps, of 1] obtain w1
    where w1: "handle_all plain_client 1 [response 1038 (RspGetFile None 9 1 [2])] v = (Inr (), w1)" "mail_ok w1"
      "progress ''l'' two_fragments (length two_fragments) (w_app w1)" by (auto simp: two numeral_2_eq_2 simp del: handle_all.simps)
  have "handle_all plain_client 1 [response 1034 (RspGetFileSession None 9 2), response 1038 (RspGetFile None 9 1 [2])] interrupted = (Inr (), w1)"
    unfolding handle_all.simps(2) [of plain_client 1 "response 1034 _"] bindE_Inr [where m = "read_handler _ _ _", OF v(1)] by (rule w1(1))
  with second_download_corrupts [OF plain_client_ok w1(2) plain_openable plain_openable w1(3) two(4) len(1) p q, of 1] show ?thesis
    by (auto simp: two)
qed

end
