(* ===== verification/Client_Program.thy ===== *)
theory Client_Program
  imports Client_Transfers
begin

text \<open>
  The client as a program of the worker: what no response can make it do to the local files,
  and its heartbeat.
\<close>

section \<open>Local files\<close>

text \<open>
  Only the file of the present download and its notes have changed since the disk was \<open>d\<close>, and
  only at their ends.
\<close>

definition only_appended :: "string \<Rightarrow> (string \<rightharpoonup> bytes) \<Rightarrow> client \<Rightarrow> bool" where
  "only_appended path d a \<longleftrightarrow> tf_local_path (cl_get a) = path \<and>
     (\<forall>p. p \<noteq> path \<and> p \<noteq> path @ META_FILE_PREFIX \<longrightarrow> cl_disk a p = d p) \<and>
     (\<forall>p c. d p = Some c \<longrightarrow> (\<exists>x. cl_disk a p = Some (c @ x)))"

lemma keeps_app:
  assumes "\<And>a. Q a \<Longrightarrow> Q (f a)"
  shows "keeps (\<lambda>w. Q (w_app w)) (on_app (modify f))"
  using assms by (simp add: keeps_def)

lemma cl_send_app: "unchanged w_app (cl_send E m)"
  unfolding cl_send_def by (intro unchanged_intros)

lemma client_calls_keep [intro]:
  "keeps (\<lambda>w. only_appended path d (w_app w)) (cl_send E m)"
  "keeps (\<lambda>w. only_appended path d (w_app w)) (update_put_session f)"
  "keeps (\<lambda>w. only_appended path d (w_app w)) (print_line l)"
  "keeps (\<lambda>w. only_appended path d (w_app w)) start_heartbeat"
  "keeps (\<lambda>w. only_appended path d (w_app w)) stop_heartbeat"
  "keeps (\<lambda>w. only_appended path d (w_app w)) (on_receive_response s u)"
  "keeps (\<lambda>w. only_appended path d (w_app w)) (parsed E name p members)"
  "keeps (\<lambda>w. only_appended path d (w_app w)) (open_read q)"
  by (rule keeps_app_unchanged [OF cl_send_app])
    (auto simp: start_heartbeat_def stop_heartbeat_def on_receive_response_def parsed_def open_read_def Let_def
      update_put_session_def print_line_def only_appended_def intro!: keeps_intros keeps_app keeps_modify)

lemma keeps_put_fragments: "keeps (\<lambda>w. only_appended path d (w_app w)) (put_fragments E c pos i n)"
  by (induction n arbitrary: pos i) (auto simp: Let_def intro!: keeps_intros)

lemma keeps_ask_fragments: "keeps (\<lambda>w. only_appended path d (w_app w)) (ask_fragments E i n)"
  by (induction n arbitrary: i) (auto intro!: keeps_intros)

lemma only_appended_write:
  assumes "only_appended path d a" and "q = path \<or> q = path @ META_FILE_PREFIX"
  shows "only_appended path d (a\<lparr>cl_disk := (cl_disk a)(q \<mapsto> (case cl_disk a q of None \<Rightarrow> [] | Some c \<Rightarrow> c) @ bs)\<rparr>)"
  using assms by (fastforce simp: only_appended_def)

lemma append_file_keeps:
  assumes "only_appended path d (w_app w)" and "q = path \<or> q = path @ META_FILE_PREFIX"
  shows "only_appended path d (w_app (snd (append_file E q bs w)))"
  using only_appended_write [OF assms] assms(1) by (simp add: append_file_def)

lemma keeps_on_get_response: "keeps (\<lambda>w. only_appended path d (w_app w)) (on_get_response E i bs)"
proof -
  have "only_appended path d (w_app (snd (on_get_response E i bs w)))" if w: "only_appended path d (w_app w)" for w
  proof -
    have path: "tf_local_path (cl_get (w_app w)) = path" using w by (simp add: only_appended_def)
    show ?thesis
    proof (cases "ce_openable E path \<and> (\<exists>off. int_mult i MAX_FRAGMENT_CONTENT_LEN = Inr off)")
      case False
      with w path show ?thesis by (auto simp: on_get_response_def bindE_getsE split: sum.split)
    next
      case True
      define w1 where "w1 = snd (append_file E path bs w)"
      have w1: "append_file E path bs w = (Inr (), w1)" "only_appended path d (w_app w1)"
        using True append_file_keeps [OF w, of path E bs] by (simp_all add: append_file_def w1_def)
      have path1: "tf_local_path (cl_get (w_app w1)) = path" using w1(2) by (simp add: only_appended_def)
      have "only_appended path d (w_app (snd (set_next_fragment E (i + 1) w1)))"
        using append_file_keeps [OF w1(2), of "path @ META_FILE_PREFIX"] by (simp add: set_next_fragment_def path1)
      moreover have "only_appended path d (w_app (snd (print_line l w1)))" for l using w1(2) by (simp add: only_appended_def)
      ultimately show ?thesis using True path w1(1)
        by (auto simp: on_get_response_def bindE_getsE bindE_def [of "append_file _ _ _"])
    qed
  qed
  then show ?thesis by (simp add: keeps_def)
qed

lemma keeps_read_handler: "keeps (\<lambda>w. only_appended path d (w_app w)) (read_handler E conn p)"
proof -
  have app: "keeps (\<lambda>w. only_appended path d (w_app w)) (on_app (modify (\<lambda>a. a\<lparr>cl_output := f a\<rparr>)))"
    "keeps (\<lambda>w. only_appended path d (w_app w)) (update_get_session (\<lambda>t. t\<lparr>tf_session_id := x, tf_max_fragment := y\<rparr>))" for f x y
    by (auto simp: update_get_session_def only_appended_def intro!: keeps_app)
  have put: "keeps (\<lambda>w. only_appended path d (w_app w)) (start_put_file E n)" for n
    unfolding start_put_file_def by (auto intro!: keeps_intros keeps_put_fragments)
  have get: "keeps (\<lambda>w. only_appended path d (w_app w)) (start_get_file E)"
    unfolding start_get_file_def by (auto intro!: keeps_intros keeps_ask_fragments)
  have put_response: "keeps (\<lambda>w. only_appended path d (w_app w)) (on_put_response i)" for i
    unfolding on_put_response_def by (auto intro!: keeps_intros)
  have "keeps (\<lambda>w. only_appended path d (w_app w)) (handle_response E c p)" for c
    unfolding handle_response_def
    by (intro keeps_if) (auto intro!: keeps_intros app put get put_response keeps_on_get_response)
  then show ?thesis unfolding read_handler_def Let_def by (auto intro!: keeps_intros)
qed

interpretation client_app: app_invariant "client_program E" "only_appended path d" for E path d
proof
  show "keeps (\<lambda>w. only_appended path d (w_app w)) (pr_handler (client_program E) f conn p)" for f conn p
    by (cases f) (auto simp: client_program_def intro!: keeps_read_handler keeps_intros)
  show "keeps (\<lambda>w. only_appended path d (w_app w)) (pr_call (client_program E) f)" for f
    by (cases f) (auto simp: client_program_def send_ping_def intro!: keeps_intros)
qed (auto simp: client_program_def intro!: app_keeps_intros)

text \<open>
  C16. No response reaches into the client's files. Whatever the worker of the client runs -
  every package the server can send, every heartbeat, with the clock and the network in
  between - only the file of the download in progress and its notes change, and only at their
  ends: no byte that was on the disk is lost, and no other file is made or touched.
\<close>

theorem client_writes_own_files:
  assumes "(worker_step (client_program E))\<^sup>*\<^sup>* w w'" and "path = tf_local_path (cl_get (w_app w))"
  shows "(q \<noteq> path \<and> q \<noteq> path @ META_FILE_PREFIX \<longrightarrow> cl_disk (w_app w') q = cl_disk (w_app w) q) \<and>
    (\<forall>c. cl_disk (w_app w) q = Some c \<longrightarrow> (\<exists>x. cl_disk (w_app w') q = Some (c @ x)))"
proof -
  have "only_appended path (cl_disk (w_app w)) (w_app w)" using assms(2) by (auto simp: only_appended_def)
  then have "only_appended path (cl_disk (w_app w)) (w_app w')" by (rule client_app.reachable_app [OF assms(1)])
  then show ?thesis by (simp add: only_appended_def)
qed

text \<open>A client that waits for a download, and a fragment for it in the worker's queue.\<close>

definition fragment_queued :: "message cl_world" where
  "fragment_queued = (client_world [''l'' \<mapsto> [1], ''m'' \<mapsto> [7]])
     \<lparr>w_app := (w_app (client_world [''l'' \<mapsto> [1], ''m'' \<mapsto> [7]]))\<lparr>cl_get := new_transfer\<lparr>tf_local_path := ''l'', tf_max_fragment := 3\<rparr>\<rparr>,
      w_trans_list := [(1038, \<lparr>tr_type = ONE_PHASE_TRANSACTION, tr_handler = Read_handler, tr_error_handler = True\<rparr>)],
      w_packages := \<lparr>m_package_list = [(1, response 1038 (RspGetFile None 9 1 [2]))], pm_next_id = 2\<rparr>,
      w_queues := queue_push IN_QUEUE (NETWORK_TYPE \<lparr>nm_conn_id = 1, nm_service_id = 0, nm_package_id = 1\<rparr>) empty_queues\<rparr>"

lemma fragment_turn_runs:
  "(case worker_turn (client_program plain_client) fragment_queued of (r, t) \<Rightarrow> r = Inr () \<and> cl_disk (w_app t) ''l'' = Some [1, 2])"
  by code_simp

theorem client_writes_own_files_witness:
  "\<exists>w'. worker_turn (client_program plain_client) fragment_queued = (Inr (), w') \<and> cl_disk (w_app w') ''l'' = Some [1, 2] \<and>
     cl_disk (w_app w') ''m'' = Some [7]"
proof -
  obtain w' where turn: "worker_turn (client_program plain_client) fragment_queued = (Inr (), w')" "cl_disk (w_app w') ''l'' = Some [1, 2]"
    using fragment_turn_runs by (auto split: prod.splits)
  have "(worker_step (client_program plain_client))\<^sup>*\<^sup>* fragment_queued w'"
    by (rule r_into_rtranclp) (rule worker_step.turn [OF turn(1)])
  from client_writes_own_files [OF this refl, of "''m''"] turn show ?thesis
    by (simp add: fragment_queued_def client_world_def empty_world_def new_client_def META_FILE_PREFIX_def)
qed

section \<open>The heartbeat\<close>

text \<open>The timers that send pings, by their ids.\<close>

definition ping_timers :: "'c cl_world \<Rightarrow> int set" where
  "ping_timers w = tm_timer_id ` {t \<in> set (m_timer_queue (w_timers w)). tm_expiry_action t = Timer_call Send_ping}"

definition heartbeat_timer :: "int \<Rightarrow> client_fun timer_action timer \<Rightarrow> bool" where
  "heartbeat_timer k t \<longleftrightarrow> tm_timer_id t = k \<and> tm_expiry_action t = Timer_call Send_ping \<and> tm_call_policy t = CALL_FREQUENTLY"

lemma start_heartbeat_run:
  "\<exists>t. heartbeat_timer (tmr_next_id (w_timers w)) t \<and>
     start_heartbeat w = (Inr (), w\<lparr>w_timers := \<lparr>m_timer_queue = heap_push t (m_timer_queue (w_timers w)),
       tmr_next_id = tmr_next_id (w_timers w) + 1\<rparr>, w_app := (w_app w)\<lparr>cl_timer_id := tmr_next_id (w_timers w)\<rparr>\<rparr>)"
proof -
  let ?t = "\<lparr>tm_timer_id = tmr_next_id (w_timers w), tm_interval = pt_seconds HEARTBEAT_PER_SEC,
    tm_expiry_time = pt_add (w_now w) (if seconds (pt_seconds 0) = 0 then pt_seconds HEARTBEAT_PER_SEC else pt_seconds 0),
    tm_expiry_action = Timer_call Send_ping, tm_call_policy = CALL_FREQUENTLY, tm_caller = ''start_heartbeat''\<rparr>"
  have "heartbeat_timer (tmr_next_id (w_timers w)) ?t" by (simp add: heartbeat_timer_def)
  then show ?thesis
    by (intro exI [of _ ?t]) (simp add: start_heartbeat_def register_frequent_timer_def register_timer_def Let_def)
qed

text \<open>The heartbeat \<open>k\<close> is in the queue, and it is not the one that \<open>stop_heartbeat\<close> would remove.\<close>

definition beats :: "int \<Rightarrow> client_fun timer_action timer_manager \<Rightarrow> client \<Rightarrow> bool" where
  "beats k tm a \<longleftrightarrow> (\<exists>t \<in> set (m_timer_queue tm). heartbeat_timer k t) \<and> cl_timer_id a \<noteq> k \<and> k < tmr_next_id tm"

lemma beats_pings: "beats k (w_timers w) (w_app w) \<Longrightarrow> k \<in> ping_timers w"
  by (force simp: beats_def ping_timers_def heartbeat_timer_def)

lemma cl_send_timed [unchanged_intros]: "unchanged timed (cl_send E m)"
  unfolding cl_send_def by (intro unchanged_intros)

lemma beats_app:
  assumes "\<And>a. cl_timer_id (f a) = cl_timer_id a"
  shows "keeps (\<lambda>w. beats k (w_timers w) (w_app w)) (on_app (modify f))"
  using assms by (simp add: keeps_def beats_def)

lemma beats_calls [intro]:
  "keeps (\<lambda>w. beats k (w_timers w) (w_app w)) (cl_send E m)"
  "keeps (\<lambda>w. beats k (w_timers w) (w_app w)) (update_put_session f)"
  "keeps (\<lambda>w. beats k (w_timers w) (w_app w)) (update_get_session f)"
  "keeps (\<lambda>w. beats k (w_timers w) (w_app w)) (print_line l)"
  "keeps (\<lambda>w. beats k (w_timers w) (w_app w)) (append_file E q bs)"
  "keeps (\<lambda>w. beats k (w_timers w) (w_app w)) (on_receive_response s u)"
  "keeps (\<lambda>w. beats k (w_timers w) (w_app w)) (parsed E name p members)"
  "keeps (\<lambda>w. beats k (w_timers w) (w_app w)) (open_read q)"
  by (rule keeps_timed [OF cl_send_timed])
    (auto simp: on_receive_response_def parsed_def open_read_def append_file_def Let_def update_put_session_def
      update_get_session_def print_line_def intro!: keeps_intros beats_app)

lemma beats_start [intro]: "keeps (\<lambda>w :: 'c cl_world. beats k (w_timers w) (w_app w)) start_heartbeat"
  unfolding keeps_def
proof (intro allI impI)
  fix w :: "'c cl_world"
  assume "beats k (w_timers w) (w_app w)"
  then show "beats k (w_timers (snd (start_heartbeat w))) (w_app (snd (start_heartbeat w)))"
    using start_heartbeat_run [of w] by (auto simp: beats_def)
qed

lemma beats_stop [intro]: "keeps (\<lambda>w. beats k (w_timers w) (w_app w)) stop_heartbeat"
  by (auto simp: keeps_def stop_heartbeat_def beats_def remove_timer_def heartbeat_timer_def)

lemma beats_put_fragments: "keeps (\<lambda>w. beats k (w_timers w) (w_app w)) (put_fragments E c pos i n)"
  by (induction n arbitrary: pos i) (auto simp: Let_def intro!: keeps_intros)

lemma beats_ask_fragments: "keeps (\<lambda>w. beats k (w_timers w) (w_app w)) (ask_fragments E i n)"
  by (induction n arbitrary: i) (auto intro!: keeps_intros)

lemma beats_read_handler: "keeps (\<lambda>w. beats k (w_timers w) (w_app w)) (read_handler E conn p)"
proof -
  have out: "keeps (\<lambda>w. beats k (w_timers w) (w_app w)) (on_app (modify (\<lambda>a. a\<lparr>cl_output := f a\<rparr>)))" for f
    by (rule beats_app) simp
  have put: "keeps (\<lambda>w. beats k (w_timers w) (w_app w)) (start_put_file E n)"
    and get: "keeps (\<lambda>w. beats k (w_timers w) (w_app w)) (start_get_file E)"
    and put_response: "keeps (\<lambda>w. beats k (w_timers w) (w_app w)) (on_put_response i)"
    and get_response: "keeps (\<lambda>w. beats k (w_timers w) (w_app w)) (on_get_response E i bs)" for n i bs
    unfolding start_put_file_def start_get_file_def on_put_response_def on_get_response_def set_next_fragment_def
    by (auto intro!: keeps_intros beats_put_fragments beats_ask_fragments)
  have "keeps (\<lambda>w. beats k (w_timers w) (w_app w)) (handle_response E c p)" for c
    unfolding handle_response_def
    by (intro keeps_if) (auto intro!: keeps_intros out put get put_response get_response)
  then show ?thesis unfolding read_handler_def Let_def by (auto intro!: keeps_intros)
qed

lemma expiry_timed: "unchanged timed (expiry_action (client_program E) a)"
  by (cases a) (auto simp: on_wait_timeout_def client_program_def send_ping_def intro!: unchanged_intros split: client_fun.split)

lemma finish_beats:
  assumes due: "due_timer now tm = Some t" and beats: "beats k tm a"
  shows "beats k (finish_timer t now' tm) a"
proof -
  obtain q where q: "m_timer_queue tm = t # q" using due by (auto simp: due_timer_def split: list.splits if_splits)
  have "heartbeat_timer k t \<Longrightarrow> heartbeat_timer k (t\<lparr>tm_expiry_time := x\<rparr>)" for x by (simp add: heartbeat_timer_def)
  moreover have "heartbeat_timer k t \<Longrightarrow> tm_call_policy t = CALL_FREQUENTLY" by (simp add: heartbeat_timer_def)
  ultimately show ?thesis using beats by (auto simp: beats_def finish_timer_def q)
qed

lemma beats_expiry: "keeps (\<lambda>w. beats k (w_timers w) (w_app w)) (process_expiry_timer (client_program E))"
proof -
  have "beats k (w_timers w') (w_app w')"
    if w: "beats k (w_timers w) (w_app w)" and run: "process_expiry_timer (client_program E) w = (r, w')" for w w' :: "'a cl_world" and r
  proof (cases "due_timer (w_now w) (w_timers w)")
    case None
    with w run show ?thesis by (simp add: process_expiry_timer_def)
  next
    case (Some t)
    obtain x v where call: "safe_call (expiry_action (client_program E) (tm_expiry_action t)) w = (x, v)" by fastforce
    have "unchanged timed (safe_call (expiry_action (client_program E) (tm_expiry_action t)))"
      by (rule unchanged_safe_call [OF expiry_timed])
    then have v: "w_timers v = w_timers w" "w_app v = w_app w" using call unfolding unchanged_def timed_def by (metis prod.inject snd_conv)+
    show ?thesis
    proof (cases x)
      case (Inl e)
      with run Some call w v show ?thesis by (simp add: process_expiry_timer_def bindE_def [of "safe_call _"])
    next
      case (Inr u)
      with run Some call have "w' = v\<lparr>w_timers := finish_timer t (w_now v) (w_timers v)\<rparr>"
        by (simp add: process_expiry_timer_def bindE_def [of "safe_call _"])
      with finish_beats [OF Some w] v show ?thesis by simp
    qed
  qed
  then show ?thesis unfolding keeps_def by (metis prod.collapse)
qed

interpretation heartbeat: timed_invariant "client_program E" "beats k" for E k
proof
  show "keeps (\<lambda>w. beats k (w_timers w) (w_app w)) (pr_handler (client_program E) f conn p)" for f conn p
    by (cases f) (auto simp: client_program_def intro!: beats_read_handler keeps_intros)
  show "keeps (\<lambda>w. beats k (w_timers w) (w_app w)) (pr_call (client_program E) f)" for f
    by (cases f) (auto simp: client_program_def send_ping_def intro!: keeps_intros)
qed (auto simp: client_program_def intro!: timed_keeps_intros beats_expiry [unfolded client_program_def])

lemma login_handled:
  assumes env: "client_env_ok E" and p: "response_package E (RspLoginUser None) p"
  shows "\<exists>w'. read_handler E conn p w = (Inr (), w') \<and> cl_timer_id (w_app w') = tmr_next_id (w_timers w) \<and>
    tmr_next_id (w_timers w') = tmr_next_id (w_timers w) + 1 \<and> ping_timers w' = insert (tmr_next_id (w_timers w)) (ping_timers w) \<and>
    (\<exists>t. heartbeat_timer (tmr_next_id (w_timers w)) t \<and> set (m_timer_queue (w_timers w')) = insert t (set (m_timer_queue (w_timers w))))"
proof -
  have good: "error_of (RspLoginUser None) = None" by simp
  have run: "read_handler E conn p w = start_heartbeat w"
    by (simp add: response_handled(1) [OF env p good] handle_response_def response_handled(2) [OF env p good])
  obtain t where t: "heartbeat_timer (tmr_next_id (w_timers w)) t"
    and start: "start_heartbeat w = (Inr (), w\<lparr>w_timers := \<lparr>m_timer_queue = heap_push t (m_timer_queue (w_timers w)),
      tmr_next_id = tmr_next_id (w_timers w) + 1\<rparr>, w_app := (w_app w)\<lparr>cl_timer_id := tmr_next_id (w_timers w)\<rparr>\<rparr>)"
    using start_heartbeat_run by blast
  have "tm_timer_id ` {x \<in> insert t q. tm_expiry_action x = Timer_call Send_ping} =
      insert (tmr_next_id (w_timers w)) (tm_timer_id ` {x \<in> q. tm_expiry_action x = Timer_call Send_ping})" for q
    using t by (force simp: heartbeat_timer_def)
  with run start t show ?thesis by (auto simp: ping_timers_def)
qed

lemma failed_ping_handled:
  assumes env: "client_env_ok E" and p: "response_package E (RspPing (Some e) s u) p"
  shows "\<exists>w'. read_handler E conn p w = (Inr (), w') \<and> ping_timers w' = ping_timers w - {cl_timer_id (w_app w)} \<and>
    cl_timer_id (w_app w') = cl_timer_id (w_app w)"
proof -
  have name: "cmd_is n (h_command (p_header p)) \<longleftrightarrow> n = ''RspPing''" for n
    using p cmd_is_eval [of "RspPing (Some e) s u"] by (auto simp: response_package_def)
  have "read_handler E conn p w = stop_heartbeat (w\<lparr>w_app := (w_app w)\<lparr>cl_output := cl_output (w_app w) @ [Failure_line (fst e) (snd e) (h_command (p_header p))]\<rparr>\<rparr>)"
    using parsed_response [OF env p, simplified]
    by (cases e) (simp add: read_handler_def Let_def parsed_response(2) [OF env p] handle_response_def name
        parsed_response(1) [OF env p, simplified] bindE_getsE)
  then show ?thesis by (auto simp: stop_heartbeat_def remove_timer_def ping_timers_def)
qed

text \<open>
  C17. Logging in twice leaves a heartbeat that nobody can stop. A login's answer starts a
  heartbeat, and an answer to a ping with an error stops the one that was started last. With one
  login none is left. With two, whatever the worker runs from then on - answers with errors,
  further logins, the expiry of timers - the timer of the first heartbeat is still there,
  since its id is overwritten.
\<close>

theorem heartbeat_stops_once:
  assumes env: "client_env_ok E" and none: "ping_timers w = {}"
    and login: "response_package E (RspLoginUser None) p" and failed: "response_package E (RspPing (Some e) s u) q"
  shows "(\<exists>w1. handle_all E conn [p, q] w = (Inr (), w1) \<and> ping_timers w1 = {}) \<and>
    (\<exists>w2. handle_all E conn [p, p] w = (Inr (), w2) \<and>
      (\<exists>w3. handle_all E conn [q, q] w2 = (Inr (), w3) \<and> ping_timers w3 = {tmr_next_id (w_timers w)}) \<and>
      (\<forall>w3. (worker_step (client_program E))\<^sup>*\<^sup>* w2 w3 \<longrightarrow> tmr_next_id (w_timers w) \<in> ping_timers w3))"
proof (intro conjI)
  let ?k = "tmr_next_id (w_timers w)"
  from login_handled [OF env login, of conn w] obtain w1 t where w1: "read_handler E conn p w = (Inr (), w1)"
    "cl_timer_id (w_app w1) = ?k" "tmr_next_id (w_timers w1) = ?k + 1" "ping_timers w1 = {?k}" "heartbeat_timer ?k t"
    "set (m_timer_queue (w_timers w1)) = insert t (set (m_timer_queue (w_timers w)))" unfolding none by blast
  show "\<exists>w1. handle_all E conn [p, q] w = (Inr (), w1) \<and> ping_timers w1 = {}"
    using failed_ping_handled [OF env failed, of conn w1] w1(1,2,4) by (auto simp: bindE_def)
  from login_handled [OF env login, of conn w1] w1 obtain w2 where w2: "read_handler E conn p w1 = (Inr (), w2)"
    "cl_timer_id (w_app w2) = ?k + 1" "ping_timers w2 = {?k + 1, ?k}" "beats ?k (w_timers w2) (w_app w2)" by (auto simp: beats_def)
  have stop: "\<exists>t. read_handler E conn q v = (Inr (), t) \<and> ping_timers t = ping_timers v - {cl_timer_id (w_app v)} \<and>
      cl_timer_id (w_app t) = cl_timer_id (w_app v)" for v
    using failed_ping_handled [OF env failed, of conn v] by blast
  from stop [of w2] w2 obtain v where v: "read_handler E conn q w2 = (Inr (), v)"
    "ping_timers v = {?k}" "cl_timer_id (w_app v) = ?k + 1" by auto
  from stop [of v] v obtain w3 where "read_handler E conn q v = (Inr (), w3)" "ping_timers w3 = {?k}" by auto
  with v have "\<exists>w3. handle_all E conn [q, q] w2 = (Inr (), w3) \<and> ping_timers w3 = {?k}" by (simp add: bindE_def)
  moreover have "?k \<in> ping_timers w3" if "(worker_step (client_program E))\<^sup>*\<^sup>* w2 w3" for w3
    using heartbeat.reachable [OF that w2(4)] by (rule beats_pings)
  moreover have "handle_all E conn [p, p] w = (Inr (), w2)" using w1 w2 by (simp add: bindE_def)
  ultimately show "\<exists>w2. handle_all E conn [p, p] w = (Inr (), w2) \<and>
      (\<exists>w3. handle_all E conn [q, q] w2 = (Inr (), w3) \<and> ping_timers w3 = {?k}) \<and>
      (\<forall>w3. (worker_step (client_program E))\<^sup>*\<^sup>* w2 w3 \<longrightarrow> ?k \<in> ping_timers w3)" by blast
qed

theorem heartbeat_stops_once_witness:
  "\<exists>w w'. handle_all plain_client 1 [response 1006 (RspLoginUser None), response 1006 (RspLoginUser None)] (client_world Map.empty) = (Inr (), w) \<and>
    worker_step (client_program plain_client) w w' \<and> 1 \<in> ping_timers w'"
proof -
  let ?w = "client_world Map.empty"
  have p: "response_package plain_client (RspLoginUser None) (response 1006 (RspLoginUser None))"
    "response_package plain_client (RspPing (Some (1, 2)) 0 0) (response 1002 (RspPing (Some (1, 2)) 0 0))"
    by (rule response_package_plain, simp_all add: is_response_def message_command_def get_command_def
        find_command_iff [THEN iffD2] default_command_name_map_def)+
  have none: "ping_timers ?w = {}" and first: "tmr_next_id (w_timers ?w) = 1"
    by (simp_all add: ping_timers_def client_world_def empty_world_def empty_timer_manager_def)
  from heartbeat_stops_once [OF plain_client_ok none p, of 1] obtain w
    where w: "handle_all plain_client 1 [response 1006 (RspLoginUser None), response 1006 (RspLoginUser None)] ?w = (Inr (), w)"
      "\<And>v. (worker_step (client_program plain_client))\<^sup>*\<^sup>* w v \<Longrightarrow> 1 \<in> ping_timers v" unfolding first by blast
  have "worker_step (client_program plain_client) w
      (w\<lparr>w_queues := queue_push IN_QUEUE (DELEGATE_TYPE ''ping'' Send_ping) (w_queues w)\<rparr>)" by (rule worker_step.delegated)
  with w show ?thesis by blast
qed

text \<open>
  C18. The delay that the heartbeat measures. When the answer to a ping comes, half of the time
  since it was sent is the delay, if the clock's nanoseconds are not behind those of the ping;
  if they are, the subtraction does not borrow, and the delay is wrong by as much as half a
  second.
\<close>

theorem heartbeat_delay:
  assumes env: "client_env_ok E" and p: "response_package E (RspPing None s u) p"
    and now: "pt_norm (w_now w)" and sent: "0 \<le> u" "u < 1000000" and later: "s < seconds (w_now w)"
  shows "\<exists>w'. read_handler E conn p w = (Inr (), w') \<and> cl_heartbeat_times (w_app w') = cl_heartbeat_times (w_app w) + 1 \<and>
    pt_ns (cl_last_delay (w_app w')) = (pt_ns (w_now w) - (s * 1000000000 + u * 1000) +
      (if nanoseconds (w_now w) < u * 1000 then 2 * (u * 1000 - nanoseconds (w_now w)) - 1000000000 else 0)) div 2"
proof -
  let ?t = "\<lparr>seconds = s, nanoseconds = u * 1000\<rparr>" and ?now = "w_now w"
  have good: "error_of (RspPing None s u) = None" by simp
  have run: "read_handler E conn p w = on_receive_response s u w"
    by (simp add: response_handled(1) [OF env p good] handle_response_def response_handled(2) [OF env p good]
        parsed_response(1) [OF env p, simplified] bindE_getsE)
  have t: "pt_norm ?t" "pt_ns ?t = s * 1000000000 + u * 1000" using sent by (simp_all add: pt_defs)
  have half: "pt_ns (pt_half x) = pt_ns x div 2" if "0 \<le> seconds x" "0 \<le> nanoseconds x" for x
  proof -
    have sgn: "sgn a * (\<bar>a\<bar> div 2) = a div 2" if "0 \<le> a" for a :: int using that by (cases "a = 0") simp_all
    have "a div 2 * 1000000000 + (b div 2 + (a - 2 * (a div 2)) * 500000000) = (a * 1000000000 + b) div 2" for a b :: int
      by presburger
    then show ?thesis
      unfolding pt_half_def Let_def pt_ns_def NANOSECONDS_OF_SECOND_def sgn [OF that(1)] sgn [OF that(2)] precise_time.select_convs .
  qed
  have "0 \<le> seconds (pt_sub ?now ?t)" "0 \<le> nanoseconds (pt_sub ?now ?t)"
    using later now sent by (auto simp: pt_sub_def Let_def pt_defs)
  from half [OF this] pt_ns_sub [OF now t(1)] t(2)
  have "pt_ns (pt_half (pt_sub ?now ?t)) = (pt_ns ?now - (s * 1000000000 + u * 1000) +
      (if nanoseconds ?now < u * 1000 then 2 * (u * 1000 - nanoseconds ?now) - 1000000000 else 0)) div 2"
    by (simp add: NANOSECONDS_OF_SECOND_def)
  then show ?thesis by (simp add: run on_receive_response_def Let_def)
qed

theorem heartbeat_delay_witness:
  "\<exists>w'. read_handler plain_client 1 (response 1002 (RspPing None 3 900000)) ((client_world Map.empty)\<lparr>w_now := \<lparr>seconds = 4, nanoseconds = 100000000\<rparr>\<rparr>) = (Inr (), w') \<and>
     pt_ns (cl_last_delay (w_app w')) = 400000000"
proof -
  let ?w = "(client_world Map.empty)\<lparr>w_now := \<lparr>seconds = 4, nanoseconds = 100000000\<rparr>\<rparr>"
  have p: "response_package plain_client (RspPing None 3 900000) (response 1002 (RspPing None 3 900000))"
    by (rule response_package_plain) (simp_all add: is_response_def message_command_def get_command_def
        find_command_iff [THEN iffD2] default_command_name_map_def)
  have now: "pt_norm (w_now ?w)" by (simp add: pt_defs)
  from heartbeat_delay [OF plain_client_ok p now, of 1] show ?thesis by (auto simp: pt_ns_def NANOSECONDS_OF_SECOND_def)
qed

end
