(* ===== verification/Client_Console.thy ===== *)
theory Client_Console
  imports Client_Program "HOL-Library.Sublist"
begin

text \<open>
  The console of the client, \<open>cmd_ui_interface\<close> of \<open>client/main.cpp\<close>: the loop that reads a
  command and its arguments from \<open>std::cin\<close> and runs it. What is typed is given as a whole, and
  the console's thread runs alone; the prompts are left out.
\<close>

section \<open>Arguments\<close>

text \<open>
  \<open>std::cin >> x\<close>. A string that is not read stays empty; a number that is not read is a local
  variable without a value, whose use is undefined behaviour.
\<close>

type_synonym ('c, 'a) console = "(istream \<times> 'c cl_world, 'a) exec"

definition input :: "(istream \<Rightarrow> 'v option \<times> istream) \<Rightarrow> ('c, 'v option) console" where
  "input extract = (\<lambda>(s, w). case extract s of (v, s') \<Rightarrow> (Inr v, (s', w)))"

definition text_arg :: "('c, string) console" where
  "text_arg = bindE (input read_word) (\<lambda>v. ret (case v of None \<Rightarrow> [] | Some x \<Rightarrow> x))"


definition used :: "'v option \<Rightarrow> ('c, 'v) console" where
  "used v = (case v of None \<Rightarrow> fail Undefined | Some x \<Rightarrow> ret x)"

definition act :: "('c cl_world, 'a) exec \<Rightarrow> ('c, 'a) console" where
  "act m = zoom snd (\<lambda>w (s, _). (s, w)) m"

section \<open>Commands\<close>

text \<open>\<open>stoi\<close> in a \<open>try\<close>, whose handler takes the input for a name when the request throws, too.\<close>

definition find_by_either ::
  "(int \<Rightarrow> ('c cl_world, unit) exec) \<Rightarrow> (string \<Rightarrow> ('c cl_world, unit) exec) \<Rightarrow> string \<Rightarrow> ('c cl_world, unit) exec" where
  "find_by_either by_id by_name inp = (\<lambda>w. case bindE (getsE (\<lambda>_. stoi inp)) by_id w of
     (Inr u, w') \<Rightarrow> (Inr u, w')
   | (Inl e, w') \<Rightarrow> if catchable e \<or> e = Open_file_error then by_name inp w' else (Inl e, w'))"

definition switch_connection :: "nat \<Rightarrow> ('c cl_world, unit) exec" where
  "switch_connection index =
     bindE (gets w_app) (\<lambda>a.
     if length (cl_conn_list a) \<le> index then print_line Out_of_range_line
     else if \<not> find_open_connection (cl_conns a) (cl_conn_list a ! index) then print_line Invalid_connection_line
     else on_app (modify (\<lambda>a. a\<lparr>cl_conn_id := cl_conn_list a ! index\<rparr>)))"

text \<open>The conversion to the connections' ports and indices keeps what was read.\<close>

definition read_port :: "istream \<Rightarrow> 16 word option \<times> istream" where
  "read_port s = (case read_number (fit_unsigned 16) s of (v, s') \<Rightarrow> (map_option word_of_int v, s'))"

definition read_index :: "istream \<Rightarrow> nat option \<times> istream" where
  "read_index s = (case read_number (fit_unsigned 64) s of (v, s') \<Rightarrow> (map_option nat v, s'))"

definition id_command :: "(int \<Rightarrow> ('c cl_world, unit) exec) \<Rightarrow> ('c, unit) console" where
  "id_command f = bindE (input read_int) (\<lambda>v. bindE (used v) (\<lambda>k. act (f k)))"

definition ids_command :: "(int \<Rightarrow> int \<Rightarrow> ('c cl_world, unit) exec) \<Rightarrow> ('c, unit) console" where
  "ids_command f = bindE (input read_int) (\<lambda>v. bindE (input read_int) (\<lambda>u.
     bindE (used v) (\<lambda>a. bindE (used u) (\<lambda>b. act (f a b)))))"

definition path_command :: "(int \<Rightarrow> string \<Rightarrow> ('c cl_world, unit) exec) \<Rightarrow> ('c, unit) console" where
  "path_command f = bindE (input read_int) (\<lambda>v. bindE text_arg (\<lambda>path. bindE (used v) (\<lambda>k. act (f k path))))"

definition transfer_command :: "(int \<Rightarrow> string \<Rightarrow> string \<Rightarrow> ('c cl_world, unit) exec) \<Rightarrow> ('c, unit) console" where
  "transfer_command f = bindE (input read_int) (\<lambda>v. bindE text_arg (\<lambda>p. bindE text_arg (\<lambda>q.
     bindE (used v) (\<lambda>k. act (f k p q)))))"

definition ui_command :: "'c client_env \<Rightarrow> string \<Rightarrow> ('c, unit) console" where
  "ui_command E func_name =
     (if func_name = ''register_user'' then
        bindE text_arg (\<lambda>username. bindE text_arg (\<lambda>password. act (cl_register_user E username password)))
      else if func_name = ''login_user'' then path_command (cl_login_user E)
      else if func_name = ''remove_user'' then id_command (cl_remove_user E)
      else if func_name = ''find_user'' then
        bindE text_arg (\<lambda>inp. act (find_by_either (cl_find_user E) (cl_find_user_by_name E) inp))
      else if func_name = ''register_group'' then bindE text_arg (\<lambda>group_name. act (cl_register_group E group_name))
      else if func_name = ''remove_group'' then id_command (cl_remove_group E)
      else if func_name = ''find_group'' then
        bindE text_arg (\<lambda>inp. act (find_by_either (cl_find_group E) (cl_find_group_by_name E) inp))
      else if func_name = ''join_group'' then id_command (cl_join_group E)
      else if func_name = ''assign_as_manager'' then ids_command (cl_assign_as_manager E)
      else if func_name = ''assign_as_member'' then ids_command (cl_assign_as_member E)
      else if func_name = ''kick_out_user'' then ids_command (cl_kick_out_user E)
      else if func_name = ''list_file'' then path_command (cl_list_file E)
      else if func_name = ''put_file'' then transfer_command (cl_put_file E)
      else if func_name = ''get_file'' then transfer_command (cl_get_file E)
      else if func_name = ''create_path'' then path_command (cl_create_path E)
      else if func_name = ''remove_path'' then
        bindE (input read_int) (\<lambda>v. bindE text_arg (\<lambda>path. bindE (input read_bool) (\<lambda>force.
        bindE (used v) (\<lambda>k. bindE (used force) (\<lambda>force_remove_all. act (cl_remove_path E k path force_remove_all))))))
      else if func_name = ''register_connection'' then
        bindE text_arg (\<lambda>host. bindE (input read_port) (\<lambda>v. bindE (used v) (\<lambda>port.
        bindE (act (cl_register_connection E host port)) (\<lambda>_.
        act (bindE (gets (\<lambda>w. length (cl_conn_list (w_app w)) - 1)) (\<lambda>n. print_line (Index_line n)))))))
      else if func_name = ''switch_connection'' then
        bindE (input read_index) (\<lambda>v. bindE (used v) (\<lambda>index. act (switch_connection index)))
      else act (print_line Unknown_command_line))"

text \<open>The loop, which \<open>quit\<close> or an exception ends: \<open>None\<close> when neither comes.\<close>

partial_function (option) cmd_ui_interface ::
  "'c client_env \<Rightarrow> istream \<Rightarrow> 'c cl_world \<Rightarrow> (unit res \<times> 'c cl_world) option" where
  "cmd_ui_interface E s w = (case read_word (s\<lparr>is_fail := False\<rparr>) of (name, s1) \<Rightarrow>
     let func_name = (case name of None \<Rightarrow> [] | Some n \<Rightarrow> n) in
     if func_name = ''quit'' then Some (Inr (), w)
     else case ui_command E func_name (s1, w) of
         (Inr _, (s2, w2)) \<Rightarrow> cmd_ui_interface E s2 w2
       | (Inl e, (s2, w2)) \<Rightarrow> Some (Inl e, w2))"

definition client_main :: "'c client_env \<Rightarrow> string \<Rightarrow> (string \<rightharpoonup> bytes) \<Rightarrow> precise_time \<Rightarrow> (unit res \<times> 'c cl_world) option" where
  "client_main E typed disk now = (case client_begin E ((empty_world (new_client disk))\<lparr>w_now := now\<rparr>) of
     (Inl e, w) \<Rightarrow> Some (Inl e, w)
   | (Inr _, w) \<Rightarrow> cmd_ui_interface E \<lparr>is_rest = typed, is_fail = False\<rparr> w)"

section \<open>What is read\<close>

lemma suffix_dropWhile': "suffix (dropWhile f xs) xs"
  by (metis suffixI takeWhile_dropWhile_id)

lemma read_word_suffix: "read_word s = (v, s') \<Longrightarrow> suffix (is_rest s') (is_rest s)"
  by (auto simp: read_word_def Let_def suffix_dropWhile' split: if_splits
      intro: suffix_order.trans [OF suffix_dropWhile' suffix_dropWhile'])

lemma read_number_suffix:
  assumes "read_number fit s = (v, s')"
  shows "suffix (is_rest s') (is_rest s)"
proof -
  have scan: "suffix rest cs" if "scan_number cs = (b, ds, rest)" for b ds rest cs
    using that suffix_dropWhile' [of is_digit] by (auto simp: scan_number_def Let_def suffix_ConsI split: list.splits if_splits)
  show ?thesis
    using assms suffix_dropWhile' [of is_space "is_rest s"]
    by (auto simp: read_number_def Let_def split: if_splits prod.splits dest!: scan intro: suffix_order.trans)
qed

definition consumes :: "('c, 'a) console \<Rightarrow> bool" where
  "consumes m \<longleftrightarrow> (\<forall>s w. suffix (is_rest (fst (snd (m (s, w))))) (is_rest s))"

named_theorems consumes_intros

lemma consumes_input [consumes_intros]:
  "consumes (input read_word)" "consumes (input read_int)" "consumes (input read_bool)" "consumes (input read_port)" "consumes (input read_index)"
  by (auto simp: consumes_def input_def read_int_def read_bool_def read_port_def read_index_def split: prod.split
      dest: read_word_suffix read_number_suffix)

lemma consumes_bindE [consumes_intros]:
  assumes "consumes m" and "\<And>a. consumes (f a)"
  shows "consumes (bindE m f)"
proof -
  have "suffix (is_rest (fst (snd (bindE m f (s, w))))) (is_rest s)" for s w
  proof -
    obtain r t v where m: "m (s, w) = (r, (t, v))" by (cases "m (s, w)") auto
    then have first: "suffix (is_rest t) (is_rest s)" using assms(1) unfolding consumes_def by (metis fst_conv snd_conv)
    show ?thesis
    proof (cases r)
      case (Inr a)
      have "suffix (is_rest (fst (snd (f a (t, v))))) (is_rest t)" using assms(2) by (simp add: consumes_def)
      with first show ?thesis by (simp add: bindE_def m Inr suffix_order.trans)
    qed (simp add: bindE_def m first)
  qed
  then show ?thesis by (simp add: consumes_def)
qed

lemma consumes_act [consumes_intros]: "consumes (act m)" "consumes (used v)" "consumes (ret a)"
  by (auto simp: consumes_def act_def zoom_def used_def split: prod.split option.split)

lemma consumes_if [consumes_intros]: "consumes m \<Longrightarrow> consumes n \<Longrightarrow> consumes (if b then m else n)"
  by simp

lemma ui_command_consumes: "consumes (ui_command E func_name)"
  unfolding ui_command_def path_command_def id_command_def ids_command_def transfer_command_def text_arg_def
  by (intro consumes_intros)

section \<open>The loop\<close>

lemma blank_word:
  assumes "\<forall>c \<in> set (is_rest s). is_space c"
  shows "read_word (s\<lparr>is_fail := False\<rparr>) = (None, \<lparr>is_rest = [], is_fail = True\<rparr>)"
  using assms by (simp add: read_word_def)

lemma unknown_command: "ui_command E [] (s, w) = (Inr (), (s, snd (print_line Unknown_command_line w)))"
  by (simp add: ui_command_def act_def zoom_def)

lemma word_in_rest:
  assumes "read_word s = (Some n, s')"
  shows "sublist n (is_rest s)"
proof -
  let ?cs = "dropWhile is_space (is_rest s)"
  have "n = takeWhile (\<lambda>c. \<not> is_space c) ?cs" using assms by (auto simp: read_word_def Let_def split: if_splits)
  then have "prefix n ?cs" by (simp add: takeWhile_is_prefix)
  then show ?thesis using suffix_dropWhile' [of is_space "is_rest s"] by (meson prefix_imp_sublist sublist_order.order_trans suffix_imp_sublist)
qed

lemma console_returns:
  assumes "cmd_ui_interface E s w = Some y"
  shows "(fst y = Inr () \<longrightarrow> sublist ''quit'' (is_rest s)) \<and> \<not> (\<forall>c \<in> set (is_rest s). is_space c)"
proof (rule cmd_ui_interface.raw_induct [where P = "\<lambda>E s w y. (fst y = Inr () \<longrightarrow> sublist ''quit'' (is_rest s)) \<and>
    \<not> (\<forall>c \<in> set (is_rest s). is_space c)", OF _ assms])
  fix f and E :: "'a client_env" and s and w :: "'a cl_world" and y
  assume IH: "\<And>E s w y. f E s w = Some y \<Longrightarrow> (fst y = Inr () \<longrightarrow> sublist ''quit'' (is_rest s)) \<and>
      \<not> (\<forall>c \<in> set (is_rest s). is_space c)"
    and run: "(case read_word (s\<lparr>is_fail := False\<rparr>) of (name, s1) \<Rightarrow>
      let func_name = (case name of None \<Rightarrow> [] | Some n \<Rightarrow> n) in
      if func_name = ''quit'' then Some (Inr (), w)
      else case ui_command E func_name (s1, w) of
          (Inr _, (s2, w2)) \<Rightarrow> f E s2 w2
        | (Inl e, (s2, w2)) \<Rightarrow> Some (Inl e, w2)) = Some y"
  obtain name s1 where word: "read_word (s\<lparr>is_fail := False\<rparr>) = (name, s1)" by fastforce
  have rest: "suffix (is_rest s1) (is_rest s)" using read_word_suffix [OF word] by simp
  have not_blank: "\<not> (\<forall>c \<in> set (is_rest s). is_space c)"
  proof
    assume "\<forall>c \<in> set (is_rest s). is_space c"
    then have "name = None" "is_rest s1 = []" using blank_word [of s] word by auto
    then have "\<exists>w2. f E s1 w2 = Some y" using run by (auto simp: word unknown_command)
    then show False using IH [of E s1] \<open>is_rest s1 = []\<close> by fastforce
  qed
  have "sublist ''quit'' (is_rest s)" if quit: "fst y = Inr ()"
  proof (cases "name = Some ''quit''")
    case True
    then show ?thesis using word_in_rest [of "s\<lparr>is_fail := False\<rparr>"] word by simp
  next
    case False
    define n where "n = (case name of None \<Rightarrow> [] | Some n \<Rightarrow> n)"
    have n: "n \<noteq> ''quit''" using False by (cases name) (auto simp: n_def)
    obtain r s2 w2 where cmd: "ui_command E n (s1, w) = (r, (s2, w2))" by (metis prod.collapse)
    have "f E s2 w2 = Some y" using run quit n by (auto simp: word cmd n_def [symmetric] split: sum.splits)
    then have "sublist ''quit'' (is_rest s2)" using IH quit by blast
    moreover have "suffix (is_rest s2) (is_rest s1)"
      using ui_command_consumes [of E n] cmd unfolding consumes_def by (metis fst_conv snd_conv)
    ultimately show ?thesis using rest by (meson sublist_order.order_trans suffix_imp_sublist)
  qed
  with not_blank show "(fst y = Inr () \<longrightarrow> sublist ''quit'' (is_rest s)) \<and> \<not> (\<forall>c \<in> set (is_rest s). is_space c)" by blast
qed

text \<open>
  C19. When the console ends. It comes back to \<open>main\<close> only if the word \<open>quit\<close> was typed, and then
  nothing that stands behind it is looked at. At the end of the input it does not come back at
  all: the extraction fails, the command is empty, so unknown, and \<open>std::cin.clear()\<close> lets the
  loop go round again, for ever.
\<close>

theorem console_ends:
  "(cmd_ui_interface E s w = Some (Inr (), w') \<longrightarrow> sublist ''quit'' (is_rest s)) \<and>
   ((\<exists>c rest. is_rest s = ''quit'' @ c # rest \<and> is_space c) \<longrightarrow> cmd_ui_interface E s w = Some (Inr (), w)) \<and>
   ((\<forall>c \<in> set (is_rest s). is_space c) \<longrightarrow> cmd_ui_interface E s w = None)"
proof (intro conjI impI)
  show "sublist ''quit'' (is_rest s)" if "cmd_ui_interface E s w = Some (Inr (), w')" using console_returns [OF that] by simp
  show "cmd_ui_interface E s w = None" if "\<forall>c \<in> set (is_rest s). is_space c" using console_returns [of E s w] that by (metis not_None_eq)
  assume "\<exists>c rest. is_rest s = ''quit'' @ c # rest \<and> is_space c"
  then obtain c rest where "is_rest s = ''quit'' @ c # rest" "is_space c" by blast
  then have "fst (read_word (s\<lparr>is_fail := False\<rparr>)) = Some ''quit''" by (simp add: read_word_def Let_def is_space_def)
  then obtain t where "read_word (s\<lparr>is_fail := False\<rparr>) = (Some ''quit'', t)" by (metis prod.collapse)
  then show "cmd_ui_interface E s w = Some (Inr (), w)" by (subst cmd_ui_interface.simps) simp
qed

theorem console_ends_witness:
  "cmd_ui_interface plain_client \<lparr>is_rest = ''quit'' @ CHR 0x0A # ''x'', is_fail = False\<rparr> (client_world Map.empty) = Some (Inr (), client_world Map.empty) \<and>
   cmd_ui_interface plain_client \<lparr>is_rest = [CHR 0x0A], is_fail = False\<rparr> (client_world Map.empty) = None"
  using console_ends [of plain_client "\<lparr>is_rest = ''quit'' @ CHR 0x0A # ''x'', is_fail = False\<rparr>" "client_world Map.empty"]
    console_ends [of plain_client "\<lparr>is_rest = [CHR 0x0A], is_fail = False\<rparr>" "client_world Map.empty"]
  by (simp add: is_space_def)

end
