(* ===== verification/Spec2Isabelle.thy ===== *)
theory Spec2Isabelle
  imports Users Paths Files Sessions Nodes Sharing_Groups Services Actors Protocol Package
    Precise_Time Timers Transactions Worker Core_Invariant Handlers File_Transactions Resource_Server
    Access_Control Transfers Storage_Node Storage_Files Storage_Program Serialization
    Block_Cipher Wire Connection Receive Delivery Reactor Handshake
    Client_Console
begin

text \<open>
  Verification of spaceless, a file sharing service: a resource server, which keeps the users,
  groups and directories, storage nodes, which keep the bytes of the files, and clients that
  talk to the resource server over a network of packages. The source is C++; this library
  models the two servers, the client and the foundation they stand on, as functions on explicit
  states.

  \<^bold>\<open>How the program is put together.\<close> Each server has two threads. The network thread owns the
  sockets; the worker thread runs all of the program's own code, one package, timer or
  delegated function at a time. They talk through two queues of messages and share the
  registry of packages. A request package leads through the table of transactions to a
  handler; a one phase transaction answers at once, a multiply phase transaction asks a storage
  node and waits for the answer or a timeout. The managers of the resource server - users,
  groups, files, storage nodes, file sessions - are singletons that only the worker touches.

  \<^bold>\<open>How code becomes definitions.\<close> A class is a record, an operation a function of the state in
  the call type \<open>exec\<close> of theory \<open>Prelude\<close>, which returns a value or a fault and the new state;
  an exception keeps what was written before it. \<open>std::map\<close> is the sorted list of its entries
  (theory \<open>Omap\<close>). \<open>int\<close> is \<open>int\<close> where the code only compares and counts, and a word or an
  explicit range where the width decides (lengths of packages, fragments and ports). A function
  pointer or a lambda is a constructor of a datatype, one per function in the code, run by an
  interpreter function. Undefined behaviour and failed assertions are faults of their own, and
  loops that need not end are partial functions with \<open>None\<close> for a loop that does not.

  \<^bold>\<open>The theories.\<close>
  \<^item> \<open>Errors\<close>, \<open>Prelude\<close>, \<open>Omap\<close>, \<open>Registry\<close>: error codes (\<open>foundation/basics.h\<close>,
    \<open>*/core.h\<close>, \<open>resource_server/transaction.cpp\<close>); calls, invariants and frames; ordered maps
    with the locale \<open>std_map\<close>; the locale \<open>registry\<close>, the contract of every manager that hands
    out ids, which each manager's theory interprets on its own operations.
  \<^item> \<open>Users\<close>, \<open>Paths\<close>, \<open>Files\<close>, \<open>Nodes\<close>, \<open>Sessions\<close>, \<open>Sharing_Groups\<close>: the managers of
    \<open>resource_server/core.{h,cpp}\<close>, one theory each: the operations on every branch, the
    invariant of the state and what each operation promises. \<open>Nodes\<close> includes the delegations
    between the threads as a step relation. \<open>Core_Invariant\<close> puts the invariants together, with
    the use counts of the nodes.
  \<^item> \<open>Serialization\<close>: the \<open>serialize\<close> and \<open>deserialize\<close> functions of these managers and
    \<open>SerializationManager\<close>; what a restart restores and what it forgets.
  \<^item> \<open>Package\<close>, \<open>Protocol\<close>, \<open>Actors\<close>, \<open>Services\<close>, \<open>Precise_Time\<close>, \<open>Timers\<close>: the parts of
    \<open>foundation/\<close>, \<open>protocol/\<close> and \<open>lights/\<close> the servers stand on: packages and their buffers
    (\<open>package.cpp\<close>), messages and commands (\<open>protocol.proto\<close>, \<open>command.cpp\<close>), the queues
    (\<open>actor_message.cpp\<close>, \<open>delegation.cpp\<close>), network services (\<open>network.cpp\<close>), time and timers
    (\<open>precise_time.h\<close>, \<open>worker.cpp\<close>). The locales \<open>fifo\<close> and \<open>expiry_queue\<close> are the contracts of
    the queues and of the timers' heap.
  \<^item> \<open>Transactions\<close>, \<open>Worker\<close>: sending, the transactions and their managers
    (\<open>foundation/transaction.cpp\<close>), and the worker's loop body with the dispatch of packages,
    timers and faults (\<open>worker.cpp\<close>, \<open>exception.cpp\<close>), parametric in the program that runs on
    it. The locale \<open>calm_program\<close> says what the worker needs of a program to keep its own
    invariant (every transaction between two turns waits and has its timer), \<open>app_invariant\<close>
    what an invariant of the program's state needs to hold for ever; it is a case of
    \<open>timed_invariant\<close>, which can speak of the timers, too.
  \<^item> \<open>Handlers\<close>, \<open>File_Transactions\<close>, \<open>Resource_Server\<close>: the requests of
    \<open>resource_server/transaction.cpp\<close> and the table of \<open>main.cpp\<close>, as a program of the worker.
    \<open>Access_Control\<close> and \<open>Transfers\<close>: who may change what, and what a client sees of the
    transfers.
  \<^item> \<open>Storage_Node\<close>, \<open>Storage_Files\<close>, \<open>Storage_Program\<close>: the storage node
    (\<open>storage_node/core.cpp\<close>, \<open>transaction.cpp\<close>, \<open>main.cpp\<close>): its streams and sessions, the
    refinement of a stored file to an array of fragments, and its handlers as a program of the
    worker.
  \<^item> \<open>Block_Cipher\<close>: the loops, the padding and the files of \<open>crypto/aes.cpp\<close> and
    \<open>crypto/des.cpp\<close>, over any block cipher.
  \<^item> \<open>Wire\<close>, \<open>Connection\<close>, \<open>Receive\<close>, \<open>Delivery\<close>, \<open>Reactor\<close>, \<open>Handshake\<close>: the network thread's connections,
    \<open>foundation/details/network_impl.{h,cpp}\<close>. \<open>Wire\<close> has the bytes of headers and packages,
    \<open>Connection\<close> the state and every operation of a connection and of its encrypted variant.
    \<open>Receive\<close> shows that the loop that reads a socket ends and that the pieces in which bytes
    arrive do not matter, with the judgements \<open>commutes\<close> (a call does not look at bytes that
    arrive later) and \<open>halts\<close>; \<open>Delivery\<close> that what one end sends is what the worker at the
    other end gets. \<open>Reactor\<close> has the messages of the worker and the table of connections, which
    refines the one of \<open>Services\<close>, the stream of bytes that a connection sends, and \<open>stop_all\<close>;
    \<open>Handshake\<close> shows that the two ends of a new secure connection get the same key.
  \<^item> \<open>Istream\<close>, \<open>Client\<close>, \<open>Client_Transfers\<close>, \<open>Client_Program\<close>, \<open>Client_Console\<close>: the client,
    \<open>client/core.{h,cpp}\<close> and \<open>main.cpp\<close>. \<open>Istream\<close> is the extraction of words and numbers from
    \<open>std::istream\<close>, with the round trip of the numbers the client notes; \<open>Client\<close> the requests, the
    handler of every response, the transfers and the heartbeat, as a program of the same worker
    that the servers run. \<open>Client_Transfers\<close> follows uploads into the files of a storage node and
    downloads into the local file across interruptions; \<open>Client_Program\<close> says what a response can
    do to the local files and to a heartbeat that was lost (by \<open>app_invariant\<close> and \<open>timed_invariant\<close>)
    and what the heartbeat measures;
    \<open>Client_Console\<close> is the console loop and when it ends.
  \<^item> this theory: the properties of the resource server as a whole, from its start.

  \<^bold>\<open>Parameters.\<close> What is not under \<open>src/\<close> is an argument of the definitions: protobuf's
  encoding (\<open>codec\<close>, with \<open>codec_ok\<close>: what was serialised parses back), Poco's JSON (\<open>json\<close>,
  \<open>json_ok\<close>) and tokenizer (\<open>poco\<close>, \<open>poco_ok\<close>), the memory allocator (\<open>srv_alloc\<close>), the operating
  system's answer to opening a socket or a file (\<open>client_env\<close> for the client), what is typed at
  the console, and the clock; for the connections Crypto++'s
  ciphers, RSA and random generator (\<open>net_env\<close>, with \<open>cipher_ok\<close>: decrypting a block undoes
  its encryption). A socket is a queue of bytes in each direction with what Poco documents of
  \<open>receiveBytes\<close> and \<open>sendBytes\<close> on a socket that does not block. Each has a concrete instance on
  which the witnesses compute. \<open>codec_ok\<close> and \<open>sizes_ok\<close> assume that messages are shorter than
  2 GB, as protobuf does.

  \<^bold>\<open>Bounds.\<close> The development uses no fuel. \<open>grow\<close> of theory \<open>Package\<close>, \<open>list_file\<close> of theory
  \<open>Storage_Node\<close> and \<open>receive_for_state\<close> and \<open>stop_all\<close> of theory \<open>Connection\<close> are the loops that
  need not end; \<open>receive_returns\<close> shows that \<open>receive_for_state\<close> does, \<open>stop_all_spec\<close> when
  \<open>stop_all\<close> does. Nor need the loop of the client's console, \<open>cmd_ui_interface\<close>: \<open>console_ends\<close> says
  when it does. Every other loop is a structural recursion or has a measure.
  A turn of the worker handles the number of messages that the code bounds it by.

  \<^bold>\<open>Not modelled.\<close> Log output, monitoring and the reading of configuration files, which no other
  part depends on; thread start and stop, and the mutexes: every operation that takes one is
  atomic here; Poco's reactor, which calls the handlers of the sockets (\<open>on_readable\<close>, \<open>on_writable\<close>,
  \<open>process_out_message\<close>), and its exceptions on a socket that is broken; the prompts of the client's console, which runs alone here, not beside the
  worker's thread; the wrappers of RSA, Base64 and the random generator, which
  only call Crypto++; generated protobuf code; the vendored library
  \<open>lights\<close> but for the precise time and the file streams; division of times,
  which goes through \<open>double\<close>, except by 2, where it is exact (\<open>pt_half\<close>).
\<close>

section \<open>The resource server as a whole\<close>

text \<open>
  C1. No transaction is left behind. However the worker's turns, the clock, the network thread
  and delegations interleave from the server's start, every transaction that is registered
  between two turns waits for an answer, and a timer is set that will end it.
\<close>

theorem rs_no_transaction_left:
  assumes codec: "sizes_ok (srv_codec S)" "\<And>n. srv_alloc S n" and now: "pt_norm now"
    and reach: "(worker_step (rs_program S))\<^sup>*\<^sup>* (rs_start a now) w" and t: "find_multi (w_multi w) k = Some t"
  shows "t_is_waiting t \<and> has_wait_timer (w_timers w) k"
  by (rule server_env.started_no_transaction_left [OF server_env.intro now reach t]) (rule codec)+

theorem rs_no_transaction_left_witness:
  "\<exists>w t. (worker_step (rs_program message_server))\<^sup>*\<^sup>* (rs_start (w_app upload_world) (pt_seconds 5)) w \<and>
     find_multi (w_multi w) 1 = Some t \<and> t_is_waiting t \<and> has_wait_timer (w_timers w) 1"
proof -
  obtain w t where turn: "worker_step (rs_program message_server) fragment_received w"
    and t: "find_multi (w_multi w) 1 = Some t"
    by (rule fragment_turn) blast
  have reach: "(worker_step (rs_program message_server))\<^sup>*\<^sup>* (rs_start (w_app upload_world) (pt_seconds 5)) w"
    using fragment_received_step turn by (rule converse_rtranclp_into_rtranclp [OF _ r_into_rtranclp])
  have "t_is_waiting t \<and> has_wait_timer (w_timers w) 1"
    by (rule rs_no_transaction_left [OF _ _ pt_norm_seconds reach t])
      (simp_all add: message_server_def sizes_ok_message)
  with reach t show ?thesis by blast
qed

text \<open>
  C2. The managers stay consistent. Whatever the worker runs, in whatever order, and however its
  calls end, the registries of users, groups, files, nodes and sessions keep their invariants
  from the server's start on: in particular a node's use count stays the number of groups on it,
  group names stay unique, and the files stay a forest whose links lead to younger files.
\<close>

theorem rs_managers_invariant:
  assumes a: "core_ok a" and reach: "(worker_step (rs_program S))\<^sup>*\<^sup>* (rs_start a now) w"
  shows "core_ok (w_app w)"
  by (rule rs_app.reachable_app [OF reach]) (simp add: rs_start_def empty_world_def a)

theorem rs_managers_invariant_witness:
  "core_ok (w_app (rs_start example_core (pt_seconds 0)
     \<lparr>w_queues := queue_push IN_QUEUE (DELEGATE_TYPE ''register_node'' (Node_registered ''ip'' 9000 2)) empty_queues\<rparr>
     :: message rs_world))"
proof -
  let ?s = "rs_start example_core (pt_seconds 0) :: message rs_world"
  have "core_ok example_core" using access_world_ok by (simp add: server_ok_def access_world_def rs_start_def empty_world_def)
  moreover have "worker_step (rs_program message_server) ?s (?s\<lparr>w_queues := queue_push IN_QUEUE
      (DELEGATE_TYPE ''register_node'' (Node_registered ''ip'' 9000 2)) (w_queues ?s)\<rparr>)"
    by (rule worker_step.delegated)
  moreover have "w_queues ?s = empty_queues" by (simp add: rs_start_def empty_world_def)
  ultimately show ?thesis using rs_managers_invariant by (metis r_into_rtranclp)
qed

text \<open>
  What the server serves. Every request class of the table is registered under its own
  command and its errors can be answered; \<open>ReqRemoveGroup\<close>, which has a handler and a
  response, is not served.
\<close>

theorem registered_transactions:
  "fst (register_transactions []) = Inr () \<and>
   (\<forall>c. find_transaction (snd (register_transactions [])) c = None \<longleftrightarrow> c \<notin> fst ` set rs_table) \<and>
   get_command ''ReqRemoveGroup'' = Inr 1013 \<and> find_transaction (snd (register_transactions [])) 1013 = None \<and>
   list_all (\<lambda>(c, n, t, f). get_command (''Req'' @ n) = Inr c \<and> answerable c \<and>
     find_transaction (snd (register_transactions [])) c = Some (rs_entry t f)) rs_table"
proof -
  let ?m = "map (\<lambda>(c, n, t, f). (c, rs_entry t f)) rs_table"
  have table: "find_transaction (snd (register_transactions [])) c = map_of ?m c" for c
    by (simp add: register_transactions_run find_transaction_def)
  have keys: "map_of ?m c = None \<longleftrightarrow> c \<notin> fst ` set rs_table" for c
    by (force simp: map_of_eq_None_iff)
  have "distinct (map fst rs_table)" by (simp add: rs_table_def)
  then have "map_of ?m c = Some (rs_entry t f)" if "(c, n, t, f) \<in> set rs_table" for c n t f
    using that by (subst map_of_eq_Some_iff) (force simp: comp_def case_prod_unfold)+
  moreover have "get_command (''Req'' @ n) = Inr c \<and> answerable c" if "(c, n, t, f) \<in> set rs_table" for c n t f
    using that rs_table_names rs_commands_answerable [of c] by (force simp: get_command_def find_command_iff [THEN iffD2])
  ultimately have "list_all (\<lambda>(c, n, t, f). get_command (''Req'' @ n) = Inr c \<and> answerable c \<and>
     find_transaction (snd (register_transactions [])) c = Some (rs_entry t f)) rs_table"
    unfolding list_all_iff table by blast
  moreover have "get_command ''ReqRemoveGroup'' = Inr 1013"
    by (simp add: get_command_def find_command_iff [THEN iffD2] default_command_name_map_def)
  moreover have "1013 \<notin> fst ` set rs_table" by (simp add: rs_table_def)
  moreover have "fst (register_transactions []) = Inr ()" by (simp add: register_transactions_run)
  ultimately show ?thesis unfolding table keys by blast
qed

lemma setup_root_again:
  assumes "find_user_by_name (c_users c) name \<noteq> None" and "find_group_by_name (c_groups c) root_group \<noteq> None"
  shows "setup_root name password root_group c = (Inr (), c)"
  using assms by (auto simp: setup_root_def bindE_def gets_def ret_def)

lemma setup_root_user:
  assumes c: "core_ok c" and run: "setup_root name password root_group c = (r, c')"
  obtains u c1 where "find_user_by_name (c_users c1) name = Some u" and "core_ok c1"
    and "c_groups c1 = c_groups c" and "c_nodes c1 = c_nodes c"
    and "(if find_group_by_name (c_groups c) root_group = None
        then bindE (register_group (u_user_id u) root_group) (\<lambda>_. ret ()) else ret ()) c1 = (r, c')"
proof (cases "find_user_by_name (c_users c) name")
  case (Some u)
  with run that [of c u] c show ?thesis by (simp add: setup_root_def bindE_def gets_def ret_def)
next
  case None
  let ?um = "c_users c" and ?u = "new_user (um_next_id (c_users c)) name password"
  have um: "um_inv ?um" using c by (rule core_ok_parts)
  obtain um' where reg: "register_user name password True ?um = (Inr ?u, um')"
    and list: "m_user_list um' = m_user_list ?um @ [(um_next_id ?um, ?u)]"
    by (rule register_user_cases [OF um, of name password True]) (use None in auto)
  have found: "find_user_by_name um' name = Some ?u"
    unfolding find_user_by_name_def list
    by (rule om_find_if_eqI [where k = "um_next_id ?um"])
      (use None in \<open>auto simp: find_user_by_name_def om_find_if_None new_user_def\<close>)
  have "keeps core_ok (on_users (register_user name password True))"
    by (intro keeps_intros)
  then have "core_ok (c\<lparr>c_users := um'\<rparr>)" using c reg by (auto simp: keeps_def zoom_def)
  with run None reg found that [of "c\<lparr>c_users := um'\<rparr>" ?u] show ?thesis
    by (simp add: setup_root_def bindE_def gets_def ret_def zoom_def)
qed

text \<open>
  The first start. The set-up of the root user and group ends normally only if the group
  exists already or a storage node is registered. But nodes are registered through delegations
  that no thread runs before the worker starts, so a server without stored data runs into
  undefined behaviour, after it has entered the user and a directory. When the set-up ends
  normally, both names are found and running it again changes nothing.
\<close>

theorem setup_root_outcomes:
  assumes c: "core_ok c" and run: "setup_root name password root_group c = (r, c')"
  shows "core_ok c' \<and> find_user_by_name (c_users c') name \<noteq> None \<and>
    (if find_group_by_name (c_groups c) root_group = None \<and> m_node_list (c_nodes c) = [] then r = Inl Undefined
     else r = Inr () \<and> find_group_by_name (c_groups c') root_group \<noteq> None \<and>
       setup_root name password root_group c' = (Inr (), c'))"
proof -
  from c run obtain u c1 where user: "find_user_by_name (c_users c1) name = Some u" and c1: "core_ok c1"
    and same: "c_groups c1 = c_groups c" "c_nodes c1 = c_nodes c"
    and run1: "(if find_group_by_name (c_groups c) root_group = None
        then bindE (register_group (u_user_id u) root_group) (\<lambda>_. ret ()) else ret ()) c1 = (r, c')"
    by (rule setup_root_user)
  show ?thesis
  proof (cases "find_group_by_name (c_groups c) root_group")
    case (Some g)
    then show ?thesis using run1 user c1 same by (simp add: ret_def setup_root_again)
  next
    case None
    obtain r1 c2 where reg: "register_group (u_user_id u) root_group c1 = (r1, c2)" by fastforce
    with run1 None have r: "c' = c2" "r = map_sum id (\<lambda>_. ()) r1"
      by (auto simp: bindE_def ret_def split: sum.splits)
    have "keeps core_ok (register_group (u_user_id u) root_group)" by (intro keeps_intros)
    then have ok: "core_ok c2" using c1 reg by (auto simp: keeps_def)
    have inv: "core_inv c1" using c1 by (simp add: core_ok_def)
    from inv reg show ?thesis
    proof (cases rule: register_group_cases)
      case taken
      then show ?thesis using None same by simp
    next
      case no_node
      then show ?thesis using None same ok r user by simp
    next
      case (new n)
      let ?g = "new_group (gm_next_id (c_groups c1)) root_group (u_user_id u) (fm_next_id (c_files c1)) (n_node_id n)"
      have "find_group_by_name (c_groups c2) (m_group_name ?g) = Some ?g"
        unfolding new(5) using ok new group_entered_inv [OF inv new(3,1)]
        by (intro find_group_name_eq) (auto simp: core_ok_def core_inv_def)
      then have grp: "find_group_by_name (c_groups c2) root_group \<noteq> None" by (simp add: new_group_def)
      have usr: "find_user_by_name (c_users c2) name \<noteq> None" using new(5) user by (simp add: group_entered_def Let_def)
      have "m_node_list (c_nodes c1) \<noteq> []" using new(3) by (auto simp: find_node_def)
      with grp usr ok r new(4) same setup_root_again [OF usr grp] show ?thesis by simp
    qed
  qed
qed

theorem setup_root_outcomes_witness:
  "fst (setup_root ''root'' ''secret'' ''g'' example_core) = Inr ()"
proof -
  have "core_ok example_core" using access_world_ok by (simp add: server_ok_def access_world_def rs_start_def empty_world_def)
  moreover have "find_group_by_name (c_groups example_core) ''g'' \<noteq> None"
    by (simp add: example_core_def find_group_by_name_def om_find_if_def example_group_def new_group_def)
  ultimately show ?thesis
    using setup_root_outcomes [OF _ surjective_pairing, of example_core "''root''" "''secret''" "''g''"] by simp
qed

end
